(* ===== verification/Prelude.thy ===== *)
theory Prelude
  imports Complex_Main "HOL-Library.Char_ord" "HOL-Library.List_Lexorder"
begin

text \<open>
  Shared vocabulary of the development: the collections of rewrite rules the component
  theories extend, generic facts on lists that stand for database tables, the parts of
  the JavaScript standard library the code uses on strings and dates, and JSON values.

  Strings are lists of \<open>char\<close>: a JavaScript string of code units below 256. Instants are
  \<open>int\<close>, milliseconds since 1970-01-01T00:00:00Z, as \<^verbatim>\<open>Date#getTime\<close> returns them.
\<close>

named_theorems wp_simps \<open>rewrite rules that run an action\<close>
named_theorems table_simps \<open>rewrite rules for reads and writes of tables\<close>
named_theorems keeps_intros \<open>introduction rules for preserved invariants\<close>

type_synonym uuid = string
type_synonym user_id = string
type_synonym time = int

subsection \<open>Lists as tables\<close>

text \<open>
  A table is the list of its rows in physical order. \<open>find\<close> is the primary-key read, the
  two functions below are UPDATE and DELETE with a WHERE clause.
\<close>

definition update_where :: "('a \<Rightarrow> bool) \<Rightarrow> ('a \<Rightarrow> 'a) \<Rightarrow> 'a list \<Rightarrow> 'a list" where
  "update_where p f rows = map (\<lambda>r. if p r then f r else r) rows"

definition delete_where :: "('a \<Rightarrow> bool) \<Rightarrow> 'a list \<Rightarrow> 'a list" where
  "delete_where p rows = filter (\<lambda>r. \<not> p r) rows"

lemma length_update_where [simp]: "length (update_where p f rows) = length rows"
  by (simp add: update_where_def)

lemma update_where_Nil [simp]: "update_where p f [] = []"
  by (simp add: update_where_def)

lemma update_where_Cons [simp]:
  "update_where p f (r # rows) = (if p r then f r else r) # update_where p f rows"
  by (simp add: update_where_def)

lemma update_where_append [simp]:
  "update_where p f (xs @ ys) = update_where p f xs @ update_where p f ys"
  by (simp add: update_where_def)

lemma in_set_update_where:
  "r \<in> set (update_where p f rows) \<longleftrightarrow> (\<exists>q \<in> set rows. r = (if p q then f q else q))"
  by (auto simp: update_where_def)

lemma in_set_delete_where [simp]: "r \<in> set (delete_where p rows) \<longleftrightarrow> r \<in> set rows \<and> \<not> p r"
  by (auto simp: delete_where_def)

lemma map_update_where_key:
  assumes "\<And>r. k (f r) = k r"
  shows "map k (update_where p f rows) = map k rows"
  using assms by (simp add: update_where_def)

lemma update_where_idle: "(\<And>r. r \<in> set rows \<Longrightarrow> \<not> p r) \<Longrightarrow> update_where p f rows = rows"
  by (induction rows) auto

lemma distinct_map_delete_where: "distinct (map k rows) \<Longrightarrow> distinct (map k (delete_where p rows))"
  by (simp add: delete_where_def distinct_map_filter)

lemma find_key_unique:
  assumes "distinct (map k rows)" and "r \<in> set rows"
  shows "find (\<lambda>q. k q = k r) rows = Some r"
  using assms
proof (induction rows)
  case (Cons x xs)
  show ?case
  proof (cases "r = x")
    case False
    with Cons.prems have "r \<in> set xs" and "k x \<noteq> k r" by auto
    with Cons show ?thesis by simp
  qed simp
qed simp

lemma find_SomeD: "find p rows = Some r \<Longrightarrow> r \<in> set rows \<and> p r"
  by (auto simp: find_Some_iff)

lemma find_key_SomeD: "find (\<lambda>q. k q = x) rows = Some r \<Longrightarrow> r \<in> set rows \<and> k r = x"
  by (auto dest: find_SomeD)

lemma distinct_key_eq:
  "distinct (map k rows) \<Longrightarrow> a \<in> set rows \<Longrightarrow> b \<in> set rows \<Longrightarrow> k a = k b \<Longrightarrow> a = b"
  by (metis find_key_unique option.inject)

text \<open>\<^verbatim>\<open>[...new Set(xs)]\<close>: first occurrences, in insertion order.\<close>

fun dedupe :: "'a list \<Rightarrow> 'a list" where
  "dedupe [] = []"
| "dedupe (x # xs) = x # dedupe (filter (\<lambda>y. y \<noteq> x) xs)"

lemma set_dedupe [simp]: "set (dedupe xs) = set xs"
  by (induction xs rule: dedupe.induct) auto

lemma distinct_dedupe [simp]: "distinct (dedupe xs)"
  by (induction xs rule: dedupe.induct) auto

subsection \<open>Strings\<close>

text \<open>The white space of \<^verbatim>\<open>String#trim\<close> and of \<^verbatim>\<open>\s\<close> below code unit 256.\<close>

definition js_space :: "char \<Rightarrow> bool" where
  "js_space c \<longleftrightarrow> (of_char c :: nat) \<in> {9, 10, 11, 12, 13, 32, 160}"

definition js_trim :: "string \<Rightarrow> string" where
  "js_trim s = rev (dropWhile js_space (rev (dropWhile js_space s)))"

lemma js_trim_Nil [simp]: "js_trim [] = []"
  by (simp add: js_trim_def)

lemma dropWhile_eq_Nil: "(dropWhile P xs = []) = (\<forall>x \<in> set xs. P x)"
  by (induction xs) auto

lemma ball_dropWhile: "(\<forall>x \<in> set (dropWhile P xs). P x) = (\<forall>x \<in> set xs. P x)"
  by (induction xs) auto

lemma js_trim_eq_Nil: "(js_trim s = []) = (\<forall>c \<in> set s. js_space c)"
  by (simp add: js_trim_def dropWhile_eq_Nil ball_dropWhile)

text \<open>\<^verbatim>\<open>String#toLowerCase\<close> and the letters of \<^verbatim>\<open>\p{L}\<close> below code unit 256.\<close>

definition lower_char :: "char \<Rightarrow> char" where
  "lower_char c = (let n = (of_char c :: nat) in
     if (65 \<le> n \<and> n \<le> 90) \<or> (192 \<le> n \<and> n \<le> 222 \<and> n \<noteq> 215) then char_of (n + 32) else c)"

definition to_lower :: "string \<Rightarrow> string" where
  "to_lower = map lower_char"

definition is_letter :: "char \<Rightarrow> bool" where
  "is_letter c \<longleftrightarrow> (let n = (of_char c :: nat) in
     (65 \<le> n \<and> n \<le> 90) \<or> (97 \<le> n \<and> n \<le> 122) \<or> n \<in> {170, 181, 186} \<or> (192 \<le> n \<and> n \<noteq> 215 \<and> n \<noteq> 247))"

text \<open>\<^verbatim>\<open>replace(/\s+/g, ' ')\<close>: every run of white space becomes one blank.\<close>

fun squeeze_spaces :: "bool \<Rightarrow> string \<Rightarrow> string" where
  "squeeze_spaces inside [] = []"
| "squeeze_spaces inside (c # cs) =
     (if js_space c then (if inside then squeeze_spaces True cs else CHR '' '' # squeeze_spaces True cs)
      else c # squeeze_spaces False cs)"

text \<open>Decimal rendering of integers, and zero padding to a width.\<close>

definition digit_char :: "nat \<Rightarrow> char" where
  "digit_char d = char_of (48 + d)"

fun nat_digits :: "nat \<Rightarrow> string" where
  "nat_digits n = (if n < 10 then [digit_char n] else nat_digits (n div 10) @ [digit_char (n mod 10)])"

declare nat_digits.simps [simp del]

definition int_digits :: "int \<Rightarrow> string" where
  "int_digits i = (if i < 0 then ''-'' @ nat_digits (nat (- i)) else nat_digits (nat i))"

definition pad_left :: "nat \<Rightarrow> string \<Rightarrow> string" where
  "pad_left w s = replicate (w - length s) (CHR ''0'') @ s"

subsection \<open>Dates\<close>

text \<open>
  The proleptic Gregorian calendar of \<^verbatim>\<open>Date#toISOString\<close>: a day number becomes year, month
  and day over eras of 146097 days that start in March.
\<close>

definition civil_of_days :: "int \<Rightarrow> int \<times> int \<times> int" where
  "civil_of_days days =
     (let z = days + 719468;
          era = z div 146097;
          doe = z mod 146097;
          yoe = (doe - doe div 1460 + doe div 36524 - doe div 146096) div 365;
          doy = doe - (365 * yoe + yoe div 4 - yoe div 100);
          mp = (5 * doy + 2) div 153;
          d = doy - (153 * mp + 2) div 5 + 1;
          m = (if mp < 10 then mp + 3 else mp - 9);
          y = yoe + era * 400 + (if m \<le> 2 then 1 else 0)
      in (y, m, d))"

definition year_digits :: "int \<Rightarrow> string" where
  "year_digits y =
     (if 0 \<le> y \<and> y \<le> 9999 then pad_left 4 (nat_digits (nat y))
      else (if y < 0 then ''-'' else ''+'') @ pad_left 6 (nat_digits (nat \<bar>y\<bar>)))"

definition iso_day :: "time \<Rightarrow> string" where
  "iso_day t =
     (case civil_of_days (t div 86400000) of (y, m, d) \<Rightarrow>
        year_digits y @ ''-'' @ pad_left 2 (nat_digits (nat m)) @ ''-'' @ pad_left 2 (nat_digits (nat d)))"

definition iso_string :: "time \<Rightarrow> string" where
  "iso_string t =
     (let ms = t mod 86400000
      in iso_day t @ ''T'' @ pad_left 2 (nat_digits (nat (ms div 3600000)))
         @ '':'' @ pad_left 2 (nat_digits (nat (ms div 60000 mod 60)))
         @ '':'' @ pad_left 2 (nat_digits (nat (ms div 1000 mod 60)))
         @ ''.'' @ pad_left 3 (nat_digits (nat (ms mod 1000))) @ ''Z'')"

subsection \<open>Fixed texts and orderings\<close>

text \<open>Characters beyond code unit 255 in fixed texts are written as their UTF-8 bytes.\<close>

definition em_dash :: string where
  "em_dash = [CHR 0xE2, CHR 0x80, CHR 0x94]"

definition ellipsis :: string where
  "ellipsis = [CHR 0xE2, CHR 0x80, CHR 0xA6]"

definition plural :: "nat \<Rightarrow> string \<Rightarrow> string \<Rightarrow> string" where
  "plural n one many = (if n = 1 then one else many)"

text \<open>The first alternative that succeeds.\<close>

fun first_some :: "'a option list \<Rightarrow> 'a option" where
  "first_some [] = None"
| "first_some (Some x # _) = Some x"
| "first_some (None # xs) = first_some xs"

text \<open>Postgres puts NULL first in a descending order and, with \<^verbatim>\<open>NULLS LAST\<close>, last in an ascending one.\<close>

definition nulls_first_desc :: "('a \<Rightarrow> time option) \<Rightarrow> 'a list \<Rightarrow> 'a list" where
  "nulls_first_desc f xs =
     filter (\<lambda>x. f x = None) xs @ sort_key (\<lambda>x. - the (f x)) (filter (\<lambda>x. f x \<noteq> None) xs)"

definition nulls_last_asc :: "('a \<Rightarrow> time option) \<Rightarrow> 'a list \<Rightarrow> 'a list" where
  "nulls_last_asc f xs =
     sort_key (\<lambda>x. the (f x)) (filter (\<lambda>x. f x \<noteq> None) xs) @ filter (\<lambda>x. f x = None) xs"

subsection \<open>JSON values\<close>

text \<open>
  The values of \<^verbatim>\<open>jsonb\<close> columns and of the canonical form of a receipt. The code stores
  strings, integers, booleans, arrays and objects; an object is the list of its properties
  in insertion order.
\<close>

datatype json =
    JNull
  | JBool bool
  | JInt int
  | JStr string
  | JArr "json list"
  | JObj "(string \<times> json) list"

definition jstrs :: "string list \<Rightarrow> json" where
  "jstrs xs = JArr (map JStr xs)"

definition jopt :: "('a \<Rightarrow> json) \<Rightarrow> 'a option \<Rightarrow> json" where
  "jopt f v = (case v of None \<Rightarrow> JNull | Some x \<Rightarrow> f x)"

end
