(* ===== verification/Effects.thy ===== *)
theory Effects
  imports Prelude
begin

text \<open>
  Actions: functions that read and change a state and either return a value or raise an
  error, the shape of every asynchronous method of the code. \<open>bindA\<close> is sequencing with
  early exit on the first error (an \<^verbatim>\<open>await\<close> that rejects), \<open>fold_each\<close> is a \<^verbatim>\<open>for\<close>
  loop with accumulated results. \<open>wp\<close> runs an action against a postcondition; \<open>keeps\<close>
  says that an action preserves an invariant and only moves along a reflexive and
  transitive relation between states, on success and on error alike. The locale
  \<open>evolution\<close> is that contract, and its lemmas lift it over the control structures.
\<close>

type_synonym ('s, 'e, 'a) act = "'s \<Rightarrow> ('e + 'a) \<times> 's"

definition ret :: "'a \<Rightarrow> ('s, 'e, 'a) act" where
  "ret a s = (Inr a, s)"

definition raise :: "'e \<Rightarrow> ('s, 'e, 'a) act" where
  "raise e s = (Inl e, s)"

definition bindA :: "('s, 'e, 'a) act \<Rightarrow> ('a \<Rightarrow> ('s, 'e, 'b) act) \<Rightarrow> ('s, 'e, 'b) act" where
  "bindA m f s = (case m s of (Inl e, s') \<Rightarrow> (Inl e, s') | (Inr a, s') \<Rightarrow> f a s')"

definition thenA :: "('s, 'e, 'a) act \<Rightarrow> ('s, 'e, 'b) act \<Rightarrow> ('s, 'e, 'b) act" where
  "thenA m n = bindA m (\<lambda>_. n)"

definition reads :: "('s \<Rightarrow> 'a) \<Rightarrow> ('s, 'e, 'a) act" where
  "reads f s = (Inr (f s), s)"

definition updates :: "('s \<Rightarrow> 's) \<Rightarrow> ('s, 'e, unit) act" where
  "updates f s = (Inr (), f s)"

definition raise_if :: "bool \<Rightarrow> 'e \<Rightarrow> ('s, 'e, unit) act" where
  "raise_if b e = (if b then raise e else ret ())"

definition when_do :: "bool \<Rightarrow> ('s, 'e, unit) act \<Rightarrow> ('s, 'e, unit) act" where
  "when_do b m = (if b then m else ret ())"

fun fold_each :: "('b \<Rightarrow> 'x \<Rightarrow> ('s, 'e, 'b) act) \<Rightarrow> 'x list \<Rightarrow> 'b \<Rightarrow> ('s, 'e, 'b) act" where
  "fold_each f [] acc = ret acc"
| "fold_each f (x # xs) acc = bindA (f acc x) (\<lambda>acc'. fold_each f xs acc')"

definition each :: "('x \<Rightarrow> ('s, 'e, unit) act) \<Rightarrow> 'x list \<Rightarrow> ('s, 'e, unit) act" where
  "each f xs = fold_each (\<lambda>_ x. f x) xs ()"

subsection \<open>Running an action against a postcondition\<close>

definition wp :: "('s, 'e, 'a) act \<Rightarrow> ('e + 'a \<Rightarrow> 's \<Rightarrow> bool) \<Rightarrow> 's \<Rightarrow> bool" where
  "wp m Q s = (case m s of (r, s') \<Rightarrow> Q r s')"

lemma wp_ret [wp_simps]: "wp (ret a) Q s = Q (Inr a) s"
  by (simp add: wp_def ret_def)

lemma wp_raise [wp_simps]: "wp (raise e) Q s = Q (Inl e) s"
  by (simp add: wp_def raise_def)

lemma wp_bindA [wp_simps]:
  "wp (bindA m f) Q s = wp m (\<lambda>r s'. case r of Inl e \<Rightarrow> Q (Inl e) s' | Inr a \<Rightarrow> wp (f a) Q s') s"
  by (auto simp: wp_def bindA_def split: prod.splits sum.splits)

lemma wp_thenA [wp_simps]:
  "wp (thenA m n) Q s = wp m (\<lambda>r s'. case r of Inl e \<Rightarrow> Q (Inl e) s' | Inr _ \<Rightarrow> wp n Q s') s"
  by (simp add: thenA_def wp_bindA)

lemma wp_reads [wp_simps]: "wp (reads f) Q s = Q (Inr (f s)) s"
  by (simp add: wp_def reads_def)

lemma wp_updates [wp_simps]: "wp (updates f) Q s = Q (Inr ()) (f s)"
  by (simp add: wp_def updates_def)

lemma wp_raise_if [wp_simps]: "wp (raise_if b e) Q s = (if b then Q (Inl e) s else Q (Inr ()) s)"
  by (simp add: raise_if_def wp_raise wp_ret)

lemma wp_when_do [wp_simps]: "wp (when_do b m) Q s = (if b then wp m Q s else Q (Inr ()) s)"
  by (simp add: when_do_def wp_ret)

lemma wp_if [wp_simps]: "wp (if b then m else n) Q s = (if b then wp m Q s else wp n Q s)"
  by simp

lemma wp_mono: "wp m P s \<Longrightarrow> (\<And>r s'. P r s' \<Longrightarrow> Q r s') \<Longrightarrow> wp m Q s"
  by (auto simp: wp_def split: prod.splits)

lemma wp_conj: "wp m (\<lambda>r s'. P r s' \<and> Q r s') s = (wp m P s \<and> wp m Q s)"
  by (auto simp: wp_def split: prod.splits)

lemma wp_result: "m s = (r, s') \<Longrightarrow> wp m Q s = Q r s'"
  by (simp add: wp_def)

lemma wpD: "wp m Q s \<Longrightarrow> m s = (r, s') \<Longrightarrow> Q r s'"
  by (simp add: wp_def)

lemma bindA_Inr: "m s = (Inr a, s') \<Longrightarrow> bindA m f s = f a s'"
  by (simp add: bindA_def)

lemma bindA_Inl: "m s = (Inl e, s') \<Longrightarrow> bindA m f s = (Inl e, s')"
  by (simp add: bindA_def)

lemma run_pair: "fst p = v \<Longrightarrow> p = (v, snd p)"
  by (cases p) simp

lemma bindA_InrE:
  assumes "bindA m f s = (Inr v, s')"
  obtains a t where "m s = (Inr a, t)" "f a t = (Inr v, s')"
  using assms by (auto simp: bindA_def split: sum.splits prod.splits)

lemma thenA_InrE:
  assumes "thenA m n s = (Inr v, s')"
  obtains a t where "m s = (Inr a, t)" "n t = (Inr v, s')"
  using assms unfolding thenA_def by (rule bindA_InrE)

lemma reads_bind [simp]: "bindA (reads f) g s = g (f s) s"
  by (simp add: bindA_def reads_def)

lemma ret_bind: "bindA (ret a) f = f a"
  by (rule ext) (simp add: bindA_def ret_def)

lemmas act_defs = ret_def raise_def bindA_def thenA_def reads_def updates_def raise_if_def when_do_def

subsection \<open>Preserved invariants and allowed moves\<close>

definition keeps_from ::
  "('s \<Rightarrow> bool) \<Rightarrow> ('s \<Rightarrow> 's \<Rightarrow> bool) \<Rightarrow> ('s, 'e, 'a) act \<Rightarrow> 's \<Rightarrow> bool" where
  "keeps_from safe move m s \<longleftrightarrow> (safe s \<longrightarrow> wp m (\<lambda>_ s'. safe s' \<and> move s s') s)"

definition keeps ::
  "('s \<Rightarrow> bool) \<Rightarrow> ('s \<Rightarrow> 's \<Rightarrow> bool) \<Rightarrow> ('s, 'e, 'a) act \<Rightarrow> bool" where
  "keeps safe move m \<longleftrightarrow> (\<forall>s. keeps_from safe move m s)"

lemma keeps_run:
  "keeps safe move m \<Longrightarrow> safe s \<Longrightarrow> m s = (r, s') \<Longrightarrow> safe s' \<and> move s s'"
  by (auto simp: keeps_def keeps_from_def wp_def)

lemma keeps_fromI: "(\<And>s. keeps_from safe move m s) \<Longrightarrow> keeps safe move m"
  by (simp add: keeps_def)

lemma keeps_from_reads [simp]:
  "keeps_from safe move (bindA (reads f) g) s = keeps_from safe move (g (f s)) s"
  by (simp add: keeps_from_def wp_simps)

lemma keepsD: "keeps safe move m \<Longrightarrow> keeps_from safe move m s"
  by (simp add: keeps_def)

locale evolution =
  fixes safe :: "'s \<Rightarrow> bool" and move :: "'s \<Rightarrow> 's \<Rightarrow> bool"
  assumes move_refl: "safe s \<Longrightarrow> move s s"
    and move_trans: "safe s \<Longrightarrow> safe t \<Longrightarrow> safe u \<Longrightarrow> move s t \<Longrightarrow> move t u \<Longrightarrow> move s u"
begin

lemma from_ret: "keeps_from safe move (ret a) s"
  by (simp add: keeps_from_def wp_simps move_refl)

lemma from_raise: "keeps_from safe move (raise e) s"
  by (simp add: keeps_from_def wp_simps move_refl)

lemma from_reads: "keeps_from safe move (reads f) s"
  by (simp add: keeps_from_def wp_simps move_refl)

lemma from_raise_if: "keeps_from safe move (raise_if b e) s"
  by (simp add: keeps_from_def wp_simps move_refl)

lemma from_bind:
  assumes "keeps_from safe move m s"
    and "\<And>a s'. m s = (Inr a, s') \<Longrightarrow> safe s' \<Longrightarrow> keeps_from safe move (f a) s'"
  shows "keeps_from safe move (bindA m f) s"
proof (cases "m s")
  case (Pair r s')
  show ?thesis
  proof (cases r)
    case (Inl e)
    with Pair assms(1) show ?thesis
      by (simp add: keeps_from_def wp_def bindA_def)
  next
    case (Inr a)
    with Pair assms have "safe s \<longrightarrow> safe s' \<and> move s s'" and "safe s' \<longrightarrow> keeps_from safe move (f a) s'"
      by (simp_all add: keeps_from_def wp_def)
    with Pair Inr show ?thesis
      by (auto simp: keeps_from_def wp_def bindA_def split: prod.splits intro: move_trans)
  qed
qed

lemma from_then:
  assumes "keeps_from safe move m s"
    and "\<And>a s'. m s = (Inr a, s') \<Longrightarrow> safe s' \<Longrightarrow> keeps_from safe move n s'"
  shows "keeps_from safe move (thenA m n) s"
  using assms unfolding thenA_def by (rule from_bind)

lemma keeps_ret: "keeps safe move (ret a)"
  by (simp add: keeps_def from_ret)

lemma keeps_raise: "keeps safe move (raise e)"
  by (simp add: keeps_def from_raise)

lemma keeps_reads: "keeps safe move (reads f)"
  by (simp add: keeps_def from_reads)

lemma keeps_raise_if: "keeps safe move (raise_if b e)"
  by (simp add: keeps_def from_raise_if)

lemma keeps_bind: "keeps safe move m \<Longrightarrow> (\<And>a. keeps safe move (f a)) \<Longrightarrow> keeps safe move (bindA m f)"
  by (simp add: keeps_def from_bind)

lemma keeps_then: "keeps safe move m \<Longrightarrow> keeps safe move n \<Longrightarrow> keeps safe move (thenA m n)"
  by (simp add: thenA_def keeps_bind)

lemma keeps_when: "keeps safe move m \<Longrightarrow> keeps safe move (when_do b m)"
  by (simp add: when_do_def keeps_ret)

lemma keeps_if: "keeps safe move m \<Longrightarrow> keeps safe move n \<Longrightarrow> keeps safe move (if b then m else n)"
  by simp

lemma keeps_fold_each:
  "(\<And>acc x. keeps safe move (f acc x)) \<Longrightarrow> keeps safe move (fold_each f xs acc)"
  by (induction xs arbitrary: acc) (auto intro: keeps_ret keeps_bind)

lemma keeps_fold_in:
  "(\<And>acc x. x \<in> set xs \<Longrightarrow> keeps safe move (f acc x)) \<Longrightarrow> keeps safe move (fold_each f xs acc)"
  by (induction xs arbitrary: acc) (auto intro: keeps_ret keeps_bind)

lemma keeps_each: "(\<And>x. keeps safe move (f x)) \<Longrightarrow> keeps safe move (each f xs)"
  unfolding each_def by (rule keeps_fold_each)

lemmas control = keeps_ret keeps_raise keeps_reads keeps_raise_if keeps_bind keeps_then keeps_when
  keeps_if keeps_fold_each keeps_each

end

end
