(* ===== verification/Vocabulary.thy ===== *)
theory Vocabulary
  imports Prelude
begin

text \<open>
  The vocabulary shared by the modules: lifecycle statuses, scopes, fact kinds and
  retrieval multipliers (\<^verbatim>\<open>shared/src/memory.ts\<close>), the authenticated principal
  (\<^verbatim>\<open>shared/src/principal.ts\<close>), the memory actors (\<^verbatim>\<open>memory/domain/transition.ts\<close>) and the
  rows of the tables of the memory module (\<^verbatim>\<open>memory/persistence/tables.ts\<close>).
\<close>

subsection \<open>Enumerations\<close>

datatype memory_status = Active | Outdated | Contradicted | Uncertain | Replaced | UserApproved

definition MEMORY_STATUSES :: "memory_status list" where
  "MEMORY_STATUSES = [Active, Outdated, Contradicted, Uncertain, Replaced, UserApproved]"

fun status_text :: "memory_status \<Rightarrow> string" where
  "status_text Active = ''active''"
| "status_text Outdated = ''outdated''"
| "status_text Contradicted = ''contradicted''"
| "status_text Uncertain = ''uncertain''"
| "status_text Replaced = ''replaced''"
| "status_text UserApproved = ''user_approved''"

datatype memory_scope = Private | Shared

fun scope_text :: "memory_scope \<Rightarrow> string" where
  "scope_text Private = ''private''"
| "scope_text Shared = ''shared''"

datatype fact_kind = Commitment | Decision | Preference | FactKind | OpenLoop

datatype relation_resolution = ConfirmedA | ConfirmedB | Corrected | Dismissed

fun resolution_text :: "relation_resolution \<Rightarrow> string" where
  "resolution_text ConfirmedA = ''confirmed_a''"
| "resolution_text ConfirmedB = ''confirmed_b''"
| "resolution_text Corrected = ''corrected''"
| "resolution_text Dismissed = ''dismissed''"

datatype source_type = UserNote | Chat | Email | CalendarEvent | File | TaskConclusion | Web

definition SOURCE_TYPES :: "source_type list" where
  "SOURCE_TYPES = [UserNote, Chat, Email, CalendarEvent, File, TaskConclusion, Web]"

fun source_type_text :: "source_type \<Rightarrow> string" where
  "source_type_text UserNote = ''user_note''"
| "source_type_text Chat = ''chat''"
| "source_type_text Email = ''email''"
| "source_type_text CalendarEvent = ''calendar_event''"
| "source_type_text File = ''file''"
| "source_type_text TaskConclusion = ''task_conclusion''"
| "source_type_text Web = ''web''"

datatype receipt_status = Pending | Confirmed

text \<open>
  The statuses, in the order of \<^verbatim>\<open>MEMORY_STATUSES\<close> (the order Postgres gives the enum), as
  an enumerable linear order: sets of statuses compute, and rows can be grouped by them.
\<close>

fun status_rank :: "memory_status \<Rightarrow> nat" where
  "status_rank Active = 0"
| "status_rank Outdated = 1"
| "status_rank Contradicted = 2"
| "status_rank Uncertain = 3"
| "status_rank Replaced = 4"
| "status_rank UserApproved = 5"

lemma status_rank_inject: "status_rank a = status_rank b \<Longrightarrow> a = b"
  by (cases a; cases b) simp_all

instantiation memory_status :: linorder
begin

definition less_eq_memory_status :: "memory_status \<Rightarrow> memory_status \<Rightarrow> bool" where
  "less_eq_memory_status a b \<longleftrightarrow> status_rank a \<le> status_rank b"

definition less_memory_status :: "memory_status \<Rightarrow> memory_status \<Rightarrow> bool" where
  "less_memory_status a b \<longleftrightarrow> status_rank a < status_rank b"

instance
  by standard (auto simp: less_eq_memory_status_def less_memory_status_def dest: status_rank_inject)

end

lemma UNIV_memory_status: "(UNIV :: memory_status set) = set MEMORY_STATUSES"
  by (auto simp: MEMORY_STATUSES_def intro: memory_status.exhaust)

instantiation memory_status :: enum
begin

definition enum_memory_status :: "memory_status list" where
  "enum_memory_status = MEMORY_STATUSES"

definition enum_all_memory_status :: "(memory_status \<Rightarrow> bool) \<Rightarrow> bool" where
  "enum_all_memory_status P \<longleftrightarrow> (\<forall>s \<in> set MEMORY_STATUSES. P s)"

definition enum_ex_memory_status :: "(memory_status \<Rightarrow> bool) \<Rightarrow> bool" where
  "enum_ex_memory_status P \<longleftrightarrow> (\<exists>s \<in> set MEMORY_STATUSES. P s)"

instance
  by standard (simp_all only: enum_memory_status_def enum_all_memory_status_def
      enum_ex_memory_status_def UNIV_memory_status [symmetric], simp_all add: MEMORY_STATUSES_def)

end

definition STATUS_MULTIPLIERS :: "memory_status \<Rightarrow> rat" where
  "STATUS_MULTIPLIERS s =
     (case s of Active \<Rightarrow> 1 | UserApproved \<Rightarrow> 1 | Uncertain \<Rightarrow> 6 / 10 | Contradicted \<Rightarrow> 4 / 10
      | Outdated \<Rightarrow> 2 / 10 | Replaced \<Rightarrow> 0)"

definition TEMPORAL_STATUS_MULTIPLIERS :: "memory_status \<Rightarrow> rat" where
  "TEMPORAL_STATUS_MULTIPLIERS s =
     (case s of Active \<Rightarrow> 1 | UserApproved \<Rightarrow> 1 | Uncertain \<Rightarrow> 6 / 10 | Contradicted \<Rightarrow> 4 / 10
      | Outdated \<Rightarrow> 9 / 10 | Replaced \<Rightarrow> 9 / 10)"

subsection \<open>Principals and actors\<close>

record principal =
  p_user_id :: user_id
  p_org_id :: string

datatype memory_actor =
    User user_id
  | ReconciliationActor
  | ConsolidationActor
  | VerificationActor
  | DeletionSagaActor

subsection \<open>Rows of the memory module\<close>

record memory_row =
  m_id :: uuid
  m_owner :: user_id
  m_scope :: memory_scope
  m_source_type :: source_type
  m_source_id :: string
  m_status :: memory_status
  m_sensitive :: bool
  m_entities :: "string list"
  m_temporal_unresolved :: "string list"
  m_subject_entity :: "string option"
  m_kind :: "fact_kind option"
  m_authored_by_user :: "bool option"
  m_valid_from :: "time option"
  m_valid_until :: "time option"
  m_superseded_by :: "uuid option"
  m_content :: "string option"
  m_embedding_model :: "string option"
  m_created_at :: time
  m_updated_at :: time

record file_row =
  f_object_key :: string
  f_owner :: user_id
  f_scope :: memory_scope
  f_sensitive :: bool

record receipt_row =
  r_id :: uuid
  r_source_type :: source_type
  r_source_id :: string
  r_counts_json :: json
  r_status :: receipt_status
  r_prev_hash :: "string option"
  r_hash :: "string option"
  r_signature :: "string option"
  r_signed_at :: "time option"
  r_confirmed_at :: "time option"

record relation_row =
  rel_id :: uuid
  rel_a :: uuid
  rel_b :: uuid
  rel_a_prior :: memory_status
  rel_b_prior :: memory_status
  rel_detected_at :: time
  rel_reason :: "string option"
  rel_resolved_at :: "time option"
  rel_resolution :: "relation_resolution option"

record alert_row =
  al_receipt_id :: "uuid option"
  al_kind :: string
  al_detail :: string
  al_detected_at :: time

end
