(* ===== verification/Lifecycle.thy ===== *)
theory Lifecycle
  imports Vocabulary
begin

text \<open>
  The pure policies of the memory module: the status transition function
  (\<^verbatim>\<open>memory/domain/transition.ts\<close>), the validity interval predicate
  (\<^verbatim>\<open>memory/domain/interval.ts\<close>) and the reconciliation policy
  (\<^verbatim>\<open>memory/domain/reconcile-policy.ts\<close>).
\<close>

subsection \<open>Status transitions\<close>

datatype actor_kind =
    UserKind
  | ReconciliationKind
  | ConsolidationKind
  | VerificationKind
  | DeletionSagaKind

fun kind_of :: "memory_actor \<Rightarrow> actor_kind" where
  "kind_of (User u) = UserKind"
| "kind_of ReconciliationActor = ReconciliationKind"
| "kind_of ConsolidationActor = ConsolidationKind"
| "kind_of VerificationActor = VerificationKind"
| "kind_of DeletionSagaActor = DeletionSagaKind"

text \<open>A refusal carries the reason the code renders as text.\<close>

datatype refusal =
    ReplacedIsTerminal
  | AlreadyInStatus memory_status
  | ReplacedOnlyBySupersession
  | ApprovalIsReviewVerdict memory_status
  | NotAnOwner memory_status actor_kind

datatype transition_check = Allowed | Refused refusal

definition TRANSITION_OWNERS :: "memory_status \<Rightarrow> actor_kind list" where
  "TRANSITION_OWNERS s =
     (case s of Contradicted \<Rightarrow> [ReconciliationKind]
      | UserApproved \<Rightarrow> [UserKind]
      | Outdated \<Rightarrow> [ConsolidationKind, UserKind]
      | Uncertain \<Rightarrow> [VerificationKind]
      | Active \<Rightarrow> [UserKind]
      | Replaced \<Rightarrow> [])"

definition checkTransition ::
  "memory_status \<Rightarrow> memory_status \<Rightarrow> memory_actor \<Rightarrow> transition_check" where
  "checkTransition src to actor =
     (if src = Replaced then Refused ReplacedIsTerminal
      else if src = to then Refused (AlreadyInStatus to)
      else if to = Replaced then Refused ReplacedOnlyBySupersession
      else if to = UserApproved \<and> src \<noteq> Uncertain \<and> src \<noteq> Contradicted
        then Refused (ApprovalIsReviewVerdict src)
      else if kind_of actor \<notin> set (TRANSITION_OWNERS to)
        then Refused (NotAnOwner to (kind_of actor))
      else Allowed)"

definition actorLabel :: "memory_actor \<Rightarrow> string" where
  "actorLabel actor =
     (case actor of User u \<Rightarrow> ''user:'' @ u
      | ReconciliationActor \<Rightarrow> ''reconciliation''
      | ConsolidationActor \<Rightarrow> ''consolidation''
      | VerificationActor \<Rightarrow> ''verification''
      | DeletionSagaActor \<Rightarrow> ''deletion_saga'')"

lemma checkTransition_Allowed_iff:
  "checkTransition src to actor = Allowed \<longleftrightarrow>
     src \<noteq> Replaced \<and> src \<noteq> to \<and> kind_of actor \<in> set (TRANSITION_OWNERS to) \<and>
     (to = UserApproved \<longrightarrow> src = Uncertain \<or> src = Contradicted)"
  by (auto simp: checkTransition_def TRANSITION_OWNERS_def)

lemma allowed_not_replaced:
  assumes "checkTransition src to actor = Allowed"
  shows "src \<noteq> Replaced" and "to \<noteq> Replaced" and "src \<noteq> to"
  using assms by (auto simp: checkTransition_def split: if_splits)

subsection \<open>Validity intervals\<close>

definition intervalHoldsAt :: "memory_row \<Rightarrow> time \<Rightarrow> bool" where
  "intervalHoldsAt row t =
     (let effectiveFrom = (case m_valid_from row of Some v \<Rightarrow> v | None \<Rightarrow> m_created_at row)
      in if t < effectiveFrom then False
         else (case m_valid_until row of None \<Rightarrow> True | Some u \<Rightarrow> t < u))"

text \<open>
  The SQL twin, read with the three-valued logic of Postgres: a comparison with NULL is
  unknown (\<open>None\<close>), and a WHERE clause keeps the rows whose condition is true.
\<close>

definition sql_le :: "time option \<Rightarrow> time option \<Rightarrow> bool option" where
  "sql_le a b = (case (a, b) of (Some x, Some y) \<Rightarrow> Some (x \<le> y) | _ \<Rightarrow> None)"

definition sql_lt :: "time option \<Rightarrow> time option \<Rightarrow> bool option" where
  "sql_lt a b = (case (a, b) of (Some x, Some y) \<Rightarrow> Some (x < y) | _ \<Rightarrow> None)"

fun sql_and :: "bool option \<Rightarrow> bool option \<Rightarrow> bool option" where
  "sql_and (Some False) q = Some False"
| "sql_and p (Some False) = Some False"
| "sql_and (Some True) q = q"
| "sql_and p (Some True) = p"
| "sql_and None None = None"

fun sql_or :: "bool option \<Rightarrow> bool option \<Rightarrow> bool option" where
  "sql_or (Some True) q = Some True"
| "sql_or p (Some True) = Some True"
| "sql_or (Some False) q = q"
| "sql_or p (Some False) = p"
| "sql_or None None = None"

definition sql_coalesce :: "'a option \<Rightarrow> 'a option \<Rightarrow> 'a option" where
  "sql_coalesce a b = (case a of None \<Rightarrow> b | Some x \<Rightarrow> Some x)"

definition sql_keeps :: "bool option \<Rightarrow> bool" where
  "sql_keeps c \<longleftrightarrow> c = Some True"

definition intervalHoldsAtSql :: "memory_row \<Rightarrow> time \<Rightarrow> bool option" where
  "intervalHoldsAtSql row t =
     sql_and (sql_le (sql_coalesce (m_valid_from row) (Some (m_created_at row))) (Some t))
       (sql_or (Some (m_valid_until row = None)) (sql_lt (Some t) (m_valid_until row)))"

definition isPastBelief :: "memory_row \<Rightarrow> time \<Rightarrow> bool" where
  "isPastBelief row now =
     (if m_status row = Replaced \<or> m_status row = Outdated then True
      else (case m_valid_until row of None \<Rightarrow> False | Some u \<Rightarrow> u \<le> now))"

subsection \<open>Reconciliation policy\<close>

record policy_party =
  pp_id :: uuid
  pp_status :: memory_status
  pp_created_at :: time
  pp_valid_from :: "time option"
  pp_valid_until :: "time option"

definition CONFIDENCE :: "memory_status \<Rightarrow> nat option" where
  "CONFIDENCE s =
     (case s of UserApproved \<Rightarrow> Some 2 | Active \<Rightarrow> Some 1 | Uncertain \<Rightarrow> Some 0 | _ \<Rightarrow> None)"

definition confidence :: "memory_status \<Rightarrow> nat" where
  "confidence s = (case CONFIDENCE s of None \<Rightarrow> 0 | Some n \<Rightarrow> n)"

datatype merge_decision = Merge policy_party policy_party | NoMerge

definition chooseSurvivor :: "policy_party \<Rightarrow> policy_party \<Rightarrow> merge_decision" where
  "chooseSurvivor a b =
     (if pp_status a = UserApproved \<and> pp_status b = UserApproved then NoMerge
      else let (older, newer) = (if pp_created_at a \<le> pp_created_at b then (a, b) else (b, a))
           in if pp_status older = UserApproved then Merge older newer
              else if confidence (pp_status newer) < confidence (pp_status older)
                then Merge older newer
              else Merge newer older)"

definition eventTime :: "policy_party \<Rightarrow> time" where
  "eventTime p = (case pp_valid_from p of Some v \<Rightarrow> v | None \<Rightarrow> pp_created_at p)"

datatype loser_outcome = LoserOutdated | LoserReplaced

definition confirmLoserOutcome :: "policy_party \<Rightarrow> policy_party \<Rightarrow> loser_outcome" where
  "confirmLoserOutcome confirmed loser =
     (let confirmedFrom = eventTime confirmed
      in case pp_valid_until loser of
           Some u \<Rightarrow> (if u \<le> confirmedFrom then LoserOutdated else LoserReplaced)
         | None \<Rightarrow> LoserReplaced)"

definition supersessionUnambiguous :: "policy_party \<Rightarrow> policy_party \<Rightarrow> bool" where
  "supersessionUnambiguous winner loser =
     (if pp_status winner = UserApproved \<or> pp_status loser = UserApproved then False
      else eventTime winner > eventTime loser)"

lemma chooseSurvivor_Merge:
  "chooseSurvivor a b = Merge s l \<Longrightarrow> (s = a \<and> l = b) \<or> (s = b \<and> l = a)"
  by (auto simp: chooseSurvivor_def Let_def split: if_splits prod.splits)

lemma chooseSurvivor_loser_not_approved:
  "chooseSurvivor a b = Merge s l \<Longrightarrow> pp_status l \<noteq> UserApproved"
  by (auto simp: chooseSurvivor_def confidence_def CONFIDENCE_def Let_def
      split: if_splits prod.splits memory_status.splits)

end
