(* ===== verification/Store_State.thy ===== *)
theory Store_State
  imports Effects Lifecycle
begin

text \<open>
  The state of an instance and the statements the modules run against it: the Postgres
  tables (with the constraints and triggers of \<^verbatim>\<open>src/migrations\<close>), the Qdrant points, the
  objects of the bucket, the clock and the supply of random ids. A transaction restores the
  tables when its body raises or its commit is refused, and never restores the two external
  stores. Every external call and every commit consumes one entry of a fault schedule: the
  call may work, be refused before it acts, or act and lose its reply. An exhausted schedule
  means that nothing fails any more.

  The infrastructure helpers are here too: \<^verbatim>\<open>writeAudit\<close> (\<^verbatim>\<open>infrastructure/audit.ts\<close>),
  \<^verbatim>\<open>withTransactionalEnqueue\<close> (\<^verbatim>\<open>infrastructure/outbox.ts\<close>) and the point operations of
  \<^verbatim>\<open>memory/persistence/vector-store.ts\<close>.
\<close>

subsection \<open>Tables of the other modules\<close>

record audit_entry =
  a_actor :: string
  a_action :: string
  a_entity_type :: string
  a_entity_id :: string
  a_detail :: json
  a_org_id :: "string option"
  a_owner_id :: "user_id option"

record audit_row = audit_entry +
  a_created_at :: time

record outbox_row =
  ev_type :: string
  ev_payload :: "(string \<times> json) list"

record job_payload =
  j_source_type :: string
  j_source_id :: string

record job_row =
  j_type :: string
  j_payload :: job_payload
  j_max_attempts :: nat

record job_key =
  k_source_type :: string
  k_source_id :: string
  k_job_type :: string

record dead_letter_row =
  d_job_type :: string
  d_payload :: job_payload
  d_error :: string
  d_attempts :: nat

datatype approval_status =
  Draft | PendingApproval | Approved | Rejected | Expired | Executed

record approval_row =
  ap_id :: uuid
  ap_action_type :: string
  ap_payload :: json
  ap_status :: approval_status
  ap_org_id :: "string option"
  ap_requested_by :: "user_id option"
  ap_decided_by :: "user_id option"
  ap_decided_at :: "time option"
  ap_executed_at :: "time option"
  ap_expires_at :: "time option"
  ap_created_at :: time

text \<open>
  Rows of the connectors that a deletion reaches: a note, web page, email or task conclusion
  is one source row (an email owns its raw and HTML objects and the file keys of its
  attachments, a web page its raw object, a conclusion the columns of \<open>conclusion\<close>), a chat
  message is its own row. Tasks are rows of the tasks module.
\<close>

datatype conclusion_type = Closed | ConditionMet

record conclusion =
  cn_task :: "uuid option"
  cn_scope :: memory_scope
  cn_sensitive :: bool
  cn_type :: conclusion_type
  cn_statement :: string
  cn_deriving :: "uuid option"
  cn_trigger :: "uuid option"
  cn_created_at :: time

record source_row =
  src_type :: source_type
  src_id :: string
  src_owner :: user_id
  src_raw_key :: "string option"
  src_html_key :: "string option"
  src_attachments :: "string option list"
  src_conclusion :: "conclusion option"

datatype chat_role = UserRole | AssistantRole

record chat_row =
  c_id :: string
  c_owner :: user_id
  c_role :: chat_role
  c_content :: string

datatype task_status = TaskOpen | TaskBlocked | TaskDone | TaskDismissed

record task_row =
  tk_id :: uuid
  tk_owner :: user_id
  tk_scope :: memory_scope
  tk_derived_from :: uuid
  tk_title :: string
  tk_primary_person :: "string option"
  tk_entities :: "string list"
  tk_condition :: "string option"
  tk_condition_met :: bool
  tk_condition_met_by :: "uuid option"
  tk_due :: "time option"
  tk_status :: task_status
  tk_closed_by :: "uuid option"
  tk_dormant :: bool
  tk_from_uncertain :: bool
  tk_adopted :: bool
  tk_due_reminded_at :: "time option"
  tk_dormant_reminded_at :: "time option"
  tk_created_at :: time
  tk_updated_at :: time

text \<open>The tables of the dreaming cycle and the verdicts of the verification stage.\<close>

record dormant_flag =
  df_id :: uuid
  df_memory :: uuid
  df_run :: "uuid option"
  df_reason :: string
  df_flagged_at :: time
  df_cleared_at :: "time option"

record dream_run =
  dr_id :: uuid
  dr_started_at :: time
  dr_finished_at :: "time option"
  dr_from :: time
  dr_to :: time
  dr_counts :: "json option"

record dream_action =
  da_run :: uuid
  da_pass :: string
  da_memory :: uuid
  da_related :: "uuid option"
  da_relation :: "uuid option"
  da_created_at :: time

record verification_row =
  vr_memory :: uuid
  vr_verdict :: string
  vr_reason :: string
  vr_span :: "string option"
  vr_hedge :: "string option"

subsection \<open>The state\<close>

record pg =
  t_memory :: "memory_row list"
  t_relation :: "relation_row list"
  t_receipt :: "receipt_row list"
  t_file :: "file_row list"
  t_alert :: "alert_row list"
  t_audit :: "audit_row list"
  t_outbox :: "outbox_row list"
  t_jobs :: "job_row list"
  t_job_execution :: "job_key list"
  t_dead_letter :: "dead_letter_row list"
  t_approval :: "approval_row list"
  t_source :: "source_row list"
  t_chat :: "chat_row list"
  t_task :: "task_row list"
  t_dormant :: "dormant_flag list"
  t_dream_run :: "dream_run list"
  t_dream_action :: "dream_action list"
  t_verification :: "verification_row list"

record point_payload =
  pl_owner :: user_id
  pl_scope :: memory_scope
  pl_status :: memory_status
  pl_sensitive :: bool
  pl_source_type :: source_type
  pl_source_id :: string
  pl_valid_until :: "time option"

record point =
  pt_id :: uuid
  pt_vector :: "rat list"
  pt_payload :: point_payload

record bucket_object =
  o_key :: string
  o_last_modified :: time

datatype fault = Fine | RefusedCall | LostReply

record world =
  w_pg :: pg
  w_points :: "point list"
  w_objects :: "bucket_object list"
  w_clock :: time
  w_uuids :: "nat \<Rightarrow> uuid"
  w_drawn :: nat
  w_org_of :: "user_id \<Rightarrow> string option"
  w_has_vectors :: bool
  w_faults :: "fault list"

subsection \<open>Errors\<close>

datatype bad_request =
    IllegalTransition memory_status memory_status refusal
  | OrphanFact
  | EditReplaced
  | SupersedeReplaced
  | OnlyUserOrReconciliation
  | NotUncertain memory_status
  | SelfPair
  | PairChanged
  | EmbeddingCount nat nat
  | UnknownSourceType string
  | BlankSourceId
  | NoDeletionAdapter source_type
  | UnknownActionType string
  | InvalidPayload string
  | NotYoursToChange nat
  | CannotChangeTask task_status task_status

datatype approval_refusal =
    ApprovalTerminal approval_status
  | IllegalApprovalTransition approval_status approval_status

datatype err =
    NotFound string string
  | BadRequest bad_request
  | Unprocessable approval_refusal
  | NotImplemented
  | UniqueViolation
  | FkViolation
  | CheckViolation
  | TriggerRefused
  | QdrantFailed
  | BucketFailed
  | CommitFailed
  | Failure string

type_synonym 'a op = "(world, err, 'a) act"

subsection \<open>External calls and transactions\<close>

definition next_fault :: "world \<Rightarrow> fault" where
  "next_fault w = (case w_faults w of [] \<Rightarrow> Fine | f # _ \<Rightarrow> f)"

definition pop_fault :: "world \<Rightarrow> world" where
  "pop_fault w = w\<lparr>w_faults := tl (w_faults w)\<rparr>"

definition external :: "err \<Rightarrow> (world \<Rightarrow> 'a) \<Rightarrow> (world \<Rightarrow> world) \<Rightarrow> 'a op" where
  "external e answer effect w =
     (case next_fault w of
        Fine \<Rightarrow> (Inr (answer w), effect (pop_fault w))
      | RefusedCall \<Rightarrow> (Inl e, pop_fault w)
      | LostReply \<Rightarrow> (Inl e, effect (pop_fault w)))"

definition transaction :: "'a op \<Rightarrow> 'a op" where
  "transaction body w =
     (case body w of
        (Inl e, w') \<Rightarrow> (Inl e, w'\<lparr>w_pg := w_pg w\<rparr>)
      | (Inr a, w') \<Rightarrow>
          (case next_fault w' of
             Fine \<Rightarrow> (Inr a, pop_fault w')
           | RefusedCall \<Rightarrow> (Inl CommitFailed, (pop_fault w')\<lparr>w_pg := w_pg w\<rparr>)
           | LostReply \<Rightarrow> (Inl CommitFailed, pop_fault w')))"

definition update_pg :: "(pg \<Rightarrow> pg) \<Rightarrow> world \<Rightarrow> world" where
  "update_pg f w = w\<lparr>w_pg := f (w_pg w)\<rparr>"

definition draw_uuid :: "uuid op" where
  "draw_uuid w = (Inr (w_uuids w (w_drawn w)), w\<lparr>w_drawn := Suc (w_drawn w)\<rparr>)"

definition orgFor :: "user_id \<Rightarrow> string option op" where
  "orgFor owner = reads (\<lambda>w. w_org_of w owner)"

subsection \<open>Audit, outbox and jobs\<close>

definition writeAudit :: "audit_entry \<Rightarrow> unit op" where
  "writeAudit entry =
     updates (\<lambda>w. update_pg (\<lambda>d. d\<lparr>t_audit := t_audit d @
       [audit_entry.extend entry (audit_row.fields (w_clock w))]\<rparr>) w)"

definition withTransactionalEnqueue :: "outbox_row \<Rightarrow> string \<Rightarrow> job_payload \<Rightarrow> unit op" where
  "withTransactionalEnqueue event job payload =
     updates (update_pg (\<lambda>d. d\<lparr>
       t_outbox := t_outbox d @ [event],
       t_jobs := t_jobs d @ [\<lparr>j_type = job, j_payload = payload, j_max_attempts = 10\<rparr>]\<rparr>))"

lemma world_pop_fault [simp]:
  "w_pg (pop_fault w) = w_pg w" "w_points (pop_fault w) = w_points w"
  "w_objects (pop_fault w) = w_objects w" "w_clock (pop_fault w) = w_clock w"
  "w_uuids (pop_fault w) = w_uuids w" "w_drawn (pop_fault w) = w_drawn w"
  "w_org_of (pop_fault w) = w_org_of w" "w_has_vectors (pop_fault w) = w_has_vectors w"
  by (simp_all add: pop_fault_def)

lemma world_update_pg [simp]:
  "w_pg (update_pg f w) = f (w_pg w)" "w_points (update_pg f w) = w_points w"
  "w_objects (update_pg f w) = w_objects w" "w_clock (update_pg f w) = w_clock w"
  "w_uuids (update_pg f w) = w_uuids w" "w_drawn (update_pg f w) = w_drawn w"
  "w_org_of (update_pg f w) = w_org_of w" "w_has_vectors (update_pg f w) = w_has_vectors w"
  "w_faults (update_pg f w) = w_faults w"
  by (simp_all add: update_pg_def)

subsection \<open>Points of the vector store\<close>

text \<open>
  \<^verbatim>\<open>setPayload\<close> merges a patch into the payload of an existing point and is a no-op on a
  missing one; \<^verbatim>\<open>deletePoints\<close> and \<^verbatim>\<open>upsert\<close> return before any call on an empty list.
\<close>

definition patch_points :: "uuid \<Rightarrow> (point_payload \<Rightarrow> point_payload) \<Rightarrow> point list \<Rightarrow> point list" where
  "patch_points i patch = update_where (\<lambda>p. pt_id p = i) (\<lambda>p. p\<lparr>pt_payload := patch (pt_payload p)\<rparr>)"

definition setPayload :: "uuid \<Rightarrow> (point_payload \<Rightarrow> point_payload) \<Rightarrow> unit op" where
  "setPayload i patch =
     external QdrantFailed (\<lambda>_. ()) (\<lambda>w. w\<lparr>w_points := patch_points i patch (w_points w)\<rparr>)"

definition deletePoints :: "uuid list \<Rightarrow> unit op" where
  "deletePoints ids =
     (if ids = [] then ret ()
      else external QdrantFailed (\<lambda>_. ())
             (\<lambda>w. w\<lparr>w_points := delete_where (\<lambda>p. pt_id p \<in> set ids) (w_points w)\<rparr>))"

fun put_point :: "point \<Rightarrow> point list \<Rightarrow> point list" where
  "put_point p [] = [p]"
| "put_point p (q # qs) = (if pt_id q = pt_id p then p # qs else q # put_point p qs)"

definition upsert :: "point list \<Rightarrow> unit op" where
  "upsert points =
     (if points = [] then ret ()
      else external QdrantFailed (\<lambda>_. ()) (\<lambda>w. w\<lparr>w_points := fold put_point points (w_points w)\<rparr>))"

definition retrievePayloads :: "uuid list \<Rightarrow> (uuid \<times> point_payload) list op" where
  "retrievePayloads ids =
     (if ids = [] then ret []
      else external QdrantFailed
             (\<lambda>w. map (\<lambda>p. (pt_id p, pt_payload p)) (filter (\<lambda>p. pt_id p \<in> set ids) (w_points w)))
             (\<lambda>w. w))"

text \<open>\<^verbatim>\<open>MemoryStore#requireVectors\<close> and the optional call \<^verbatim>\<open>this.vectors?.setPayload\<close>.\<close>

definition requireVectors :: "unit op" where
  "requireVectors w = (if w_has_vectors w then (Inr (), w) else (Inl NotImplemented, w))"

definition setPayload_required :: "uuid \<Rightarrow> (point_payload \<Rightarrow> point_payload) \<Rightarrow> unit op" where
  "setPayload_required i patch = thenA requireVectors (setPayload i patch)"

definition setPayload_optional :: "uuid \<Rightarrow> (point_payload \<Rightarrow> point_payload) \<Rightarrow> unit op" where
  "setPayload_optional i patch w = (if w_has_vectors w then setPayload i patch w else (Inr (), w))"

subsection \<open>Contracts that hold across rollbacks and external calls\<close>

text \<open>
  \<open>pg_evolution\<close> extends \<open>evolution\<close> for the state of an instance: the invariant and the moves
  look at the tables and at the id supply only, and the supply never rewinds. Rollback,
  external calls, random ids and reads then keep every such contract.
\<close>

definition outside_pg :: "world \<Rightarrow> world \<Rightarrow> bool" where
  "outside_pg w w' \<longleftrightarrow> w_pg w' = w_pg w \<and> w_uuids w' = w_uuids w \<and> w_drawn w \<le> w_drawn w'"

lemma outside_pg_refl [simp]: "outside_pg w w"
  by (simp add: outside_pg_def)

lemma outside_pg_pop_fault [simp]: "outside_pg w (pop_fault w)"
  by (simp add: outside_pg_def)

lemma outside_pg_pop: "(\<And>w. outside_pg w (effect w)) \<Longrightarrow> outside_pg w (effect (pop_fault w))"
  by (metis outside_pg_def world_pop_fault(1,5,6))

locale pg_evolution = evolution safe move
  for safe :: "world \<Rightarrow> bool" and move :: "world \<Rightarrow> world \<Rightarrow> bool" +
  assumes outside: "safe w \<Longrightarrow> outside_pg w w' \<Longrightarrow> safe w' \<and> move w w'"
    and ids_grow: "move w w' \<Longrightarrow> w_uuids w' = w_uuids w \<and> w_drawn w \<le> w_drawn w'"
begin

lemma rollback:
  assumes "safe w" and "move w w'"
  shows "safe (w'\<lparr>w_pg := w_pg w\<rparr>) \<and> move w (w'\<lparr>w_pg := w_pg w\<rparr>)"
  using outside [OF assms(1), of "w'\<lparr>w_pg := w_pg w\<rparr>"] ids_grow [OF assms(2)]
  by (simp add: outside_pg_def)

lemma from_outside:
  "(\<And>r w'. m w = (r, w') \<Longrightarrow> outside_pg w w') \<Longrightarrow> keeps_from safe move m w"
  using outside by (cases "m w") (auto simp: keeps_from_def wp_def)

lemma from_transaction:
  assumes "keeps_from safe move body w"
  shows "keeps_from safe move (transaction body) w"
proof (cases "body w")
  case (Pair r w')
  have pop: "safe w1 \<Longrightarrow> move w w1 \<Longrightarrow> safe w \<Longrightarrow> safe (pop_fault w1) \<and> move w (pop_fault w1)" for w1
    using outside [of w1 "pop_fault w1"] move_trans [of w w1 "pop_fault w1"]
    by (auto simp: outside_pg_def)
  have rolled: "safe w1 \<Longrightarrow> move w w1 \<Longrightarrow> safe w \<Longrightarrow>
      safe (pop_fault w1\<lparr>w_pg := w_pg w\<rparr>) \<and> move w (pop_fault w1\<lparr>w_pg := w_pg w\<rparr>)" for w1
    using pop rollback by blast
  show ?thesis
    using assms Pair pop rolled rollback
    by (auto simp: keeps_from_def wp_def transaction_def split: sum.splits fault.splits)
qed

lemma keeps_transaction: "keeps safe move body \<Longrightarrow> keeps safe move (transaction body)"
  by (simp add: keeps_def from_transaction)

lemma keeps_external:
  "(\<And>w. outside_pg w (effect w)) \<Longrightarrow> keeps safe move (external e answer effect)"
  by (rule keeps_fromI, rule from_outside)
    (auto simp: external_def split: fault.splits intro: outside_pg_pop)

lemma keeps_draw_uuid: "keeps safe move draw_uuid"
  by (rule keeps_fromI, rule from_outside) (auto simp: draw_uuid_def outside_pg_def)

lemma keeps_orgFor: "keeps safe move (orgFor u)"
  unfolding orgFor_def by (rule keeps_reads)

lemma keeps_requireVectors: "keeps safe move requireVectors"
  by (rule keeps_fromI, rule from_outside)
    (auto simp: requireVectors_def outside_pg_def split: if_splits)

lemma keeps_setPayload: "keeps safe move (setPayload i patch)"
  unfolding setPayload_def by (rule keeps_external) (simp add: outside_pg_def)

lemma keeps_setPayload_required: "keeps safe move (setPayload_required i patch)"
  unfolding setPayload_required_def by (intro keeps_then keeps_requireVectors keeps_setPayload)

lemma keeps_setPayload_optional: "keeps safe move (setPayload_optional i patch)"
  using keeps_setPayload [of i patch]
  by (auto simp: keeps_def keeps_from_def wp_def setPayload_optional_def move_refl split: prod.splits)

lemma keeps_deletePoints: "keeps safe move (deletePoints ids)"
  unfolding deletePoints_def by (auto intro!: keeps_external keeps_ret simp: outside_pg_def)

lemma keeps_upsert: "keeps safe move (upsert ps)"
  unfolding upsert_def by (auto intro!: keeps_external keeps_ret simp: outside_pg_def)

lemma keeps_retrievePayloads: "keeps safe move (retrievePayloads ids)"
  unfolding retrievePayloads_def by (auto intro!: keeps_external keeps_ret simp: outside_pg_def)

lemmas outside_ops = keeps_draw_uuid keeps_orgFor keeps_requireVectors keeps_setPayload
  keeps_setPayload_required keeps_setPayload_optional keeps_deletePoints keeps_upsert
  keeps_retrievePayloads

end

end
