(* ===== verification/Memory_Tables.thy ===== *)
theory Memory_Tables
  imports Store_State
begin

text \<open>
  The statements on the tables of the memory module, with the constraints of
  \<^verbatim>\<open>src/migrations/0001_contractual_core.sql\<close> and \<^verbatim>\<open>0011_reconciliation.sql\<close>: the primary key,
  the foreign key of \<^verbatim>\<open>superseded_by\<close> (no action on delete, checked at the end of the
  statement), the cascade from memories to relations and the unique unordered pair of a
  relation. Then the invariant of the tables, the moves a memory row may make over its
  life, and one lemma per statement that says when it keeps both.
\<close>

subsection \<open>Statements\<close>

definition memory_by_id :: "uuid \<Rightarrow> pg \<Rightarrow> memory_row option" where
  "memory_by_id i d = find (\<lambda>r. m_id r = i) (t_memory d)"

definition select_memory :: "uuid \<Rightarrow> memory_row option op" where
  "select_memory i = reads (\<lambda>w. memory_by_id i (w_pg w))"

definition memory_ids :: "pg \<Rightarrow> uuid set" where
  "memory_ids d = m_id ` set (t_memory d)"

lemma memory_ids_frame [simp]:
  "memory_ids (d\<lparr>t_relation := x1\<rparr>) = memory_ids d"
  "memory_ids (d\<lparr>t_receipt := x2\<rparr>) = memory_ids d"
  "memory_ids (d\<lparr>t_file := x3\<rparr>) = memory_ids d"
  "memory_ids (d\<lparr>t_alert := x4\<rparr>) = memory_ids d"
  "memory_ids (d\<lparr>t_audit := x5\<rparr>) = memory_ids d"
  "memory_ids (d\<lparr>t_outbox := x6\<rparr>) = memory_ids d"
  "memory_ids (d\<lparr>t_jobs := x7\<rparr>) = memory_ids d"
  "memory_ids (d\<lparr>t_job_execution := x8\<rparr>) = memory_ids d"
  "memory_ids (d\<lparr>t_dead_letter := x9\<rparr>) = memory_ids d"
  "memory_ids (d\<lparr>t_approval := x10\<rparr>) = memory_ids d"
  "memory_ids (d\<lparr>t_source := x11\<rparr>) = memory_ids d"
  "memory_ids (d\<lparr>t_chat := x12\<rparr>) = memory_ids d"
  "memory_ids (d\<lparr>t_task := x13\<rparr>) = memory_ids d"
  "memory_ids (d\<lparr>t_dormant := x14\<rparr>) = memory_ids d"
  "memory_ids (d\<lparr>t_dream_run := x15\<rparr>) = memory_ids d"
  "memory_ids (d\<lparr>t_dream_action := x16\<rparr>) = memory_ids d"
  "memory_ids (d\<lparr>t_verification := x17\<rparr>) = memory_ids d"
  by (simp_all add: memory_ids_def)

definition fk_ok :: "memory_row list \<Rightarrow> bool" where
  "fk_ok rows \<longleftrightarrow> (\<forall>r \<in> set rows. case m_superseded_by r of None \<Rightarrow> True | Some s \<Rightarrow> s \<in> set (map m_id rows))"

definition insert_memory :: "memory_row \<Rightarrow> memory_row op" where
  "insert_memory row w =
     (if m_id row \<in> set (map m_id (t_memory (w_pg w))) then (Inl UniqueViolation, w)
      else (Inr row, update_pg (\<lambda>d. d\<lparr>t_memory := t_memory d @ [row]\<rparr>) w))"

definition write_memory :: "(memory_row list \<Rightarrow> memory_row list) \<Rightarrow> unit op" where
  "write_memory f w =
     (let rows = f (t_memory (w_pg w))
      in if fk_ok rows then (Inr (), update_pg (\<lambda>d. d\<lparr>t_memory := rows\<rparr>) w)
         else (Inl FkViolation, w))"

definition update_memory :: "uuid \<Rightarrow> (memory_row \<Rightarrow> memory_row) \<Rightarrow> unit op" where
  "update_memory i f = write_memory (update_where (\<lambda>r. m_id r = i) f)"

text \<open>UPDATE ... RETURNING of one row that the transaction holds locked.\<close>

definition update_returning :: "memory_row \<Rightarrow> (memory_row \<Rightarrow> memory_row) \<Rightarrow> memory_row op" where
  "update_returning row f = thenA (update_memory (m_id row) f) (ret (f row))"

text \<open>
  The foreign keys on \<^verbatim>\<open>memory\<close>: relations, tasks, dormant flags, dream actions and verdicts of
  a deleted row go with it (ON DELETE CASCADE, the actions also with their relation), the other
  references to it become NULL (ON DELETE SET NULL).
\<close>

definition without :: "uuid list \<Rightarrow> uuid option \<Rightarrow> uuid option" where
  "without ids ref = (case ref of None \<Rightarrow> None | Some i \<Rightarrow> if i \<in> set ids then None else Some i)"

definition refers_to :: "uuid list \<Rightarrow> uuid option \<Rightarrow> bool" where
  "refers_to ids ref \<longleftrightarrow> (case ref of None \<Rightarrow> False | Some i \<Rightarrow> i \<in> set ids)"

definition forget_in_task :: "uuid list \<Rightarrow> task_row \<Rightarrow> task_row" where
  "forget_in_task ids t =
     t\<lparr>tk_condition_met_by := without ids (tk_condition_met_by t), tk_closed_by := without ids (tk_closed_by t)\<rparr>"

definition forget_in_source :: "uuid list \<Rightarrow> source_row \<Rightarrow> source_row" where
  "forget_in_source ids s = s\<lparr>src_conclusion := map_option (\<lambda>c.
     c\<lparr>cn_deriving := without ids (cn_deriving c), cn_trigger := without ids (cn_trigger c)\<rparr>) (src_conclusion s)\<rparr>"

definition cascade_relations :: "uuid list \<Rightarrow> pg \<Rightarrow> pg" where
  "cascade_relations ids d =
     (let gone = (\<lambda>q. rel_a q \<in> set ids \<or> rel_b q \<in> set ids); rels = map rel_id (filter gone (t_relation d))
      in d\<lparr>t_relation := delete_where gone (t_relation d),
        t_task := map (forget_in_task ids) (delete_where (\<lambda>t. tk_derived_from t \<in> set ids) (t_task d)),
        t_source := map (forget_in_source ids) (t_source d),
        t_dormant := delete_where (\<lambda>f. df_memory f \<in> set ids) (t_dormant d),
        t_dream_action := delete_where (\<lambda>a. da_memory a \<in> set ids \<or> refers_to ids (da_related a) \<or> refers_to rels (da_relation a)) (t_dream_action d),
        t_verification := delete_where (\<lambda>v. vr_memory v \<in> set ids) (t_verification d)\<rparr>)"

lemma cascade_relations_frame [simp]:
  "t_memory (cascade_relations ids d) = t_memory d" "t_receipt (cascade_relations ids d) = t_receipt d"
  "t_file (cascade_relations ids d) = t_file d" "t_chat (cascade_relations ids d) = t_chat d"
  "t_approval (cascade_relations ids d) = t_approval d" "memory_ids (cascade_relations ids d) = memory_ids d"
  "t_relation (cascade_relations ids d) = delete_where (\<lambda>q. rel_a q \<in> set ids \<or> rel_b q \<in> set ids) (t_relation d)"
  "t_task (cascade_relations ids d) = map (forget_in_task ids) (delete_where (\<lambda>t. tk_derived_from t \<in> set ids) (t_task d))"
  by (simp_all add: cascade_relations_def Let_def memory_ids_def)

definition delete_memories :: "uuid list \<Rightarrow> unit op" where
  "delete_memories ids =
     thenA (write_memory (delete_where (\<lambda>r. m_id r \<in> set ids))) (updates (update_pg (cascade_relations ids)))"

definition same_pair :: "uuid \<Rightarrow> uuid \<Rightarrow> relation_row \<Rightarrow> bool" where
  "same_pair a b q \<longleftrightarrow> (rel_a q = a \<and> rel_b q = b) \<or> (rel_a q = b \<and> rel_b q = a)"

definition insert_relation :: "relation_row \<Rightarrow> relation_row option op" where
  "insert_relation q w =
     (let d = w_pg w
      in if rel_a q = rel_b q then (Inl CheckViolation, w)
         else if list_ex (\<lambda>p. rel_id p = rel_id q \<or> same_pair (rel_a q) (rel_b q) p) (t_relation d)
           then (Inr None, w)
         else if memory_by_id (rel_a q) d = None \<or> memory_by_id (rel_b q) d = None
           then (Inl FkViolation, w)
         else (Inr (Some q), update_pg (\<lambda>d. d\<lparr>t_relation := t_relation d @ [q]\<rparr>) w))"

definition resolve_relation :: "uuid \<Rightarrow> time \<Rightarrow> relation_resolution \<Rightarrow> unit op" where
  "resolve_relation i t res =
     updates (update_pg (\<lambda>d. d\<lparr>t_relation :=
       update_where (\<lambda>q. rel_id q = i)
         (\<lambda>q. q\<lparr>rel_resolved_at := Some t, rel_resolution := Some res\<rparr>) (t_relation d)\<rparr>))"

subsection \<open>Invariant of the tables\<close>

definition pointers :: "memory_row list \<Rightarrow> (uuid \<times> uuid) set" where
  "pointers rows = {(m_id r, s) | r s. r \<in> set rows \<and> m_superseded_by r = Some s}"

definition row_ok :: "memory_row \<Rightarrow> bool" where
  "row_ok r \<longleftrightarrow> js_trim (m_owner r) \<noteq> [] \<and> js_trim (m_source_id r) \<noteq> [] \<and>
     (m_superseded_by r \<noteq> None \<longrightarrow> m_status r = Replaced)"

definition rows_ok :: "memory_row list \<Rightarrow> bool" where
  "rows_ok rows \<longleftrightarrow> distinct (map m_id rows) \<and> fk_ok rows \<and> acyclic (pointers rows) \<and> (\<forall>r \<in> set rows. row_ok r)"

definition relation_ok :: "relation_row \<Rightarrow> bool" where
  "relation_ok q \<longleftrightarrow> rel_a q \<noteq> rel_b q \<and> rel_a_prior q \<noteq> Replaced \<and> rel_b_prior q \<noteq> Replaced \<and>
     (rel_resolved_at q = None \<longleftrightarrow> rel_resolution q = None)"

fun pairs_unique :: "relation_row list \<Rightarrow> bool" where
  "pairs_unique [] = True"
| "pairs_unique (q # qs) =
     ((\<forall>p \<in> set qs. rel_id p \<noteq> rel_id q \<and> \<not> same_pair (rel_a q) (rel_b q) p) \<and> pairs_unique qs)"

definition relations_ok :: "pg \<Rightarrow> bool" where
  "relations_ok d \<longleftrightarrow> (\<forall>q \<in> set (t_relation d). relation_ok q \<and> rel_a q \<in> memory_ids d \<and> rel_b q \<in> memory_ids d)
     \<and> pairs_unique (t_relation d)"

text \<open>
  Random ids never repeat: the supply is injective and every stored memory id was drawn.
\<close>

definition ids_drawn :: "world \<Rightarrow> bool" where
  "ids_drawn w \<longleftrightarrow> inj (w_uuids w) \<and> memory_ids (w_pg w) \<subseteq> w_uuids w ` {..<w_drawn w}"

definition memory_safe :: "world \<Rightarrow> bool" where
  "memory_safe w \<longleftrightarrow> rows_ok (t_memory (w_pg w)) \<and> relations_ok (w_pg w) \<and> ids_drawn w"

subsection \<open>The life of a memory row\<close>

text \<open>
  What is written once: identity, owner, provenance, content and everything extracted with
  it. A replaced row never leaves its status, its interval stays closed where it was closed,
  and its pointer can only be erased.
\<close>

definition same_fact :: "memory_row \<Rightarrow> memory_row \<Rightarrow> bool" where
  "same_fact r r' \<longleftrightarrow>
     m_id r' = m_id r \<and> m_owner r' = m_owner r \<and> m_source_type r' = m_source_type r \<and>
     m_source_id r' = m_source_id r \<and> m_content r' = m_content r \<and> m_entities r' = m_entities r \<and>
     m_temporal_unresolved r' = m_temporal_unresolved r \<and> m_subject_entity r' = m_subject_entity r \<and>
     m_kind r' = m_kind r \<and> m_valid_from r' = m_valid_from r \<and> m_created_at r' = m_created_at r"

definition row_move :: "memory_row \<Rightarrow> memory_row \<Rightarrow> bool" where
  "row_move r r' \<longleftrightarrow> same_fact r r' \<and>
     (m_status r = Replaced \<longrightarrow> m_status r' = Replaced \<and> m_valid_until r' = m_valid_until r \<and>
        (m_superseded_by r' = m_superseded_by r \<or> m_superseded_by r' = None))"

definition rows_move :: "memory_row list \<Rightarrow> memory_row list \<Rightarrow> bool" where
  "rows_move rows rows' \<longleftrightarrow> (\<forall>r \<in> set rows. \<forall>r' \<in> set rows'. m_id r' = m_id r \<longrightarrow> row_move r r')"

definition memory_move :: "world \<Rightarrow> world \<Rightarrow> bool" where
  "memory_move w w' \<longleftrightarrow> w_uuids w' = w_uuids w \<and> w_drawn w \<le> w_drawn w' \<and>
     rows_move (t_memory (w_pg w)) (t_memory (w_pg w')) \<and>
     memory_ids (w_pg w') \<subseteq> memory_ids (w_pg w) \<union> w_uuids w ` {w_drawn w..<w_drawn w'}"

lemma same_fact_refl [simp]: "same_fact r r"
  by (simp add: same_fact_def)

lemma same_fact_id: "same_fact r r' \<Longrightarrow> m_id r' = m_id r"
  by (simp add: same_fact_def)

lemma row_move_refl [simp]: "row_move r r"
  by (simp add: row_move_def)

lemma row_move_trans: "row_move r s \<Longrightarrow> row_move s t \<Longrightarrow> row_move r t"
  by (auto simp: row_move_def same_fact_def)

lemma memory_move_refl: "memory_safe w \<Longrightarrow> memory_move w w"
  by (auto simp: memory_move_def rows_move_def memory_safe_def rows_ok_def dest: distinct_key_eq)

lemma memory_move_trans:
  assumes safe: "memory_safe w" "memory_safe v"
    and wv: "memory_move w v" and vu: "memory_move v u"
  shows "memory_move w u"
proof -
  have sup: "w_uuids u = w_uuids w" "w_uuids v = w_uuids w" "w_drawn w \<le> w_drawn v" "w_drawn v \<le> w_drawn u"
    using wv vu by (simp_all add: memory_move_def)
  have "row_move r t" if r: "r \<in> set (t_memory (w_pg w))" and t: "t \<in> set (t_memory (w_pg u))"
    and eq: "m_id t = m_id r" for r t
  proof (cases "m_id r \<in> memory_ids (w_pg v)")
    case True
    then obtain s where "s \<in> set (t_memory (w_pg v))" and "m_id s = m_id r"
      by (auto simp: memory_ids_def)
    with r t eq wv vu have "row_move r s" and "row_move s t"
      by (simp_all add: memory_move_def rows_move_def)
    then show ?thesis by (rule row_move_trans)
  next
    case False
    obtain i where i: "i < w_drawn w" "m_id r = w_uuids w i"
      using safe(1) r by (auto simp: memory_safe_def ids_drawn_def memory_ids_def)
    have "m_id t \<in> memory_ids (w_pg u)"
      using t by (simp add: memory_ids_def)
    moreover have "memory_ids (w_pg u) \<subseteq> memory_ids (w_pg v) \<union> w_uuids v ` {w_drawn v..<w_drawn u}"
      using vu by (simp add: memory_move_def)
    ultimately obtain j where j: "w_drawn v \<le> j" "m_id r = w_uuids v j"
      using eq False by force
    from i j sup(2) have "w_uuids w i = w_uuids w j" by simp
    then have "i = j"
      using safe(1) by (auto simp: memory_safe_def ids_drawn_def dest: injD)
    with i j sup show ?thesis by simp
  qed
  moreover have "memory_ids (w_pg u) \<subseteq> memory_ids (w_pg w) \<union> w_uuids w ` {w_drawn w..<w_drawn u}"
    using wv vu sup unfolding memory_move_def by force
  ultimately show ?thesis
    using sup by (auto simp: memory_move_def rows_move_def)
qed

lemma memory_outside:
  assumes "memory_safe w" and "outside_pg w w'"
  shows "memory_safe w' \<and> memory_move w w'"
proof -
  have "rows_move (t_memory (w_pg w)) (t_memory (w_pg w))"
    using memory_move_refl [OF assms(1)] by (simp add: memory_move_def)
  then show ?thesis
    using assms by (fastforce simp: memory_safe_def ids_drawn_def outside_pg_def memory_move_def)
qed

interpretation mem: pg_evolution memory_safe memory_move
proof unfold_locales
  fix w v u
  assume "memory_safe w" "memory_safe v" "memory_move w v" "memory_move v u"
  then show "memory_move w u" by (rule memory_move_trans)
next
  fix w w'
  assume "memory_safe w" "outside_pg w w'"
  then show "memory_safe w' \<and> memory_move w w'" by (rule memory_outside)
next
  fix w
  assume "memory_safe w"
  then show "memory_move w w" by (rule memory_move_refl)
qed (simp add: memory_move_def)

subsection \<open>Each statement keeps the invariant\<close>

abbreviation mem_keeps :: "'a op \<Rightarrow> bool" where
  "mem_keeps m \<equiv> keeps memory_safe memory_move m"

abbreviation mem_keeps_from :: "'a op \<Rightarrow> world \<Rightarrow> bool" where
  "mem_keeps_from m w \<equiv> keeps_from memory_safe memory_move m w"

lemma memory_by_id_SomeD: "memory_by_id i d = Some r \<Longrightarrow> r \<in> set (t_memory d) \<and> m_id r = i"
  unfolding memory_by_id_def by (rule find_key_SomeD)

lemma memory_by_id_in:
  "rows_ok (t_memory d) \<Longrightarrow> r \<in> set (t_memory d) \<Longrightarrow> memory_by_id (m_id r) d = Some r"
  by (simp add: memory_by_id_def rows_ok_def find_key_unique)

lemma memory_by_id_None_iff: "memory_by_id i d = None \<longleftrightarrow> i \<notin> memory_ids d"
  by (auto simp: memory_by_id_def memory_ids_def find_None_iff)

lemma keeps_elsewhere:
  assumes "\<And>d. t_memory (f d) = t_memory d \<and> t_relation (f d) = t_relation d"
  shows "mem_keeps (updates (\<lambda>w. update_pg f w))"
proof (rule keeps_fromI)
  fix w
  have "memory_safe w \<Longrightarrow> rows_move (t_memory (w_pg w)) (t_memory (w_pg w))"
    by (drule memory_move_refl) (simp add: memory_move_def)
  then show "mem_keeps_from (updates (\<lambda>w. update_pg f w)) w"
    using assms
    by (auto simp: keeps_from_def wp_simps memory_safe_def memory_move_def ids_drawn_def
        relations_ok_def memory_ids_def)
qed

lemma keeps_writeAudit [keeps_intros]: "mem_keeps (writeAudit e)"
proof (rule keeps_fromI)
  fix w
  show "mem_keeps_from (writeAudit e) w"
    using keeps_elsewhere [of "\<lambda>d. d\<lparr>t_audit := t_audit d @ [audit_entry.extend e (audit_row.fields (w_clock w))]\<rparr>"]
    by (simp add: keeps_def keeps_from_def wp_simps writeAudit_def)
qed

lemma keeps_enqueue [keeps_intros]: "mem_keeps (withTransactionalEnqueue ev job payload)"
  unfolding withTransactionalEnqueue_def by (rule keeps_elsewhere) simp

lemma fk_ok_alt: "fk_ok rows \<longleftrightarrow> (\<forall>(i, s) \<in> pointers rows. s \<in> m_id ` set rows)"
  by (fastforce simp: fk_ok_def pointers_def split: option.splits)

lemma pointers_append: "pointers (xs @ ys) = pointers xs \<union> pointers ys"
  by (auto simp: pointers_def)

lemma rows_ok_append_new:
  assumes "rows_ok rows" and "m_id r \<notin> m_id ` set rows" and "row_ok r" and "m_superseded_by r = None"
  shows "rows_ok (rows @ [r])"
proof -
  have "pointers (rows @ [r]) = pointers rows"
    using assms(4) by (auto simp: pointers_def)
  with assms show ?thesis
    by (auto simp: rows_ok_def fk_ok_alt)
qed

definition insert_new :: "(uuid \<Rightarrow> memory_row) \<Rightarrow> memory_row op" where
  "insert_new mk = bindA draw_uuid (\<lambda>i. insert_memory (mk i))"

lemma keeps_insert_new:
  assumes mk: "\<And>i. m_id (mk i) = i \<and> row_ok (mk i) \<and> m_superseded_by (mk i) = None"
  shows "mem_keeps_from (insert_new mk) w"
proof -
  let ?i = "w_uuids w (w_drawn w)"
  { assume safe: "memory_safe w"
    then have inj: "inj (w_uuids w)" and sub: "memory_ids (w_pg w) \<subseteq> w_uuids w ` {..<w_drawn w}"
      by (simp_all add: memory_safe_def ids_drawn_def)
    then have new: "?i \<notin> m_id ` set (t_memory (w_pg w))"
      by (auto simp: memory_ids_def dest!: injD [OF inj] subsetD)
    have "rows_ok (t_memory (w_pg w) @ [mk ?i])"
      using safe new mk by (intro rows_ok_append_new) (auto simp: memory_safe_def)
    moreover have "rows_move (t_memory (w_pg w)) (t_memory (w_pg w) @ [mk ?i])"
      using safe new mk memory_move_refl [OF safe] by (auto simp: rows_move_def memory_move_def)
    ultimately have "wp (insert_new mk) (\<lambda>_ w'. memory_safe w' \<and> memory_move w w') w"
      using safe new mk inj sub
      by (auto simp: insert_new_def wp_simps wp_def bindA_def draw_uuid_def insert_memory_def
          memory_safe_def memory_move_def ids_drawn_def relations_ok_def memory_ids_def lessThan_Suc) }
  then show ?thesis by (simp add: keeps_from_def)
qed

subsubsection \<open>Updates\<close>

definition pointer_step :: "memory_row list \<Rightarrow> memory_row \<Rightarrow> memory_row \<Rightarrow> bool" where
  "pointer_step rows r r' \<longleftrightarrow> m_superseded_by r' = m_superseded_by r \<or> m_superseded_by r' = None \<or>
     (\<exists>t \<in> set rows. m_superseded_by r' = Some (m_id t) \<and> m_id t \<noteq> m_id r \<and> m_status t \<noteq> Replaced \<and>
        m_superseded_by r = None)"

lemma acyclic_redirect:
  assumes "acyclic R" and "\<And>z. (y, z) \<notin> R" and "x \<noteq> y"
  shows "acyclic (insert (x, y) R)"
proof -
  have "(y, x) \<notin> R\<^sup>*"
    using assms(2,3) by (auto elim: converse_rtranclE)
  with assms(1) show ?thesis by (simp add: acyclic_insert)
qed

lemma no_pointer_from_live:
  assumes "rows_ok rows" and "t \<in> set rows" and "m_status t \<noteq> Replaced"
  shows "(m_id t, z) \<notin> pointers rows"
  using assms unfolding pointers_def rows_ok_def row_ok_def
  by (auto dest: distinct_key_eq)

lemma update_where_no_key: "i \<notin> k ` set rows \<Longrightarrow> update_where (\<lambda>r. k r = i) f rows = rows"
  by (rule update_where_idle) auto

lemma acyclic_update:
  assumes ok: "rows_ok rows" and r: "r \<in> set rows"
    and step: "pointer_step rows r (f r)" and id: "m_id (f r) = m_id r"
  shows "acyclic (pointers (update_where (\<lambda>q. m_id q = m_id r) f rows))"
proof -
  let ?new = "update_where (\<lambda>q. m_id q = m_id r) f rows"
  have rows: "q \<in> set ?new \<Longrightarrow> q = f r \<or> q \<in> set rows" for q
    using ok r by (auto simp: in_set_update_where rows_ok_def dest: distinct_key_eq)
  have ac: "acyclic (pointers rows)" using ok by (simp add: rows_ok_def)
  consider (keep) "m_superseded_by (f r) = m_superseded_by r \<or> m_superseded_by (f r) = None"
    | (set) t where "t \<in> set rows" "m_superseded_by (f r) = Some (m_id t)" "m_id t \<noteq> m_id r"
      "m_status t \<noteq> Replaced"
    using step by (auto simp: pointer_step_def)
  then show ?thesis
  proof cases
    case keep
    then have "pointers ?new \<subseteq> pointers rows"
      using rows r id by (fastforce simp: pointers_def)
    with ac show ?thesis by (rule acyclic_subset)
  next
    case (set t)
    have "pointers ?new \<subseteq> insert (m_id r, m_id t) (pointers rows)"
      using rows set(2) id by (fastforce simp: pointers_def)
    moreover have "acyclic (insert (m_id r, m_id t) (pointers rows))"
      using ac no_pointer_from_live [OF ok set(1,4)] set(3) by (intro acyclic_redirect) auto
    ultimately show ?thesis by (meson acyclic_subset)
  qed
qed

lemma keeps_update_memory:
  assumes step: "\<And>r. memory_by_id i (w_pg w) = Some r \<Longrightarrow>
      row_move r (f r) \<and> row_ok (f r) \<and> pointer_step (t_memory (w_pg w)) r (f r)"
  shows "mem_keeps_from (update_memory i f) w"
proof (cases "memory_by_id i (w_pg w)")
  case None
  then have "update_where (\<lambda>r. m_id r = i) f (t_memory (w_pg w)) = t_memory (w_pg w)"
    unfolding memory_by_id_None_iff by (intro update_where_no_key) (simp add: memory_ids_def)
  then show ?thesis
    by (intro mem.from_outside)
      (auto simp: update_memory_def write_memory_def outside_pg_def Let_def split: if_splits)
next
  case (Some r)
  let ?rows = "t_memory (w_pg w)" and ?new = "update_where (\<lambda>q. m_id q = i) f (t_memory (w_pg w))"
  from Some have r: "r \<in> set ?rows" "m_id r = i" by (auto dest: memory_by_id_SomeD)
  from step [OF Some] have fr: "row_move r (f r)" "row_ok (f r)" "pointer_step ?rows r (f r)"
    by simp_all
  then have id: "m_id (f r) = i" using r by (simp add: row_move_def same_fact_def)
  { assume safe: "memory_safe w" and fk: "fk_ok ?new"
    then have ok: "rows_ok ?rows" by (simp add: memory_safe_def)
    have change: "q' \<in> set ?new \<longleftrightarrow> (q' = f r \<or> q' \<in> set ?rows \<and> m_id q' \<noteq> i)" for q'
      using ok r by (auto simp: in_set_update_where rows_ok_def dest: distinct_key_eq)
    have ids: "map m_id ?new = map m_id ?rows"
      using change id ok r by (auto simp: update_where_def rows_ok_def dest: distinct_key_eq)
    then have idset: "m_id ` set ?new = m_id ` set ?rows" by (metis set_map)
    have "acyclic (pointers ?new)"
      using acyclic_update [where f = f, OF ok r(1) fr(3)] id r by simp
    then have "rows_ok ?new"
      using ok fk ids change fr(2) by (auto simp: rows_ok_def)
    moreover have "rows_move ?rows ?new"
      unfolding rows_move_def
    proof (intro ballI impI)
      fix q q'
      assume q: "q \<in> set ?rows" and q': "q' \<in> set ?new" and eq: "m_id q' = m_id q"
      from ok have d: "distinct (map m_id ?rows)" by (simp add: rows_ok_def)
      from q' consider "q' = f r" | "q' \<in> set ?rows" unfolding change by blast
      then show "row_move q q'"
      proof cases
        case 1
        with eq id r have "m_id q = m_id r" by simp
        with d q r(1) have "q = r" by (blast dest: distinct_key_eq)
        with 1 fr(1) show ?thesis by simp
      next
        case 2
        with d q eq have "q' = q" by (blast dest: distinct_key_eq)
        then show ?thesis by simp
      qed
    qed
    ultimately have "memory_safe (update_pg (\<lambda>d. d\<lparr>t_memory := ?new\<rparr>) w)"
      and "memory_move w (update_pg (\<lambda>d. d\<lparr>t_memory := ?new\<rparr>) w)"
      using safe idset
      by (auto simp: memory_safe_def memory_move_def ids_drawn_def relations_ok_def memory_ids_def) }
  then show ?thesis
    by (auto simp: keeps_from_def wp_def update_memory_def write_memory_def Let_def memory_move_refl)
qed

lemma keeps_update_returning:
  assumes "\<And>r. memory_by_id (m_id row) (w_pg w) = Some r \<Longrightarrow>
      row_move r (f r) \<and> row_ok (f r) \<and> pointer_step (t_memory (w_pg w)) r (f r)"
  shows "mem_keeps_from (update_returning row f) w"
  unfolding update_returning_def
  by (intro mem.from_then keeps_update_memory [OF assms] keepsD [OF mem.keeps_ret])

subsubsection \<open>Erasing pointers, deleting rows\<close>

text \<open>
  The bulk statements of the deletion saga: rows outside the doomed set lose a pointer into
  it, then the doomed rows go with the relations that mention them.
\<close>

definition null_pointers :: "uuid list \<Rightarrow> uuid list op" where
  "null_pointers ids w =
     (let hit = (\<lambda>r. (case m_superseded_by r of None \<Rightarrow> False | Some s \<Rightarrow> s \<in> set ids) \<and> m_id r \<notin> set ids)
      in bindA (reads (\<lambda>v. map m_id (filter hit (t_memory (w_pg v)))))
           (\<lambda>nulled. thenA (write_memory (update_where hit
              (\<lambda>r. r\<lparr>m_superseded_by := None, m_updated_at := w_clock w\<rparr>))) (ret nulled)) w)"

lemma update_where_map: "update_where p f rows = map (\<lambda>r. if p r then f r else r) rows"
  by (simp add: update_where_def)

lemma row_ok_erase: "row_ok r \<Longrightarrow> row_ok (r\<lparr>m_superseded_by := None, m_updated_at := t\<rparr>)"
  by (simp add: row_ok_def)

lemma row_move_erase: "row_move r (r\<lparr>m_superseded_by := None, m_updated_at := t\<rparr>)"
  by (simp add: row_move_def same_fact_def)

lemma keeps_null_pointers: "mem_keeps (null_pointers ids)"
proof (rule keeps_fromI)
  fix w :: world
  let ?hit = "\<lambda>r. (case m_superseded_by r of None \<Rightarrow> False | Some s \<Rightarrow> s \<in> set ids) \<and> m_id r \<notin> set ids"
  let ?f = "\<lambda>r. r\<lparr>m_superseded_by := None, m_updated_at := w_clock w\<rparr>"
  let ?rows = "t_memory (w_pg w)" and ?new = "update_where ?hit ?f (t_memory (w_pg w))"
  have ids: "map m_id ?new = map m_id ?rows" by (rule map_update_where_key) simp
  then have idset: "m_id ` set ?new = m_id ` set ?rows" by (metis set_map)
  { assume safe: "memory_safe w"
    then have ok: "rows_ok ?rows" by (simp add: memory_safe_def)
    have sub: "pointers ?new \<subseteq> pointers ?rows"
      by (auto simp: pointers_def in_set_update_where)
    have "acyclic (pointers ?new)"
      using ok sub by (meson acyclic_subset rows_ok_def)
    moreover have "fk_ok ?new"
      using ok sub idset unfolding fk_ok_alt rows_ok_def by fastforce
    ultimately have "rows_ok ?new"
      using ok ids unfolding rows_ok_def
      by (auto simp: in_set_update_where row_ok_erase)
    moreover have "rows_move ?rows ?new"
      unfolding rows_move_def
    proof (intro ballI impI)
      fix q q'
      assume q: "q \<in> set ?rows" and "q' \<in> set ?new" and eq: "m_id q' = m_id q"
      then obtain p where p: "p \<in> set ?rows" "q' = (if ?hit p then ?f p else p)"
        unfolding in_set_update_where by blast
      then have "m_id p = m_id q" using eq by (simp split: if_splits)
      with ok p(1) q have "p = q" by (auto simp: rows_ok_def dest: distinct_key_eq)
      with p(2) show "row_move q q'" by (simp add: row_move_erase)
    qed
    ultimately have "memory_safe (update_pg (\<lambda>d. d\<lparr>t_memory := ?new\<rparr>) w)"
      and "memory_move w (update_pg (\<lambda>d. d\<lparr>t_memory := ?new\<rparr>) w)"
      using safe idset
      by (auto simp: memory_safe_def memory_move_def ids_drawn_def relations_ok_def memory_ids_def) }
  then show "mem_keeps_from (null_pointers ids) w"
    by (auto simp: keeps_from_def null_pointers_def act_defs Let_def wp_def write_memory_def
        memory_move_refl)
qed

lemma pairs_unique_filter: "pairs_unique qs \<Longrightarrow> pairs_unique (filter P qs)"
  by (induction qs) auto

lemma keeps_delete_memories: "mem_keeps (delete_memories ids)"
proof (rule keeps_fromI)
  fix w :: world
  let ?rows = "t_memory (w_pg w)"
  let ?new = "delete_where (\<lambda>r. m_id r \<in> set ids) ?rows"
  let ?w' = "update_pg (cascade_relations ids) (update_pg (\<lambda>d. d\<lparr>t_memory := ?new\<rparr>) w)"
  { assume safe: "memory_safe w" and fk: "fk_ok ?new"
    then have ok: "rows_ok ?rows" by (simp add: memory_safe_def)
    have "pointers ?new \<subseteq> pointers ?rows" by (auto simp: pointers_def)
    then have "acyclic (pointers ?new)"
      using ok by (meson acyclic_subset rows_ok_def)
    then have "rows_ok ?new"
      using ok fk by (auto simp: rows_ok_def distinct_map_delete_where)
    moreover have "rows_move ?rows ?new"
      using memory_move_refl [OF safe] by (simp add: rows_move_def memory_move_def)
    moreover have "relations_ok (w_pg ?w')"
      using safe by (auto simp: memory_safe_def relations_ok_def memory_ids_def
          delete_where_def pairs_unique_filter)
    ultimately have "memory_safe ?w'" and "memory_move w ?w'"
      using safe
      by (auto simp: memory_safe_def memory_move_def ids_drawn_def memory_ids_def) }
  then show "mem_keeps_from (delete_memories ids) w"
    by (auto simp: keeps_from_def wp_simps delete_memories_def wp_def write_memory_def thenA_def
        bindA_def updates_def Let_def memory_move_refl)
qed

subsubsection \<open>Relations\<close>

lemma pairs_unique_append:
  "pairs_unique (qs @ [q]) \<longleftrightarrow>
     pairs_unique qs \<and> (\<forall>p \<in> set qs. rel_id p \<noteq> rel_id q \<and> \<not> same_pair (rel_a q) (rel_b q) p)"
  by (induction qs) (auto simp: same_pair_def)

lemma keeps_insert_relation:
  assumes "relation_ok q"
  shows "mem_keeps (insert_relation q)"
proof (rule keeps_fromI)
  fix w
  show "mem_keeps_from (insert_relation q) w"
    using assms memory_move_refl [of w]
    by (auto simp: keeps_from_def wp_def insert_relation_def Let_def memory_safe_def memory_move_def
        relations_ok_def ids_drawn_def pairs_unique_append list_ex_iff memory_by_id_None_iff)
qed

lemma pairs_unique_map:
  assumes "\<And>q. rel_id (f q) = rel_id q \<and> rel_a (f q) = rel_a q \<and> rel_b (f q) = rel_b q"
  shows "pairs_unique (map f qs) = pairs_unique qs"
  using assms by (induction qs) (auto simp: same_pair_def)

lemma keeps_resolve_relation: "mem_keeps (resolve_relation i t res)"
proof (rule keeps_fromI)
  fix w
  let ?f = "\<lambda>q. if rel_id q = i then q\<lparr>rel_resolved_at := Some t, rel_resolution := Some res\<rparr> else q"
  have "pairs_unique (map ?f qs) = pairs_unique qs" for qs
    by (rule pairs_unique_map) simp
  then show "mem_keeps_from (resolve_relation i t res) w"
    using memory_move_refl [of w]
    by (auto simp: keeps_from_def wp_simps resolve_relation_def memory_safe_def memory_move_def
        relations_ok_def ids_drawn_def update_where_map relation_ok_def)
qed

end
