(* ===== verification/Memory_Store.thy ===== *)
theory Memory_Store
  imports Memory_Tables
begin

text \<open>
  The write side of \<^verbatim>\<open>memory/memory.store.ts\<close>: one definition per method, in the order of
  the file, each with every statement, audit entry, outbox event and index call the method
  makes, in its order. Methods named \<open>...InTx\<close> take the caller's transaction; the others
  open their own. After the definitions, every method is shown to keep the invariant of the
  memory tables and the life of a row.
\<close>

subsection \<open>Definitions\<close>

datatype initial_status = InitActive | InitUncertain | InitUserApproved

fun status_of_initial :: "initial_status \<Rightarrow> memory_status" where
  "status_of_initial InitActive = Active"
| "status_of_initial InitUncertain = Uncertain"
| "status_of_initial InitUserApproved = UserApproved"

record new_fact =
  nf_content :: string
  nf_scope :: memory_scope
  nf_source_type :: source_type
  nf_source_id :: string
  nf_entities :: "string list option"
  nf_subject_entity :: "string option"
  nf_kind :: "fact_kind option"
  nf_authored_by_user :: "bool option"
  nf_temporal_unresolved :: "string list option"
  nf_sensitive :: "bool option"
  nf_valid_from :: "time option"
  nf_valid_until :: "time option"
  nf_initial_status :: "initial_status option"
  nf_embedding_model :: "string option"

definition or_else :: "'a option \<Rightarrow> 'a \<Rightarrow> 'a" where
  "or_else v d = (case v of None \<Rightarrow> d | Some x \<Rightarrow> x)"

definition or_option :: "'a option \<Rightarrow> 'a option \<Rightarrow> 'a option" where
  "or_option v d = (case v of None \<Rightarrow> d | Some x \<Rightarrow> Some x)"

definition memory_audit ::
  "string \<Rightarrow> string \<Rightarrow> uuid \<Rightarrow> (string \<times> json) list \<Rightarrow> user_id \<Rightarrow> string option \<Rightarrow> audit_entry" where
  "memory_audit actor action i detail owner org =
     \<lparr>a_actor = actor, a_action = action, a_entity_type = ''memory'', a_entity_id = i,
      a_detail = JObj detail, a_org_id = org, a_owner_id = Some owner\<rparr>"

definition row_of_fact :: "user_id \<Rightarrow> new_fact \<Rightarrow> time \<Rightarrow> uuid \<Rightarrow> memory_row" where
  "row_of_fact owner nf now i =
     \<lparr>m_id = i, m_owner = owner, m_scope = nf_scope nf, m_source_type = nf_source_type nf,
      m_source_id = nf_source_id nf,
      m_status = or_else (map_option status_of_initial (nf_initial_status nf)) Active,
      m_sensitive = or_else (nf_sensitive nf) False,
      m_entities = or_else (nf_entities nf) [],
      m_temporal_unresolved = or_else (nf_temporal_unresolved nf) [],
      m_subject_entity = nf_subject_entity nf, m_kind = nf_kind nf,
      m_authored_by_user = nf_authored_by_user nf,
      m_valid_from = Some (or_else (nf_valid_from nf) now),
      m_valid_until = nf_valid_until nf, m_superseded_by = None,
      m_content = Some (nf_content nf), m_embedding_model = nf_embedding_model nf,
      m_created_at = now, m_updated_at = now\<rparr>"

definition insertFact :: "user_id \<Rightarrow> new_fact \<Rightarrow> string \<Rightarrow> memory_row op" where
  "insertFact owner nf actor =
     (if js_trim owner = [] \<or> js_trim (nf_source_id nf) = [] then raise (BadRequest OrphanFact)
      else bindA (reads w_clock) (\<lambda>now.
           bindA (insert_new (row_of_fact owner nf now)) (\<lambda>created.
           bindA (orgFor owner) (\<lambda>org.
           thenA (writeAudit (memory_audit actor ''memory.created'' (m_id created)
                    [(''sourceType'', JStr (source_type_text (nf_source_type nf))),
                     (''sourceId'', JStr (nf_source_id nf)),
                     (''scope'', JStr (scope_text (nf_scope nf)))] owner org))
             (ret created)))))"

definition foreign_to :: "memory_actor \<Rightarrow> memory_row \<Rightarrow> bool" where
  "foreign_to actor row = (case actor of User u \<Rightarrow> m_owner row \<noteq> u | _ \<Rightarrow> False)"

definition lockRow :: "uuid \<Rightarrow> memory_actor \<Rightarrow> memory_row op" where
  "lockRow i actor =
     bindA (select_memory i) (\<lambda>found.
       case found of
         None \<Rightarrow> raise (NotFound ''memory'' i)
       | Some row \<Rightarrow> (if foreign_to actor row then raise (NotFound ''memory'' i) else ret row))"

definition createFromFact :: "principal \<Rightarrow> new_fact \<Rightarrow> memory_row op" where
  "createFromFact prin nf =
     transaction (insertFact (p_user_id prin) nf (''user:'' @ p_user_id prin))"

definition admitExtractedFact :: "user_id \<Rightarrow> new_fact \<Rightarrow> memory_row op" where
  "admitExtractedFact owner nf = insertFact owner nf ''verification''"

definition transitionInTx :: "memory_actor \<Rightarrow> uuid \<Rightarrow> memory_status \<Rightarrow> bool \<Rightarrow> memory_row op" where
  "transitionInTx actor i to syncPayload =
     bindA (lockRow i actor) (\<lambda>row.
       case checkTransition (m_status row) to actor of
         Refused reason \<Rightarrow> raise (BadRequest (IllegalTransition (m_status row) to reason))
       | Allowed \<Rightarrow>
           bindA (reads w_clock) (\<lambda>now.
           bindA (update_returning row (\<lambda>r. r\<lparr>m_status := to, m_updated_at := now\<rparr>)) (\<lambda>updated.
           bindA (orgFor (m_owner row)) (\<lambda>org.
           thenA (writeAudit (memory_audit (actorLabel actor) ''memory.status_transition'' i
                    [(''from'', JStr (status_text (m_status row))), (''to'', JStr (status_text to))]
                    (m_owner row) org))
           (thenA (when_do syncPayload (setPayload_required i (\<lambda>p. p\<lparr>pl_status := to\<rparr>)))
             (ret updated))))))"

definition transition :: "memory_actor \<Rightarrow> uuid \<Rightarrow> memory_status \<Rightarrow> memory_row op" where
  "transition actor i to = transaction (transitionInTx actor i to True)"

definition syncStatusPayloads :: "uuid list \<Rightarrow> memory_status \<Rightarrow> unit op" where
  "syncStatusPayloads ids status =
     thenA requireVectors (each (\<lambda>i. setPayload i (\<lambda>p. p\<lparr>pl_status := status\<rparr>)) ids)"

record bulk_result =
  b_changed :: "uuid list"
  b_skipped :: "(uuid \<times> string) list"

definition skip :: "uuid \<Rightarrow> string \<Rightarrow> bulk_result \<Rightarrow> bulk_result" where
  "skip i reason acc = acc\<lparr>b_skipped := b_skipped acc @ [(i, reason)]\<rparr>"

definition bulk_one :: "user_id \<Rightarrow> bulk_result \<Rightarrow> uuid \<Rightarrow> bulk_result op" where
  "bulk_one owner acc i =
     bindA (select_memory i) (\<lambda>found.
       case found of
         None \<Rightarrow> ret (skip i ''not_found_or_foreign'' acc)
       | Some row \<Rightarrow>
           (if m_owner row \<noteq> owner then ret (skip i ''not_found_or_foreign'' acc)
            else if m_status row = UserApproved then ret (skip i ''user_approved'' acc)
            else if m_status row = Replaced then ret (skip i ''replaced'' acc)
            else if m_status row = Outdated then ret (skip i ''already_outdated'' acc)
            else thenA (transitionInTx (User owner) i Outdated False)
                   (ret (acc\<lparr>b_changed := b_changed acc @ [i]\<rparr>))))"

definition bulkMarkOutdatedForOwner :: "user_id \<Rightarrow> uuid list \<Rightarrow> bulk_result op" where
  "bulkMarkOutdatedForOwner owner ids =
     fold_each (bulk_one owner) (dedupe ids) \<lparr>b_changed = [], b_skipped = []\<rparr>"

definition toggleSensitive :: "principal \<Rightarrow> uuid \<Rightarrow> bool \<Rightarrow> memory_row op" where
  "toggleSensitive prin i sensitive =
     transaction (
       bindA (lockRow i (User (p_user_id prin))) (\<lambda>row.
         if m_sensitive row = sensitive then ret row
         else bindA (reads w_clock) (\<lambda>now.
              bindA (update_returning row (\<lambda>r. r\<lparr>m_sensitive := sensitive, m_updated_at := now\<rparr>)) (\<lambda>updated.
              thenA (writeAudit (memory_audit (actorLabel (User (p_user_id prin)))
                       ''memory.sensitive_toggled'' i [(''sensitive'', JBool sensitive)] (m_owner row)
                       (Some (p_org_id prin))))
              (thenA (setPayload_required i (\<lambda>p. p\<lparr>pl_sensitive := sensitive\<rparr>))
                (ret updated))))))"

definition setScope :: "principal \<Rightarrow> uuid \<Rightarrow> memory_scope \<Rightarrow> memory_row op" where
  "setScope prin i scope =
     transaction (
       bindA (lockRow i (User (p_user_id prin))) (\<lambda>row.
         if m_scope row = scope then ret row
         else bindA (reads w_clock) (\<lambda>now.
              bindA (update_returning row (\<lambda>r. r\<lparr>m_scope := scope, m_updated_at := now\<rparr>)) (\<lambda>updated.
              thenA (writeAudit (memory_audit (actorLabel (User (p_user_id prin)))
                       ''memory.scope_changed'' i
                       [(''from'', JStr (scope_text (m_scope row))), (''to'', JStr (scope_text scope))]
                       (m_owner row) (Some (p_org_id prin))))
              (thenA (setPayload_required i (\<lambda>p. p\<lparr>pl_scope := scope\<rparr>))
                (ret updated))))))"

record supersession =
  s_predecessor :: memory_row
  s_successor :: memory_row

definition supersedeCore :: "memory_actor \<Rightarrow> memory_row \<Rightarrow> new_fact \<Rightarrow> supersession op" where
  "supersedeCore actor old nf =
     bindA (reads w_clock) (\<lambda>now.
     let validFrom = or_else (nf_valid_from nf) now in
     bindA (insertFact (m_owner old) (nf\<lparr>nf_valid_from := Some validFrom\<rparr>) (actorLabel actor)) (\<lambda>successor.
     bindA (update_returning old (\<lambda>r. r\<lparr>m_status := Replaced, m_valid_until := Some validFrom,
              m_superseded_by := Some (m_id successor), m_updated_at := now\<rparr>)) (\<lambda>predecessor.
     bindA (orgFor (m_owner old)) (\<lambda>org.
     thenA (writeAudit (memory_audit (actorLabel actor) ''memory.superseded'' (m_id old)
              [(''supersededBy'', JStr (m_id successor)), (''validUntil'', JStr (iso_string validFrom))]
              (m_owner old) org))
     (thenA (setPayload_required (m_id old) (\<lambda>p. p\<lparr>pl_status := Replaced\<rparr>))
       (ret \<lparr>s_predecessor = predecessor, s_successor = successor\<rparr>))))))"

definition MEMORY_EMBED_JOB_TYPE :: string where
  "MEMORY_EMBED_JOB_TYPE = ''memory.embed''"

definition edited_fact :: "memory_row \<Rightarrow> string \<Rightarrow> new_fact" where
  "edited_fact old content =
     \<lparr>nf_content = content, nf_scope = m_scope old, nf_source_type = m_source_type old,
      nf_source_id = m_source_id old, nf_entities = Some (m_entities old),
      nf_subject_entity = m_subject_entity old, nf_kind = m_kind old, nf_authored_by_user = None,
      nf_temporal_unresolved = None, nf_sensitive = Some (m_sensitive old), nf_valid_from = None,
      nf_valid_until = m_valid_until old, nf_initial_status = Some InitUserApproved,
      nf_embedding_model = None\<rparr>"

definition editContentInTx :: "principal \<Rightarrow> uuid \<Rightarrow> string \<Rightarrow> supersession op" where
  "editContentInTx prin i content =
     bindA (lockRow i (User (p_user_id prin))) (\<lambda>old.
       if m_status old = Replaced then raise (BadRequest EditReplaced)
       else bindA (supersedeCore (User (p_user_id prin)) old (edited_fact old content)) (\<lambda>result.
            thenA (writeAudit (memory_audit (actorLabel (User (p_user_id prin))) ''memory.edited'' i
                     [(''successor'', JStr (m_id (s_successor result)))] (m_owner old)
                     (Some (p_org_id prin))))
            (thenA (withTransactionalEnqueue
                     \<lparr>ev_type = ''memory.edited'',
                      ev_payload = [(''memory_id'', JStr i), (''successor_id'', JStr (m_id (s_successor result)))]\<rparr>
                     MEMORY_EMBED_JOB_TYPE
                     \<lparr>j_source_type = ''memory'', j_source_id = m_id (s_successor result)\<rparr>)
              (ret result))))"

definition editContent :: "principal \<Rightarrow> uuid \<Rightarrow> string \<Rightarrow> supersession op" where
  "editContent prin i content = transaction (editContentInTx prin i content)"

definition rejectUncertain :: "principal \<Rightarrow> uuid \<Rightarrow> memory_row option op" where
  "rejectUncertain prin i =
     transaction (
       bindA (select_memory i) (\<lambda>found.
         case found of
           None \<Rightarrow> ret None
         | Some row \<Rightarrow>
             (if m_owner row \<noteq> p_user_id prin then raise (NotFound ''memory'' i)
              else if m_status row \<noteq> Uncertain then raise (BadRequest (NotUncertain (m_status row)))
              else thenA (delete_memories [i])
                   (thenA (writeAudit (memory_audit (actorLabel (User (p_user_id prin)))
                             ''memory.rejected'' i
                             [(''sourceType'', JStr (source_type_text (m_source_type row))),
                              (''sourceId'', JStr (m_source_id row)),
                              (''status'', JStr (status_text (m_status row)))] (m_owner row)
                             (Some (p_org_id prin))))
                   (thenA requireVectors (thenA (deletePoints [i])
                     (ret (Some row))))))))"

definition supersedeInTx :: "memory_actor \<Rightarrow> uuid \<Rightarrow> new_fact \<Rightarrow> supersession op" where
  "supersedeInTx actor i nf =
     (if kind_of actor \<noteq> UserKind \<and> kind_of actor \<noteq> ReconciliationKind
        then raise (BadRequest OnlyUserOrReconciliation)
      else bindA (lockRow i actor) (\<lambda>old.
           if m_status old = Replaced then raise (BadRequest SupersedeReplaced)
           else supersedeCore actor old nf))"

definition supersede :: "memory_actor \<Rightarrow> uuid \<Rightarrow> new_fact \<Rightarrow> supersession op" where
  "supersede actor i nf = transaction (supersedeInTx actor i nf)"

definition point_of_row :: "memory_row \<Rightarrow> rat list \<Rightarrow> point" where
  "point_of_row row vector =
     \<lparr>pt_id = m_id row, pt_vector = vector,
      pt_payload = \<lparr>pl_owner = m_owner row, pl_scope = m_scope row, pl_status = m_status row,
        pl_sensitive = m_sensitive row, pl_source_type = m_source_type row,
        pl_source_id = m_source_id row, pl_valid_until = m_valid_until row\<rparr>\<rparr>"

definition upsertVectors :: "memory_row list \<Rightarrow> rat list list \<Rightarrow> unit op" where
  "upsertVectors rows embeddings =
     (if length rows \<noteq> length embeddings
        then raise (BadRequest (EmbeddingCount (length embeddings) (length rows)))
      else thenA requireVectors (upsert (map2 point_of_row rows embeddings)))"

definition setAuthoredByUserBySourceSystem :: "source_type \<Rightarrow> string \<Rightarrow> bool \<Rightarrow> nat op" where
  "setAuthoredByUserBySourceSystem sourceType sourceId authored =
     (let hit = (\<lambda>r. m_source_type r = sourceType \<and> m_source_id r = sourceId)
      in thenA (write_memory (update_where hit (\<lambda>r. r\<lparr>m_authored_by_user := Some authored\<rparr>)))
           (reads (\<lambda>w. length (filter hit (t_memory (w_pg w))))))"

subsection \<open>Every method keeps the invariant\<close>

lemma or_else_status_not_Replaced:
  "or_else (map_option status_of_initial s) Active \<noteq> Replaced"
  by (cases s) (auto simp: or_else_def elim: status_of_initial.elims)

lemma row_of_fact_simps [simp]:
  "m_id (row_of_fact owner nf now i) = i" "m_owner (row_of_fact owner nf now i) = owner"
  "m_superseded_by (row_of_fact owner nf now i) = None"
  "m_source_id (row_of_fact owner nf now i) = nf_source_id nf"
  "m_status (row_of_fact owner nf now i) \<noteq> Replaced"
  by (simp_all add: row_of_fact_def or_else_status_not_Replaced)

lemma orgFor_run: "orgFor u w = (Inr (w_org_of w u), w)"
  by (simp add: orgFor_def reads_def)

lemma lockRow_Inr:
  "lockRow i actor w = (Inr row, w') \<Longrightarrow>
     w' = w \<and> memory_by_id i (w_pg w) = Some row \<and> m_id row = i \<and> \<not> foreign_to actor row"
  by (auto simp: lockRow_def bindA_def select_memory_def reads_def raise_def ret_def
      split: option.splits if_splits dest: memory_by_id_SomeD)

lemma keeps_lockRow: "mem_keeps (lockRow i actor)"
  unfolding lockRow_def select_memory_def
  by (intro mem.keeps_bind mem.keeps_reads) (auto split: option.splits intro: mem.control)

lemma keeps_insertFact: "mem_keeps (insertFact owner nf actor)"
proof -
  have "mem_keeps (insert_new (row_of_fact owner nf now))"
    if "js_trim owner \<noteq> []" "js_trim (nf_source_id nf) \<noteq> []" for now
    using that by (intro keeps_fromI keeps_insert_new) (simp add: row_ok_def)
  then show ?thesis
    unfolding insertFact_def
    by (auto intro!: mem.control mem.keeps_orgFor keeps_writeAudit)
qed

text \<open>
  The shared shape of the mutators: lock the row, then update it from the locked copy, then
  audit and patch the index.
\<close>

lemma keeps_locked:
  assumes "\<And>row w. m_id row = i \<Longrightarrow> memory_by_id i (w_pg w) = Some row \<Longrightarrow> row_ok row \<Longrightarrow>
      \<not> foreign_to actor row \<Longrightarrow> mem_keeps_from (f row) w"
  shows "mem_keeps (bindA (lockRow i actor) f)"
proof (intro keeps_fromI mem.from_bind keepsD [OF keeps_lockRow])
  fix s row w
  assume "lockRow i actor s = (Inr row, w)" and "memory_safe w"
  then show "mem_keeps_from (f row) w"
    by (auto dest!: lockRow_Inr intro!: assms simp: memory_safe_def rows_ok_def dest: memory_by_id_SomeD)
qed

lemmas row_defs = row_move_def same_fact_def row_ok_def pointer_step_def

lemma keeps_update_locked:
  assumes "memory_by_id (m_id row) (w_pg w) = Some row" and "row_ok row"
    and "row_move row (g row)" and "row_ok (g row)"
    and "pointer_step (t_memory (w_pg w)) row (g row)"
    and "\<And>u. mem_keeps (h u)"
  shows "mem_keeps_from (bindA (update_returning row g) h) w"
  using assms by (intro mem.from_bind keeps_update_returning keepsD [OF assms(6)]) auto

lemmas store_keeps = mem.control mem.outside_ops keeps_writeAudit keeps_enqueue

lemma keeps_transitionInTx: "mem_keeps (transitionInTx actor i to sync)"
  unfolding transitionInTx_def
proof (rule keeps_locked, goal_cases)
  case (1 row w)
  then show ?case
    using allowed_not_replaced(1) [of "m_status row" to actor]
    by (cases "checkTransition (m_status row) to actor")
      (auto intro!: keeps_update_locked store_keeps mem.from_raise simp: row_defs)
qed

lemma keeps_transition: "mem_keeps (transition actor i to)"
  unfolding transition_def by (intro mem.keeps_transaction keeps_transitionInTx)

lemma keeps_syncStatusPayloads: "mem_keeps (syncStatusPayloads ids st)"
  unfolding syncStatusPayloads_def by (intro store_keeps)

lemma keeps_select_memory: "mem_keeps (select_memory i)"
  unfolding select_memory_def by (rule mem.keeps_reads)

lemma keeps_bulkMarkOutdatedForOwner: "mem_keeps (bulkMarkOutdatedForOwner owner ids)"
proof -
  have "mem_keeps (bulk_one owner acc i)" for acc i
    unfolding bulk_one_def
    by (rule mem.keeps_bind [OF keeps_select_memory])
      (auto split: option.splits intro!: store_keeps keeps_transitionInTx)
  then show ?thesis
    unfolding bulkMarkOutdatedForOwner_def by (intro store_keeps)
qed

lemma keeps_createFromFact: "mem_keeps (createFromFact prin nf)"
  unfolding createFromFact_def by (intro mem.keeps_transaction keeps_insertFact)

lemma keeps_admitExtractedFact: "mem_keeps (admitExtractedFact owner nf)"
  unfolding admitExtractedFact_def by (rule keeps_insertFact)

lemma keeps_toggleSensitive: "mem_keeps (toggleSensitive prin i b)"
  unfolding toggleSensitive_def
  by (intro mem.keeps_transaction keeps_locked)
    (auto intro!: keeps_update_locked store_keeps mem.from_ret simp: row_defs)

lemma keeps_setScope: "mem_keeps (setScope prin i sc)"
  unfolding setScope_def
  by (intro mem.keeps_transaction keeps_locked)
    (auto intro!: keeps_update_locked store_keeps mem.from_ret simp: row_defs)

subsubsection \<open>Supersession\<close>

lemma insertFact_Inr:
  assumes "insertFact owner nf actor w = (Inr new, w')"
  shows "t_memory (w_pg w') = t_memory (w_pg w) @ [new] \<and> m_status new \<noteq> Replaced \<and>
    m_superseded_by new = None \<and> m_id new = w_uuids w (w_drawn w) \<and>
    new = row_of_fact owner nf (w_clock w) (m_id new) \<and> m_id new \<notin> memory_ids (w_pg w)"
  using assms
  by (auto simp: insertFact_def insert_new_def act_defs draw_uuid_def insert_memory_def orgFor_def
      writeAudit_def memory_ids_def split: if_splits)

lemma find_append_Some: "find P xs = Some x \<Longrightarrow> find P (xs @ ys) = Some x"
  by (induction xs) auto

lemma memory_by_id_append:
  "memory_by_id i d = Some r \<Longrightarrow> t_memory d' = t_memory d @ rows \<Longrightarrow> memory_by_id i d' = Some r"
  by (simp add: memory_by_id_def find_append_Some)

lemma keeps_supersedeCore:
  assumes row: "memory_by_id (m_id old) (w_pg w) = Some old" "row_ok old" "m_status old \<noteq> Replaced"
  shows "mem_keeps_from (supersedeCore actor old nf) w"
  unfolding supersedeCore_def Let_def keeps_from_reads
proof (intro mem.from_bind keepsD [OF keeps_insertFact] mem.from_bind [OF keepsD])
  fix new w'
  assume run: "insertFact (m_owner old) (nf\<lparr>nf_valid_from := Some (or_else (nf_valid_from nf) (w_clock w))\<rparr>)
      (actorLabel actor) w = (Inr new, w')"
  note new = insertFact_Inr [OF run]
  have "memory_by_id (m_id old) (w_pg w') = Some old"
    using new row(1) by (auto intro: memory_by_id_append)
  moreover have "m_id new \<noteq> m_id old"
    using new row(1) memory_by_id_None_iff [of "m_id old" "w_pg w"] by fastforce
  ultimately show "mem_keeps_from (update_returning old (\<lambda>r. r\<lparr>m_status := Replaced,
      m_valid_until := Some (or_else (nf_valid_from nf) (w_clock w)),
      m_superseded_by := Some (m_id new), m_updated_at := w_clock w\<rparr>)) w'"
    using row new by (intro keeps_update_returning) (auto simp: row_defs)
qed (intro keepsD store_keeps)+

lemma keeps_supersedeInTx: "mem_keeps (supersedeInTx actor i nf)"
  unfolding supersedeInTx_def
  by (intro mem.keeps_if mem.keeps_raise keeps_locked)
    (auto intro!: mem.from_raise keeps_supersedeCore)

lemma keeps_supersede: "mem_keeps (supersede actor i nf)"
  unfolding supersede_def by (intro mem.keeps_transaction keeps_supersedeInTx)

lemma keeps_editContentInTx: "mem_keeps (editContentInTx prin i content)"
  unfolding editContentInTx_def
  by (intro keeps_locked)
    (auto intro!: mem.from_raise mem.from_bind keeps_supersedeCore keepsD [OF mem.keeps_then]
      store_keeps)

lemma keeps_editContent: "mem_keeps (editContent prin i content)"
  unfolding editContent_def by (intro mem.keeps_transaction keeps_editContentInTx)

lemma keeps_rejectUncertain: "mem_keeps (rejectUncertain prin i)"
  unfolding rejectUncertain_def
  by (intro mem.keeps_transaction mem.keeps_bind keeps_select_memory)
    (auto split: option.splits intro!: store_keeps keeps_delete_memories)

lemma keeps_upsertVectors: "mem_keeps (upsertVectors rows embeddings)"
  unfolding upsertVectors_def by (intro store_keeps)

lemma pointers_Cons:
  "pointers (r # rs) =
     (case m_superseded_by r of None \<Rightarrow> pointers rs | Some s \<Rightarrow> insert (m_id r, s) (pointers rs))"
  by (auto simp: pointers_def split: option.splits)

lemma pointers_map:
  assumes "\<And>r. m_id (g r) = m_id r \<and> m_superseded_by (g r) = m_superseded_by r"
  shows "pointers (map g rows) = pointers rows"
proof (induction rows)
  case Nil
  show ?case by (simp add: pointers_def)
next
  case (Cons r rs)
  then show ?case using assms [of r] by (simp add: pointers_Cons split: option.splits)
qed

lemma rows_ok_same_ids:
  assumes ok: "rows_ok rows" and ids: "map m_id new = map m_id rows"
    and all: "\<forall>r \<in> set new. row_ok r" and sub: "pointers new \<subseteq> pointers rows"
  shows "rows_ok new"
proof -
  from ids have idset: "m_id ` set new = m_id ` set rows" by (metis set_map)
  have "fk_ok rows" and "acyclic (pointers rows)" and "distinct (map m_id rows)"
    using ok by (simp_all add: rows_ok_def)
  then have "fk_ok new" and "acyclic (pointers new)"
    using sub idset unfolding fk_ok_alt by (auto intro: acyclic_subset)
  with \<open>distinct (map m_id rows)\<close> ids all show ?thesis
    unfolding rows_ok_def by metis
qed

lemma keeps_write_map:
  assumes "\<And>r. row_move r (f r) \<and> m_superseded_by (f r) = m_superseded_by r \<and>
      m_status (f r) = m_status r"
  shows "mem_keeps (write_memory (update_where hit f))"
proof (rule keeps_fromI)
  fix w :: world
  let ?rows = "t_memory (w_pg w)" and ?new = "update_where hit f (t_memory (w_pg w))"
  let ?g = "\<lambda>r. if hit r then f r else r"
  have g: "m_id (?g r) = m_id r \<and> m_superseded_by (?g r) = m_superseded_by r \<and> row_move r (?g r) \<and>
      (row_ok (?g r) \<longleftrightarrow> row_ok r)" for r
    using assms [of r] by (auto simp: row_defs)
  have new: "?new = map ?g ?rows" by (simp add: update_where_map)
  have ids: "map m_id ?new = map m_id ?rows" using g by (simp add: new)
  then have idset: "m_id ` set ?new = m_id ` set ?rows" by (metis set_map)
  have "pointers ?new = pointers ?rows"
    unfolding new by (rule pointers_map) (use g in blast)
  { assume safe: "memory_safe w"
    then have ok: "rows_ok ?rows" by (simp add: memory_safe_def)
    have "\<forall>r \<in> set ?new. row_ok r"
    proof
      fix r
      assume "r \<in> set ?new"
      then obtain p where p: "p \<in> set ?rows" "r = ?g p" unfolding in_set_update_where by blast
      from ok p(1) have "row_ok p" by (simp add: rows_ok_def)
      with g [of p] p(2) show "row_ok r" by blast
    qed
    with ok ids have "rows_ok ?new"
      by (rule rows_ok_same_ids) (simp add: \<open>pointers ?new = pointers ?rows\<close>)
    moreover have "rows_move ?rows ?new"
      unfolding rows_move_def
    proof (intro ballI impI)
      fix q q'
      assume q: "q \<in> set ?rows" "q' \<in> set ?new" and eq: "m_id q' = m_id q"
      then obtain p where p: "p \<in> set ?rows" "q' = ?g p" unfolding in_set_update_where by blast
      with g [of p] eq have "m_id p = m_id q" by simp
      with safe p(1) q(1) have "p = q"
        by (auto simp: memory_safe_def rows_ok_def dest: distinct_key_eq)
      with p(2) g show "row_move q q'" by blast
    qed
    ultimately have "memory_safe (update_pg (\<lambda>d. d\<lparr>t_memory := ?new\<rparr>) w)"
      and "memory_move w (update_pg (\<lambda>d. d\<lparr>t_memory := ?new\<rparr>) w)"
      using safe idset
      by (auto simp: memory_safe_def memory_move_def ids_drawn_def relations_ok_def memory_ids_def) }
  then show "mem_keeps_from (write_memory (update_where hit f)) w"
    by (auto simp: keeps_from_def wp_def write_memory_def Let_def memory_move_refl)
qed

lemma keeps_setAuthoredByUser: "mem_keeps (setAuthoredByUserBySourceSystem st si b)"
  unfolding setAuthoredByUserBySourceSystem_def Let_def
  by (intro store_keeps keeps_write_map) (simp add: row_defs)

lemmas memory_store_keeps = keeps_createFromFact keeps_admitExtractedFact keeps_transition
  keeps_transitionInTx keeps_syncStatusPayloads keeps_bulkMarkOutdatedForOwner keeps_toggleSensitive
  keeps_setScope keeps_editContentInTx keeps_editContent keeps_rejectUncertain keeps_supersedeInTx
  keeps_supersede keeps_upsertVectors keeps_setAuthoredByUser keeps_lockRow keeps_select_memory

end
