(* ===== verification/Samples.thy ===== *)
theory Samples
  imports Memory_Store
begin

text \<open>
  A small instance on which the theorems are applied: five memories of one owner (two active,
  one approved, one uncertain, one replaced by the second), their points, no pending faults.
  It satisfies the invariant of the memory tables.
\<close>

definition sample_id :: "nat \<Rightarrow> uuid" where
  "sample_id n = CHR ''m'' # replicate n (CHR ''i'')"

definition sample_row :: "nat \<Rightarrow> memory_status \<Rightarrow> time \<Rightarrow> uuid option \<Rightarrow> memory_row" where
  "sample_row n st t ptr =
     \<lparr>m_id = sample_id n, m_owner = ''ann'', m_scope = Private, m_source_type = UserNote,
      m_source_id = ''note'' @ replicate n (CHR ''i''), m_status = st, m_sensitive = False,
      m_entities = [''Ann''], m_temporal_unresolved = [], m_subject_entity = None, m_kind = None,
      m_authored_by_user = None, m_valid_from = Some t, m_valid_until = None, m_superseded_by = ptr,
      m_content = Some (''fact'' @ replicate n (CHR ''i'')), m_embedding_model = None,
      m_created_at = t, m_updated_at = t\<rparr>"

definition sample_rows :: "memory_row list" where
  "sample_rows =
     [sample_row 0 Active 10 None, sample_row 1 Active 20 None, sample_row 2 UserApproved 30 None,
      sample_row 3 Uncertain 40 None, sample_row 4 Replaced 5 (Some (sample_id 1))]"

definition sample_point :: "memory_row \<Rightarrow> point" where
  "sample_point r =
     \<lparr>pt_id = m_id r, pt_vector = [1], pt_payload = \<lparr>pl_owner = m_owner r, pl_scope = m_scope r,
        pl_status = m_status r, pl_sensitive = m_sensitive r, pl_source_type = m_source_type r,
        pl_source_id = m_source_id r, pl_valid_until = m_valid_until r\<rparr>\<rparr>"

definition sample_pg :: pg where
  "sample_pg =
     \<lparr>t_memory = sample_rows, t_relation = [], t_receipt = [], t_file = [], t_alert = [], t_audit = [],
      t_outbox = [], t_jobs = [], t_job_execution = [], t_dead_letter = [], t_approval = [], t_source = [], t_chat = [], t_task = [],
      t_dormant = [], t_dream_run = [], t_dream_action = [], t_verification = []\<rparr>"

definition sample_world :: world where
  "sample_world =
     \<lparr>w_pg = sample_pg, w_points = map sample_point sample_rows, w_objects = [], w_clock = 100,
      w_uuids = sample_id, w_drawn = 5, w_org_of = (\<lambda>_. Some ''org''), w_has_vectors = True,
      w_faults = []\<rparr>"

definition sample_principal :: principal where
  "sample_principal = \<lparr>p_user_id = ''ann'', p_org_id = ''org''\<rparr>"

lemma sample_id_inj: "inj sample_id"
  by (rule injI) (auto simp: sample_id_def replicate_eq_replicate)

lemma sample_id_eq [simp]: "sample_id m = sample_id n \<longleftrightarrow> m = n"
  using sample_id_inj by (auto dest: injD)

lemma sample_row_simps [simp]:
  "m_id (sample_row n st t p) = sample_id n" "m_status (sample_row n st t p) = st"
  "m_superseded_by (sample_row n st t p) = p" "m_owner (sample_row n st t p) = ''ann''"
  by (simp_all add: sample_row_def)

lemma sample_row_ok: "p \<noteq> None \<longrightarrow> st = Replaced \<Longrightarrow> row_ok (sample_row n st t p)"
  by (auto simp: row_ok_def sample_row_def js_trim_eq_Nil js_space_def)

lemma sample_pointers: "pointers sample_rows = {(sample_id 4, sample_id 1)}"
  by (simp add: sample_rows_def pointers_Cons pointers_def [of "[]"])

lemma sample_rows_ok: "rows_ok sample_rows"
proof -
  have "acyclic {(sample_id 4, sample_id 1)}"
    using acyclic_insert [of "sample_id 4" "sample_id 1" "{}"] by (simp add: acyclic_def)
  then have "acyclic (pointers sample_rows)" by (simp only: sample_pointers)
  moreover have "\<forall>r \<in> set sample_rows. row_ok r"
    by (simp add: sample_rows_def sample_row_ok)
  ultimately show ?thesis
    by (simp add: rows_ok_def fk_ok_def) (simp add: sample_rows_def)
qed

lemma sample_safe: "memory_safe sample_world"
proof -
  have "m_id ` set sample_rows \<subseteq> sample_id ` {..<5}" by (simp add: sample_rows_def)
  then show ?thesis
    using sample_rows_ok sample_id_inj
    by (simp add: memory_safe_def relations_ok_def ids_drawn_def sample_world_def sample_pg_def memory_ids_def)
qed

end
