(* ===== verification/Gates.thy ===== *)
theory Gates
  imports Samples "HOL-Library.Product_Lexorder"
begin

text \<open>
  The scope and sensitivity gates, in their two forms: the WHERE clause \<^verbatim>\<open>visibleTo\<close> of
  \<^verbatim>\<open>memory/memory.store.ts\<close> (with the dashboard filters) and the Qdrant payload filter
  \<^verbatim>\<open>buildGateFilter\<close> of \<^verbatim>\<open>memory/persistence/vector-store.ts\<close>. The search of Qdrant is not
  code of the repository: it is the argument \<open>search\<close> of the definitions that use it, and
  \<open>search_respects_filter\<close> is what its documentation promises. The same holds for the trigram
  similarity of \<^verbatim>\<open>pg_trgm\<close>, the argument \<open>similar\<close>.
\<close>

subsection \<open>The gates as a WHERE clause\<close>

record memory_filters =
  ff_scope :: "memory_scope option"
  ff_status :: "memory_status option"
  ff_sensitive_only :: bool
  ff_entity :: "string option"
  ff_mine :: bool

definition no_filters :: memory_filters where
  "no_filters = \<lparr>ff_scope = None, ff_status = None, ff_sensitive_only = False, ff_entity = None, ff_mine = False\<rparr>"

definition visibleTo :: "principal \<Rightarrow> bool \<Rightarrow> memory_row \<Rightarrow> bool" where
  "visibleTo prin includeSensitive row \<longleftrightarrow>
     (m_owner row = p_user_id prin \<or> m_scope row = Shared) \<and>
     (if includeSensitive then \<not> m_sensitive row \<or> m_owner row = p_user_id prin
      else \<not> m_sensitive row)"

definition filterClauses ::
  "(string \<Rightarrow> string \<Rightarrow> bool) \<Rightarrow> principal \<Rightarrow> memory_filters \<Rightarrow> memory_row \<Rightarrow> bool" where
  "filterClauses similar prin filters row \<longleftrightarrow>
     (ff_mine filters \<longrightarrow> m_owner row = p_user_id prin) \<and>
     (case ff_scope filters of None \<Rightarrow> True | Some s \<Rightarrow> m_scope row = s) \<and>
     (case ff_status filters of None \<Rightarrow> True | Some s \<Rightarrow> m_status row = s) \<and>
     (ff_sensitive_only filters \<longrightarrow> m_sensitive row) \<and>
     (case ff_entity filters of None \<Rightarrow> True
      | Some e \<Rightarrow> js_trim e = [] \<or> list_ex (\<lambda>hit. similar hit (js_trim e)) (m_entities row))"

subsection \<open>The gates as a payload filter\<close>

datatype field_value = VStr string | VBool bool

datatype field_test = MatchValue field_value | MatchAny "string list"

datatype condition =
    Field string field_test
  | Should "(string \<times> field_test) list"

type_synonym gate_filter = "condition list"

definition buildGateFilter :: "principal \<Rightarrow> bool \<Rightarrow> gate_filter" where
  "buildGateFilter prin includeSensitive =
     (let ownRows = (''owner_id'', MatchValue (VStr (p_user_id prin)));
          scopeGate = Should [ownRows, (''scope'', MatchValue (VStr ''shared''))];
          notSensitive = (''sensitive'', MatchValue (VBool False));
          sensitiveGate = (if includeSensitive then Should [notSensitive, ownRows]
                           else Field (fst notSensitive) (snd notSensitive))
      in [scopeGate, sensitiveGate])"

text \<open>How Qdrant documents the filter language: a field against the stored payload, any of a
  \<^verbatim>\<open>should\<close>, all of a \<^verbatim>\<open>must\<close>.\<close>

definition payload_field :: "point_payload \<Rightarrow> string \<Rightarrow> field_value option" where
  "payload_field p key =
     (if key = ''owner_id'' then Some (VStr (pl_owner p))
      else if key = ''scope'' then Some (VStr (scope_text (pl_scope p)))
      else if key = ''status'' then Some (VStr (status_text (pl_status p)))
      else if key = ''sensitive'' then Some (VBool (pl_sensitive p))
      else if key = ''source_type'' then Some (VStr (source_type_text (pl_source_type p)))
      else if key = ''source_id'' then Some (VStr (pl_source_id p))
      else None)"

fun field_ok :: "point_payload \<Rightarrow> string \<Rightarrow> field_test \<Rightarrow> bool" where
  "field_ok p key (MatchValue v) = (payload_field p key = Some v)"
| "field_ok p key (MatchAny vs) = (payload_field p key \<in> set (map (\<lambda>v. Some (VStr v)) vs))"

fun condition_ok :: "point_payload \<Rightarrow> condition \<Rightarrow> bool" where
  "condition_ok p (Field key t) = field_ok p key t"
| "condition_ok p (Should ts) = list_ex (\<lambda>(key, t). field_ok p key t) ts"

definition satisfies :: "gate_filter \<Rightarrow> point_payload \<Rightarrow> bool" where
  "satisfies must p = list_all (condition_ok p) must"

type_synonym qdrant_search = "point list \<Rightarrow> rat list \<Rightarrow> gate_filter \<Rightarrow> nat \<Rightarrow> (uuid \<times> rat) list"

definition search_respects_filter :: "qdrant_search \<Rightarrow> bool" where
  "search_respects_filter search \<longleftrightarrow>
     (\<forall>points vec filter limit. length (search points vec filter limit) \<le> limit \<and>
        (\<forall>(i, score) \<in> set (search points vec filter limit).
           \<exists>p \<in> set points. pt_id p = i \<and> satisfies filter (pt_payload p)))"

subsection \<open>Vector search\<close>

record search_options =
  so_include_sensitive :: bool
  so_top_k :: nat
  so_scope :: "memory_scope option"
  so_owner_only :: bool
  so_statuses :: "memory_status list"

record memory_search_hit =
  h_memory_id :: uuid
  h_score :: rat

definition search_filter :: "principal \<Rightarrow> search_options \<Rightarrow> gate_filter" where
  "search_filter prin opts =
     buildGateFilter prin (so_include_sensitive opts) @
     (case so_scope opts of None \<Rightarrow> [] | Some s \<Rightarrow> [Field ''scope'' (MatchValue (VStr (scope_text s)))]) @
     (if so_owner_only opts then [Field ''owner_id'' (MatchValue (VStr (p_user_id prin)))] else []) @
     (if so_statuses opts \<noteq> [] then [Field ''status'' (MatchAny (map status_text (so_statuses opts)))] else [])"

definition clamp01 :: "rat \<Rightarrow> rat" where
  "clamp01 s = min 1 (max 0 ((s + 1) / 2))"

definition vectorSearch ::
  "qdrant_search \<Rightarrow> principal \<Rightarrow> rat list \<Rightarrow> search_options \<Rightarrow> memory_search_hit list op" where
  "vectorSearch search prin embedding opts =
     thenA requireVectors
       (external QdrantFailed
         (\<lambda>w. map (\<lambda>(i, score). \<lparr>h_memory_id = i, h_score = clamp01 score\<rparr>)
                (search (w_points w) embedding (search_filter prin opts) (so_top_k opts)))
         (\<lambda>w. w))"

subsection \<open>Both forms agree\<close>

definition payload_of :: "memory_row \<Rightarrow> point_payload" where
  "payload_of r = \<lparr>pl_owner = m_owner r, pl_scope = m_scope r, pl_status = m_status r,
     pl_sensitive = m_sensitive r, pl_source_type = m_source_type r, pl_source_id = m_source_id r,
     pl_valid_until = m_valid_until r\<rparr>"

lemma scope_text_shared: "scope_text s = ''shared'' \<longleftrightarrow> s = Shared"
  by (cases s) simp_all

lemma scope_text_inject: "scope_text s = scope_text t \<longleftrightarrow> s = t"
  by (cases s; cases t) simp_all

lemma status_text_inject: "status_text s = status_text t \<longleftrightarrow> s = t"
  by (cases s; cases t) simp_all

lemma field_ok_simps:
  "field_ok p ''owner_id'' (MatchValue (VStr u)) \<longleftrightarrow> pl_owner p = u"
  "field_ok p ''scope'' (MatchValue (VStr (scope_text s))) \<longleftrightarrow> pl_scope p = s"
  "field_ok p ''scope'' (MatchValue (VStr ''shared'')) \<longleftrightarrow> pl_scope p = Shared"
  "field_ok p ''sensitive'' (MatchValue (VBool b)) \<longleftrightarrow> pl_sensitive p = b"
  "field_ok p ''status'' (MatchAny (map status_text ss)) \<longleftrightarrow> pl_status p \<in> set ss"
  by (auto simp: payload_field_def scope_text_shared scope_text_inject status_text_inject image_iff)

lemma satisfies_gate:
  "satisfies (buildGateFilter prin inc) p \<longleftrightarrow>
     (pl_owner p = p_user_id prin \<or> pl_scope p = Shared) \<and>
     (if inc then \<not> pl_sensitive p \<or> pl_owner p = p_user_id prin else \<not> pl_sensitive p)"
  by (auto simp: satisfies_def buildGateFilter_def Let_def field_ok_simps simp del: field_ok.simps)

lemma satisfies_append: "satisfies (f @ g) p \<longleftrightarrow> satisfies f p \<and> satisfies g p"
  by (simp add: satisfies_def)

lemma satisfies_search_filter:
  "satisfies (search_filter prin opts) p \<longleftrightarrow>
     satisfies (buildGateFilter prin (so_include_sensitive opts)) p \<and>
     (case so_scope opts of None \<Rightarrow> True | Some s \<Rightarrow> pl_scope p = s) \<and>
     (so_owner_only opts \<longrightarrow> pl_owner p = p_user_id prin) \<and>
     (so_statuses opts \<noteq> [] \<longrightarrow> pl_status p \<in> set (so_statuses opts))"
  unfolding search_filter_def satisfies_append
  by (auto simp: satisfies_def field_ok_simps simp del: field_ok.simps split: option.splits)

text \<open>
  C8. The payload filter sent to the vector index accepts the payload of a memory row exactly
  when the SQL gate on scope and sensitivity accepts the row.
\<close>

theorem gates_agree:
  "satisfies (buildGateFilter prin includeSensitive) (payload_of row) = visibleTo prin includeSensitive row"
  by (auto simp: satisfies_gate visibleTo_def payload_of_def)

text \<open>
  C9. With a vector index that returns only points matching its filter, a semantic search
  returns at most topK hits with scores between 0 and 1, each hit a stored point the caller
  may see: his own, or shared and not sensitive, sensitive ones only on opt-in, within the
  requested owner and status narrowing.
\<close>

theorem vector_search_gated:
  assumes "search_respects_filter search"
    and "vectorSearch search prin embedding opts w = (Inr hits, w')"
  shows "length hits \<le> so_top_k opts \<and>
    (\<forall>h \<in> set hits. 0 \<le> h_score h \<and> h_score h \<le> 1 \<and>
       (\<exists>p \<in> set (w_points w). pt_id p = h_memory_id h \<and>
          (pl_owner (pt_payload p) = p_user_id prin \<or>
           pl_scope (pt_payload p) = Shared \<and> \<not> pl_sensitive (pt_payload p)) \<and>
          (pl_sensitive (pt_payload p) \<longrightarrow> so_include_sensitive opts) \<and>
          (so_owner_only opts \<longrightarrow> pl_owner (pt_payload p) = p_user_id prin) \<and>
          (so_statuses opts \<noteq> [] \<longrightarrow> pl_status (pt_payload p) \<in> set (so_statuses opts))))"
proof -
  let ?raw = "search (w_points w) embedding (search_filter prin opts) (so_top_k opts)"
  from assms(2) have hits: "hits = map (\<lambda>(i, score). \<lparr>h_memory_id = i, h_score = clamp01 score\<rparr>) ?raw"
    by (auto simp: vectorSearch_def act_defs requireVectors_def external_def split: if_splits fault.splits)
  from assms(1) have "length ?raw \<le> so_top_k opts"
    and raw: "\<And>i score. (i, score) \<in> set ?raw \<Longrightarrow>
      \<exists>p \<in> set (w_points w). pt_id p = i \<and> satisfies (search_filter prin opts) (pt_payload p)"
    unfolding search_respects_filter_def by blast+
  moreover have "0 \<le> clamp01 s" "clamp01 s \<le> 1" for s by (simp_all add: clamp01_def)
  moreover have "satisfies (search_filter prin opts) p \<Longrightarrow>
      (pl_owner p = p_user_id prin \<or> pl_scope p = Shared \<and> \<not> pl_sensitive p) \<and>
      (pl_sensitive p \<longrightarrow> so_include_sensitive opts) \<and>
      (so_owner_only opts \<longrightarrow> pl_owner p = p_user_id prin) \<and>
      (so_statuses opts \<noteq> [] \<longrightarrow> pl_status p \<in> set (so_statuses opts))" for p
    by (auto simp: satisfies_search_filter satisfies_gate split: if_splits)
  ultimately show ?thesis
    unfolding hits by (fastforce dest!: raw)
qed

text \<open>An exact search that keeps the promise: the matching points, in storage order.\<close>

definition dot :: "rat list \<Rightarrow> rat list \<Rightarrow> rat" where
  "dot xs ys = sum_list (map2 (*) xs ys)"

definition exact_search :: qdrant_search where
  "exact_search points vec must limit =
     take limit (map (\<lambda>p. (pt_id p, dot vec (pt_vector p)))
       (filter (\<lambda>p. satisfies must (pt_payload p)) points))"

lemma exact_search_respects: "search_respects_filter exact_search"
  unfolding search_respects_filter_def exact_search_def
  by (auto dest!: in_set_takeD)

theorem vector_search_gated_witness:
  "\<exists>p \<in> set (w_points sample_world). pt_id p = sample_id 2 \<and> pl_status (pt_payload p) = UserApproved"
proof -
  let ?opts = "\<lparr>so_include_sensitive = False, so_top_k = 1, so_scope = None, so_owner_only = True,
      so_statuses = [UserApproved]\<rparr>"
  let ?m = "vectorSearch exact_search sample_principal [1] ?opts sample_world"
  have "fst ?m = Inr [\<lparr>h_memory_id = sample_id 2, h_score = 1\<rparr>]" by code_simp
  then have run: "?m = (Inr [\<lparr>h_memory_id = sample_id 2, h_score = 1\<rparr>], snd ?m)" by (rule run_pair)
  from vector_search_gated [OF exact_search_respects run] show ?thesis by simp blast
qed

end
