(* ===== verification/Memory_Reads.thy ===== *)
theory Memory_Reads
  imports Gates Memory_Store "HOL-Library.Multiset"
begin

text \<open>
  The read side of \<^verbatim>\<open>memory/memory.store.ts\<close>: every read a user can cause goes through
  \<open>visibleTo\<close>. ORDER BY is a stable sort on the key, LIMIT and OFFSET are \<open>take\<close> and \<open>drop\<close>. A
  LIMIT 1 without ORDER BY takes the first row in physical order, and audit rows of one
  millisecond keep their insertion order (their ids are random). Full text search and
  trigram similarity are the arguments \<open>fts_match\<close>, \<open>fts_rank\<close>, \<open>similar\<close> and \<open>similarity\<close>.
\<close>

subsection \<open>Gated reads\<close>

definition newest_first :: "memory_row list \<Rightarrow> memory_row list" where
  "newest_first rows = sort_key (\<lambda>r. (- m_created_at r, m_id r)) rows"

definition oldest_first :: "memory_row list \<Rightarrow> memory_row list" where
  "oldest_first rows = sort_key (\<lambda>r. (m_created_at r, m_id r)) rows"

definition getForPrincipal :: "principal \<Rightarrow> bool \<Rightarrow> uuid \<Rightarrow> pg \<Rightarrow> memory_row option" where
  "getForPrincipal prin inc i d = find (\<lambda>r. m_id r = i \<and> visibleTo prin inc r) (t_memory d)"

definition listForPrincipal ::
  "(string \<Rightarrow> string \<Rightarrow> bool) \<Rightarrow> principal \<Rightarrow> bool \<Rightarrow> memory_filters \<Rightarrow> nat option \<Rightarrow> nat option \<Rightarrow>
     pg \<Rightarrow> memory_row list" where
  "listForPrincipal similar prin inc filters limit offset d =
     take (min (or_else limit 50) 200) (drop (or_else offset 0)
       (newest_first (filter (\<lambda>r. visibleTo prin inc r \<and> filterClauses similar prin filters r) (t_memory d))))"

definition listForSubject ::
  "(string \<Rightarrow> string \<Rightarrow> bool) \<Rightarrow> principal \<Rightarrow> bool \<Rightarrow> string \<Rightarrow> nat option \<Rightarrow> pg \<Rightarrow> memory_row list" where
  "listForSubject similar prin inc subject limit d =
     (let name = js_trim subject in
      if name = [] then []
      else take (min (or_else limit 200) 200) (newest_first (filter (\<lambda>r. visibleTo prin inc r \<and>
             ((case m_subject_entity r of None \<Rightarrow> False | Some s \<Rightarrow> similar s name) \<or>
              list_ex (\<lambda>hit. similar hit name) (m_entities r))) (t_memory d))))"

text \<open>
  The paged export. With a page size of zero the loop of the code never ends: the definition
  is a partial function, and \<open>None\<close> is that outcome.
\<close>

partial_function (option) export_pages ::
  "memory_row list \<Rightarrow> nat \<Rightarrow> nat \<Rightarrow> memory_row list \<Rightarrow> memory_row list option" where
  "export_pages rows pageSize offset acc =
     (if offset < 200000
      then let page = take pageSize (drop offset rows)
           in if length page < pageSize then Some (acc @ page)
              else export_pages rows pageSize (offset + pageSize) (acc @ page)
      else Some acc)"

declare export_pages.simps [code]

definition listAllForPrincipal :: "principal \<Rightarrow> bool \<Rightarrow> nat option \<Rightarrow> pg \<Rightarrow> memory_row list option" where
  "listAllForPrincipal prin inc pageSize d =
     export_pages (oldest_first (filter (visibleTo prin inc) (t_memory d))) (min (or_else pageSize 500) 1000) 0 []"

definition countForPrincipal ::
  "(string \<Rightarrow> string \<Rightarrow> bool) \<Rightarrow> principal \<Rightarrow> bool \<Rightarrow> memory_filters \<Rightarrow> pg \<Rightarrow> nat" where
  "countForPrincipal similar prin inc filters d =
     length (filter (\<lambda>r. visibleTo prin inc r \<and> filterClauses similar prin filters r) (t_memory d))"

definition statusCountsForPrincipal :: "principal \<Rightarrow> pg \<Rightarrow> (memory_status \<times> nat) list" where
  "statusCountsForPrincipal prin d =
     map (\<lambda>s. (s, length (filter (\<lambda>r. m_status r = s) (filter (visibleTo prin True) (t_memory d))))) MEMORY_STATUSES"

record source_day =
  sd_day :: string
  sd_source_type :: source_type
  sd_sources :: nat

definition sourceDailyCountsForPrincipal :: "principal \<Rightarrow> nat \<Rightarrow> world \<Rightarrow> source_day list" where
  "sourceDailyCountsForPrincipal prin days w =
     (let since = w_clock w - int days * 86400000;
          rows = filter (\<lambda>r. visibleTo prin True r \<and> m_created_at r \<ge> since) (t_memory (w_pg w));
          keys = dedupe (map (\<lambda>r. (iso_day (m_created_at r), m_source_type r)) rows)
      in map (\<lambda>(day, st). \<lparr>sd_day = day, sd_source_type = st,
           sd_sources = length (dedupe (map m_source_id
             (filter (\<lambda>r. iso_day (m_created_at r) = day \<and> m_source_type r = st) rows)))\<rparr>) keys)"

definition oldestUncertainAtForPrincipal :: "principal \<Rightarrow> pg \<Rightarrow> time option" where
  "oldestUncertainAtForPrincipal prin d =
     (case map m_created_at (filter (\<lambda>r. visibleTo prin False r \<and> m_owner r = p_user_id prin \<and>
             m_status r = Uncertain) (t_memory d)) of
        [] \<Rightarrow> None
      | t # ts \<Rightarrow> Some (fold min ts t))"

subsection \<open>The supersession chain\<close>

fun chain_back :: "nat \<Rightarrow> principal \<Rightarrow> bool \<Rightarrow> pg \<Rightarrow> memory_row \<Rightarrow> memory_row list \<Rightarrow> memory_row list" where
  "chain_back 0 prin inc d head rest = head # rest"
| "chain_back (Suc hops) prin inc d head rest =
     (case find (\<lambda>r. m_superseded_by r = Some (m_id head) \<and> visibleTo prin inc r) (t_memory d) of
        None \<Rightarrow> head # rest
      | Some prev \<Rightarrow> chain_back hops prin inc d prev (head # rest))"

fun chain_forward :: "nat \<Rightarrow> principal \<Rightarrow> bool \<Rightarrow> pg \<Rightarrow> memory_row \<Rightarrow> memory_row list" where
  "chain_forward 0 prin inc d tail = []"
| "chain_forward (Suc hops) prin inc d tail =
     (case m_superseded_by tail of
        None \<Rightarrow> []
      | Some nxt \<Rightarrow>
          (case getForPrincipal prin inc nxt d of
             None \<Rightarrow> []
           | Some row \<Rightarrow> row # chain_forward hops prin inc d row))"

definition getChain :: "principal \<Rightarrow> bool \<Rightarrow> uuid \<Rightarrow> pg \<Rightarrow> memory_row list" where
  "getChain prin inc i d =
     (case getForPrincipal prin inc i d of
        None \<Rightarrow> []
      | Some target \<Rightarrow> chain_back 50 prin inc d target (chain_forward 50 prin inc d target))"

subsection \<open>Search\<close>

record scored_memory =
  sm_memory :: memory_row
  sm_score :: rat

definition best_first :: "nat \<Rightarrow> scored_memory list \<Rightarrow> scored_memory list" where
  "best_first k rows = take k (sort_key (\<lambda>s. (- sm_score s, m_id (sm_memory s))) rows)"

definition ftsSearch ::
  "(string \<Rightarrow> memory_row \<Rightarrow> bool) \<Rightarrow> (string \<Rightarrow> memory_row \<Rightarrow> rat) \<Rightarrow> (string \<Rightarrow> string \<Rightarrow> bool) \<Rightarrow>
     principal \<Rightarrow> string \<Rightarrow> bool \<Rightarrow> memory_filters \<Rightarrow> nat \<Rightarrow> pg \<Rightarrow> scored_memory list" where
  "ftsSearch fts_match fts_rank similar prin query inc filters topK d =
     (if js_trim query = [] then []
      else best_first topK (map (\<lambda>r. \<lparr>sm_memory = r, sm_score = fts_rank query r\<rparr>)
             (filter (\<lambda>r. visibleTo prin inc r \<and> fts_match query r \<and> filterClauses similar prin filters r)
                (t_memory d))))"

definition wanted_names :: "string list \<Rightarrow> string list" where
  "wanted_names names = dedupe (filter (\<lambda>n. n \<noteq> []) (map js_trim names))"

definition entity_hit :: "(string \<Rightarrow> string \<Rightarrow> bool) \<Rightarrow> string list \<Rightarrow> memory_row \<Rightarrow> bool" where
  "entity_hit similar wanted r = list_ex (\<lambda>hit. list_ex (similar hit) wanted) (m_entities r)"

definition best_similarity :: "(string \<Rightarrow> string \<Rightarrow> rat) \<Rightarrow> string list \<Rightarrow> memory_row \<Rightarrow> rat" where
  "best_similarity similarity wanted r =
     fold max (concat (map (\<lambda>hit. map (similarity hit) wanted) (m_entities r))) 0"

definition entitySearch ::
  "(string \<Rightarrow> string \<Rightarrow> bool) \<Rightarrow> (string \<Rightarrow> string \<Rightarrow> rat) \<Rightarrow> principal \<Rightarrow> string list \<Rightarrow> bool \<Rightarrow>
     memory_filters \<Rightarrow> nat \<Rightarrow> pg \<Rightarrow> scored_memory list" where
  "entitySearch similar similarity prin names inc filters topK d =
     (let wanted = wanted_names names in
      if wanted = [] then []
      else best_first topK (map (\<lambda>r. \<lparr>sm_memory = r, sm_score = best_similarity similarity wanted r\<rparr>)
             (filter (\<lambda>r. visibleTo prin inc r \<and> entity_hit similar wanted r \<and>
                filterClauses similar prin filters r) (t_memory d))))"

definition getManyForPrincipal :: "principal \<Rightarrow> bool \<Rightarrow> uuid list \<Rightarrow> pg \<Rightarrow> memory_row list" where
  "getManyForPrincipal prin inc ids d =
     (if ids = [] then [] else filter (\<lambda>r. m_id r \<in> set ids \<and> visibleTo prin inc r) (t_memory d))"

record source_summary =
  ss_owner :: user_id
  ss_scope :: memory_scope
  ss_sensitive :: bool
  ss_created_at :: time

definition describeSource :: "source_type \<Rightarrow> string \<Rightarrow> pg \<Rightarrow> source_summary option" where
  "describeSource st si d =
     (case sort_key m_created_at (filter (\<lambda>r. m_source_type r = st \<and> m_source_id r = si) (t_memory d)) of
        [] \<Rightarrow> None
      | r # _ \<Rightarrow> Some \<lparr>ss_owner = m_owner r, ss_scope = m_scope r, ss_sensitive = m_sensitive r,
                     ss_created_at = m_created_at r\<rparr>)"

subsection \<open>Temporal reads\<close>

definition TEMPORAL_CANDIDATE_CAP :: nat where
  "TEMPORAL_CANDIDATE_CAP = 200"

definition fetch_at :: "principal \<Rightarrow> bool \<Rightarrow> time \<Rightarrow> (memory_row \<Rightarrow> bool) \<Rightarrow> pg \<Rightarrow> memory_row list" where
  "fetch_at prin inc t keeps_row d =
     take TEMPORAL_CANDIDATE_CAP (sort_key (\<lambda>r. (- or_else (m_valid_from r) (m_created_at r), m_id r))
       (filter (\<lambda>r. visibleTo prin inc r \<and> sql_keeps (intervalHoldsAtSql r t) \<and> keeps_row r) (t_memory d)))"

record point_in_time_hit =
  pit_memory :: memory_row
  pit_score :: "rat option"

definition temporal_candidates ::
  "(string \<Rightarrow> string \<Rightarrow> bool) \<Rightarrow> principal \<Rightarrow> bool \<Rightarrow> time \<Rightarrow> string list \<Rightarrow> pg \<Rightarrow> memory_row list" where
  "temporal_candidates similar prin inc t entities d =
     (let wanted = wanted_names entities;
          narrowed = (if wanted = [] then [] else fetch_at prin inc t (entity_hit similar wanted) d)
      in if narrowed = [] then fetch_at prin inc t (\<lambda>_. True) d else narrowed)"

definition pointInTime ::
  "(string \<Rightarrow> string \<Rightarrow> bool) \<Rightarrow> qdrant_search \<Rightarrow> principal \<Rightarrow> time \<Rightarrow> bool \<Rightarrow> nat \<Rightarrow> rat list option \<Rightarrow>
     string list \<Rightarrow> point_in_time_hit list op" where
  "pointInTime similar search prin t inc topK embedding entities =
     bindA (reads (\<lambda>w. temporal_candidates similar prin inc t entities (w_pg w))) (\<lambda>candidates.
     bindA (case embedding of
              None \<Rightarrow> ret []
            | Some e \<Rightarrow> (if candidates = [] then ret []
                         else vectorSearch search prin e \<lparr>so_include_sensitive = inc,
                                so_top_k = TEMPORAL_CANDIDATE_CAP, so_scope = None,
                                so_owner_only = False, so_statuses = []\<rparr>)) (\<lambda>hits.
     let scores = fold (\<lambda>h m. m(h_memory_id h \<mapsto> h_score h)) hits Map.empty in
     ret (take topK (sort_key (\<lambda>x. - or_else (pit_score x) (-1))
            (map (\<lambda>r. \<lparr>pit_memory = r, pit_score = scores (m_id r)\<rparr>) candidates)))))"

datatype memory_change_kind = Learned | StatusChanged | SupersededChange

record memory_change =
  ch_kind :: memory_change_kind
  ch_at :: time
  ch_memory :: memory_row
  ch_from :: "string option"
  ch_to :: "string option"
  ch_superseded_by :: "string option"
  ch_reason :: "string option"

definition CHANGE_STATUS_ACTIONS :: "string list" where
  "CHANGE_STATUS_ACTIONS =
     [''memory.status_transition'', ''memory.contradiction_dismiss_restored'', ''memory.contradiction_lifted'']"

definition CHANGE_SUPERSEDE_ACTIONS :: "string list" where
  "CHANGE_SUPERSEDE_ACTIONS = [''memory.superseded'', ''memory.merged'']"

definition detail_str :: "json \<Rightarrow> string \<Rightarrow> string option" where
  "detail_str j key =
     (case j of JObj kvs \<Rightarrow> (case map_of kvs key of Some (JStr s) \<Rightarrow> Some s | _ \<Rightarrow> None) | _ \<Rightarrow> None)"

definition change_of :: "memory_row list \<Rightarrow> audit_row \<Rightarrow> memory_change option" where
  "change_of visible a =
     (case find (\<lambda>r. m_id r = a_entity_id a) visible of
        None \<Rightarrow> None
      | Some target \<Rightarrow>
          (if a_action a \<in> set CHANGE_SUPERSEDE_ACTIONS
           then Some \<lparr>ch_kind = SupersededChange, ch_at = a_created_at a, ch_memory = target,
                  ch_from = None, ch_to = None,
                  ch_superseded_by = or_option (detail_str (a_detail a) ''supersededBy'')
                    (or_option (detail_str (a_detail a) ''survivor'') (m_superseded_by target)),
                  ch_reason = detail_str (a_detail a) ''reason''\<rparr>
           else Some \<lparr>ch_kind = StatusChanged, ch_at = a_created_at a, ch_memory = target,
                  ch_from = detail_str (a_detail a) ''from'',
                  ch_to = Some (or_else (detail_str (a_detail a) ''to'') (status_text (m_status target))),
                  ch_superseded_by = None, ch_reason = detail_str (a_detail a) ''reason''\<rparr>))"

definition changesSince :: "principal \<Rightarrow> bool \<Rightarrow> time \<Rightarrow> nat option \<Rightarrow> pg \<Rightarrow> memory_change list" where
  "changesSince prin inc since limit0 d =
     (let limit = min (or_else limit0 50) 200;
          learned = take limit (newest_first (filter (\<lambda>r. visibleTo prin inc r \<and> m_created_at r \<ge> since) (t_memory d)));
          auditRows = take (limit * 2) (sort_key (\<lambda>a. - a_created_at a)
            (filter (\<lambda>a. a_action a \<in> set (CHANGE_STATUS_ACTIONS @ CHANGE_SUPERSEDE_ACTIONS) \<and>
               a_entity_type a = ''memory'' \<and> a_created_at a \<ge> since \<and>
               a_owner_id a = Some (p_user_id prin)) (t_audit d)));
          visible = getManyForPrincipal prin inc (dedupe (map a_entity_id auditRows)) d;
          events = map (\<lambda>r. \<lparr>ch_kind = Learned, ch_at = m_created_at r, ch_memory = r, ch_from = None,
                     ch_to = None, ch_superseded_by = None, ch_reason = None\<rparr>) learned @
                   List.map_filter (change_of visible) auditRows
      in take limit (sort_key (\<lambda>e. - ch_at e) events))"

subsection \<open>System reads of the nightly job and the sweep\<close>

definition retrieveEmbeddings :: "uuid list \<Rightarrow> (uuid \<times> rat list) list op" where
  "retrieveEmbeddings ids =
     (if ids = [] then ret []
      else thenA requireVectors (external QdrantFailed
             (\<lambda>w. map (\<lambda>p. (pt_id p, pt_vector p)) (filter (\<lambda>p. pt_id p \<in> set ids) (w_points w)))
             (\<lambda>w. w)))"

definition listTouchedBetween :: "time \<Rightarrow> time \<Rightarrow> nat \<Rightarrow> pg \<Rightarrow> memory_row list" where
  "listTouchedBetween from' to limit d =
     take limit (sort_key (\<lambda>r. (m_owner r, m_created_at r)) (filter (\<lambda>r.
       (m_status r = Active \<or> m_status r = Uncertain) \<and>
       ((from' \<le> m_created_at r \<and> m_created_at r < to) \<or> (from' \<le> m_updated_at r \<and> m_updated_at r < to)))
       (t_memory d)))"

definition listLapsedActive :: "time \<Rightarrow> nat \<Rightarrow> pg \<Rightarrow> memory_row list" where
  "listLapsedActive asOf limit d =
     take limit (sort_key m_created_at (filter (\<lambda>r. m_status r = Active \<and>
       sql_keeps (sql_lt (m_valid_until r) (Some asOf))) (t_memory d)))"

definition listQuietCommitments :: "time \<Rightarrow> nat \<Rightarrow> pg \<Rightarrow> memory_row list" where
  "listQuietCommitments quietBefore limit d =
     take limit (sort_key m_created_at (filter (\<lambda>r. m_status r = Active \<and> m_kind r = Some Commitment \<and>
       m_created_at r < quietBefore \<and> m_updated_at r < quietBefore) (t_memory d)))"

definition getManySystem :: "uuid list \<Rightarrow> pg \<Rightarrow> memory_row list" where
  "getManySystem ids d = (if ids = [] then [] else filter (\<lambda>r. m_id r \<in> set ids) (t_memory d))"

definition listBySourceSystem :: "source_type \<Rightarrow> string \<Rightarrow> pg \<Rightarrow> memory_row list" where
  "listBySourceSystem st si d =
     oldest_first (filter (\<lambda>r. m_source_type r = st \<and> m_source_id r = si) (t_memory d))"

definition listByKindsSystem :: "fact_kind list \<Rightarrow> memory_status list \<Rightarrow> nat \<Rightarrow> pg \<Rightarrow> memory_row list" where
  "listByKindsSystem kinds statuses limit d =
     (if kinds = [] \<or> statuses = [] then []
      else take limit (oldest_first (filter (\<lambda>r. (case m_kind r of None \<Rightarrow> False | Some k \<Rightarrow> k \<in> set kinds) \<and>
             m_status r \<in> set statuses) (t_memory d))))"

subsection \<open>What the reads promise\<close>

lemma set_newest_first [simp]: "set (newest_first rows) = set rows"
  by (simp add: newest_first_def)

lemma set_oldest_first [simp]: "set (oldest_first rows) = set rows"
  by (simp add: oldest_first_def)

lemma getForPrincipal_SomeD:
  "getForPrincipal prin inc i d = Some r \<Longrightarrow> r \<in> set (t_memory d) \<and> m_id r = i \<and> visibleTo prin inc r"
  unfolding getForPrincipal_def by (auto dest: find_SomeD)

lemma fetch_at_D:
  "r \<in> set (fetch_at prin inc t P d) \<Longrightarrow>
     r \<in> set (t_memory d) \<and> visibleTo prin inc r \<and> sql_keeps (intervalHoldsAtSql r t)"
  by (auto simp: fetch_at_def dest!: in_set_takeD)

definition readable :: "principal \<Rightarrow> bool \<Rightarrow> pg \<Rightarrow> memory_row \<Rightarrow> bool" where
  "readable prin inc d r \<longleftrightarrow> r \<in> set (t_memory d) \<and> visibleTo prin inc r"

definition points_to :: "memory_row \<Rightarrow> memory_row \<Rightarrow> bool" where
  "points_to a b \<longleftrightarrow> m_superseded_by a = Some (m_id b)"

lemma chain_back_ok:
  "list_all (readable prin inc d) (head # rest) \<Longrightarrow> successively points_to (head # rest) \<Longrightarrow>
   list_all (readable prin inc d) (chain_back n prin inc d head rest) \<and>
   successively points_to (chain_back n prin inc d head rest) \<and>
   set (head # rest) \<subseteq> set (chain_back n prin inc d head rest) \<and>
   length (chain_back n prin inc d head rest) \<le> n + Suc (length rest)"
proof (induction n arbitrary: head rest)
  case (Suc n)
  show ?case
  proof (cases "find (\<lambda>r. m_superseded_by r = Some (m_id head) \<and> visibleTo prin inc r) (t_memory d)")
    case None
    with Suc.prems show ?thesis by auto
  next
    case (Some prev)
    then have "readable prin inc d prev" "points_to prev head"
      by (auto simp: readable_def points_to_def dest: find_SomeD)
    with Suc.prems Suc.IH [of prev "head # rest"] Some show ?thesis by auto
  qed
qed auto

lemma chain_forward_ok:
  "list_all (readable prin inc d) (chain_forward n prin inc d tail) \<and>
   successively points_to (tail # chain_forward n prin inc d tail) \<and>
   length (chain_forward n prin inc d tail) \<le> n"
proof (induction n arbitrary: tail)
  case (Suc n)
  show ?case
  proof (cases "m_superseded_by tail")
    case (Some nxt)
    show ?thesis
    proof (cases "getForPrincipal prin inc nxt d")
      case (Some row)
      then have "readable prin inc d row" "m_id row = nxt"
        by (auto simp: readable_def dest: getForPrincipal_SomeD)
      with Suc.IH [of row] Some \<open>m_superseded_by tail = Some nxt\<close> show ?thesis
        by (simp add: points_to_def)
    qed (simp add: \<open>m_superseded_by tail = Some nxt\<close>)
  qed simp
qed simp

lemma getChain_ok:
  "list_all (readable prin inc d) (getChain prin inc i d) \<and> successively points_to (getChain prin inc i d) \<and>
   length (getChain prin inc i d) \<le> 101 \<and>
   (\<forall>r. getForPrincipal prin inc i d = Some r \<longrightarrow> r \<in> set (getChain prin inc i d))"
proof (cases "getForPrincipal prin inc i d")
  case (Some target)
  then have "readable prin inc d target" by (auto simp: readable_def dest: getForPrincipal_SomeD)
  with chain_forward_ok [of prin inc d 50 target]
    chain_back_ok [of prin inc d target "chain_forward 50 prin inc d target" 50]
  show ?thesis by (simp add: getChain_def Some)
qed (simp add: getChain_def)

lemma successively_trancl:
  "successively (\<lambda>a b. (f a, f b) \<in> R) xs \<Longrightarrow> sorted_wrt (\<lambda>a b. (f a, f b) \<in> R\<^sup>+) xs"
proof -
  assume "successively (\<lambda>a b. (f a, f b) \<in> R) xs"
  then have "successively (\<lambda>a b. (f a, f b) \<in> R\<^sup>+) xs"
    by (rule successively_mono) auto
  moreover have "transp (\<lambda>a b. (f a, f b) \<in> R\<^sup>+)"
    by (rule transpI) (rule trancl_trans)
  ultimately show ?thesis by (simp add: successively_conv_sorted_wrt)
qed

lemma linked_distinct:
  assumes "acyclic (pointers rows)" and "set xs \<subseteq> set rows" and "successively points_to xs"
  shows "distinct (map m_id xs)"
proof -
  have "successively (\<lambda>a b. (m_id a, m_id b) \<in> pointers rows) xs"
    using assms(3) by (rule successively_mono) (use assms(2) in \<open>auto simp: pointers_def points_to_def\<close>)
  then have "sorted_wrt (\<lambda>a b. (m_id a, m_id b) \<in> (pointers rows)\<^sup>+) xs" by (rule successively_trancl)
  then show ?thesis
    using assms(1) by (induction xs) (auto simp: acyclic_def)
qed

text \<open>
  C10. Every list, search, chain and temporal candidate set returns stored rows that pass the
  caller's scope and sensitivity gates.
\<close>

theorem reads_gated:
  "set (listForPrincipal similar prin inc filters limit offset d) \<subseteq> {r. readable prin inc d r} \<and>
   set (listForSubject similar prin inc subject limit d) \<subseteq> {r. readable prin inc d r} \<and>
   set (getManyForPrincipal prin inc ids d) \<subseteq> {r. readable prin inc d r} \<and>
   set (getChain prin inc i d) \<subseteq> {r. readable prin inc d r} \<and>
   sm_memory ` set (ftsSearch fm fr similar prin query inc filters k d) \<subseteq> {r. readable prin inc d r} \<and>
   sm_memory ` set (entitySearch similar sim prin names inc filters k d) \<subseteq> {r. readable prin inc d r} \<and>
   set (temporal_candidates similar prin inc t entities d) \<subseteq> {r. readable prin inc d r}"
proof (intro conjI)
  show "set (getChain prin inc i d) \<subseteq> {r. readable prin inc d r}"
    using getChain_ok [of prin inc d i] by (auto simp: list_all_iff)
  show "set (temporal_candidates similar prin inc t entities d) \<subseteq> {r. readable prin inc d r}"
    unfolding temporal_candidates_def Let_def readable_def by (auto dest: fetch_at_D split: if_splits)
qed (auto simp: listForPrincipal_def listForSubject_def getManyForPrincipal_def ftsSearch_def Let_def
    entitySearch_def best_first_def readable_def dest!: in_set_takeD in_set_dropD split: if_splits)

text \<open>
  The history of a memory is a chain: each row points at the next one, no row occurs
  twice, the chain has at most 101 rows and contains the requested memory when the caller may
  see it.
\<close>

theorem chain_linked:
  assumes "rows_ok (t_memory d)"
  shows "successively points_to (getChain prin inc i d) \<and> distinct (map m_id (getChain prin inc i d)) \<and>
    length (getChain prin inc i d) \<le> 101 \<and>
    (\<forall>r. getForPrincipal prin inc i d = Some r \<longrightarrow> r \<in> set (getChain prin inc i d))"
  using getChain_ok [of prin inc d i] linked_distinct [of "t_memory d" "getChain prin inc i d"] assms
  by (auto simp: rows_ok_def list_all_iff readable_def)

theorem chain_linked_witness:
  "distinct (map m_id (getChain sample_principal False (sample_id 4) sample_pg)) \<and>
   map m_id (getChain sample_principal False (sample_id 4) sample_pg) = [sample_id 4, sample_id 1]"
proof -
  have "rows_ok (t_memory sample_pg)" using sample_rows_ok by (simp add: sample_pg_def)
  moreover have "map m_id (getChain sample_principal False (sample_id 4) sample_pg) = [sample_id 4, sample_id 1]"
    by code_simp
  ultimately show ?thesis using chain_linked [of sample_pg sample_principal False "sample_id 4"] by blast
qed

subsubsection \<open>The export is complete\<close>

lemma export_pages_some:
  assumes "0 < pageSize"
  shows "\<exists>xs. export_pages rows pageSize offset acc = Some (acc @ xs) \<and>
    (length rows \<le> 200000 \<longrightarrow> xs = drop offset rows) \<and> set xs \<subseteq> set rows"
proof (induction "200000 - offset" arbitrary: offset acc rule: less_induct)
  case less
  show ?case
  proof (cases "offset < 200000")
    case False
    then show ?thesis by (subst export_pages.simps) (auto intro: exI [of _ "[]"])
  next
    case True
    let ?page = "take pageSize (drop offset rows)"
    show ?thesis
    proof (cases "length ?page < pageSize")
      case short: True
      then have "?page = drop offset rows" by simp
      with True short show ?thesis
        by (subst export_pages.simps) (auto dest: in_set_dropD)
    next
      case False
      have "200000 - (offset + pageSize) < 200000 - offset" using True assms by simp
      from less.hyps [OF this, of "acc @ ?page"] obtain xs where
        xs: "export_pages rows pageSize (offset + pageSize) (acc @ ?page) = Some ((acc @ ?page) @ xs)"
        "length rows \<le> 200000 \<longrightarrow> xs = drop (offset + pageSize) rows" "set xs \<subseteq> set rows" by blast
      have "?page @ drop (offset + pageSize) rows = drop offset rows"
        by (metis append_take_drop_id drop_drop add.commute)
      with xs True False show ?thesis
        by (subst export_pages.simps) (auto intro!: exI [of _ "?page @ xs"] dest: in_set_takeD in_set_dropD)
    qed
  qed
qed

text \<open>
  C11. The paged export ends and returns, oldest first, exactly the rows the caller may see,
  for every page size but zero and tables of up to 200000 rows.
\<close>

theorem export_complete:
  assumes "pageSize \<noteq> Some 0" and "length (t_memory d) \<le> 200000"
  shows "\<exists>rows. listAllForPrincipal prin inc pageSize d = Some rows \<and>
    mset rows = mset (filter (visibleTo prin inc) (t_memory d)) \<and>
    sorted (map m_created_at rows)"
proof -
  let ?rows = "oldest_first (filter (visibleTo prin inc) (t_memory d))"
  have pos: "0 < min (or_else pageSize 500) 1000"
    using assms(1) by (cases pageSize) (auto simp: or_else_def)
  have len: "length ?rows \<le> 200000"
    using le_trans [OF length_filter_le assms(2), of "visibleTo prin inc"] by (simp add: oldest_first_def)
  from export_pages_some [OF pos, of ?rows 0 "[]"] len
  have "listAllForPrincipal prin inc pageSize d = Some ?rows"
    by (auto simp: listAllForPrincipal_def)
  moreover have "sorted (map (\<lambda>r. (m_created_at r, m_id r)) ?rows)"
    by (simp add: oldest_first_def)
  then have "sorted (map m_created_at ?rows)"
    unfolding sorted_map by (rule sorted_wrt_mono_rel [rotated]) auto
  ultimately show ?thesis by (simp add: oldest_first_def)
qed

theorem export_complete_witness:
  "\<exists>rows. listAllForPrincipal sample_principal True (Some 2) sample_pg = Some rows \<and> length rows = 5"
proof -
  have "length (t_memory sample_pg) \<le> 200000" by (simp add: sample_pg_def sample_rows_def)
  from export_complete [OF _ this, of "Some 2" sample_principal True] obtain rows where
    rows: "listAllForPrincipal sample_principal True (Some 2) sample_pg = Some rows"
    "mset rows = mset (filter (visibleTo sample_principal True) (t_memory sample_pg))" by auto
  have "length rows = size (mset rows)" by simp
  also have "\<dots> = length (filter (visibleTo sample_principal True) (t_memory sample_pg))"
    by (simp only: rows(2) size_mset)
  also have "\<dots> = 5"
    by (simp add: sample_pg_def sample_rows_def visibleTo_def sample_row_def sample_principal_def)
  finally show ?thesis using rows(1) by blast
qed

subsubsection \<open>Point in time\<close>

lemma sql_or_False [simp]: "sql_or (Some False) q = q"
  by (cases q rule: option.exhaust; cases "the q") auto

lemma sql_and_True [simp]: "sql_and (Some True) q = q"
  by (cases q rule: option.exhaust; cases "the q") auto

lemma intervalHoldsAtSql_iff: "sql_keeps (intervalHoldsAtSql row t) = intervalHoldsAt row t"
  by (cases "m_valid_from row"; cases "m_valid_until row")
    (auto simp: sql_keeps_def intervalHoldsAtSql_def intervalHoldsAt_def sql_le_def sql_lt_def
      sql_coalesce_def Let_def)

lemma temporal_candidates_D:
  assumes "r \<in> set (temporal_candidates similar prin inc t entities d)"
  shows "r \<in> set (t_memory d) \<and> visibleTo prin inc r \<and> intervalHoldsAt r t"
  using assms unfolding temporal_candidates_def Let_def intervalHoldsAtSql_iff [symmetric]
  by (auto dest: fetch_at_D split: if_splits)

lemma length_temporal_candidates: "length (temporal_candidates similar prin inc t entities d) \<le> 200"
  by (auto simp: temporal_candidates_def Let_def fetch_at_def TEMPORAL_CANDIDATE_CAP_def)

text \<open>
  A point-in-time query returns at most topK and at most 200 visible rows, all of which
  hold at the requested instant by the in-memory interval predicate, although they were
  selected by its SQL twin.
\<close>

theorem point_in_time_holds:
  assumes "pointInTime similar search prin t inc topK embedding entities w = (Inr hits, w')"
  shows "length hits \<le> topK \<and> length hits \<le> 200 \<and>
    (\<forall>h \<in> set hits. pit_memory h \<in> set (t_memory (w_pg w)) \<and> visibleTo prin inc (pit_memory h) \<and>
       intervalHoldsAt (pit_memory h) t)"
proof -
  let ?c = "temporal_candidates similar prin inc t entities (w_pg w)"
  obtain scores where hits: "hits = take topK (sort_key (\<lambda>x. - or_else (pit_score x) (-1))
      (map (\<lambda>r. \<lparr>pit_memory = r, pit_score = scores (m_id r)\<rparr>) ?c))"
    using assms unfolding pointInTime_def reads_bind Let_def
    by (auto simp: ret_def elim!: bindA_InrE)
  have "set hits \<subseteq> set (map (\<lambda>r. \<lparr>pit_memory = r, pit_score = scores (m_id r)\<rparr>) ?c)"
    unfolding hits by (auto dest: in_set_takeD)
  then have "\<forall>h \<in> set hits. pit_memory h \<in> set ?c" by auto
  moreover have "length hits \<le> length ?c" and "length hits \<le> topK" by (simp_all add: hits)
  ultimately show ?thesis
    using temporal_candidates_D length_temporal_candidates le_trans by blast
qed

theorem point_in_time_holds_witness:
  "intervalHoldsAt (sample_row 1 Active 20 None) 25 \<and> intervalHoldsAt (sample_row 0 Active 10 None) 25"
proof -
  let ?m = "pointInTime (=) exact_search sample_principal 25 False 2 None [''Bob''] sample_world"
  have "fst ?m = Inr [\<lparr>pit_memory = sample_row 1 Active 20 None, pit_score = None\<rparr>,
      \<lparr>pit_memory = sample_row 0 Active 10 None, pit_score = None\<rparr>]" by code_simp
  from point_in_time_holds [OF run_pair [OF this]] show ?thesis by simp
qed

end
