(* ===== verification/Reconciliation.thy ===== *)
theory Reconciliation
  imports Memory_Store
begin

text \<open>
  The acting half of reconciliation, \<^verbatim>\<open>memory/reconciliation.ts\<close>: merges, contradictions,
  supersessions between existing rows, the owner's three ways to resolve a contradiction, and
  the hook that lifts contradictions before a deletion. The pure policy is in \<open>Lifecycle\<close>.
\<close>

subsection \<open>Definitions\<close>

datatype pair_action_result =
    Merged uuid uuid bool
  | ContradictionCreated uuid
  | Superseded uuid uuid
  | Skipped string

datatype pair_side = SideA | SideB

datatype contradiction_resolve_action =
    Confirm pair_side
  | Correct string string
  | Dismiss

definition asParty :: "memory_row \<Rightarrow> policy_party" where
  "asParty row =
     \<lparr>pp_id = m_id row, pp_status = m_status row, pp_created_at = m_created_at row,
      pp_valid_from = m_valid_from row, pp_valid_until = m_valid_until row\<rparr>"

definition normalize :: "string option \<Rightarrow> string" where
  "normalize txt = js_trim (squeeze_spaces False (or_else txt []))"

definition restoreFromContradiction ::
  "memory_row \<Rightarrow> memory_status \<Rightarrow> string \<Rightarrow> string \<Rightarrow> string option \<Rightarrow> unit op" where
  "restoreFromContradiction row priorStatus auditAction actor orgId =
     (if m_status row \<noteq> Contradicted \<or> priorStatus = Contradicted then ret ()
      else bindA (reads w_clock) (\<lambda>now.
           thenA (update_memory (m_id row) (\<lambda>r. r\<lparr>m_status := priorStatus, m_updated_at := now\<rparr>))
           (thenA (writeAudit (memory_audit actor auditAction (m_id row)
                    [(''from'', JStr ''contradicted''), (''to'', JStr (status_text priorStatus))]
                    (m_owner row) orgId))
                  (setPayload_optional (m_id row) (\<lambda>p. p\<lparr>pl_status := priorStatus\<rparr>)))))"

definition lift_one :: "uuid list \<Rightarrow> string option \<Rightarrow> nat \<Rightarrow> relation_row \<Rightarrow> nat op" where
  "lift_one doomed orgId lifted q =
     (if rel_a q \<in> set doomed \<and> rel_b q \<in> set doomed then ret lifted
      else let (partnerId, prior) =
             (if rel_a q \<in> set doomed then (rel_b q, rel_b_prior q) else (rel_a q, rel_a_prior q))
           in bindA (select_memory partnerId) (\<lambda>found.
                case found of
                  None \<Rightarrow> ret lifted
                | Some partner \<Rightarrow>
                    thenA (restoreFromContradiction partner prior ''memory.contradiction_lifted''
                             ''deletion_saga'' orgId)
                      (ret (Suc lifted))))"

definition liftContradictionsBeforeDeletion :: "uuid list \<Rightarrow> string option \<Rightarrow> nat op" where
  "liftContradictionsBeforeDeletion memoryIds orgId =
     (if memoryIds = [] then ret 0
      else bindA (reads (\<lambda>w. filter (\<lambda>q. rel_resolved_at q = None \<and>
                    (rel_a q \<in> set memoryIds \<or> rel_b q \<in> set memoryIds)) (t_relation (w_pg w))))
             (\<lambda>relations. fold_each (lift_one memoryIds orgId) relations 0))"

definition lockPair :: "uuid \<Rightarrow> uuid \<Rightarrow> (memory_row \<times> memory_row) op" where
  "lockPair idOne idTwo =
     (if idOne = idTwo then raise (BadRequest SelfPair)
      else bindA (reads (\<lambda>w. sort_key m_id (filter (\<lambda>r. m_id r = idOne \<or> m_id r = idTwo) (t_memory (w_pg w)))))
             (\<lambda>rows. case rows of [first, second] \<Rightarrow> ret (first, second)
                      | _ \<Rightarrow> raise (NotFound ''memory pair'' idOne)))"

definition pick :: "uuid \<Rightarrow> memory_row \<times> memory_row \<Rightarrow> memory_row" where
  "pick i pair = (if m_id (fst pair) = i then fst pair else snd pair)"

definition closeAndPoint ::
  "memory_row \<Rightarrow> memory_row \<Rightarrow> string \<Rightarrow> (string \<times> json) list \<Rightarrow> string \<Rightarrow> time option \<Rightarrow> unit op" where
  "closeAndPoint loser target auditAction detail actor closeAt =
     bindA (reads w_clock) (\<lambda>now.
     let validUntil = or_else (or_option closeAt (m_valid_from target)) now in
     thenA (update_memory (m_id loser) (\<lambda>r. r\<lparr>m_status := Replaced,
              m_superseded_by := Some (m_id target), m_valid_until := Some validUntil,
              m_updated_at := now\<rparr>))
     (bindA (orgFor (m_owner loser)) (\<lambda>org.
      thenA (writeAudit (memory_audit actor auditAction (m_id loser)
               (detail @ [(''validUntil'', JStr (iso_string validUntil))]) (m_owner loser) org))
            (setPayload_optional (m_id loser)
               (\<lambda>p. p\<lparr>pl_status := Replaced, pl_valid_until := Some validUntil\<rparr>)))))"

fun as_initial :: "memory_status \<Rightarrow> initial_status" where
  "as_initial Uncertain = InitUncertain"
| "as_initial UserApproved = InitUserApproved"
| "as_initial _ = InitActive"

definition enriched_fact :: "memory_row \<Rightarrow> memory_row \<Rightarrow> string \<Rightarrow> new_fact" where
  "enriched_fact survivorRow loserRow enrichedContent =
     \<lparr>nf_content = enrichedContent, nf_scope = m_scope survivorRow,
      nf_source_type = m_source_type survivorRow, nf_source_id = m_source_id survivorRow,
      nf_entities = Some (dedupe (m_entities survivorRow @ m_entities loserRow)),
      nf_subject_entity = or_option (m_subject_entity survivorRow) (m_subject_entity loserRow),
      nf_kind = or_option (m_kind survivorRow) (m_kind loserRow), nf_authored_by_user = None,
      nf_temporal_unresolved = None, nf_sensitive = Some (m_sensitive survivorRow),
      nf_valid_from = m_valid_from survivorRow, nf_valid_until = m_valid_until survivorRow,
      nf_initial_status = Some (as_initial (m_status survivorRow)), nf_embedding_model = None\<rparr>"

definition enriches :: "memory_row \<Rightarrow> string \<Rightarrow> bool" where
  "enriches survivorRow enrichedContent \<longleftrightarrow>
     enrichedContent \<noteq> [] \<and> m_status survivorRow \<noteq> UserApproved \<and>
     enrichedContent \<noteq> normalize (m_content survivorRow) \<and>
     (m_status survivorRow = Active \<or> m_status survivorRow = Uncertain)"

definition finish_merge :: "memory_row \<Rightarrow> memory_row \<Rightarrow> bool \<Rightarrow> pair_action_result op" where
  "finish_merge loserRow finalSurvivor enriched =
     thenA (closeAndPoint loserRow finalSurvivor ''memory.merged''
              [(''survivor'', JStr (m_id finalSurvivor)), (''enriched'', JBool enriched)]
              (actorLabel ReconciliationActor) None)
       (ret (Merged (m_id finalSurvivor) (m_id loserRow) enriched))"

definition merge_into :: "memory_row \<Rightarrow> memory_row \<Rightarrow> string \<Rightarrow> pair_action_result op" where
  "merge_into survivorRow loserRow enrichedContent =
     (if enriches survivorRow enrichedContent
      then bindA (supersedeInTx ReconciliationActor (m_id survivorRow)
                    (enriched_fact survivorRow loserRow enrichedContent)) (\<lambda>result.
           finish_merge loserRow (s_successor result) True)
      else finish_merge loserRow survivorRow False)"

definition mergeSameFact :: "uuid \<Rightarrow> uuid \<Rightarrow> string option \<Rightarrow> pair_action_result op" where
  "mergeSameFact incomingId existingId mergedContent =
     bindA (lockPair incomingId existingId) (\<lambda>pair.
     let incoming = pick incomingId pair; existing = pick existingId pair in
     if m_status incoming = Replaced \<or> m_status existing = Replaced
       then ret (Skipped ''a party is already replaced (merge already applied?)'')
     else if m_superseded_by incoming = Some existingId \<or> m_superseded_by existing = Some incomingId
       then ret (Skipped ''pair already merged'')
     else case chooseSurvivor (asParty incoming) (asParty existing) of
       NoMerge \<Rightarrow> ret (Skipped ''both memories are user_approved'')
     | Merge survivor loser \<Rightarrow>
         let survivorRow = (if pp_id survivor = m_id incoming then incoming else existing);
             loserRow = (if pp_id loser = m_id incoming then incoming else existing)
         in merge_into survivorRow loserRow (normalize mergedContent))"

definition mark_contradicted :: "memory_row \<Rightarrow> unit op" where
  "mark_contradicted row =
     (if m_status row = Contradicted then ret ()
      else thenA (transitionInTx ReconciliationActor (m_id row) Contradicted True) (ret ()))"

definition createContradiction :: "uuid \<Rightarrow> uuid \<Rightarrow> string \<Rightarrow> pair_action_result op" where
  "createContradiction incomingId existingId reason =
     bindA (lockPair incomingId existingId) (\<lambda>pair.
     let incoming = pick incomingId pair; existing = pick existingId pair in
     if m_status incoming = Replaced \<or> m_status existing = Replaced
       then ret (Skipped ''a party is already replaced'')
     else bindA (reads w_clock) (\<lambda>now.
          bindA draw_uuid (\<lambda>i.
          bindA (insert_relation \<lparr>rel_id = i, rel_a = m_id incoming, rel_b = m_id existing,
                   rel_a_prior = m_status incoming, rel_b_prior = m_status existing,
                   rel_detected_at = now, rel_reason = Some reason, rel_resolved_at = None,
                   rel_resolution = None\<rparr>) (\<lambda>inserted.
          case inserted of
            None \<Rightarrow> ret (Skipped ''relation already exists for this pair (tombstone)'')
          | Some relation \<Rightarrow>
              thenA (each mark_contradicted [incoming, existing])
              (bindA (orgFor (m_owner incoming)) (\<lambda>org.
               thenA (writeAudit \<lparr>a_actor = actorLabel ReconciliationActor,
                        a_action = ''memory.contradiction_detected'',
                        a_entity_type = ''memory_relation'', a_entity_id = rel_id relation,
                        a_detail = JObj [(''a'', JStr (m_id incoming)), (''b'', JStr (m_id existing))],
                        a_org_id = org, a_owner_id = Some (m_owner incoming)\<rparr>)
                 (ret (ContradictionCreated (rel_id relation)))))))))"

definition applySupersession :: "uuid \<Rightarrow> uuid \<Rightarrow> pair_action_result op" where
  "applySupersession winnerId loserId =
     bindA (lockPair winnerId loserId) (\<lambda>pair.
     let winner = pick winnerId pair; loser = pick loserId pair in
     if m_status winner = Replaced \<or> m_status loser = Replaced
       then ret (Skipped ''a party is already replaced'')
     else if \<not> supersessionUnambiguous (asParty winner) (asParty loser)
       then ret (Skipped ''direction ambiguous or a party is user_approved'')
     else thenA (closeAndPoint loser winner ''memory.superseded''
                   [(''supersededBy'', JStr (m_id winner)), (''mechanism'', JStr ''reconciliation'')]
                   (actorLabel ReconciliationActor) None)
            (ret (Superseded (m_id winner) (m_id loser))))"

record open_contradiction =
  oc_relation :: relation_row
  oc_a :: memory_row
  oc_b :: memory_row

definition detected_before :: "relation_row \<Rightarrow> relation_row \<Rightarrow> bool" where
  "detected_before p q \<longleftrightarrow> rel_detected_at p > rel_detected_at q \<or>
     (rel_detected_at p = rel_detected_at q \<and> rel_id p \<le> rel_id q)"

fun insert_open :: "open_contradiction \<Rightarrow> open_contradiction list \<Rightarrow> open_contradiction list" where
  "insert_open c [] = [c]"
| "insert_open c (d # ds) =
     (if detected_before (oc_relation c) (oc_relation d) then c # d # ds else d # insert_open c ds)"

definition open_of :: "user_id \<Rightarrow> pg \<Rightarrow> relation_row \<Rightarrow> open_contradiction option" where
  "open_of u d q =
     (if rel_resolved_at q \<noteq> None then None
      else case (memory_by_id (rel_a q) d, memory_by_id (rel_b q) d) of
        (Some a, Some b) \<Rightarrow> (if m_owner a = u \<and> m_owner b = u
                             then Some \<lparr>oc_relation = q, oc_a = a, oc_b = b\<rparr> else None)
      | _ \<Rightarrow> None)"

definition listOpenContradictions :: "principal \<Rightarrow> open_contradiction list op" where
  "listOpenContradictions prin =
     reads (\<lambda>w. foldr insert_open (List.map_filter (open_of (p_user_id prin) (w_pg w)) (t_relation (w_pg w))) [])"

definition countOpenContradictions :: "principal \<Rightarrow> nat op" where
  "countOpenContradictions prin = bindA (listOpenContradictions prin) (\<lambda>xs. ret (length xs))"

definition applyConfirm ::
  "memory_actor \<Rightarrow> memory_row \<Rightarrow> memory_row \<Rightarrow> pair_side \<Rightarrow> relation_resolution op" where
  "applyConfirm user rowA rowB winnerSide =
     (let winner = (if winnerSide = SideA then rowA else rowB);
          loser = (if winnerSide = SideA then rowB else rowA)
      in if m_status winner \<noteq> Contradicted \<or> m_status loser \<noteq> Contradicted
         then raise (BadRequest PairChanged)
         else bindA (transitionInTx user (m_id winner) UserApproved True) (\<lambda>confirmed.
              thenA (if confirmLoserOutcome (asParty confirmed) (asParty loser) = LoserOutdated
                     then thenA (transitionInTx user (m_id loser) Outdated True) (ret ())
                     else closeAndPoint loser confirmed ''memory.superseded''
                            [(''supersededBy'', JStr (m_id confirmed)),
                             (''mechanism'', JStr ''contradiction_confirm'')]
                            (actorLabel user) (Some (eventTime (asParty confirmed))))
                (ret (if winnerSide = SideA then ConfirmedA else ConfirmedB))))"

definition applyCorrect ::
  "principal \<Rightarrow> memory_row \<Rightarrow> memory_row \<Rightarrow> string \<Rightarrow> string \<Rightarrow> relation_resolution op" where
  "applyCorrect prin rowA rowB aContent bContent =
     thenA (editContentInTx prin (m_id rowA) aContent)
     (thenA (editContentInTx prin (m_id rowB) bContent) (ret Corrected))"

definition applyDismiss ::
  "memory_actor \<Rightarrow> principal \<Rightarrow> memory_row \<Rightarrow> memory_row \<Rightarrow> relation_row \<Rightarrow> relation_resolution op" where
  "applyDismiss user prin rowA rowB q =
     thenA (restoreFromContradiction rowA (rel_a_prior q) ''memory.contradiction_dismiss_restored''
              (actorLabel user) (Some (p_org_id prin)))
     (thenA (restoreFromContradiction rowB (rel_b_prior q) ''memory.contradiction_dismiss_restored''
              (actorLabel user) (Some (p_org_id prin)))
       (ret Dismissed))"

definition resolve_by ::
  "principal \<Rightarrow> memory_row \<Rightarrow> memory_row \<Rightarrow> relation_row \<Rightarrow> contradiction_resolve_action \<Rightarrow> relation_resolution op" where
  "resolve_by prin rowA rowB q action =
     (case action of
        Confirm side \<Rightarrow> applyConfirm (User (p_user_id prin)) rowA rowB side
      | Correct aContent bContent \<Rightarrow> applyCorrect prin rowA rowB aContent bContent
      | Dismiss \<Rightarrow> applyDismiss (User (p_user_id prin)) prin rowA rowB q)"

definition resolve_pair ::
  "principal \<Rightarrow> relation_row \<Rightarrow> contradiction_resolve_action \<Rightarrow> memory_row \<times> memory_row \<Rightarrow>
     (relation_row \<times> bool) op" where
  "resolve_pair prin q action pair =
     (let rowA = pick (rel_a q) pair; rowB = pick (rel_b q) pair in
      if m_owner rowA \<noteq> p_user_id prin \<or> m_owner rowB \<noteq> p_user_id prin
        then raise (NotFound ''relation'' (rel_id q))
      else bindA (resolve_by prin rowA rowB q action) (\<lambda>resolution.
           bindA (reads w_clock) (\<lambda>now.
           thenA (resolve_relation (rel_id q) now resolution)
           (thenA (writeAudit \<lparr>a_actor = actorLabel (User (p_user_id prin)),
                     a_action = ''memory.contradiction_resolved'',
                     a_entity_type = ''memory_relation'', a_entity_id = rel_id q,
                     a_detail = JObj [(''resolution'', JStr (resolution_text resolution)),
                       (''a'', JStr (m_id rowA)), (''b'', JStr (m_id rowB))],
                     a_org_id = Some (p_org_id prin), a_owner_id = Some (p_user_id prin)\<rparr>)
             (ret (q\<lparr>rel_resolved_at := Some now, rel_resolution := Some resolution\<rparr>, False))))))"

definition resolveContradiction ::
  "principal \<Rightarrow> uuid \<Rightarrow> contradiction_resolve_action \<Rightarrow> (relation_row \<times> bool) op" where
  "resolveContradiction prin relationId action =
     transaction (
       bindA (reads (\<lambda>w. find (\<lambda>q. rel_id q = relationId) (t_relation (w_pg w)))) (\<lambda>found.
       case found of
         None \<Rightarrow> raise (NotFound ''relation'' relationId)
       | Some q \<Rightarrow>
           if rel_resolved_at q \<noteq> None then ret (q, True)
           else bindA (lockPair (rel_a q) (rel_b q)) (resolve_pair prin q action)))"

subsection \<open>Locked pairs\<close>

lemma filter_two_keys:
  assumes "distinct (map k rows)" and "filter (\<lambda>r. k r = a \<or> k r = b) rows = rs"
  shows "set rs = {r \<in> set rows. k r = a \<or> k r = b}" and "distinct (map k rs)"
  using assms by (auto simp: distinct_map_filter)

text \<open>A locked pair holds the two requested rows, whatever order the ids have.\<close>

lemma lockPair_Inr:
  assumes run: "lockPair a b w = (Inr pair, w')" and ok: "rows_ok (t_memory (w_pg w))"
  shows "w' = w \<and> a \<noteq> b \<and> memory_by_id a (w_pg w) = Some (pick a pair) \<and>
    memory_by_id b (w_pg w) = Some (pick b pair)"
proof -
  let ?sel = "sort_key m_id (filter (\<lambda>r. m_id r = a \<or> m_id r = b) (t_memory (w_pg w)))"
  obtain x y where xy: "?sel = [x, y]" "pair = (x, y)" "w' = w" "a \<noteq> b"
    using run by (auto simp: lockPair_def act_defs split: if_splits list.splits)
  have d: "distinct (map m_id (t_memory (w_pg w)))" using ok by (simp add: rows_ok_def)
  have "set ?sel = {r \<in> set (t_memory (w_pg w)). m_id r = a \<or> m_id r = b}"
    by auto
  then have mem: "x \<in> set (t_memory (w_pg w))" "y \<in> set (t_memory (w_pg w))"
    and ids: "m_id x = a \<or> m_id x = b" "m_id y = a \<or> m_id y = b"
    unfolding xy(1) by auto
  have "distinct ?sel"
    using d by (simp add: distinct_map)
  then have "x \<noteq> y" unfolding xy(1) by simp
  then have "m_id x \<noteq> m_id y" using distinct_key_eq [OF d mem] by auto
  with ids xy(4) have "(m_id x = a \<and> m_id y = b) \<or> (m_id x = b \<and> m_id y = a)" by auto
  moreover have "memory_by_id (m_id x) (w_pg w) = Some x" "memory_by_id (m_id y) (w_pg w) = Some y"
    using memory_by_id_in [OF ok] mem by auto
  ultimately show ?thesis
    using xy by (auto simp: pick_def)
qed

lemma keeps_lockPair: "mem_keeps (lockPair a b)"
  unfolding lockPair_def by (auto split: list.splits intro!: mem.control)

lemma keeps_paired:
  assumes "\<And>pair w. a \<noteq> b \<Longrightarrow> memory_by_id a (w_pg w) = Some (pick a pair) \<Longrightarrow>
      memory_by_id b (w_pg w) = Some (pick b pair) \<Longrightarrow> memory_safe w \<Longrightarrow> mem_keeps_from (f pair) w"
  shows "mem_keeps (bindA (lockPair a b) f)"
proof (intro keeps_fromI mem.from_bind keepsD [OF keeps_lockPair])
  fix s pair w
  assume run: "lockPair a b s = (Inr pair, w)" and safe: "memory_safe w"
  from run have "w = s" by (auto simp: lockPair_def act_defs split: if_splits list.splits)
  with run safe have "w = s \<and> a \<noteq> b \<and> memory_by_id a (w_pg s) = Some (pick a pair) \<and>
      memory_by_id b (w_pg s) = Some (pick b pair)"
    by (intro lockPair_Inr) (auto simp: memory_safe_def)
  with safe show "mem_keeps_from (f pair) w"
    by (auto intro!: assms)
qed

subsection \<open>Frames of the store operations\<close>

lemma find_update_where:
  assumes "\<And>r. k (f r) = k r"
  shows "find (\<lambda>r. k r = j) (update_where (\<lambda>r. k r = i) f rows) =
     (if j = i then map_option f (find (\<lambda>r. k r = j) rows) else find (\<lambda>r. k r = j) rows)"
  using assms by (induction rows) auto

lemma memory_by_id_update:
  assumes "t_memory d' = update_where (\<lambda>r. m_id r = i) f (t_memory d)" and "\<And>r. m_id (f r) = m_id r"
  shows "memory_by_id j d' = (if j = i then map_option f (memory_by_id j d) else memory_by_id j d)"
  unfolding memory_by_id_def assms(1) by (rule find_update_where) (rule assms(2))

lemma setPayload_required_pg: "setPayload_required i p w = (r, w') \<Longrightarrow> w_pg w' = w_pg w"
  by (auto simp: setPayload_required_def requireVectors_def setPayload_def external_def act_defs
      split: if_splits fault.splits)

lemma setPayload_optional_pg: "setPayload_optional i p w = (r, w') \<Longrightarrow> w_pg w' = w_pg w"
  by (auto simp: setPayload_optional_def setPayload_def external_def split: if_splits fault.splits)

lemma update_memory_Inr:
  "update_memory i f w = (Inr u, w') \<Longrightarrow>
     w' = update_pg (\<lambda>d. d\<lparr>t_memory := update_where (\<lambda>r. m_id r = i) f (t_memory d)\<rparr>) w"
  by (auto simp: update_memory_def write_memory_def Let_def update_pg_def split: if_splits)

text \<open>What a successful status transition did, row by row.\<close>

lemma transitionInTx_Inr:
  assumes "transitionInTx actor i to sync w = (Inr updated, w')"
  shows "\<exists>row. memory_by_id i (w_pg w) = Some row \<and> m_id row = i \<and>
     checkTransition (m_status row) to actor = Allowed \<and>
     updated = row\<lparr>m_status := to, m_updated_at := w_clock w\<rparr> \<and>
     t_memory (w_pg w') = update_where (\<lambda>r. m_id r = i) (\<lambda>r. r\<lparr>m_status := to, m_updated_at := w_clock w\<rparr>)
       (t_memory (w_pg w)) \<and>
     t_relation (w_pg w') = t_relation (w_pg w)"
proof -
  obtain row where row: "memory_by_id i (w_pg w) = Some row" "m_id row = i"
    and rest: "(case checkTransition (m_status row) to actor of
         Refused reason \<Rightarrow> raise (BadRequest (IllegalTransition (m_status row) to reason))
       | Allowed \<Rightarrow>
           bindA (reads w_clock) (\<lambda>now.
           bindA (update_returning row (\<lambda>r. r\<lparr>m_status := to, m_updated_at := now\<rparr>)) (\<lambda>updated.
           bindA (orgFor (m_owner row)) (\<lambda>org.
           thenA (writeAudit (memory_audit (actorLabel actor) ''memory.status_transition'' i
                    [(''from'', JStr (status_text (m_status row))), (''to'', JStr (status_text to))]
                    (m_owner row) org))
           (thenA (when_do sync (setPayload_required i (\<lambda>p. p\<lparr>pl_status := to\<rparr>)))
             (ret updated)))))) w = (Inr updated, w')"
    using assms unfolding transitionInTx_def bindA_def
    by (auto split: sum.splits prod.splits dest!: lockRow_Inr)
  from rest row show ?thesis
    by (auto simp: act_defs update_returning_def orgFor_def writeAudit_def
        split: transition_check.splits sum.splits prod.splits if_splits
        dest!: update_memory_Inr setPayload_required_pg)
qed

lemma lockRow_locks:
  "bindA (lockRow i actor) f w = (Inr v, w') \<Longrightarrow>
     \<exists>row. memory_by_id i (w_pg w) = Some row \<and> m_id row = i \<and> \<not> foreign_to actor row \<and> f row w = (Inr v, w')"
  by (auto simp: bindA_def split: sum.splits prod.splits dest!: lockRow_Inr)

text \<open>What a successful supersession did: one row closed in place, one appended.\<close>

lemma supersedeCore_Inr:
  assumes "supersedeCore actor old nf w = (Inr res, w')" and t: "t = or_else (nf_valid_from nf) (w_clock w)"
  shows "t_memory (w_pg w') =
       update_where (\<lambda>r. m_id r = m_id old) (\<lambda>r. r\<lparr>m_status := Replaced, m_valid_until := Some t,
         m_superseded_by := Some (m_id (s_successor res)), m_updated_at := w_clock w\<rparr>)
       (t_memory (w_pg w) @ [s_successor res]) \<and>
     m_id (s_successor res) \<notin> memory_ids (w_pg w) \<and> m_status (s_successor res) \<noteq> Replaced \<and>
     s_successor res = row_of_fact (m_owner old) (nf\<lparr>nf_valid_from := Some t\<rparr>) (w_clock w)
       (m_id (s_successor res))"
proof -
  let ?t = "or_else (nf_valid_from nf) (w_clock w)"
  obtain new w1 where run: "insertFact (m_owner old) (nf\<lparr>nf_valid_from := Some ?t\<rparr>) (actorLabel actor) w = (Inr new, w1)"
    and rest: "bindA (update_returning old (\<lambda>r. r\<lparr>m_status := Replaced, m_valid_until := Some ?t,
              m_superseded_by := Some (m_id new), m_updated_at := w_clock w\<rparr>)) (\<lambda>predecessor.
     bindA (orgFor (m_owner old)) (\<lambda>org.
     thenA (writeAudit (memory_audit (actorLabel actor) ''memory.superseded'' (m_id old)
              [(''supersededBy'', JStr (m_id new)), (''validUntil'', JStr (iso_string ?t))]
              (m_owner old) org))
     (thenA (setPayload_required (m_id old) (\<lambda>p. p\<lparr>pl_status := Replaced\<rparr>))
       (ret \<lparr>s_predecessor = predecessor, s_successor = new\<rparr>)))) w1 = (Inr res, w')"
    using assms(1) unfolding supersedeCore_def Let_def reads_bind
    by (subst (asm) bindA_def) (auto split: sum.splits prod.splits)
  have step: "s_successor res = new" "t_memory (w_pg w') = update_where (\<lambda>r. m_id r = m_id old)
      (\<lambda>r. r\<lparr>m_status := Replaced, m_valid_until := Some ?t, m_superseded_by := Some (m_id new),
         m_updated_at := w_clock w\<rparr>) (t_memory (w_pg w1))"
    using rest
    by (auto simp: act_defs update_returning_def orgFor_def writeAudit_def
        split: sum.splits prod.splits if_splits dest!: update_memory_Inr setPayload_required_pg)
  from insertFact_Inr [OF run] have n: "t_memory (w_pg w1) = t_memory (w_pg w) @ [new]"
    "m_id new \<notin> memory_ids (w_pg w)" "m_status new \<noteq> Replaced"
    "new = row_of_fact (m_owner old) (nf\<lparr>nf_valid_from := Some ?t\<rparr>) (w_clock w) (m_id new)"
    by blast+
  show ?thesis
    unfolding t step n(1) by (intro conjI refl n(2,3,4))
qed

lemma supersedeInTx_Inr:
  assumes "supersedeInTx actor i nf w = (Inr res, w')"
  obtains old where "memory_by_id i (w_pg w) = Some old" "m_id old = i" "m_status old \<noteq> Replaced"
    "supersedeCore actor old nf w = (Inr res, w')"
  using assms unfolding supersedeInTx_def
  by (auto simp: act_defs split: if_splits sum.splits prod.splits dest!: lockRow_Inr)

lemma supersedeInTx_others:
  assumes "supersedeInTx actor i nf w = (Inr res, w')" and "j \<noteq> i" and "memory_by_id j (w_pg w) = Some r"
  shows "memory_by_id j (w_pg w') = Some r" and "s_successor res \<in> set (t_memory (w_pg w'))"
    and "m_id (s_successor res) \<noteq> j" and "m_status (s_successor res) \<noteq> Replaced"
proof -
  obtain old where old: "m_id old = i" and oldin: "memory_by_id i (w_pg w) = Some old"
    and core: "supersedeCore actor old nf w = (Inr res, w')"
    using assms(1) by (rule supersedeInTx_Inr)
  let ?d = "(w_pg w)\<lparr>t_memory := t_memory (w_pg w) @ [s_successor res]\<rparr>"
  let ?t = "or_else (nf_valid_from nf) (w_clock w)"
  have mem: "t_memory (w_pg w') =
       update_where (\<lambda>r. m_id r = i) (\<lambda>r. r\<lparr>m_status := Replaced, m_valid_until := Some ?t,
         m_superseded_by := Some (m_id (s_successor res)), m_updated_at := w_clock w\<rparr>) (t_memory ?d)"
    and new: "m_id (s_successor res) \<notin> memory_ids (w_pg w)" "m_status (s_successor res) \<noteq> Replaced"
    using supersedeCore_Inr [OF core refl] old by simp_all
  from new have "m_id (s_successor res) \<noteq> i"
    using oldin memory_by_id_None_iff [of i "w_pg w"] by auto
  then show "s_successor res \<in> set (t_memory (w_pg w'))"
    unfolding mem in_set_update_where by (intro bexI [of _ "s_successor res"]) simp_all
  show "m_id (s_successor res) \<noteq> j"
    using new assms(3) memory_by_id_None_iff [of j "w_pg w"] by auto
  have "memory_by_id j ?d = Some r"
    using assms(3) by (auto intro: memory_by_id_append)
  with assms(2) show "memory_by_id j (w_pg w') = Some r"
    by (subst memory_by_id_update [OF mem]) auto
  show "m_status (s_successor res) \<noteq> Replaced" by (rule new)
qed

subsection \<open>Every action keeps the invariant\<close>

lemma keeps_from_safe: "(memory_safe w \<Longrightarrow> mem_keeps_from m w) \<Longrightarrow> mem_keeps_from m w"
  by (auto simp: keeps_from_def)

lemma memory_by_id_row_ok: "memory_safe w \<Longrightarrow> memory_by_id i (w_pg w) = Some r \<Longrightarrow> row_ok r"
  by (auto simp: memory_safe_def rows_ok_def dest: memory_by_id_SomeD)

lemma live_no_pointer: "row_ok r \<Longrightarrow> m_status r \<noteq> Replaced \<Longrightarrow> m_superseded_by r = None"
  by (auto simp: row_ok_def)

lemma status_step:
  assumes "row_ok r" and "m_status r \<noteq> Replaced"
  shows "row_move r (r\<lparr>m_status := st, m_updated_at := now\<rparr>) \<and> row_ok (r\<lparr>m_status := st, m_updated_at := now\<rparr>) \<and>
    pointer_step rows r (r\<lparr>m_status := st, m_updated_at := now\<rparr>)"
  using assms live_no_pointer [OF assms]
  by (simp add: row_move_def same_fact_def pointer_step_def) (simp add: row_ok_def)

lemma close_step:
  assumes "row_ok r" and "m_status r \<noteq> Replaced" and "t \<in> set rows" and "m_id t \<noteq> m_id r"
    and "m_status t \<noteq> Replaced"
  shows "row_move r (r\<lparr>m_status := Replaced, m_superseded_by := Some (m_id t), m_valid_until := u, m_updated_at := now\<rparr>) \<and>
    row_ok (r\<lparr>m_status := Replaced, m_superseded_by := Some (m_id t), m_valid_until := u, m_updated_at := now\<rparr>) \<and>
    pointer_step rows r (r\<lparr>m_status := Replaced, m_superseded_by := Some (m_id t), m_valid_until := u, m_updated_at := now\<rparr>)"
proof -
  have "\<exists>q \<in> set rows. m_id t = m_id q \<and> m_id q \<noteq> m_id r \<and> m_status q \<noteq> Replaced"
    using assms by blast
  with assms live_no_pointer [OF assms(1,2)] show ?thesis
    by (simp add: row_move_def same_fact_def pointer_step_def) (simp add: row_ok_def)
qed

lemma keeps_restore:
  assumes "\<And>r. memory_by_id (m_id row) (w_pg w) = Some r \<Longrightarrow> m_status row = Contradicted \<Longrightarrow>
      m_status r \<noteq> Replaced"
  shows "mem_keeps_from (restoreFromContradiction row prior act actor org) w"
proof (cases "m_status row = Contradicted \<and> prior \<noteq> Contradicted")
  case True
  have upd: "mem_keeps_from (update_memory (m_id row) (\<lambda>r. r\<lparr>m_status := prior, m_updated_at := now\<rparr>)) w" for now
    using True assms
    by (auto intro!: keeps_from_safe [OF keeps_update_memory] status_step dest: memory_by_id_row_ok)
  have "mem_keeps_from (thenA (update_memory (m_id row) (\<lambda>r. r\<lparr>m_status := prior, m_updated_at := now\<rparr>))
      (thenA (writeAudit e) (setPayload_optional i p))) w" for now e i p
    by (rule mem.from_then [OF upd], rule keepsD) (intro store_keeps)
  with True show ?thesis
    by (simp add: restoreFromContradiction_def)
qed (auto simp: restoreFromContradiction_def mem.from_ret)

lemma keeps_lift_one: "mem_keeps (lift_one doomed org n q)"
proof (rule keeps_fromI)
  fix w
  have "mem_keeps_from (bindA (select_memory j) (\<lambda>found. case found of None \<Rightarrow> ret n
      | Some partner \<Rightarrow> thenA (restoreFromContradiction partner prior act actor org) (ret (Suc n)))) w"
    for j prior act actor
  proof -
    have "memory_by_id j (w_pg w) = Some p \<Longrightarrow> memory_by_id (m_id p) (w_pg w) = Some r \<Longrightarrow> r = p" for p r
      using memory_by_id_SomeD [of j "w_pg w" p] by simp
    then show ?thesis
      by (fastforce simp: select_memory_def split: option.splits
          intro!: mem.from_then keeps_restore mem.from_ret)
  qed
  then show "mem_keeps_from (lift_one doomed org n q) w"
    by (auto simp: lift_one_def mem.from_ret)
qed

lemma keeps_liftContradictions: "mem_keeps (liftContradictionsBeforeDeletion ids org)"
  unfolding liftContradictionsBeforeDeletion_def by (intro mem.control keeps_lift_one)

lemma keeps_closeAndPoint:
  assumes loser: "memory_by_id (m_id loser) (w_pg w) = Some l" "m_status l \<noteq> Replaced"
    and target: "target \<in> set (t_memory (w_pg w))" "m_id target \<noteq> m_id loser" "m_status target \<noteq> Replaced"
  shows "mem_keeps_from (closeAndPoint loser target act detail actor closeAt) w"
proof (rule keeps_from_safe)
  assume "memory_safe w"
  with loser(1) have "row_ok l" by (auto dest: memory_by_id_row_ok)
  have upd: "mem_keeps_from (update_memory (m_id loser) (\<lambda>r. r\<lparr>m_status := Replaced,
      m_superseded_by := Some (m_id target), m_valid_until := Some t, m_updated_at := now\<rparr>)) w" for t now
    using memory_by_id_SomeD [OF loser(1)] loser target \<open>row_ok l\<close>
    by (intro keeps_update_memory close_step) auto
  show "mem_keeps_from (closeAndPoint loser target act detail actor closeAt) w"
    unfolding closeAndPoint_def Let_def keeps_from_reads
    by (rule mem.from_then [OF upd], rule keepsD) (intro store_keeps)
qed

lemma keeps_finish_merge:
  assumes "memory_by_id (m_id loser) (w_pg w) = Some l" "m_status l \<noteq> Replaced"
    and "target \<in> set (t_memory (w_pg w))" "m_id target \<noteq> m_id loser" "m_status target \<noteq> Replaced"
  shows "mem_keeps_from (finish_merge loser target b) w"
  unfolding finish_merge_def
  by (intro mem.from_then mem.from_ret keeps_closeAndPoint [OF assms])

lemma asParty_simps [simp]:
  "pp_id (asParty r) = m_id r" "pp_status (asParty r) = m_status r"
  "pp_created_at (asParty r) = m_created_at r" "pp_valid_from (asParty r) = m_valid_from r"
  "pp_valid_until (asParty r) = m_valid_until r"
  by (simp_all add: asParty_def)

lemma merge_roles:
  assumes "chooseSurvivor (asParty x) (asParty y) = Merge s l" and "m_id x \<noteq> m_id y"
  obtains "s = asParty x" "l = asParty y" | "s = asParty y" "l = asParty x"
  using chooseSurvivor_Merge [OF assms(1)] by blast

lemma keeps_merge_into:
  assumes s: "memory_by_id (m_id s) (w_pg w) = Some s" "m_status s \<noteq> Replaced"
    and l: "memory_by_id (m_id l) (w_pg w) = Some l" "m_status l \<noteq> Replaced" and ne: "m_id s \<noteq> m_id l"
  shows "mem_keeps_from (merge_into s l c) w"
proof -
  have "mem_keeps_from (bindA (supersedeInTx ReconciliationActor (m_id s) nf)
      (\<lambda>res. finish_merge l (s_successor res) True)) w" for nf
  proof (rule mem.from_bind [OF keepsD [OF keeps_supersedeInTx]])
    fix res w'
    assume "supersedeInTx ReconciliationActor (m_id s) nf w = (Inr res, w')"
    from supersedeInTx_others [OF this ne [symmetric] l(1)] l(2)
    show "mem_keeps_from (finish_merge l (s_successor res) True) w'"
      by (intro keeps_finish_merge)
  qed
  moreover have "mem_keeps_from (finish_merge l s False) w"
    using s l ne by (intro keeps_finish_merge [OF l]) (auto dest: memory_by_id_SomeD)
  ultimately show ?thesis by (simp add: merge_into_def)
qed

lemma keeps_mergeSameFact: "mem_keeps (mergeSameFact x y content)"
  unfolding mergeSameFact_def
proof (rule keeps_paired, goal_cases)
  case (1 pair w)
  let ?x = "pick x pair" and ?y = "pick y pair"
  from 1 have ids: "m_id ?x = x" "m_id ?y = y" by (auto dest: memory_by_id_SomeD)
  show ?case
  proof (cases "chooseSurvivor (asParty ?x) (asParty ?y)")
    case NoMerge
    then show ?thesis by (auto simp: Let_def mem.from_ret)
  next
    case (Merge s l)
    then consider "s = asParty ?x" "l = asParty ?y" | "s = asParty ?y" "l = asParty ?x"
      using merge_roles ids 1(1) by metis
    then show ?thesis
      using 1 ids Merge by cases (auto simp: Let_def intro!: keeps_merge_into mem.from_ret)
  qed
qed

lemma keeps_mark_contradicted: "mem_keeps (mark_contradicted row)"
  unfolding mark_contradicted_def by (intro mem.control keeps_transitionInTx)

lemma keeps_createContradiction: "mem_keeps (createContradiction x y reason)"
  unfolding createContradiction_def
proof (rule keeps_paired, goal_cases)
  case (1 pair w)
  let ?x = "pick x pair" and ?y = "pick y pair"
  from 1 have ids: "m_id ?x = x" "m_id ?y = y" by (auto dest: memory_by_id_SomeD)
  have ins: "mem_keeps (insert_relation \<lparr>rel_id = i, rel_a = m_id ?x, rel_b = m_id ?y,
      rel_a_prior = m_status ?x, rel_b_prior = m_status ?y, rel_detected_at = now,
      rel_reason = Some reason, rel_resolved_at = None, rel_resolution = None\<rparr>)"
    if "m_status ?x \<noteq> Replaced" "m_status ?y \<noteq> Replaced" for i now
    using that 1(1) ids by (intro keeps_insert_relation) (simp add: relation_ok_def)
  show ?case
    unfolding Let_def
    by (rule keepsD, cases "m_status ?x = Replaced \<or> m_status ?y = Replaced")
      (auto split: option.splits intro!: store_keeps keeps_mark_contradicted ins)
qed

lemma keeps_applySupersession: "mem_keeps (applySupersession x y)"
  unfolding applySupersession_def
proof (rule keeps_paired, goal_cases)
  case (1 pair w)
  let ?x = "pick x pair" and ?y = "pick y pair"
  from 1 have ids: "m_id ?x = x" "m_id ?y = y" and "?x \<in> set (t_memory (w_pg w))"
    by (auto dest: memory_by_id_SomeD)
  with 1 show ?case
    by (auto simp: Let_def intro!: mem.from_ret mem.from_then keeps_closeAndPoint)
qed

lemma keeps_applyConfirm:
  assumes a: "memory_by_id (m_id ra) (w_pg w) = Some ra" and b: "memory_by_id (m_id rb) (w_pg w) = Some rb"
    and ne: "m_id ra \<noteq> m_id rb"
  shows "mem_keeps_from (applyConfirm user ra rb side) w"
proof -
  have close: "mem_keeps_from (closeAndPoint l u act detail actor t) w'"
    if l: "memory_by_id (m_id l) (w_pg w) = Some l" "m_status l = Contradicted" "m_id s \<noteq> m_id l"
      and run: "transitionInTx user (m_id s) UserApproved True w = (Inr u, w')" for s l u w' act detail actor t
  proof -
    obtain row where row: "memory_by_id (m_id s) (w_pg w) = Some row" "m_id row = m_id s"
      and u: "u = row\<lparr>m_status := UserApproved, m_updated_at := w_clock w\<rparr>"
      and mem: "t_memory (w_pg w') = update_where (\<lambda>r. m_id r = m_id s)
        (\<lambda>r. r\<lparr>m_status := UserApproved, m_updated_at := w_clock w\<rparr>) (t_memory (w_pg w))"
      using transitionInTx_Inr [OF run] by blast
    have "memory_by_id (m_id l) (w_pg w') = Some l"
      using l by (subst memory_by_id_update [OF mem]) auto
    moreover have "memory_by_id (m_id s) (w_pg w') = Some u"
      using row u by (subst memory_by_id_update [OF mem]) auto
    moreover have "m_id u = m_id s" "m_status u = UserApproved" using row u by simp_all
    ultimately show ?thesis
      using l by (intro keeps_closeAndPoint) (auto dest: memory_by_id_SomeD)
  qed
  show ?thesis
    unfolding applyConfirm_def Let_def
    using a b ne
    by (cases side) (auto intro!: mem.from_raise mem.from_bind mem.from_then mem.from_ret
        keepsD [OF keeps_transitionInTx] close dest: sym)
qed

lemma keeps_applyCorrect: "mem_keeps (applyCorrect prin ra rb ca cb)"
  unfolding applyCorrect_def by (intro mem.control keeps_editContentInTx)

lemma keeps_applyDismiss:
  assumes a: "memory_by_id (m_id ra) (w_pg w) = Some ra" and b: "memory_by_id (m_id rb) (w_pg w) = Some rb"
    and ne: "m_id ra \<noteq> m_id rb"
  shows "mem_keeps_from (applyDismiss user prin ra rb q) w"
proof -
  have frame: "memory_by_id (m_id rb) (w_pg w') = Some rb"
    if "restoreFromContradiction ra prior act actor org w = (Inr u, w')" for prior act actor org u w'
  proof (cases "m_status ra \<noteq> Contradicted \<or> prior = Contradicted")
    case True
    with that b show ?thesis by (simp add: restoreFromContradiction_def ret_def)
  next
    case False
    with that have mem: "t_memory (w_pg w') = update_where (\<lambda>r. m_id r = m_id ra)
        (\<lambda>r. r\<lparr>m_status := prior, m_updated_at := w_clock w\<rparr>) (t_memory (w_pg w))"
      by (auto simp: restoreFromContradiction_def act_defs writeAudit_def
          split: sum.splits prod.splits dest!: update_memory_Inr setPayload_optional_pg)
    show ?thesis
      using b ne by (subst memory_by_id_update [OF mem]) auto
  qed
  show ?thesis
    unfolding applyDismiss_def
    using a b ne
    by (auto intro!: mem.from_then mem.from_ret keeps_restore dest: frame)
qed

lemma keeps_resolve_by:
  assumes "memory_by_id (m_id ra) (w_pg w) = Some ra" and "memory_by_id (m_id rb) (w_pg w) = Some rb"
    and "m_id ra \<noteq> m_id rb"
  shows "mem_keeps_from (resolve_by prin ra rb q action) w"
  using assms unfolding resolve_by_def
  by (cases action) (auto intro: keeps_applyConfirm keepsD [OF keeps_applyCorrect] keeps_applyDismiss)

lemma keeps_resolveContradiction: "mem_keeps (resolveContradiction prin i action)"
proof -
  have step: "mem_keeps (bindA (lockPair (rel_a q) (rel_b q)) (resolve_pair prin q action))" for q
  proof (rule keeps_paired, goal_cases)
    case (1 pair w)
    then have "m_id (pick (rel_a q) pair) = rel_a q" "m_id (pick (rel_b q) pair) = rel_b q"
      by (auto dest: memory_by_id_SomeD)
    with 1 show ?case
      by (auto simp: resolve_pair_def Let_def intro!: mem.from_raise mem.from_bind keeps_resolve_by mem.from_reads
          keepsD [OF mem.keeps_then] mem.keeps_then keeps_resolve_relation keeps_writeAudit mem.keeps_ret)
  qed
  show ?thesis
    unfolding resolveContradiction_def
    by (intro mem.keeps_transaction mem.keeps_bind [OF mem.keeps_reads])
      (auto split: option.splits intro!: mem.keeps_raise mem.keeps_ret step)
qed

lemmas reconciliation_keeps = keeps_mergeSameFact keeps_createContradiction keeps_applySupersession
  keeps_resolveContradiction keeps_liftContradictions

end
