(* ===== verification/Reconciliation_Laws.thy ===== *)
theory Reconciliation_Laws
  imports Reconciliation Samples
begin

text \<open>
  What the reconciliation actions promise: a merge applied twice is a merge applied once, a row
  the user vouched for is out of reach of the model, a detected contradiction that is
  dismissed leaves no trace on the statuses, a confirmed one closes the other side as its interval
  says. The frame
  argument is a second instance of the contract locale of \<open>Store_State\<close>: its invariant pins
  one row, its moves only say that ids are not reused.
\<close>

subsection \<open>Pinned rows\<close>

definition pinned :: "uuid \<Rightarrow> memory_row \<Rightarrow> world \<Rightarrow> bool" where
  "pinned i r w \<longleftrightarrow> memory_by_id i (w_pg w) = Some r"

definition ids_forward :: "world \<Rightarrow> world \<Rightarrow> bool" where
  "ids_forward w w' \<longleftrightarrow> w_uuids w' = w_uuids w \<and> w_drawn w \<le> w_drawn w'"

interpretation pin: pg_evolution "pinned i r" ids_forward for i r
  by unfold_locales (auto simp: pinned_def ids_forward_def outside_pg_def)

abbreviation pins :: "uuid \<Rightarrow> memory_row \<Rightarrow> 'a op \<Rightarrow> bool" where
  "pins i r m \<equiv> keeps (pinned i r) ids_forward m"

lemma pins_update_pg:
  assumes "\<And>d. memory_by_id i (f d) = memory_by_id i d"
  shows "pins i r (updates (update_pg f))"
  using assms by (auto simp: keeps_def keeps_from_def wp_simps pinned_def ids_forward_def)

lemma pins_writeAudit: "pins i r (writeAudit e)"
  by (auto simp: writeAudit_def keeps_def keeps_from_def wp_simps pinned_def ids_forward_def memory_by_id_def)

lemma pins_update_memory:
  assumes "j \<noteq> i" and "\<And>q. m_id (f q) = m_id q"
  shows "pins i r (update_memory j f)"
proof (rule keeps_fromI)
  fix w
  show "keeps_from (pinned i r) ids_forward (update_memory j f) w"
    using assms
    by (auto simp: keeps_from_def wp_def update_memory_def write_memory_def Let_def pinned_def
        ids_forward_def memory_by_id_def find_update_where)
qed

lemma pins_update_returning:
  assumes "m_id q \<noteq> i" and "\<And>q. m_id (f q) = m_id q"
  shows "pins i r (update_returning q f)"
  unfolding update_returning_def by (intro pin.control pins_update_memory assms)

lemma pins_insertFact: "pins i r (insertFact owner nf actor)"
proof -
  have "pins i r (insert_memory row)" for row
    by (auto simp: keeps_def keeps_from_def wp_def insert_memory_def pinned_def ids_forward_def
        memory_by_id_def find_append_Some)
  then show ?thesis
    unfolding insertFact_def insert_new_def
    by (intro pin.control pin.outside_ops pins_writeAudit)
qed

lemmas pin_ops = pin.control pin.outside_ops pins_writeAudit pins_insertFact

lemma pins_locked:
  assumes "\<And>row. m_id row = j \<Longrightarrow> pins i r (f row)"
  shows "pins i r (bindA (lockRow j actor) f)"
proof (intro keeps_fromI pin.from_bind)
  fix w
  show "keeps_from (pinned i r) ids_forward (lockRow j actor) w"
    by (rule pin.from_outside)
      (auto simp: lockRow_def bindA_def select_memory_def reads_def raise_def ret_def outside_pg_def
        split: option.splits if_splits)
  fix row w'
  assume "lockRow j actor w = (Inr row, w')"
  then have "m_id row = j" by (auto dest!: lockRow_Inr)
  then show "keeps_from (pinned i r) ids_forward (f row) w'"
    by (intro keepsD assms)
qed

lemma pins_supersedeInTx: "j \<noteq> i \<Longrightarrow> pins i r (supersedeInTx actor j nf)"
  unfolding supersedeInTx_def supersedeCore_def Let_def
  by (intro pin.keeps_if pin.keeps_raise pins_locked) (auto intro!: pin_ops pins_update_returning)

lemma pins_closeAndPoint: "m_id loser \<noteq> i \<Longrightarrow> pins i r (closeAndPoint loser target act detail actor at')"
  unfolding closeAndPoint_def Let_def by (intro pin_ops pins_update_memory) auto

lemma pins_merge_into:
  "\<lbrakk>m_id s \<noteq> i \<or> \<not> enriches s c; m_id l \<noteq> i\<rbrakk> \<Longrightarrow> pins i r (merge_into s l c)"
  unfolding merge_into_def finish_merge_def
  by (auto intro!: pin_ops pins_supersedeInTx pins_closeAndPoint)

lemma pins_transitionInTx: "j \<noteq> i \<Longrightarrow> pins i r (transitionInTx actor j to sync)"
  unfolding transitionInTx_def
  by (rule pins_locked) (auto split: transition_check.splits intro!: pin_ops pins_update_returning)

lemma run_pinned:
  "pins i r m \<Longrightarrow> memory_by_id i (w_pg w) = Some r \<Longrightarrow> m w = (v, w') \<Longrightarrow> memory_by_id i (w_pg w') = Some r"
  using keeps_run [of "pinned i r" ids_forward m w v w'] by (simp add: pinned_def)

subsection \<open>Merges\<close>

text \<open>A merge either leaves the state alone or merges one live row of the pair into the other.\<close>

lemma mergeSameFact_cases:
  assumes ok: "rows_ok (t_memory (w_pg w))"
  obtains (nothing) v where "mergeSameFact x y c w = (v, w)" "\<And>a b e. v \<noteq> Inr (Merged a b e)"
  | (merges) s l where "mergeSameFact x y c w = merge_into s l (normalize c) w"
      "memory_by_id (m_id s) (w_pg w) = Some s" "memory_by_id (m_id l) (w_pg w) = Some l"
      "(m_id s = x \<and> m_id l = y) \<or> (m_id s = y \<and> m_id l = x)" "x \<noteq> y"
      "m_status s \<noteq> Replaced" "m_status l \<noteq> Replaced" "m_status l \<noteq> UserApproved"
      "chooseSurvivor (asParty s) (asParty l) = Merge (asParty s) (asParty l) \<or>
       chooseSurvivor (asParty l) (asParty s) = Merge (asParty s) (asParty l)"
proof (cases "lockPair x y w")
  case (Pair v w')
  show ?thesis
  proof (cases v)
    case (Inl e)
    with Pair have "w' = w"
      by (auto simp: lockPair_def act_defs split: if_splits list.splits)
    with Pair Inl have "mergeSameFact x y c w = (Inl e, w)"
      by (simp add: mergeSameFact_def bindA_def)
    then show ?thesis by (rule nothing) simp
  next
    case (Inr pair)
    let ?x = "pick x pair" and ?y = "pick y pair"
    have lock: "w' = w" "x \<noteq> y" "memory_by_id x (w_pg w) = Some ?x" "memory_by_id y (w_pg w) = Some ?y"
      using lockPair_Inr [OF Pair [unfolded Inr] ok] by blast+
    from lock have ids: "m_id ?x = x" "m_id ?y = y" by (auto dest: memory_by_id_SomeD)
    have run: "mergeSameFact x y c w = (if m_status ?x = Replaced \<or> m_status ?y = Replaced
         then ret (Skipped ''a party is already replaced (merge already applied?)'')
       else if m_superseded_by ?x = Some y \<or> m_superseded_by ?y = Some x
         then ret (Skipped ''pair already merged'')
       else case chooseSurvivor (asParty ?x) (asParty ?y) of
         NoMerge \<Rightarrow> ret (Skipped ''both memories are user_approved'')
       | Merge survivor loser \<Rightarrow>
           merge_into (if pp_id survivor = m_id ?x then ?x else ?y)
             (if pp_id loser = m_id ?x then ?x else ?y) (normalize c)) w"
      using Pair Inr lock(1) unfolding mergeSameFact_def Let_def by (simp add: bindA_def)
    show ?thesis
    proof (cases "m_status ?x = Replaced \<or> m_status ?y = Replaced \<or>
        m_superseded_by ?x = Some y \<or> m_superseded_by ?y = Some x \<or>
        chooseSurvivor (asParty ?x) (asParty ?y) = NoMerge")
      case True
      then have "\<exists>msg. mergeSameFact x y c w = (Inr (Skipped msg), w)"
        unfolding run ret_def by (auto split: merge_decision.splits)
      then obtain msg where "mergeSameFact x y c w = (Inr (Skipped msg), w)" ..
      then show ?thesis by (rule nothing) simp
    next
      case False
      then obtain s l where d: "chooseSurvivor (asParty ?x) (asParty ?y) = Merge s l"
        by (cases "chooseSurvivor (asParty ?x) (asParty ?y)") auto
      have "pp_status l \<noteq> UserApproved" by (rule chooseSurvivor_loser_not_approved [OF d])
      from d consider "s = asParty ?x" "l = asParty ?y" | "s = asParty ?y" "l = asParty ?x"
        using merge_roles ids lock(2) by metis
      then show ?thesis
      proof cases
        case 1
        show ?thesis
          by (rule merges [of ?x ?y]) (use False d 1 \<open>pp_status l \<noteq> UserApproved\<close> lock ids run in auto)
      next
        case 2
        show ?thesis
          by (rule merges [of ?y ?x]) (use False d 2 \<open>pp_status l \<noteq> UserApproved\<close> lock ids run in auto)
      qed
    qed
  qed
qed

lemma merge_pins_approved:
  assumes ok: "rows_ok (t_memory (w_pg w))" and r: "memory_by_id i (w_pg w) = Some r" "m_status r = UserApproved"
  shows "memory_by_id i (w_pg (snd (mergeSameFact x y c w))) = Some r"
  using ok
proof (cases rule: mergeSameFact_cases [of w x y c])
  case (nothing v)
  with r show ?thesis by simp
next
  case (merges s l)
  have "m_id l \<noteq> i" and "m_id s \<noteq> i \<or> \<not> enriches s (normalize c)"
    using merges r by (auto simp: enriches_def)
  then have "pins i r (merge_into s l (normalize c))" by (intro pins_merge_into)
  moreover obtain v w' where run: "merge_into s l (normalize c) w = (v, w')" by (cases "merge_into s l (normalize c) w")
  ultimately have "memory_by_id i (w_pg w') = Some r" using r(1) run_pinned by blast
  then show ?thesis by (simp add: merges(1) run)
qed

lemma closeAndPoint_Inr:
  assumes "closeAndPoint l t act detail actor at' w = (Inr u, w')"
  shows "t_memory (w_pg w') = update_where (\<lambda>r. m_id r = m_id l)
     (\<lambda>r. r\<lparr>m_status := Replaced, m_superseded_by := Some (m_id t),
        m_valid_until := Some (or_else (or_option at' (m_valid_from t)) (w_clock w)),
        m_updated_at := w_clock w\<rparr>) (t_memory (w_pg w))"
  using assms
  by (auto simp: closeAndPoint_def Let_def act_defs orgFor_def writeAudit_def
      split: sum.splits prod.splits dest!: update_memory_Inr setPayload_optional_pg)

lemma closeAndPoint_row:
  assumes "closeAndPoint l t act detail actor at' w = (Inr u, w')"
  shows "memory_by_id j (w_pg w') = (if j = m_id l
     then map_option (\<lambda>r. r\<lparr>m_status := Replaced, m_superseded_by := Some (m_id t),
        m_valid_until := Some (or_else (or_option at' (m_valid_from t)) (w_clock w)),
        m_updated_at := w_clock w\<rparr>) (memory_by_id j (w_pg w))
     else memory_by_id j (w_pg w))"
  by (rule memory_by_id_update [OF closeAndPoint_Inr [OF assms]]) simp

lemma finish_merge_Inr:
  assumes "finish_merge l t b w = (Inr v, w')"
  obtains act detail actor u where "closeAndPoint l t act detail actor None w = (Inr u, w')"
    "v = Merged (m_id t) (m_id l) b"
  using assms unfolding finish_merge_def thenA_def bindA_def ret_def
  by (auto split: sum.splits prod.splits)

lemma supersedeInTx_old:
  assumes run: "supersedeInTx actor i nf w = (Inr res, w')" and old: "memory_by_id i (w_pg w) = Some old"
  shows "memory_by_id i (w_pg w') = Some (old\<lparr>m_status := Replaced,
      m_valid_until := Some (or_else (nf_valid_from nf) (w_clock w)),
      m_superseded_by := Some (m_id (s_successor res)), m_updated_at := w_clock w\<rparr>)"
proof -
  obtain old' where "memory_by_id i (w_pg w) = Some old'" "m_id old' = i"
    and core: "supersedeCore actor old' nf w = (Inr res, w')"
    using run by (rule supersedeInTx_Inr)
  with old have i: "m_id old = i" "old' = old" by simp_all
  let ?d = "(w_pg w)\<lparr>t_memory := t_memory (w_pg w) @ [s_successor res]\<rparr>"
  have mem: "t_memory (w_pg w') = update_where (\<lambda>r. m_id r = i) (\<lambda>r. r\<lparr>m_status := Replaced,
      m_valid_until := Some (or_else (nf_valid_from nf) (w_clock w)),
      m_superseded_by := Some (m_id (s_successor res)), m_updated_at := w_clock w\<rparr>) (t_memory ?d)"
    using supersedeCore_Inr [OF core refl] i by simp
  have "memory_by_id i ?d = Some old"
    using old by (auto intro: memory_by_id_append)
  then show ?thesis by (subst memory_by_id_update [OF mem]) simp_all
qed

lemma supersedeInTx_new:
  assumes run: "supersedeInTx actor i nf w = (Inr res, w')"
  shows "memory_by_id (m_id (s_successor res)) (w_pg w') = Some (s_successor res)"
proof -
  obtain old where old: "memory_by_id i (w_pg w) = Some old" "m_id old = i"
    and core: "supersedeCore actor old nf w = (Inr res, w')"
    using run by (rule supersedeInTx_Inr)
  let ?d = "(w_pg w)\<lparr>t_memory := t_memory (w_pg w) @ [s_successor res]\<rparr>"
  have mem: "t_memory (w_pg w') = update_where (\<lambda>r. m_id r = i) (\<lambda>r. r\<lparr>m_status := Replaced,
      m_valid_until := Some (or_else (nf_valid_from nf) (w_clock w)),
      m_superseded_by := Some (m_id (s_successor res)), m_updated_at := w_clock w\<rparr>) (t_memory ?d)"
    and new: "memory_by_id (m_id (s_successor res)) (w_pg w) = None"
    using supersedeCore_Inr [OF core refl] old(2) by (simp_all add: memory_by_id_None_iff)
  have "find P xs = None \<Longrightarrow> P x \<Longrightarrow> find P (xs @ [x]) = Some x" for P xs and x :: memory_row
    by (induction xs) (auto split: if_splits)
  with new have "memory_by_id (m_id (s_successor res)) ?d = Some (s_successor res)"
    by (simp add: memory_by_id_def)
  moreover have "m_id (s_successor res) \<noteq> i" using new old(1) by auto
  ultimately show ?thesis by (subst memory_by_id_update [OF mem]) simp_all
qed

text \<open>After a merge the loser is replaced, points at the survivor, and its interval ends.\<close>

definition closed_onto :: "memory_row \<Rightarrow> memory_row \<Rightarrow> memory_row \<Rightarrow> bool" where
  "closed_onto l t r \<longleftrightarrow> same_fact l r \<and> m_status r = Replaced \<and> m_superseded_by r = Some (m_id t) \<and>
     (case m_valid_from t of None \<Rightarrow> m_valid_until r \<noteq> None | Some f \<Rightarrow> m_valid_until r = Some f)"

lemma closed_ontoI:
  "closed_onto l t (l\<lparr>m_status := Replaced, m_superseded_by := Some (m_id t),
     m_valid_until := Some (or_else (or_option None (m_valid_from t)) now), m_updated_at := now\<rparr>)"
  by (auto simp: closed_onto_def same_fact_def or_else_def or_option_def split: option.splits)

lemma merge_into_Inr:
  assumes run: "merge_into s l c w = (Inr v, w')"
    and s: "memory_by_id (m_id s) (w_pg w) = Some s" and l: "memory_by_id (m_id l) (w_pg w) = Some l"
    and ne: "m_id s \<noteq> m_id l"
  shows "\<exists>t r r'. v = Merged (m_id t) (m_id l) (enriches s c) \<and>
    memory_by_id (m_id l) (w_pg w') = Some r \<and> closed_onto l t r \<and>
    memory_by_id (m_id s) (w_pg w') = Some r' \<and> same_fact s r' \<and>
    memory_by_id (m_id t) (w_pg w') = Some t \<and> m_id t \<noteq> m_id l \<and>
    (if enriches s c then m_status r' = Replaced \<and> m_superseded_by r' = Some (m_id t) else r' = s \<and> t = s)"
proof (cases "enriches s c")
  case False
  with run have fin: "finish_merge l s False w = (Inr v, w')" by (simp add: merge_into_def)
  then obtain act detail actor u where close: "closeAndPoint l s act detail actor None w = (Inr u, w')"
    and v: "v = Merged (m_id s) (m_id l) False"
    by (rule finish_merge_Inr)
  from closeAndPoint_row [OF close] s l ne v False closed_ontoI [of l s "w_clock w"]
  show ?thesis by auto
next
  case True
  with run obtain res w1 where sup: "supersedeInTx ReconciliationActor (m_id s) (enriched_fact s l c) w = (Inr res, w1)"
    and fin: "finish_merge l (s_successor res) True w1 = (Inr v, w')"
    by (auto simp: merge_into_def bindA_def split: sum.splits prod.splits)
  obtain act detail actor u where close: "closeAndPoint l (s_successor res) act detail actor None w1 = (Inr u, w')"
    and v: "v = Merged (m_id (s_successor res)) (m_id l) True"
    using fin by (rule finish_merge_Inr)
  note old = supersedeInTx_old [OF sup s] and new = supersedeInTx_new [OF sup]
    and loser = supersedeInTx_others [OF sup ne [symmetric] l]
  from closeAndPoint_row [OF close] old new loser ne v True closed_ontoI [of l "s_successor res" "w_clock w1"]
  show ?thesis by (auto simp: same_fact_def)
qed

lemma lockPair_found:
  assumes ok: "rows_ok (t_memory (w_pg w))" and ne: "x \<noteq> y"
    and x: "memory_by_id x (w_pg w) = Some rx" and y: "memory_by_id y (w_pg w) = Some ry"
  obtains pair where "lockPair x y w = (Inr pair, w)" "pick x pair = rx" "pick y pair = ry"
proof -
  let ?fil = "filter (\<lambda>r. m_id r = x \<or> m_id r = y) (t_memory (w_pg w))"
  let ?sel = "sort_key m_id ?fil"
  have rx: "rx \<in> set (t_memory (w_pg w))" "m_id rx = x" and ry: "ry \<in> set (t_memory (w_pg w))" "m_id ry = y"
    using x y by (auto dest: memory_by_id_SomeD)
  have d: "distinct (map m_id (t_memory (w_pg w)))" using ok by (simp add: rows_ok_def)
  have "set ?sel = {rx, ry}"
    using rx ry d by (auto dest: distinct_key_eq)
  moreover have "distinct ?sel" using d by (simp add: distinct_map)
  ultimately have "length ?sel = card {rx, ry}" by (metis distinct_card)
  moreover have "rx \<noteq> ry" using rx ry ne by auto
  ultimately have len: "length ?sel = 2" by simp
  have two: "\<exists>a b. xs = [a, b]" if "length xs = 2" for xs :: "memory_row list"
    using that by (auto simp: length_Suc_conv numeral_2_eq_2)
  obtain a b where "?sel = [a, b]" using two [OF len] by blast
  then have run: "lockPair x y w = (Inr (a, b), w)"
    using ne by (simp add: lockPair_def act_defs)
  from lockPair_Inr [OF run ok] x y show ?thesis
    by (intro that [OF run]) auto
qed

lemma mergeSameFact_replaced:
  assumes ok: "rows_ok (t_memory (w_pg w))" and ne: "x \<noteq> y"
    and x: "memory_by_id x (w_pg w) = Some rx" and y: "memory_by_id y (w_pg w) = Some ry"
    and dead: "m_status rx = Replaced \<or> m_status ry = Replaced"
  shows "mergeSameFact x y c w =
    (Inr (Skipped ''a party is already replaced (merge already applied?)''), w)"
proof -
  obtain pair where "lockPair x y w = (Inr pair, w)" "pick x pair = rx" "pick y pair = ry"
    using ok ne x y by (rule lockPair_found)
  with dead show ?thesis
    by (simp add: mergeSameFact_def bindA_def Let_def ret_def)
qed

lemma mergeSameFact_Merged:
  assumes safe: "memory_safe w" and run: "mergeSameFact x y c w = (Inr (Merged a b e), w')"
  obtains s l t r r' where "{m_id s, m_id l} = {x, y}" "x \<noteq> y"
    "memory_by_id (m_id s) (w_pg w) = Some s" "memory_by_id (m_id l) (w_pg w) = Some l"
    "m_status l \<noteq> UserApproved" "m_status s \<noteq> Replaced" "m_status l \<noteq> Replaced"
    "a = m_id t" "b = m_id l" "e = enriches s (normalize c)"
    "memory_by_id (m_id l) (w_pg w') = Some r" "closed_onto l t r"
    "memory_by_id (m_id s) (w_pg w') = Some r'" "same_fact s r'"
    "memory_by_id (m_id t) (w_pg w') = Some t" "m_id t \<noteq> m_id l"
    "if e then m_status r' = Replaced \<and> m_superseded_by r' = Some (m_id t) else r' = s \<and> t = s"
proof -
  have "rows_ok (t_memory (w_pg w))" using safe by (simp add: memory_safe_def)
  then show ?thesis
  proof (cases rule: mergeSameFact_cases [of w x y c])
    case (nothing v)
    with run show ?thesis by auto
  next
    case (merges s l)
    from merges have ne: "m_id s \<noteq> m_id l" by auto
    from merges(1) run have into: "merge_into s l (normalize c) w = (Inr (Merged a b e), w')" by simp
    from merge_into_Inr [OF into merges(2,3) ne] obtain t r r' where
      res: "Merged a b e = Merged (m_id t) (m_id l) (enriches s (normalize c))"
      "memory_by_id (m_id l) (w_pg w') = Some r" "closed_onto l t r"
      "memory_by_id (m_id s) (w_pg w') = Some r'" "same_fact s r'"
      "memory_by_id (m_id t) (w_pg w') = Some t" "m_id t \<noteq> m_id l"
      "if enriches s (normalize c) then m_status r' = Replaced \<and> m_superseded_by r' = Some (m_id t)
       else r' = s \<and> t = s"
      by blast
    show ?thesis
      by (rule that [of s l t r r']) (use merges res in auto)
  qed
qed

text \<open>
  Repeating a merge that was carried out, in either order of the pair and with any
  composed content, is skipped as already applied and changes nothing.
\<close>

theorem merge_idempotent:
  assumes "memory_safe w" and "mergeSameFact x y c w = (Inr (Merged a b e), w')"
  shows "mergeSameFact x y c' w' =
      (Inr (Skipped ''a party is already replaced (merge already applied?)''), w') \<and>
    mergeSameFact y x c' w' =
      (Inr (Skipped ''a party is already replaced (merge already applied?)''), w')"
proof -
  have "memory_safe w'" using keeps_run [OF keeps_mergeSameFact assms] by simp
  then have ok: "rows_ok (t_memory (w_pg w'))" by (simp add: memory_safe_def)
  show ?thesis
  proof (rule mergeSameFact_Merged [OF assms])
    fix s l t r r'
    assume ids: "{m_id s, m_id l} = {x, y}" "x \<noteq> y"
      and l: "memory_by_id (m_id l) (w_pg w') = Some r" and "closed_onto l t r"
      and s: "memory_by_id (m_id s) (w_pg w') = Some r'"
    then have dead: "m_status r = Replaced" by (simp add: closed_onto_def)
    from ids consider "m_id s = x" "m_id l = y" | "m_id s = y" "m_id l = x"
      by (auto simp: doubleton_eq_iff)
    then show ?thesis
      using l s dead ids(2) by cases (auto intro!: mergeSameFact_replaced [OF ok])
  qed
qed

theorem merge_idempotent_witness:
  "mergeSameFact (sample_id 1) (sample_id 0) None (snd (mergeSameFact (sample_id 0) (sample_id 1) (Some ''x  y'') sample_world)) =
    (Inr (Skipped ''a party is already replaced (merge already applied?)''),
     snd (mergeSameFact (sample_id 0) (sample_id 1) (Some ''x  y'') sample_world))"
proof -
  have "fst (mergeSameFact (sample_id 0) (sample_id 1) (Some ''x  y'') sample_world) =
      Inr (Merged (sample_id 5) (sample_id 0) True)"
    by code_simp
  then have "mergeSameFact (sample_id 0) (sample_id 1) (Some ''x  y'') sample_world =
      (Inr (Merged (sample_id 5) (sample_id 0) True),
       snd (mergeSameFact (sample_id 0) (sample_id 1) (Some ''x  y'') sample_world))"
    by (rule run_pair)
  from merge_idempotent [OF sample_safe this] show ?thesis by blast
qed

subsection \<open>The user's word\<close>

lemma supersession_pins_approved:
  assumes ok: "rows_ok (t_memory (w_pg w))" and r: "memory_by_id i (w_pg w) = Some r" "m_status r = UserApproved"
  shows "memory_by_id i (w_pg (snd (applySupersession x y w))) = Some r"
proof (cases "lockPair x y w")
  case (Pair v w')
  then have [simp]: "w' = w" by (auto simp: lockPair_def act_defs split: if_splits list.splits)
  show ?thesis
  proof (cases v)
    case (Inl e)
    with Pair r show ?thesis by (simp add: applySupersession_def bindA_def)
  next
    case (Inr pair)
    let ?x = "pick x pair" and ?y = "pick y pair"
    have lock: "memory_by_id x (w_pg w) = Some ?x" "memory_by_id y (w_pg w) = Some ?y"
      using lockPair_Inr [OF Pair [unfolded Inr] ok] by blast+
    let ?m = "thenA (closeAndPoint ?y ?x ''memory.superseded''
        [(''supersededBy'', JStr (m_id ?x)), (''mechanism'', JStr ''reconciliation'')]
        (actorLabel ReconciliationActor) None) (ret (Superseded (m_id ?x) (m_id ?y)))"
    have "snd (applySupersession x y w) = w \<or>
        (supersessionUnambiguous (asParty ?x) (asParty ?y) \<and> snd (applySupersession x y w) = snd (?m w))"
      using Pair Inr unfolding applySupersession_def Let_def by (auto simp: bindA_def ret_def)
    moreover have "memory_by_id i (w_pg (snd (?m w))) = Some r"
      if "supersessionUnambiguous (asParty ?x) (asParty ?y)"
    proof -
      have "m_id ?y = y" using lock(2) by (auto dest: memory_by_id_SomeD)
      with that lock r have "m_id ?y \<noteq> i"
        by (auto simp: supersessionUnambiguous_def)
      then have "pins i r ?m" by (intro pin_ops pins_closeAndPoint)
      moreover obtain u w1 where "?m w = (u, w1)" by (cases "?m w")
      ultimately show ?thesis using run_pinned [of i r ?m w u w1] r(1) by simp
    qed
    ultimately show ?thesis using r by auto
  qed
qed

text \<open>
  C7. Neither a merge nor an automatic supersession ever changes a memory the user has
  approved, whatever pair it is called with and whether it succeeds or fails.
\<close>

theorem approved_shield:
  assumes "memory_safe w" and "memory_by_id i (w_pg w) = Some r" and "m_status r = UserApproved"
  shows "memory_by_id i (w_pg (snd (mergeSameFact x y c w))) = Some r \<and>
    memory_by_id i (w_pg (snd (applySupersession x y w))) = Some r"
  using assms by (simp add: memory_safe_def merge_pins_approved supersession_pins_approved)

theorem approved_shield_witness:
  "memory_by_id (sample_id 2) (w_pg (snd (mergeSameFact (sample_id 1) (sample_id 2) None sample_world))) =
    Some (sample_row 2 UserApproved 30 None)"
proof -
  have "memory_by_id (sample_id 2) (w_pg sample_world) = Some (sample_row 2 UserApproved 30 None)"
    by (simp add: sample_world_def sample_pg_def sample_rows_def memory_by_id_def)
  from approved_shield [OF sample_safe this] show ?thesis by simp
qed

subsection \<open>Contradictions\<close>

definition status_at :: "uuid \<Rightarrow> world \<Rightarrow> memory_status option" where
  "status_at j w = map_option m_status (memory_by_id j (w_pg w))"

lemma status_at_cong: "t_memory (w_pg w') = t_memory (w_pg w) \<Longrightarrow> status_at j w' = status_at j w"
  by (simp add: status_at_def memory_by_id_def)

lemma mark_contradicted_Inr:
  assumes "mark_contradicted row w = (Inr u, w')" and "memory_by_id (m_id row) (w_pg w) = Some row"
  shows "memory_by_id j (w_pg w') = (if j = m_id row \<and> m_status row \<noteq> Contradicted
      then Some (row\<lparr>m_status := Contradicted, m_updated_at := w_clock w\<rparr>) else memory_by_id j (w_pg w))"
    and "t_relation (w_pg w') = t_relation (w_pg w)"
proof -
  have "memory_by_id j (w_pg w') = (if j = m_id row \<and> m_status row \<noteq> Contradicted
      then Some (row\<lparr>m_status := Contradicted, m_updated_at := w_clock w\<rparr>) else memory_by_id j (w_pg w)) \<and>
    t_relation (w_pg w') = t_relation (w_pg w)"
  proof (cases "m_status row = Contradicted")
    case True
    with assms show ?thesis by (simp add: mark_contradicted_def ret_def)
  next
    case False
    with assms(1) obtain v where run: "transitionInTx ReconciliationActor (m_id row) Contradicted True w = (Inr v, w')"
      by (auto simp: mark_contradicted_def act_defs split: sum.splits prod.splits)
    from transitionInTx_Inr [OF run] have mem: "t_memory (w_pg w') = update_where (\<lambda>r. m_id r = m_id row)
        (\<lambda>r. r\<lparr>m_status := Contradicted, m_updated_at := w_clock w\<rparr>) (t_memory (w_pg w))"
      and "t_relation (w_pg w') = t_relation (w_pg w)" by blast+
    then show ?thesis
      using assms(2) False by (subst memory_by_id_update [OF mem]) auto
  qed
  then show "memory_by_id j (w_pg w') = (if j = m_id row \<and> m_status row \<noteq> Contradicted
      then Some (row\<lparr>m_status := Contradicted, m_updated_at := w_clock w\<rparr>) else memory_by_id j (w_pg w))"
    and "t_relation (w_pg w') = t_relation (w_pg w)" by blast+
qed

lemma find_append_new:
  "(\<And>p. p \<in> set qs \<Longrightarrow> \<not> P p) \<Longrightarrow> P q \<Longrightarrow> find P (qs @ [q]) = Some q"
  by (induction qs) auto

definition fresh_relation :: "uuid \<Rightarrow> memory_row \<Rightarrow> memory_row \<Rightarrow> time \<Rightarrow> string \<Rightarrow> relation_row" where
  "fresh_relation i rx ry now reason =
     \<lparr>rel_id = i, rel_a = m_id rx, rel_b = m_id ry, rel_a_prior = m_status rx,
      rel_b_prior = m_status ry, rel_detected_at = now, rel_reason = Some reason,
      rel_resolved_at = None, rel_resolution = None\<rparr>"

lemma insert_relation_Some:
  assumes "insert_relation q w = (Inr (Some q'), w')"
  shows "q' = q \<and> w' = update_pg (\<lambda>d. d\<lparr>t_relation := t_relation d @ [q]\<rparr>) w \<and>
    find (\<lambda>p. rel_id p = rel_id q) (t_relation (w_pg w')) = Some q"
  using assms
  by (auto simp: insert_relation_def Let_def list_ex_iff split: if_splits intro!: find_append_new)

lemma created_rest:
  assumes "(case inserted of
            None \<Rightarrow> ret (Skipped msg)
          | Some relation \<Rightarrow>
              thenA (each mark_contradicted [rx, ry])
              (bindA (orgFor own) (\<lambda>org. thenA (writeAudit (e relation org))
                 (ret (ContradictionCreated (rel_id relation)))))) w = (Inr (ContradictionCreated i), w1)"
  shows "\<exists>q v1 v2 wa wb. inserted = Some q \<and> rel_id q = i \<and> mark_contradicted rx w = (Inr v1, wa) \<and>
    mark_contradicted ry wa = (Inr v2, wb) \<and> t_memory (w_pg w1) = t_memory (w_pg wb) \<and>
    t_relation (w_pg w1) = t_relation (w_pg wb)"
  using assms
  by (auto simp: each_def act_defs orgFor_def writeAudit_def
      split: option.splits sum.splits prod.splits)

lemma createContradiction_Created:
  assumes safe: "memory_safe w"
    and run: "createContradiction x y reason w = (Inr (ContradictionCreated i), w1)"
  obtains rx ry now where "x \<noteq> y" "m_id rx = x" "m_id ry = y"
    "memory_by_id x (w_pg w) = Some rx" "memory_by_id y (w_pg w) = Some ry"
    "m_status rx \<noteq> Replaced" "m_status ry \<noteq> Replaced"
    "find (\<lambda>q. rel_id q = i) (t_relation (w_pg w1)) = Some (fresh_relation i rx ry now reason)"
    "\<And>j. status_at j w1 = (if j = x \<or> j = y then Some Contradicted else status_at j w)"
proof -
  have ok: "rows_ok (t_memory (w_pg w))" using safe by (simp add: memory_safe_def)
  obtain pair w' where lock0: "lockPair x y w = (Inr pair, w')"
    using run unfolding createContradiction_def by (subst (asm) bindA_def) (auto split: sum.splits prod.splits)
  let ?x = "pick x pair" and ?y = "pick y pair"
  have lock: "w' = w" "x \<noteq> y" "memory_by_id x (w_pg w) = Some ?x" "memory_by_id y (w_pg w) = Some ?y"
    using lockPair_Inr [OF lock0 ok] by blast+
  then have ids: "m_id ?x = x" "m_id ?y = y" by (auto dest: memory_by_id_SomeD)
  let ?i = "w_uuids w (w_drawn w)" and ?w = "w\<lparr>w_drawn := Suc (w_drawn w)\<rparr>"
  let ?q = "fresh_relation ?i ?x ?y (w_clock w) reason"
  have live: "m_status ?x \<noteq> Replaced" "m_status ?y \<noteq> Replaced"
    and rest: "bindA (insert_relation ?q) (\<lambda>inserted.
          case inserted of
            None \<Rightarrow> ret (Skipped ''relation already exists for this pair (tombstone)'')
          | Some relation \<Rightarrow>
              thenA (each mark_contradicted [?x, ?y])
              (bindA (orgFor (m_owner ?x)) (\<lambda>org.
               thenA (writeAudit \<lparr>a_actor = actorLabel ReconciliationActor,
                        a_action = ''memory.contradiction_detected'',
                        a_entity_type = ''memory_relation'', a_entity_id = rel_id relation,
                        a_detail = JObj [(''a'', JStr (m_id ?x)), (''b'', JStr (m_id ?y))],
                        a_org_id = org, a_owner_id = Some (m_owner ?x)\<rparr>)
                 (ret (ContradictionCreated (rel_id relation)))))) ?w = (Inr (ContradictionCreated i), w1)"
    using run lock0 lock(1)
    unfolding createContradiction_def Let_def
    by (auto simp: bindA_Inr [where m = "lockPair x y"] bindA_Inr [where m = draw_uuid] draw_uuid_def
        fresh_relation_def ret_def split: if_splits)
  obtain ins wi where insert: "insert_relation ?q ?w = (Inr ins, wi)"
    and rest': "(case ins of
            None \<Rightarrow> ret (Skipped ''relation already exists for this pair (tombstone)'')
          | Some relation \<Rightarrow>
              thenA (each mark_contradicted [?x, ?y])
              (bindA (orgFor (m_owner ?x)) (\<lambda>org.
               thenA (writeAudit \<lparr>a_actor = actorLabel ReconciliationActor,
                        a_action = ''memory.contradiction_detected'',
                        a_entity_type = ''memory_relation'', a_entity_id = rel_id relation,
                        a_detail = JObj [(''a'', JStr (m_id ?x)), (''b'', JStr (m_id ?y))],
                        a_org_id = org, a_owner_id = Some (m_owner ?x)\<rparr>)
                 (ret (ContradictionCreated (rel_id relation)))))) wi = (Inr (ContradictionCreated i), w1)"
    using rest by (subst (asm) bindA_def) (auto split: sum.splits prod.splits)
  from created_rest [OF rest'] obtain q v1 v2 wa wb where
    q: "ins = Some q" "rel_id q = i" and a: "mark_contradicted ?x wi = (Inr v1, wa)"
    and b: "mark_contradicted ?y wa = (Inr v2, wb)"
    and same: "t_memory (w_pg w1) = t_memory (w_pg wb)" "t_relation (w_pg w1) = t_relation (w_pg wb)"
    by blast
  from insert_relation_Some [OF insert [unfolded q(1)]] have wi: "q = ?q"
    "t_memory (w_pg wi) = t_memory (w_pg w)" "find (\<lambda>p. rel_id p = i) (t_relation (w_pg wi)) = Some ?q"
    using q(2) by auto
  have mem: "memory_by_id j (w_pg wi) = memory_by_id j (w_pg w)" for j
    using wi(2) by (simp add: memory_by_id_def)
  note ra = mark_contradicted_Inr [OF a, unfolded mem ids, OF lock(3)]
  have yb: "memory_by_id (m_id ?y) (w_pg wa) = Some ?y"
    using ra(1) [of y] lock(2,4) ids by simp
  note rb = mark_contradicted_Inr [OF b yb, unfolded ids]
  have "status_at j w1 = (if j = x \<or> j = y then Some Contradicted else status_at j w)" for j
    using lock(2,3,4) unfolding status_at_cong [OF same(1)] by (simp add: status_at_def ra(1) rb(1))
  moreover have "find (\<lambda>p. rel_id p = i) (t_relation (w_pg w1)) = Some (fresh_relation i ?x ?y (w_clock w) reason)"
    using wi(1,3) q(2) by (simp add: same(2) rb(2) ra(2) fresh_relation_def)
  ultimately show ?thesis
    by (rule that [OF lock(2) ids lock(3,4) live, rotated])
qed

lemma restore_Inr:
  assumes run: "restoreFromContradiction row prior act actor org w = (Inr u, w')"
    and row: "memory_by_id (m_id row) (w_pg w) = Some row"
  shows "memory_by_id j (w_pg w') = (if j = m_id row \<and> m_status row = Contradicted \<and> prior \<noteq> Contradicted
      then Some (row\<lparr>m_status := prior, m_updated_at := w_clock w\<rparr>) else memory_by_id j (w_pg w))"
proof (cases "m_status row \<noteq> Contradicted \<or> prior = Contradicted")
  case True
  with run show ?thesis by (auto simp: restoreFromContradiction_def ret_def)
next
  case False
  with run have mem: "t_memory (w_pg w') = update_where (\<lambda>r. m_id r = m_id row)
      (\<lambda>r. r\<lparr>m_status := prior, m_updated_at := w_clock w\<rparr>) (t_memory (w_pg w))"
    by (auto simp: restoreFromContradiction_def act_defs writeAudit_def
        split: sum.splits prod.splits dest!: update_memory_Inr setPayload_optional_pg)
  show ?thesis
    using False row by (subst memory_by_id_update [OF mem]) auto
qed

lemma transaction_Inr:
  "transaction m w = (Inr a, w') \<Longrightarrow> \<exists>w1. m w = (Inr a, w1) \<and> w_pg w' = w_pg w1"
  by (auto simp: transaction_def split: prod.splits sum.splits fault.splits)

lemma applyDismiss_Inr:
  assumes run: "applyDismiss user prin ra rb q w = (Inr v, w')"
    and a: "memory_by_id (m_id ra) (w_pg w) = Some ra" and b: "memory_by_id (m_id rb) (w_pg w) = Some rb"
    and ne: "m_id ra \<noteq> m_id rb"
  shows "status_at j w' =
     (if j = m_id ra \<and> m_status ra = Contradicted then Some (rel_a_prior q)
      else if j = m_id rb \<and> m_status rb = Contradicted then Some (rel_b_prior q)
      else status_at j w)"
proof -
  obtain w1 u1 u2 w2 where ra: "restoreFromContradiction ra (rel_a_prior q)
      ''memory.contradiction_dismiss_restored'' (actorLabel user) (Some (p_org_id prin)) w = (Inr u1, w1)"
    and rb: "restoreFromContradiction rb (rel_b_prior q)
      ''memory.contradiction_dismiss_restored'' (actorLabel user) (Some (p_org_id prin)) w1 = (Inr u2, w2)"
    and w': "w' = w2"
    using run unfolding applyDismiss_def thenA_def bindA_def ret_def
    by (auto split: sum.splits prod.splits)
  note sa = restore_Inr [OF ra a]
  have "memory_by_id (m_id rb) (w_pg w1) = Some rb" using sa [of "m_id rb"] b ne by simp
  note sb = restore_Inr [OF rb this]
  show ?thesis
    using a b ne by (auto simp: status_at_def w' sa sb)
qed

lemma resolve_Dismiss_Inr:
  assumes ok: "rows_ok (t_memory (w_pg w))" and found: "find (\<lambda>q. rel_id q = i) (t_relation (w_pg w)) = Some q"
    and "rel_resolved_at q = None"
    and run: "resolveContradiction prin i Dismiss w = (Inr res, w')"
  obtains ra rb where "rel_a q \<noteq> rel_b q" "memory_by_id (rel_a q) (w_pg w) = Some ra"
    "memory_by_id (rel_b q) (w_pg w) = Some rb"
    "\<And>j. status_at j w' =
     (if j = rel_a q \<and> m_status ra = Contradicted then Some (rel_a_prior q)
      else if j = rel_b q \<and> m_status rb = Contradicted then Some (rel_b_prior q)
      else status_at j w)"
proof -
  from transaction_Inr [OF run [unfolded resolveContradiction_def]] assms(2,3) obtain w1 where
    body: "bindA (lockPair (rel_a q) (rel_b q)) (resolve_pair prin q Dismiss) w = (Inr res, w1)"
    and pg: "w_pg w' = w_pg w1"
    by auto
  then obtain pair w0 where lock0: "lockPair (rel_a q) (rel_b q) w = (Inr pair, w0)"
    and pairrun: "resolve_pair prin q Dismiss pair w0 = (Inr res, w1)"
    by (auto simp: bindA_def split: sum.splits prod.splits)
  let ?a = "pick (rel_a q) pair" and ?b = "pick (rel_b q) pair"
  have lock: "w0 = w" "rel_a q \<noteq> rel_b q" "memory_by_id (rel_a q) (w_pg w) = Some ?a"
    "memory_by_id (rel_b q) (w_pg w) = Some ?b"
    using lockPair_Inr [OF lock0 ok] by blast+
  then have ids: "m_id ?a = rel_a q" "m_id ?b = rel_b q" by (auto dest: memory_by_id_SomeD)
  from pairrun lock(1) obtain v w2 where dis: "applyDismiss (User (p_user_id prin)) prin ?a ?b q w = (Inr v, w2)"
    and mem: "t_memory (w_pg w1) = t_memory (w_pg w2)"
    by (auto simp: resolve_pair_def Let_def resolve_by_def act_defs resolve_relation_def writeAudit_def
        split: if_splits sum.splits prod.splits)
  have "status_at j w' = status_at j w2" for j
    using mem pg by (intro status_at_cong) simp
  then show ?thesis
    using applyDismiss_Inr [OF dis] ids lock by (intro that [OF lock(2-4)]) simp
qed

text \<open>
  C4. Raising a contradiction between two memories and then dismissing it leaves the status of
  every memory, of the pair and of all others, as it was before the contradiction was raised.
\<close>

theorem dismissal_restores:
  assumes safe: "memory_safe w"
    and create: "createContradiction x y reason w = (Inr (ContradictionCreated i), w1)"
    and dismiss: "resolveContradiction prin i Dismiss w1 = (Inr res, w2)"
  shows "map_option m_status (memory_by_id j (w_pg w2)) = map_option m_status (memory_by_id j (w_pg w))"
proof (rule createContradiction_Created [OF safe create])
  fix rx ry now
  assume rows: "x \<noteq> y" "m_id rx = x" "m_id ry = y"
    "memory_by_id x (w_pg w) = Some rx" "memory_by_id y (w_pg w) = Some ry"
    and found: "find (\<lambda>q. rel_id q = i) (t_relation (w_pg w1)) = Some (fresh_relation i rx ry now reason)"
    and st: "\<And>j. status_at j w1 = (if j = x \<or> j = y then Some Contradicted else status_at j w)"
  have ok: "rows_ok (t_memory (w_pg w1))"
    using keeps_run [OF keeps_createContradiction safe create] by (simp add: memory_safe_def)
  have open': "rel_resolved_at (fresh_relation i rx ry now reason) = None"
    by (simp add: fresh_relation_def)
  have "status_at j w2 = status_at j w"
  proof (rule resolve_Dismiss_Inr [OF ok found open' dismiss])
    fix ra rb
    assume "memory_by_id (rel_a (fresh_relation i rx ry now reason)) (w_pg w1) = Some ra"
      "memory_by_id (rel_b (fresh_relation i rx ry now reason)) (w_pg w1) = Some rb"
      and fin: "\<And>j. status_at j w2 =
       (if j = rel_a (fresh_relation i rx ry now reason) \<and> m_status ra = Contradicted
        then Some (rel_a_prior (fresh_relation i rx ry now reason))
        else if j = rel_b (fresh_relation i rx ry now reason) \<and> m_status rb = Contradicted
        then Some (rel_b_prior (fresh_relation i rx ry now reason)) else status_at j w1)"
    then have "m_status ra = Contradicted" "m_status rb = Contradicted"
      using st [of x] st [of y] rows by (simp_all add: status_at_def fresh_relation_def)
    with fin [of j] st [of j] rows show ?thesis
      by (auto simp: status_at_def fresh_relation_def)
  qed
  then show ?thesis by (simp add: status_at_def)
qed

definition sample_contradicted :: "world" where
  "sample_contradicted = snd (createContradiction (sample_id 0) (sample_id 2) ''clash'' sample_world)"

lemma sample_contradicted_safe: "memory_safe sample_contradicted"
  using keeps_run [OF keeps_createContradiction sample_safe, of "sample_id 0" "sample_id 2" "''clash''"]
  by (cases "createContradiction (sample_id 0) (sample_id 2) ''clash'' sample_world")
    (simp add: sample_contradicted_def)

theorem dismissal_restores_witness:
  "map_option m_status (memory_by_id (sample_id 2)
     (w_pg (snd (resolveContradiction sample_principal (sample_id 5) Dismiss sample_contradicted)))) = Some UserApproved"
proof -
  have "fst (createContradiction (sample_id 0) (sample_id 2) ''clash'' sample_world) =
      Inr (ContradictionCreated (sample_id 5))"
    by code_simp
  from run_pair [OF this] have c: "createContradiction (sample_id 0) (sample_id 2) ''clash'' sample_world =
      (Inr (ContradictionCreated (sample_id 5)), sample_contradicted)"
    by (simp add: sample_contradicted_def)
  have "map_sum id snd (fst (resolveContradiction sample_principal (sample_id 5) Dismiss sample_contradicted)) = Inr False"
    by code_simp
  then obtain res where "fst (resolveContradiction sample_principal (sample_id 5) Dismiss sample_contradicted) = Inr res"
    by (cases "fst (resolveContradiction sample_principal (sample_id 5) Dismiss sample_contradicted)") auto
  from dismissal_restores [OF sample_safe c run_pair [OF this], of "sample_id 2"] show ?thesis
    by (simp add: sample_world_def sample_pg_def sample_rows_def memory_by_id_def)
qed

subsection \<open>What a resolution writes\<close>

text \<open>A third instance of the contract: the relations are left alone.\<close>

definition relations_are :: "relation_row list \<Rightarrow> world \<Rightarrow> bool" where
  "relations_are R w \<longleftrightarrow> t_relation (w_pg w) = R"

interpretation rel: pg_evolution "relations_are R" ids_forward for R
  by unfold_locales (auto simp: relations_are_def ids_forward_def outside_pg_def)

abbreviation rels :: "relation_row list \<Rightarrow> 'a op \<Rightarrow> bool" where
  "rels R m \<equiv> keeps (relations_are R) ids_forward m"

lemma rels_run:
  assumes "\<And>R. rels R m" and "m w = (v, w')"
  shows "t_relation (w_pg w') = t_relation (w_pg w)"
  using keeps_run [OF assms(1) _ assms(2), of "t_relation (w_pg w)"] by (simp add: relations_are_def)

lemma rels_writeAudit: "rels R (writeAudit e)"
  by (auto simp: writeAudit_def keeps_def keeps_from_def wp_simps relations_are_def ids_forward_def)

lemma rels_enqueue: "rels R (withTransactionalEnqueue ev job payload)"
  by (auto simp: withTransactionalEnqueue_def keeps_def keeps_from_def wp_simps relations_are_def ids_forward_def)

lemma rels_write_memory: "rels R (write_memory f)"
  by (auto simp: keeps_def keeps_from_def wp_def write_memory_def Let_def relations_are_def ids_forward_def)

lemma rels_update: "rels R (update_memory i f)" "rels R (update_returning row f)"
  unfolding update_memory_def update_returning_def by (intro rel.control rels_write_memory)+

lemma rels_insert_memory: "rels R (insert_memory row)"
  by (auto simp: keeps_def keeps_from_def wp_def insert_memory_def relations_are_def ids_forward_def)

lemma rels_lockRow: "rels R (lockRow i actor)"
  unfolding lockRow_def select_memory_def by (auto split: option.splits intro!: rel.control)

lemmas rel_ops = rel.control rel.outside_ops rels_writeAudit rels_enqueue rels_update rels_insert_memory
  rels_lockRow

lemma rels_transitionInTx: "rels R (transitionInTx actor i to sync)"
  unfolding transitionInTx_def by (auto split: transition_check.splits intro!: rel_ops)

lemma rels_editContentInTx: "rels R (editContentInTx prin i c)"
  unfolding editContentInTx_def supersedeCore_def insertFact_def insert_new_def Let_def
  by (intro rel_ops)

lemma rels_closeAndPoint: "rels R (closeAndPoint l t act detail actor at')"
  unfolding closeAndPoint_def Let_def by (intro rel_ops)

lemma rels_restore: "rels R (restoreFromContradiction row prior act actor org)"
  unfolding restoreFromContradiction_def by (intro rel_ops)

lemma rels_resolve_by: "rels R (resolve_by prin ra rb q action)"
  unfolding resolve_by_def applyConfirm_def applyCorrect_def applyDismiss_def Let_def
  by (auto split: contradiction_resolve_action.splits
      intro!: rel_ops rels_transitionInTx rels_editContentInTx rels_closeAndPoint rels_restore)

lemma resolveContradiction_Inr:
  assumes run: "resolveContradiction prin i action w = (Inr (q', b), w')"
  obtains (already) q where "find (\<lambda>q. rel_id q = i) (t_relation (w_pg w)) = Some q"
      "rel_resolved_at q \<noteq> None" "q' = q" "b" "w_pg w' = w_pg w"
  | (resolved) q pair res w0 w1 where "find (\<lambda>q. rel_id q = i) (t_relation (w_pg w)) = Some q"
      "rel_resolved_at q = None" "lockPair (rel_a q) (rel_b q) w = (Inr pair, w0)"
      "resolve_by prin (pick (rel_a q) pair) (pick (rel_b q) pair) q action w0 = (Inr res, w1)"
      "m_owner (pick (rel_a q) pair) = p_user_id prin" "m_owner (pick (rel_b q) pair) = p_user_id prin"
      "q' = q\<lparr>rel_resolved_at := Some (w_clock w1), rel_resolution := Some res\<rparr>" "\<not> b"
      "t_memory (w_pg w') = t_memory (w_pg w1)"
      "t_relation (w_pg w') = update_where (\<lambda>p. rel_id p = rel_id q)
         (\<lambda>p. p\<lparr>rel_resolved_at := Some (w_clock w1), rel_resolution := Some res\<rparr>) (t_relation (w_pg w1))"
proof -
  from transaction_Inr [OF run [unfolded resolveContradiction_def]] obtain w3 where
    body: "(case find (\<lambda>q. rel_id q = i) (t_relation (w_pg w)) of
         None \<Rightarrow> raise (NotFound ''relation'' i)
       | Some q \<Rightarrow>
           if rel_resolved_at q \<noteq> None then ret (q, True)
           else bindA (lockPair (rel_a q) (rel_b q)) (resolve_pair prin q action)) w = (Inr (q', b), w3)"
    and pg: "w_pg w' = w_pg w3"
    unfolding reads_bind by blast
  then obtain q where found: "find (\<lambda>q. rel_id q = i) (t_relation (w_pg w)) = Some q"
    by (auto simp: raise_def split: option.splits)
  show ?thesis
  proof (cases "rel_resolved_at q = None")
    case False
    with body found pg show ?thesis by (intro already) (auto simp: ret_def)
  next
    case True
    with body found have "bindA (lockPair (rel_a q) (rel_b q)) (resolve_pair prin q action) w = (Inr (q', b), w3)"
      by simp
    then obtain pair w0 where lock: "lockPair (rel_a q) (rel_b q) w = (Inr pair, w0)"
      and pr: "resolve_pair prin q action pair w0 = (Inr (q', b), w3)"
      by (auto simp: bindA_def split: sum.splits prod.splits)
    let ?a = "pick (rel_a q) pair" and ?b = "pick (rel_b q) pair"
    from pr obtain res w1 where by_run: "resolve_by prin ?a ?b q action w0 = (Inr res, w1)"
      and own: "m_owner ?a = p_user_id prin" "m_owner ?b = p_user_id prin"
      by (auto simp: resolve_pair_def Let_def bindA_def raise_def split: if_splits sum.splits prod.splits)
    from pr by_run own have "q' = q\<lparr>rel_resolved_at := Some (w_clock w1), rel_resolution := Some res\<rparr>" "\<not> b"
      "t_memory (w_pg w3) = t_memory (w_pg w1)"
      "t_relation (w_pg w3) = update_where (\<lambda>p. rel_id p = rel_id q)
         (\<lambda>p. p\<lparr>rel_resolved_at := Some (w_clock w1), rel_resolution := Some res\<rparr>) (t_relation (w_pg w1))"
      by (auto simp: resolve_pair_def Let_def bindA_Inr [where m = "resolve_by prin ?a ?b q action", OF by_run] act_defs resolve_relation_def writeAudit_def)
    then show ?thesis
      using found True lock by_run own pg by (intro resolved) auto
  qed
qed

lemma transitionInTx_row:
  assumes run: "transitionInTx actor i to sync w = (Inr u, w')"
  shows "memory_by_id j (w_pg w') = (if j = i then Some u else memory_by_id j (w_pg w))"
    and "m_status u = to" and "m_id u = i"
proof -
  from transitionInTx_Inr [OF run] obtain row where row: "memory_by_id i (w_pg w) = Some row" "m_id row = i"
    "u = row\<lparr>m_status := to, m_updated_at := w_clock w\<rparr>"
    and mem: "t_memory (w_pg w') = update_where (\<lambda>r. m_id r = i)
      (\<lambda>r. r\<lparr>m_status := to, m_updated_at := w_clock w\<rparr>) (t_memory (w_pg w))" by blast
  show "memory_by_id j (w_pg w') = (if j = i then Some u else memory_by_id j (w_pg w))"
    using row by (subst memory_by_id_update [OF mem]) auto
  show "m_status u = to" "m_id u = i" using row by simp_all
qed

text \<open>
  What a confirmation makes of the loser: it was over before the winner began, or the winner
  replaces it from where it begins.
\<close>

definition begins :: "memory_row \<Rightarrow> time" where
  "begins r = (case m_valid_from r of Some v \<Rightarrow> v | None \<Rightarrow> m_created_at r)"

definition over_by :: "memory_row \<Rightarrow> time \<Rightarrow> bool" where
  "over_by r t \<longleftrightarrow> (case m_valid_until r of Some u \<Rightarrow> u \<le> t | None \<Rightarrow> False)"

definition losing :: "memory_row \<Rightarrow> memory_row \<Rightarrow> time \<Rightarrow> memory_row" where
  "losing winner r t =
     (if over_by r (begins winner) then r\<lparr>m_status := Outdated, m_updated_at := t\<rparr>
      else r\<lparr>m_status := Replaced, m_superseded_by := Some (m_id winner),
             m_valid_until := Some (begins winner), m_updated_at := t\<rparr>)"

lemma eventTime_begins: "eventTime (asParty (r\<lparr>m_status := s, m_updated_at := t\<rparr>)) = begins r"
  by (simp add: eventTime_def asParty_def begins_def split: option.split)

lemma outcome_losing: "confirmLoserOutcome (asParty (r\<lparr>m_status := s, m_updated_at := t\<rparr>)) (asParty l) =
    (if over_by l (begins r) then LoserOutdated else LoserReplaced)"
  by (simp add: confirmLoserOutcome_def Let_def eventTime_begins over_by_def) (simp add: asParty_def split: option.split)

lemma applyConfirm_Inr:
  assumes run: "applyConfirm user ra rb side w = (Inr v, w')"
    and wi: "wi = (if side = SideA then ra else rb)" and lo': "lo = (if side = SideA then rb else ra)"
    and ne: "m_id wi \<noteq> m_id lo" and lo: "memory_by_id (m_id lo) (w_pg w) = Some lo"
    and found: "memory_by_id (m_id wi) (w_pg w) = Some wi"
  shows "m_status wi = Contradicted \<and> m_status lo = Contradicted \<and>
    v = (if side = SideA then ConfirmedA else ConfirmedB) \<and>
    (\<exists>t t'. memory_by_id (m_id wi) (w_pg w') = Some (wi\<lparr>m_status := UserApproved, m_updated_at := t\<rparr>) \<and>
      memory_by_id (m_id lo) (w_pg w') = Some (losing wi lo t'))"
proof -
  let ?d = "\<lambda>u. [(''supersededBy'', JStr (m_id u)), (''mechanism'', JStr ''contradiction_confirm'')]"
  have st: "m_status wi = Contradicted" "m_status lo = Contradicted"
    using run unfolding applyConfirm_def Let_def wi [symmetric] lo' [symmetric]
    by (auto simp: raise_def split: if_splits)
  then obtain u w1 where t: "transitionInTx user (m_id wi) UserApproved True w = (Inr u, w1)"
    and rest: "thenA (if confirmLoserOutcome (asParty u) (asParty lo) = LoserOutdated
                     then thenA (transitionInTx user (m_id lo) Outdated True) (ret ())
                     else closeAndPoint lo u ''memory.superseded'' (?d u) (actorLabel user) (Some (eventTime (asParty u))))
                (ret (if side = SideA then ConfirmedA else ConfirmedB)) w1 = (Inr v, w')"
    using run unfolding applyConfirm_def Let_def wi [symmetric] lo' [symmetric]
    by (auto elim: bindA_InrE)
  have u: "u = wi\<lparr>m_status := UserApproved, m_updated_at := w_clock w\<rparr>"
    using transitionInTx_Inr [OF t] found by auto
  note row = transitionInTx_row [OF t]
  have v: "v = (if side = SideA then ConfirmedA else ConfirmedB)"
    using rest by (auto simp: ret_def elim!: thenA_InrE)
  have "\<exists>t'. memory_by_id (m_id lo) (w_pg w') = Some (losing wi lo t') \<and>
      memory_by_id (m_id wi) (w_pg w') = Some u"
  proof (cases "over_by lo (begins wi)")
    case True
    then have "confirmLoserOutcome (asParty u) (asParty lo) = LoserOutdated" by (simp add: u outcome_losing)
    with rest obtain l w2 where t2: "transitionInTx user (m_id lo) Outdated True w1 = (Inr l, w2)" and "w' = w2"
      by (auto simp: act_defs split: sum.splits prod.splits)
    moreover have "memory_by_id (m_id lo) (w_pg w1) = Some lo" using row(1) ne lo by simp
    ultimately have "memory_by_id (m_id lo) (w_pg w') = Some (losing wi lo (w_clock w1))"
      using transitionInTx_row(1) [OF t2, of "m_id lo"] transitionInTx_Inr [OF t2] True by (auto simp: losing_def)
    moreover have "memory_by_id (m_id wi) (w_pg w') = Some u"
      using transitionInTx_row(1) [OF t2, of "m_id wi"] row(1) ne \<open>w' = w2\<close> by simp
    ultimately show ?thesis by blast
  next
    case False
    then have "confirmLoserOutcome (asParty u) (asParty lo) \<noteq> LoserOutdated" by (simp add: u outcome_losing)
    with rest obtain x where c: "closeAndPoint lo u ''memory.superseded'' (?d u) (actorLabel user)
        (Some (eventTime (asParty u))) w1 = (Inr x, w')"
      by (auto simp: act_defs split: sum.splits prod.splits)
    have e: "eventTime (asParty u) = begins wi" by (simp add: u eventTime_begins)
    have id: "m_id u = m_id wi" by (simp add: u)
    from closeAndPoint_row [OF c, of "m_id lo"] closeAndPoint_row [OF c, of "m_id wi"] row(1) ne lo show ?thesis
      by (simp add: or_else_def or_option_def losing_def False e id) (rule exI [of _ "w_clock w1"], rule refl)
  qed
  with st v u show ?thesis by blast
qed

text \<open>
  C5. Confirming one side of an open contradiction records that side as the resolution; both
  memories were contradicted and the caller's own. The confirmed memory becomes user-approved
  and nothing else of it changes. The other one becomes outdated, with interval and pointer as
  they were, when its validity had ended by the moment the confirmed one begins (its start of
  validity, or else its creation); otherwise it becomes replaced, points to the confirmed one
  and its validity ends at that moment.
\<close>

theorem confirm_outcome:
  assumes safe: "memory_safe w"
    and found: "find (\<lambda>q. rel_id q = i) (t_relation (w_pg w)) = Some q" and "rel_resolved_at q = None"
    and run: "resolveContradiction prin i (Confirm side) w = (Inr (q', already), w')"
    and sides: "(winner, loser) = (if side = SideA then (rel_a q, rel_b q) else (rel_b q, rel_a q))"
  shows "\<not> already \<and> rel_resolution q' = Some (if side = SideA then ConfirmedA else ConfirmedB) \<and>
    (\<exists>u l t t'. memory_by_id winner (w_pg w) = Some u \<and> memory_by_id loser (w_pg w) = Some l \<and>
      m_status u = Contradicted \<and> m_status l = Contradicted \<and>
      m_owner u = p_user_id prin \<and> m_owner l = p_user_id prin \<and>
      memory_by_id winner (w_pg w') = Some (u\<lparr>m_status := UserApproved, m_updated_at := t\<rparr>) \<and>
      memory_by_id loser (w_pg w') = Some (losing u l t'))"
  using run
proof (cases rule: resolveContradiction_Inr)
  case (already q0)
  with found assms(3) show ?thesis by simp
next
  case (resolved q0 pair r w0 w1)
  have ok: "rows_ok (t_memory (w_pg w))" using safe by (simp add: memory_safe_def)
  have q0: "q0 = q" using resolved(1) found by simp
  let ?a = "pick (rel_a q) pair" and ?b = "pick (rel_b q) pair"
  have lock: "w0 = w" "rel_a q \<noteq> rel_b q" "memory_by_id (rel_a q) (w_pg w) = Some ?a"
    "memory_by_id (rel_b q) (w_pg w) = Some ?b"
    using lockPair_Inr [OF resolved(3) ok] unfolding q0 by blast+
  then have ids: "m_id ?a = rel_a q" "m_id ?b = rel_b q" by (auto dest: memory_by_id_SomeD)
  have mem: "memory_by_id j (w_pg w') = memory_by_id j (w_pg w1)" for j
    using resolved(9) by (simp add: memory_by_id_def)
  from resolved(4) have conf: "applyConfirm (User (p_user_id prin)) ?a ?b side w = (Inr r, w1)"
    by (simp add: resolve_by_def q0 lock(1))
  let ?w = "if side = SideA then ?a else ?b" and ?l = "if side = SideA then ?b else ?a"
  have roles: "m_id ?w = winner" "m_id ?l = loser" using sides ids by (auto split: if_splits)
  have rows: "memory_by_id (m_id ?w) (w_pg w) = Some ?w" "memory_by_id (m_id ?l) (w_pg w) = Some ?l" "m_id ?w \<noteq> m_id ?l"
    using lock ids by auto
  from applyConfirm_Inr [OF conf refl refl rows(3,2,1)] have out: "m_status ?w = Contradicted" "m_status ?l = Contradicted"
    "r = (if side = SideA then ConfirmedA else ConfirmedB)"
    "\<exists>t t'. memory_by_id winner (w_pg w1) = Some (?w\<lparr>m_status := UserApproved, m_updated_at := t\<rparr>) \<and>
      memory_by_id loser (w_pg w1) = Some (losing ?w ?l t')"
    unfolding roles by blast+
  have own: "m_owner ?w = p_user_id prin" "m_owner ?l = p_user_id prin" using resolved(5,6) by (simp_all add: q0)
  from out(4) have rows': "\<exists>t t'. memory_by_id winner (w_pg w') = Some (?w\<lparr>m_status := UserApproved, m_updated_at := t\<rparr>) \<and>
      memory_by_id loser (w_pg w') = Some (losing ?w ?l t')" unfolding mem .
  have "rel_resolution q' = Some r" using resolved(7) by simp
  then show ?thesis using resolved(8) out(1-3) own rows rows' unfolding roles by blast
qed

theorem confirm_outcome_witness:
  "\<exists>u l t t'. memory_by_id (sample_id 2) (w_pg sample_contradicted) = Some u \<and>
     memory_by_id (sample_id 0) (w_pg sample_contradicted) = Some l \<and>
     memory_by_id (sample_id 2) (w_pg (snd (resolveContradiction sample_principal (sample_id 5)
       (Confirm SideB) sample_contradicted))) = Some (u\<lparr>m_status := UserApproved, m_updated_at := t\<rparr>) \<and>
     memory_by_id (sample_id 0) (w_pg (snd (resolveContradiction sample_principal (sample_id 5)
       (Confirm SideB) sample_contradicted))) = Some (losing u l t')"
proof -
  let ?m = "resolveContradiction sample_principal (sample_id 5) (Confirm SideB) sample_contradicted"
  let ?q = "\<lparr>rel_id = sample_id 5, rel_a = sample_id 0, rel_b = sample_id 2, rel_a_prior = Active,
      rel_b_prior = UserApproved, rel_detected_at = 100, rel_reason = Some ''clash'',
      rel_resolved_at = None, rel_resolution = None\<rparr>"
  have f: "find (\<lambda>q. rel_id q = sample_id 5) (t_relation (w_pg sample_contradicted)) = Some ?q"
    by code_simp
  have "map_sum id snd (fst ?m) = Inr False" by code_simp
  then obtain q' where "fst ?m = Inr (q', False)" by (cases "fst ?m") auto
  then have run: "?m = (Inr (q', False), snd ?m)" by (rule run_pair)
  have open': "rel_resolved_at ?q = None"
    and sides: "(sample_id 2, sample_id 0) = (if SideB = SideA then (rel_a ?q, rel_b ?q) else (rel_b ?q, rel_a ?q))"
    by simp_all
  from confirm_outcome [OF sample_contradicted_safe f open' run sides] show ?thesis by blast
qed

end
