(* ===== verification/Receipt_Chain.thy ===== *)
theory Receipt_Chain
  imports Prelude "HOL-Library.Multiset"
begin

text \<open>
  The hash chain of deletion receipts, \<^verbatim>\<open>memory/domain/receipt-chain.ts\<close>: the canonical JSON
  of a payload, its hash and the walk that verifies a chain. SHA-256 and the ed25519 check
  are Node's crypto: they are the arguments \<open>sha\<close> and \<open>sig_ok\<close>. Canonical JSON is shown to be
  independent of the order of keys and to be readable back, so that equal bytes mean equal
  payloads.
\<close>

subsection \<open>Canonical JSON\<close>

definition hex_digit :: "nat \<Rightarrow> char" where
  "hex_digit d = (if d < 10 then char_of (48 + d) else char_of (87 + d))"

definition escape_char :: "char \<Rightarrow> string" where
  "escape_char c =
     (let n = (of_char c :: nat) in
      if n = 34 then [CHR 0x5C, CHR 0x22]
      else if n = 92 then [CHR 0x5C, CHR 0x5C]
      else if n = 8 then [CHR 0x5C, CHR ''b'']
      else if n = 12 then [CHR 0x5C, CHR ''f'']
      else if n = 10 then [CHR 0x5C, CHR ''n'']
      else if n = 13 then [CHR 0x5C, CHR ''r'']
      else if n = 9 then [CHR 0x5C, CHR ''t'']
      else if n < 32 then [CHR 0x5C, CHR ''u'', CHR ''0'', CHR ''0'', hex_digit (n div 16), hex_digit (n mod 16)]
      else [c])"

definition json_string :: "string \<Rightarrow> string" where
  "json_string s = CHR 0x22 # concat (map escape_char s) @ [CHR 0x22]"

fun join :: "string \<Rightarrow> string list \<Rightarrow> string" where
  "join sep [] = []"
| "join sep [x] = x"
| "join sep (x # y # zs) = x @ sep @ join sep (y # zs)"

fun canonicalize :: "json \<Rightarrow> string" where
  "canonicalize JNull = ''null''"
| "canonicalize (JBool b) = (if b then ''true'' else ''false'')"
| "canonicalize (JInt i) = int_digits i"
| "canonicalize (JStr s) = json_string s"
| "canonicalize (JArr vs) = ''['' @ join '','' (map canonicalize vs) @ '']''"
| "canonicalize (JObj kvs) =
     ''{'' @ join '','' (map (\<lambda>(k, s). json_string k @ '':'' @ s)
        (sort_key fst (map (\<lambda>(k, v). (k, canonicalize v)) kvs))) @ ''}''"

subsection \<open>The chain\<close>

definition GENESIS_HASH :: string where
  "GENESIS_HASH = ''cogeto:deletion-receipt-chain:genesis''"

record receipt_chain_payload =
  cp_id :: string
  cp_source_type :: string
  cp_source_id :: string
  cp_counts_json :: json
  cp_signed_at :: string
  cp_confirmed_at :: string
  cp_prev_hash :: string

record confirmed_receipt = receipt_chain_payload +
  cr_hash :: string
  cr_signature :: string

definition payload_json :: "receipt_chain_payload \<Rightarrow> json" where
  "payload_json p = JObj
     [(''id'', JStr (cp_id p)), (''source_type'', JStr (cp_source_type p)),
      (''source_id'', JStr (cp_source_id p)), (''counts_json'', cp_counts_json p),
      (''signed_at'', JStr (cp_signed_at p)), (''confirmed_at'', JStr (cp_confirmed_at p)),
      (''prev_hash'', JStr (cp_prev_hash p))]"

definition hashReceiptPayload :: "(string \<Rightarrow> string) \<Rightarrow> receipt_chain_payload \<Rightarrow> string" where
  "hashReceiptPayload sha p = sha (canonicalize (payload_json p))"

datatype chain_error =
    ChainForks string
  | BrokenLinkage string
  | HashMismatch string
  | SignatureInvalid string

record chain_verification =
  cv_ok :: bool
  cv_verified :: nat
  cv_confirmed :: nat
  cv_error :: "chain_error option"

fun find_fork :: "string list \<Rightarrow> confirmed_receipt list \<Rightarrow> string option" where
  "find_fork seen [] = None"
| "find_fork seen (r # rs) =
     (if cp_prev_hash r \<in> set seen then Some (cp_prev_hash r) else find_fork (cp_prev_hash r # seen) rs)"

fun walk ::
  "(string \<Rightarrow> string) \<Rightarrow> (string \<Rightarrow> string \<Rightarrow> bool) \<Rightarrow> confirmed_receipt list \<Rightarrow> nat \<Rightarrow> nat \<Rightarrow> string \<Rightarrow>
     nat \<times> chain_error option" where
  "walk sha sig_ok receipts verified 0 expectedPrev = (verified, None)"
| "walk sha sig_ok receipts verified (Suc left) expectedPrev =
     (case find (\<lambda>r. cp_prev_hash r = expectedPrev) receipts of
        None \<Rightarrow> (verified, Some (BrokenLinkage expectedPrev))
      | Some r \<Rightarrow>
          (if hashReceiptPayload sha (receipt_chain_payload.truncate r) \<noteq> cr_hash r
             then (verified, Some (HashMismatch (cp_id r)))
           else if \<not> sig_ok (cr_hash r) (cr_signature r) then (verified, Some (SignatureInvalid (cp_id r)))
           else walk sha sig_ok receipts (Suc verified) left (cr_hash r)))"

definition verifyChain ::
  "(string \<Rightarrow> string) \<Rightarrow> (string \<Rightarrow> string \<Rightarrow> bool) \<Rightarrow> confirmed_receipt list \<Rightarrow> chain_verification" where
  "verifyChain sha sig_ok receipts =
     (let result = (\<lambda>(verified, error). \<lparr>cv_ok = (error = None), cv_verified = verified,
                       cv_confirmed = length receipts, cv_error = error\<rparr>) in
      case find_fork [] receipts of
        Some p \<Rightarrow> result (0, Some (ChainForks p))
      | None \<Rightarrow> result (walk sha sig_ok receipts 0 (length receipts) GENESIS_HASH))"

subsection \<open>Key order does not matter\<close>

lemma sort_key_perm_distinct:
  assumes "mset xs = mset ys" and "distinct (map f xs)"
  shows "sort_key f xs = sort_key f ys"
proof (rule map_sorted_distinct_set_unique)
  have sets: "set xs = set ys" using assms(1) by (metis set_mset_mset)
  have "mset (map f xs) = mset (map f ys)" using assms(1) by simp
  then have dy: "distinct (map f ys)" using assms(2) mset_eq_imp_distinct_iff by blast
  show "distinct (map f (sort_key f xs))" "distinct (map f (sort_key f ys))"
    using assms(2) dy by (metis mset_map mset_sort mset_eq_imp_distinct_iff)+
  show "set (sort_key f xs) = set (sort_key f ys)" using sets by simp
  show "inj_on f (set (sort_key f xs) \<union> set (sort_key f ys))"
    using assms(2) sets by (simp add: distinct_map)
qed simp_all

text \<open>
  The canonical form of an object does not depend on the order in which its properties
  were inserted.
\<close>

theorem canonical_key_order:
  assumes "mset kvs = mset kvs'" and "distinct (map fst kvs)"
  shows "canonicalize (JObj kvs) = canonicalize (JObj kvs')"
proof -
  let ?c = "\<lambda>(k, v). (k, canonicalize v)"
  have "mset (map ?c kvs) = mset (map ?c kvs')" using assms(1) by simp
  moreover have "map fst (map ?c kvs) = map fst kvs" by (induction kvs) auto
  then have "distinct (map fst (map ?c kvs))" using assms(2) by (simp only:)
  ultimately have "sort_key fst (map ?c kvs) = sort_key fst (map ?c kvs')"
    by (rule sort_key_perm_distinct)
  then show ?thesis by simp
qed

theorem canonical_key_order_witness:
  "canonicalize (JObj [(''b'', JInt 1), (''a'', JStr ''x'')]) =
   canonicalize (JObj [(''a'', JStr ''x''), (''b'', JInt 1)])"
  by (rule canonical_key_order) simp_all

subsection \<open>Canonical JSON reads back\<close>

text \<open>A payload up to the order of keys, at every depth.\<close>

fun normal :: "json \<Rightarrow> json" where
  "normal (JArr vs) = JArr (map normal vs)"
| "normal (JObj kvs) = JObj (sort_key fst (map (\<lambda>(k, v). (k, normal v)) kvs))"
| "normal j = j"

lemma sort_key_map: "sort_key f (map g xs) = map g (sort_key (\<lambda>x. f (g x)) xs)"
proof -
  have "insort_key f (g x) (map g ys) = map g (insort_key (\<lambda>x. f (g x)) x ys)" for x ys
    by (induction ys) auto
  then show ?thesis by (induction xs) (auto simp: sort_key_def)
qed

subsubsection \<open>Strings\<close>

lemma hex_digit_inject:
  assumes ab: "a < 16" "b < 16" and eq: "hex_digit a = hex_digit b"
  shows "a = b"
proof -
  have code: "(of_char (hex_digit d) :: nat) = (if d < 10 then 48 + d else 87 + d)" if "d < 16" for d
    using that by (simp add: hex_digit_def take_bit_eq_mod)
  have "(if a < 10 then 48 + a else 87 + a) = (if b < 10 then 48 + b else 87 + b)"
    using code [OF ab(1)] code [OF ab(2)] eq by simp
  then show ?thesis using ab by (auto split: if_splits)
qed

lemma escape_char_cases:
  obtains (plain) "escape_char c = [c]" "(of_char c :: nat) \<noteq> 34" "(of_char c :: nat) \<noteq> 92"
  | (short) e where "escape_char c = [CHR 0x5C, e]" "e \<noteq> CHR ''u''"
      "(e, of_char c :: nat) \<in> {(CHR 0x22, 34), (CHR 0x5C, 92), (CHR ''b'', 8), (CHR ''f'', 12),
         (CHR ''n'', 10), (CHR ''r'', 13), (CHR ''t'', 9)}"
  | (long) "escape_char c = [CHR 0x5C, CHR ''u'', CHR ''0'', CHR ''0'',
      hex_digit (of_char c div 16), hex_digit (of_char c mod 16)]" "(of_char c :: nat) < 32"
proof -
  let ?n = "of_char c :: nat"
  consider "?n = 34" | "?n = 92" | "?n = 8" | "?n = 12" | "?n = 10" | "?n = 13" | "?n = 9"
    | "?n \<notin> {34, 92, 8, 12, 10, 13, 9}" "?n < 32" | "?n \<notin> {34, 92, 8, 12, 10, 13, 9}" "\<not> ?n < 32"
    by blast
  then show ?thesis
  proof cases
    case 8
    then show ?thesis by (intro long) (simp_all add: escape_char_def Let_def)
  next
    case 9
    then show ?thesis by (intro plain) (simp_all add: escape_char_def Let_def)
  qed (rule short; simp add: escape_char_def Let_def; fail)+
qed

lemma of_char_inject: "(of_char c :: nat) = of_char d \<Longrightarrow> c = d"
  by simp

lemma backslash_code: "(of_char (CHR 0x5C) :: nat) = 92" "(of_char (CHR 0x22) :: nat) = 34"
  by simp_all

lemma escape_char_prefix:
  assumes eq: "escape_char c @ x = escape_char d @ y"
  shows "c = d \<and> x = y"
proof (rule escape_char_cases [of c])
  assume c: "escape_char c = [c]" "(of_char c :: nat) \<noteq> 34" "(of_char c :: nat) \<noteq> 92"
  then have "c \<noteq> CHR 0x5C" by auto
  with c eq show ?thesis by (rule_tac escape_char_cases [of d]) auto
next
  fix e
  assume c: "escape_char c = [CHR 0x5C, e]" "e \<noteq> CHR ''u''"
    "(e, of_char c :: nat) \<in> {(CHR 0x22, 34), (CHR 0x5C, 92), (CHR ''b'', 8), (CHR ''f'', 12),
         (CHR ''n'', 10), (CHR ''r'', 13), (CHR ''t'', 9)}"
  show ?thesis
  proof (rule escape_char_cases [of d])
    fix e'
    assume d: "escape_char d = [CHR 0x5C, e']" 
      "(e', of_char d :: nat) \<in> {(CHR 0x22, 34), (CHR 0x5C, 92), (CHR ''b'', 8), (CHR ''f'', 12),
         (CHR ''n'', 10), (CHR ''r'', 13), (CHR ''t'', 9)}"
    with c eq have "e' = e" "x = y" by simp_all
    with c(3) d(2) have "(of_char c :: nat) = of_char d" by (auto simp del: of_char_eq_iff)
    with \<open>x = y\<close> show ?thesis by (blast intro: of_char_inject)
  qed (use c eq in auto)
next
  assume c: "escape_char c = [CHR 0x5C, CHR ''u'', CHR ''0'', CHR ''0'',
      hex_digit (of_char c div 16), hex_digit (of_char c mod 16)]" "(of_char c :: nat) < 32"
  show ?thesis
  proof (rule escape_char_cases [of d])
    assume d: "escape_char d = [CHR 0x5C, CHR ''u'', CHR ''0'', CHR ''0'',
      hex_digit (of_char d div 16), hex_digit (of_char d mod 16)]" "(of_char d :: nat) < 32"
    have "hex_digit (of_char c div 16) = hex_digit (of_char d div 16)"
      "hex_digit (of_char c mod 16) = hex_digit (of_char d mod 16)" "x = y"
      using eq unfolding c(1) d(1) by simp_all
    moreover have "(of_char c :: nat) div 16 < 16" "(of_char d :: nat) div 16 < 16"
      using c(2) d(2) by auto
    ultimately have "(of_char c :: nat) div 16 = of_char d div 16" "(of_char c :: nat) mod 16 = of_char d mod 16"
      by (auto intro: hex_digit_inject)
    then have "(of_char c :: nat) = of_char d" by (metis div_mult_mod_eq)
    with \<open>x = y\<close> show ?thesis by (blast intro: of_char_inject)
  qed (use c eq in auto)
qed

lemma escape_char_hd: "\<exists>a as. escape_char c = a # as \<and> a \<noteq> CHR 0x22"
  by (rule escape_char_cases [of c]) auto

lemma json_chars_inj:
  "concat (map escape_char s) @ CHR 0x22 # r = concat (map escape_char s') @ CHR 0x22 # r' \<Longrightarrow>
     s = s' \<and> r = r'"
proof (induction s arbitrary: s')
  case Nil
  then show ?case using escape_char_hd by (cases s') (auto, metis append_Cons list.inject)
next
  case (Cons c s)
  show ?case
  proof (cases s')
    case Nil
    with Cons.prems escape_char_hd [of c] show ?thesis by auto
  next
    case (Cons d t)
    with Cons.prems have "escape_char c @ (concat (map escape_char s) @ CHR 0x22 # r) =
        escape_char d @ (concat (map escape_char t) @ CHR 0x22 # r')" by simp
    from escape_char_prefix [OF this] Cons.IH [of t] Cons show ?thesis by auto
  qed
qed

lemma json_string_inj: "json_string s @ r = json_string s' @ r' \<Longrightarrow> s = s' \<and> r = r'"
  by (auto simp: json_string_def dest: json_chars_inj)

subsubsection \<open>Numbers\<close>

definition is_digit :: "char \<Rightarrow> bool" where
  "is_digit c \<longleftrightarrow> (of_char c :: nat) \<in> {48..57}"

definition digits_value :: "string \<Rightarrow> nat" where
  "digits_value s = foldl (\<lambda>n c. 10 * n + (of_char c - 48)) 0 s"

lemma digit_char_code: "d < 10 \<Longrightarrow> (of_char (digit_char d) :: nat) = 48 + d"
  by (simp add: digit_char_def take_bit_eq_mod)

lemma nat_digits_props: "nat_digits n \<noteq> [] \<and> (\<forall>c \<in> set (nat_digits n). is_digit c) \<and> digits_value (nat_digits n) = n"
proof (induction n rule: nat_digits.induct)
  case (1 n)
  show ?case
  proof (cases "n < 10")
    case True
    then show ?thesis
      by (subst (1 2 3) nat_digits.simps) (simp add: is_digit_def digit_char_code digits_value_def)
  next
    case False
    have m: "n mod 10 < 10" by simp
    from 1 False have IH: "nat_digits (n div 10) \<noteq> []" "\<forall>c \<in> set (nat_digits (n div 10)). is_digit c"
      "digits_value (nat_digits (n div 10)) = n div 10" by auto
    then show ?thesis
      using False by (subst (1 2 3) nat_digits.simps)
        (auto simp: digits_value_def is_digit_def digit_char_code [OF m])
  qed
qed

definition delim :: "string \<Rightarrow> bool" where
  "delim r \<longleftrightarrow> (case r of [] \<Rightarrow> True | c # _ \<Rightarrow> \<not> is_digit c)"

lemma digits_prefix:
  assumes "\<forall>c \<in> set xs. is_digit c" "\<forall>c \<in> set ys. is_digit c" "delim r" "delim r'" "xs @ r = ys @ r'"
  shows "xs = ys \<and> r = r'"
  using assms
proof (induction xs arbitrary: ys)
  case Nil
  then show ?case by (cases ys) (auto simp: delim_def)
next
  case (Cons x xs)
  then show ?case by (cases ys) (auto simp: delim_def)
qed

lemma nat_digits_prefix: "nat_digits m @ r = nat_digits n @ r' \<Longrightarrow> delim r \<Longrightarrow> delim r' \<Longrightarrow> m = n \<and> r = r'"
  using digits_prefix [of "nat_digits m" "nat_digits n" r r'] nat_digits_props [of m] nat_digits_props [of n]
  by metis

lemma nat_digits_hd: "\<exists>a as. nat_digits n = a # as \<and> is_digit a"
  using nat_digits_props [of n] by (cases "nat_digits n") auto

lemma int_digits_prefix:
  assumes eq: "int_digits i @ r = int_digits j @ r'" and "delim r" "delim r'"
  shows "i = j \<and> r = r'"
proof -
  have minus: "\<not> is_digit (CHR ''-'')" by (simp add: is_digit_def)
  show ?thesis
  proof (cases "i < 0"; cases "j < 0")
    assume "i < 0" "j < 0"
    with eq have "nat_digits (nat (- i)) @ r = nat_digits (nat (- j)) @ r'" by (simp add: int_digits_def)
    from nat_digits_prefix [OF this assms(2,3)] \<open>i < 0\<close> \<open>j < 0\<close> show ?thesis by auto
  next
    assume "\<not> i < 0" "\<not> j < 0"
    with eq have "nat_digits (nat i) @ r = nat_digits (nat j) @ r'" by (simp add: int_digits_def)
    from nat_digits_prefix [OF this assms(2,3)] \<open>\<not> i < 0\<close> \<open>\<not> j < 0\<close> show ?thesis by auto
  next
    assume "i < 0" "\<not> j < 0"
    with eq nat_digits_hd [of "nat j"] minus show ?thesis by (auto simp: int_digits_def)
  next
    assume "\<not> i < 0" "j < 0"
    with eq nat_digits_hd [of "nat i"] minus show ?thesis by (auto simp: int_digits_def)
  qed
qed

subsubsection \<open>Values\<close>

definition first_ok :: "char \<Rightarrow> bool" where
  "first_ok c \<longleftrightarrow> c \<noteq> CHR '']'' \<and> c \<noteq> CHR ''}'' \<and> c \<noteq> CHR '',''"

lemma int_digits_hd: "\<exists>a as. int_digits i = a # as \<and> (a = CHR ''-'' \<or> is_digit a)"
  using nat_digits_hd [of "nat i"] by (auto simp: int_digits_def)

lemma canonicalize_hd: "\<exists>a as. canonicalize j = a # as \<and> first_ok a"
proof (cases j)
  case (JInt i)
  with int_digits_hd [of i] show ?thesis by (auto simp: first_ok_def is_digit_def)
qed (auto simp: first_ok_def json_string_def)

lemma join_inj:
  assumes inj: "\<And>x y r r'. x \<in> set xs \<Longrightarrow> delim r \<Longrightarrow> delim r' \<Longrightarrow> code x @ r = code y @ r' \<Longrightarrow>
      nf x = nf y \<and> r = r'"
    and hd: "\<And>x. \<exists>a as. code x = a # as \<and> first_ok a"
    and e: "e = CHR '']'' \<or> e = CHR ''}''"
    and eq: "join '','' (map code xs) @ e # r = join '','' (map code ys) @ e # r'"
  shows "map nf xs = map nf ys \<and> r = r'"
  using inj eq
proof (induction xs arbitrary: ys)
  case Nil
  show ?case
  proof (cases ys)
    case Nil
    with Nil.prems(2) show ?thesis by simp
  next
    case (Cons y zs)
    obtain a as where "code y = a # as" "first_ok a" using hd by blast
    with Nil.prems(2) e Cons show ?thesis by (cases zs) (auto simp: first_ok_def)
  qed
next
  case (Cons x xs)
  obtain a as where x: "code x = a # as" "first_ok a" using hd by blast
  have de: "delim (e # q)" "delim ('','' @ q)" for q using e by (auto simp: delim_def is_digit_def)
  show ?case
  proof (cases ys)
    case Nil
    with Cons.prems(2) e x show ?thesis by (cases xs) (auto simp: first_ok_def)
  next
    case (Cons y zs)
    let ?rest = "\<lambda>us q. if us = [] then e # q else '','' @ join '','' (map code us) @ e # q"
    have split: "join '','' (map code (u # us)) @ e # q = code u @ ?rest us q" for u us q
      by (cases us) auto
    have dr: "delim (?rest us q)" for us q using de by simp
    from Cons.prems(2) [unfolded Cons split] have
      eq': "code x @ ?rest xs r = code y @ ?rest zs r'" .
    have xy: "nf x = nf y \<and> ?rest xs r = ?rest zs r'"
      by (rule Cons.prems(1) [OF _ dr dr eq']) simp
    then have "(xs = [] \<longleftrightarrow> zs = []) \<and> join '','' (map code xs) @ e # r = join '','' (map code zs) @ e # r'"
      using e by (auto split: if_splits)
    with Cons.IH [of zs] Cons.prems(1) xy Cons show ?thesis by auto
  qed
qed

definition entry_code :: "string \<times> json \<Rightarrow> string" where
  "entry_code kv = json_string (fst kv) @ '':'' @ canonicalize (snd kv)"

definition entry_normal :: "string \<times> json \<Rightarrow> string \<times> json" where
  "entry_normal kv = (fst kv, normal (snd kv))"

lemma canonicalize_JObj:
  "canonicalize (JObj kvs) = ''{'' @ join '','' (map entry_code (sort_key fst kvs)) @ ''}''"
proof -
  have "sort_key fst (map (\<lambda>(k, v). (k, canonicalize v)) kvs) =
      map (\<lambda>(k, v). (k, canonicalize v)) (sort_key fst kvs)"
    by (simp add: sort_key_map case_prod_unfold)
  then show ?thesis by (simp add: entry_code_def [abs_def] case_prod_unfold comp_def)
qed

lemma normal_JObj: "normal (JObj kvs) = JObj (map entry_normal (sort_key fst kvs))"
proof -
  have "sort_key fst (map (\<lambda>(k, v). (k, normal v)) kvs) = map (\<lambda>(k, v). (k, normal v)) (sort_key fst kvs)"
    by (simp add: sort_key_map case_prod_unfold)
  then show ?thesis by (simp add: entry_normal_def [abs_def] case_prod_unfold)
qed

text \<open>The first character of a canonical text tells the kind of the value.\<close>

fun json_kind :: "json \<Rightarrow> nat" where
  "json_kind JNull = 0"
| "json_kind (JBool b) = (if b then 1 else 2)"
| "json_kind (JInt i) = 3"
| "json_kind (JStr s) = 4"
| "json_kind (JArr vs) = 5"
| "json_kind (JObj kvs) = 6"

definition head_kind :: "char \<Rightarrow> nat" where
  "head_kind c =
     (if c = CHR ''n'' then 0 else if c = CHR ''t'' then 1 else if c = CHR ''f'' then 2
      else if c = CHR 0x22 then 4 else if c = CHR ''['' then 5 else if c = CHR ''{'' then 6 else 3)"

lemma head_kind_int: "a = CHR ''-'' \<or> is_digit a \<Longrightarrow> head_kind a = 3"
  by (auto simp: head_kind_def is_digit_def)

lemma canonicalize_kind: "\<exists>a as. canonicalize j = a # as \<and> head_kind a = json_kind j"
proof (cases j)
  case (JInt i)
  with int_digits_hd [of i] show ?thesis by (auto simp: head_kind_int)
qed (auto simp: head_kind_def json_string_def)

lemma canonicalize_same_kind:
  assumes "canonicalize a @ r = canonicalize b @ r'"
  shows "json_kind a = json_kind b"
  using assms canonicalize_kind [of a] canonicalize_kind [of b] by auto

lemma canonicalize_prefix:
  "canonicalize a @ r = canonicalize b @ r' \<Longrightarrow> delim r \<Longrightarrow> delim r' \<Longrightarrow> normal a = normal b \<and> r = r'"
proof (induction a arbitrary: b r r' rule: canonicalize.induct)
  case 1
  with canonicalize_same_kind [OF 1(1)] show ?case by (cases b) (auto split: if_splits)
next
  case (2 x)
  with canonicalize_same_kind [OF 2(1)] show ?case by (cases b) (auto split: if_splits)
next
  case (3 i)
  with canonicalize_same_kind [OF 3(1)] show ?case
    by (cases b) (auto split: if_splits dest: int_digits_prefix)
next
  case (4 s)
  with canonicalize_same_kind [OF 4(1)] show ?case
    by (cases b) (auto split: if_splits dest: json_string_inj)
next
  case (5 vs)
  then obtain us where b: "b = JArr us"
    using canonicalize_same_kind [OF 5(2)] by (cases b) (auto split: if_splits)
  with 5(2) have eq: "join '','' (map canonicalize vs) @ CHR '']'' # r = join '','' (map canonicalize us) @ CHR '']'' # r'"
    by simp
  have "map normal vs = map normal us \<and> r = r'"
  proof (rule join_inj [OF _ canonicalize_hd _ eq])
    fix x y q q'
    assume "x \<in> set vs" "delim q" "delim q'" "canonicalize x @ q = canonicalize y @ q'"
    then show "normal x = normal y \<and> q = q'" by (intro 5(1))
  qed simp
  then show ?case by (simp add: b)
next
  case (6 kvs)
  then obtain us where b: "b = JObj us"
    using canonicalize_same_kind [OF 6(2)] by (cases b) (auto split: if_splits)
  with 6(2) have eq: "join '','' (map entry_code (sort_key fst kvs)) @ CHR ''}'' # r =
      join '','' (map entry_code (sort_key fst us)) @ CHR ''}'' # r'"
    unfolding b canonicalize_JObj by simp
  have "map entry_normal (sort_key fst kvs) = map entry_normal (sort_key fst us) \<and> r = r'"
  proof (rule join_inj [OF _ _ _ eq])
    fix x y q q'
    assume x: "x \<in> set (sort_key fst kvs)" and d: "delim q" "delim q'"
      and "entry_code x @ q = entry_code y @ q'"
    then have "json_string (fst x) @ ('':'' @ canonicalize (snd x) @ q) =
        json_string (fst y) @ ('':'' @ canonicalize (snd y) @ q')"
      by (simp add: entry_code_def)
    from json_string_inj [OF this] have k: "fst x = fst y" "canonicalize (snd x) @ q = canonicalize (snd y) @ q'"
      by auto
    have "(fst x, snd x) \<in> set kvs" using x by simp
    from 6(1) [OF this refl k(2) d] k(1) show "entry_normal x = entry_normal y \<and> q = q'"
      by (simp add: entry_normal_def)
  next
    fix x
    show "\<exists>a as. entry_code x = a # as \<and> first_ok a"
      by (simp add: entry_code_def json_string_def first_ok_def)
  qed simp
  then show ?case unfolding b normal_JObj by simp
qed

lemma canonicalize_normal: "canonicalize (normal j) = canonicalize j"
proof (induction j rule: canonicalize.induct)
  case (5 vs)
  then show ?case by (simp cong: map_cong)
next
  case (6 kvs)
  have "map entry_code (sort_key fst (map entry_normal (sort_key fst kvs))) = map entry_code (sort_key fst kvs)"
  proof -
    have "sort_key fst (map entry_normal (sort_key fst kvs)) = map entry_normal (sort_key fst kvs)"
      by (simp add: sort_key_map sort_key_id_if_sorted entry_normal_def)
    moreover have "entry_code (entry_normal x) = entry_code x" if "x \<in> set (sort_key fst kvs)" for x
      using that 6 [of x "fst x" "snd x"] by (simp add: entry_code_def entry_normal_def)
    ultimately show ?thesis by simp
  qed
  then show ?case unfolding normal_JObj canonicalize_JObj by simp
qed simp_all

lemma canonicalize_inject: "canonicalize a = canonicalize b \<Longrightarrow> normal a = normal b"
  using canonicalize_prefix [of a "[]" b "[]"] by (simp add: delim_def)

text \<open>
  C12. Two JSON values have the same canonical text exactly when they are equal up to the
  order of keys at every depth: the text loses nothing else.
\<close>

theorem canonical_readable:
  "canonicalize a = canonicalize b \<longleftrightarrow> normal a = normal b"
  using canonicalize_inject canonicalize_normal by metis

subsection \<open>A verified chain is one chain\<close>

definition payload_text :: "confirmed_receipt \<Rightarrow> string" where
  "payload_text r = canonicalize (payload_json (receipt_chain_payload.truncate r))"

lemma hash_of_text: "hashReceiptPayload sha (receipt_chain_payload.truncate r) = sha (payload_text r)"
  by (simp add: hashReceiptPayload_def payload_text_def)

lemma payload_text_prev:
  assumes "payload_text r = payload_text q"
  shows "cp_prev_hash r = cp_prev_hash q"
proof -
  have "normal (payload_json (receipt_chain_payload.truncate r)) = normal (payload_json (receipt_chain_payload.truncate q))"
    using assms unfolding payload_text_def by (rule canonicalize_inject)
  then have "map_of (case normal (payload_json (receipt_chain_payload.truncate r)) of JObj kvs \<Rightarrow> kvs | _ \<Rightarrow> []) ''prev_hash'' =
      map_of (case normal (payload_json (receipt_chain_payload.truncate q)) of JObj kvs \<Rightarrow> kvs | _ \<Rightarrow> []) ''prev_hash''"
    by simp
  then show ?thesis
    by (simp add: payload_json_def receipt_chain_payload.truncate_def)
qed

text \<open>The specification: receipts in an order in which each names the hash of the one before it.\<close>

fun links ::
  "(string \<Rightarrow> string) \<Rightarrow> (string \<Rightarrow> string \<Rightarrow> bool) \<Rightarrow> confirmed_receipt list \<Rightarrow> string \<Rightarrow> bool" where
  "links sha sig_ok [] prev = True"
| "links sha sig_ok (r # rs) prev =
     (cp_prev_hash r = prev \<and> cr_hash r = sha (payload_text r) \<and> sig_ok (cr_hash r) (cr_signature r) \<and>
      links sha sig_ok rs (cr_hash r))"

definition end_hash :: "confirmed_receipt list \<Rightarrow> string \<Rightarrow> string" where
  "end_hash rs prev = (if rs = [] then prev else cr_hash (last rs))"

lemma links_append:
  "links sha sig_ok (rs @ qs) prev \<longleftrightarrow> links sha sig_ok rs prev \<and> links sha sig_ok qs (end_hash rs prev)"
  by (induction rs arbitrary: prev) (auto simp: end_hash_def)

lemma links_member:
  "links sha sig_ok rs prev \<Longrightarrow> r \<in> set rs \<Longrightarrow> cr_hash r = sha (payload_text r) \<and> sig_ok (cr_hash r) (cr_signature r)"
  by (induction rs arbitrary: prev) auto

lemma find_fork_None: "find_fork seen rs = None \<longleftrightarrow> distinct (map cp_prev_hash rs) \<and> cp_prev_hash ` set rs \<inter> set seen = {}"
  by (induction rs arbitrary: seen) auto

lemma walk_links:
  "walk sha sig_ok rs v n p = (v', None) \<Longrightarrow>
     \<exists>ps. length ps = n \<and> set ps \<subseteq> set rs \<and> links sha sig_ok ps p \<and> v' = v + n"
proof (induction n arbitrary: v p)
  case 0
  then show ?case by (intro exI [of _ "[]"]) auto
next
  case (Suc n)
  then obtain r where r: "find (\<lambda>r. cp_prev_hash r = p) rs = Some r" "sha (payload_text r) = cr_hash r"
    "sig_ok (cr_hash r) (cr_signature r)" "walk sha sig_ok rs (Suc v) n (cr_hash r) = (v', None)"
    by (auto simp: hash_of_text split: option.splits if_splits)
  from Suc.IH [OF r(4)] obtain ps where "length ps = n" "set ps \<subseteq> set rs"
    "links sha sig_ok ps (cr_hash r)" "v' = Suc v + n" by blast
  with r find_SomeD [OF r(1)] show ?case by (intro exI [of _ "r # ps"]) auto
qed

lemma links_walk:
  "links sha sig_ok ps p \<Longrightarrow> set ps \<subseteq> set rs \<Longrightarrow> distinct (map cp_prev_hash rs) \<Longrightarrow>
     walk sha sig_ok rs v (length ps) p = (v + length ps, None)"
proof (induction ps arbitrary: p v)
  case (Cons r ps)
  have "find (\<lambda>q. cp_prev_hash q = cp_prev_hash r) rs = Some r"
    using Cons.prems by (intro find_key_unique) auto
  with Cons show ?case by (auto simp: hash_of_text)
qed simp

lemma links_nth:
  assumes "links sha sig_ok ps p" and "i < length ps"
  shows "cr_hash (ps ! i) = sha (payload_text (ps ! i))"
    and "cp_prev_hash (ps ! i) = (if i = 0 then p else cr_hash (ps ! (i - 1)))"
  using assms by (induction ps arbitrary: p i) (auto simp: nth_Cons split: nat.splits)

definition collision_free :: "(string \<Rightarrow> string) \<Rightarrow> confirmed_receipt set \<Rightarrow> bool" where
  "collision_free sha rs \<longleftrightarrow> inj_on sha (payload_text ` rs) \<and> GENESIS_HASH \<notin> sha ` payload_text ` rs"

lemma collision_free_subset: "collision_free sha rs \<Longrightarrow> qs \<subseteq> rs \<Longrightarrow> collision_free sha qs"
  unfolding collision_free_def by (meson image_mono inj_on_subset subsetD)

lemma links_prevs_differ:
  assumes cf: "collision_free sha (set ps)" and lk: "links sha sig_ok ps GENESIS_HASH"
  shows "i < j \<Longrightarrow> j < length ps \<Longrightarrow> cp_prev_hash (ps ! i) \<noteq> cp_prev_hash (ps ! j)"
proof (induction i arbitrary: j)
  case 0
  with links_nth [OF lk] have "cp_prev_hash (ps ! j) = sha (payload_text (ps ! (j - 1)))" by simp
  moreover have "sha (payload_text (ps ! (j - 1))) \<in> sha ` payload_text ` set ps" using 0 by simp
  moreover have "cp_prev_hash (ps ! 0) = GENESIS_HASH" using links_nth(2) [OF lk, of 0] 0 by (cases ps) auto
  ultimately show ?case
    using cf unfolding collision_free_def by metis
next
  case (Suc i)
  show ?case
  proof
    assume "cp_prev_hash (ps ! Suc i) = cp_prev_hash (ps ! j)"
    with links_nth [OF lk] Suc.prems have
      "sha (payload_text (ps ! i)) = sha (payload_text (ps ! (j - 1)))" by simp
    moreover have "ps ! i \<in> set ps" "ps ! (j - 1) \<in> set ps" using Suc.prems by simp_all
    ultimately have "payload_text (ps ! i) = payload_text (ps ! (j - 1))"
      using cf unfolding collision_free_def by (meson image_eqI inj_onD)
    then have "cp_prev_hash (ps ! i) = cp_prev_hash (ps ! (j - 1))" by (rule payload_text_prev)
    moreover have "i < j - 1" "j - 1 < length ps" using Suc.prems by auto
    ultimately show False using Suc.IH by blast
  qed
qed

lemma links_prevs_distinct:
  assumes "collision_free sha (set ps)" and "links sha sig_ok ps GENESIS_HASH"
  shows "distinct (map cp_prev_hash ps)"
  unfolding distinct_conv_nth using links_prevs_differ [OF assms] by (auto simp: nat_neq_iff) metis

lemma verifyChain_links:
  assumes cf: "collision_free sha (set rs)"
  shows "cv_ok (verifyChain sha sig_ok rs) \<longleftrightarrow> (\<exists>ps. mset ps = mset rs \<and> links sha sig_ok ps GENESIS_HASH)"
proof
  assume ok: "cv_ok (verifyChain sha sig_ok rs)"
  then have nofork: "find_fork [] rs = None" and "\<exists>v. walk sha sig_ok rs 0 (length rs) GENESIS_HASH = (v, None)"
    by (auto simp: verifyChain_def Let_def split: option.splits prod.splits)
  then obtain ps where ps: "length ps = length rs" "set ps \<subseteq> set rs" "links sha sig_ok ps GENESIS_HASH"
    using walk_links by blast
  have dps: "distinct ps"
    using links_prevs_distinct [OF collision_free_subset [OF cf ps(2)] ps(3)] by (simp add: distinct_map)
  have drs: "distinct rs" using nofork by (simp add: find_fork_None distinct_map)
  have "set ps = set rs"
    using ps dps drs by (metis card_subset_eq distinct_card finite_set)
  then have "mset ps = mset rs" using dps drs by (simp add: set_eq_iff_mset_eq_distinct)
  with ps(3) show "\<exists>ps. mset ps = mset rs \<and> links sha sig_ok ps GENESIS_HASH" by blast
next
  assume "\<exists>ps. mset ps = mset rs \<and> links sha sig_ok ps GENESIS_HASH"
  then obtain ps where ps: "mset ps = mset rs" "links sha sig_ok ps GENESIS_HASH" by blast
  have sets: "set ps = set rs" and len: "length ps = length rs"
    using ps(1) by (metis set_mset_mset, metis size_mset)
  have "distinct (map cp_prev_hash ps)" using cf ps(2) sets by (intro links_prevs_distinct) simp_all
  moreover have "mset (map cp_prev_hash ps) = mset (map cp_prev_hash rs)" using ps(1) by simp
  ultimately have "distinct (map cp_prev_hash rs)" using mset_eq_imp_distinct_iff by blast
  then have "find_fork [] rs = None" and "walk sha sig_ok rs 0 (length rs) GENESIS_HASH = (length rs, None)"
    using links_walk [OF ps(2), of rs 0] sets len by (simp_all add: find_fork_None)
  then show "cv_ok (verifyChain sha sig_ok rs)"
    by (simp add: verifyChain_def)
qed

text \<open>
  C2. Provided the hash function does not collide on the texts involved, verifyChain, which
  builds a map by previous hash and walks it, accepts exactly the sets of receipts that can be
  put in an order in which the first names the genesis constant, each later one names the hash
  of the one before it, each hash is the hash of its payload and each signature is valid.
\<close>

theorem verify_chain_iff:
  assumes "collision_free sha (set rs)"
  shows "cv_ok (verifyChain sha sig_ok rs) \<longleftrightarrow> (\<exists>ps. mset ps = mset rs \<and> links sha sig_ok ps GENESIS_HASH)"
  using assms by (rule verifyChain_links)

text \<open>
  C1. If a set of receipts verifies, replacing the payload of any one receipt (its id, source,
  counts, times or previous hash, up to the order of JSON keys) while keeping its stored hash
  makes verification fail, provided the hash function does not collide on the texts involved.
\<close>

theorem tamper_evident:
  assumes ok: "cv_ok (verifyChain sha sig_ok rs)" and r: "r \<in> set rs"
    and cf: "collision_free sha (insert r' (set rs))"
    and changed: "normal (payload_json (receipt_chain_payload.truncate r')) \<noteq>
        normal (payload_json (receipt_chain_payload.truncate r))"
    and same_hash: "cr_hash r' = cr_hash r"
  shows "\<not> cv_ok (verifyChain sha sig_ok (map (\<lambda>x. if x = r then r' else x) rs))"
proof
  let ?rs = "map (\<lambda>x. if x = r then r' else x) rs"
  assume "cv_ok (verifyChain sha sig_ok ?rs)"
  moreover have "collision_free sha (set ?rs)" by (rule collision_free_subset [OF cf]) auto
  ultimately obtain qs where qs: "mset qs = mset ?rs" "links sha sig_ok qs GENESIS_HASH"
    using verifyChain_links by blast
  have cf': "collision_free sha (set rs)" by (rule collision_free_subset [OF cf]) auto
  from ok cf' obtain ps where ps: "mset ps = mset rs" "links sha sig_ok ps GENESIS_HASH"
    using verifyChain_links by blast
  have "r' \<in> set qs" using qs(1) r by (metis (mono_tags, lifting) image_eqI list.set_map set_mset_mset)
  moreover have "r \<in> set ps" using ps(1) r by (metis set_mset_mset)
  ultimately have "sha (payload_text r') = sha (payload_text r)"
    using links_member [OF qs(2)] links_member [OF ps(2)] same_hash by metis
  then have "payload_text r' = payload_text r"
    using cf r unfolding collision_free_def by (auto dest: inj_onD)
  then show False using changed unfolding payload_text_def by (blast dest: canonicalize_inject)
qed

text \<open>Two receipts under a toy hash, the identity with a mark in front.\<close>

definition demo_sha :: "string \<Rightarrow> string" where
  "demo_sha s = CHR ''#'' # s"

definition demo_receipt :: "string \<Rightarrow> string \<Rightarrow> confirmed_receipt" where
  "demo_receipt i prev =
     (let p = \<lparr>cp_id = i, cp_source_type = ''chat'', cp_source_id = ''s'', cp_counts_json = JInt 1,
                cp_signed_at = ''t'', cp_confirmed_at = ''t'', cp_prev_hash = prev\<rparr>
      in receipt_chain_payload.extend p
           \<lparr>cr_hash = demo_sha (canonicalize (payload_json p)), cr_signature = ''sig''\<rparr>)"

definition demo_chain :: "confirmed_receipt list" where
  "demo_chain = (let a = demo_receipt ''1'' GENESIS_HASH in [demo_receipt ''2'' (cr_hash a), a])"

lemma demo_collision_free: "collision_free demo_sha rs"
  by (auto simp: collision_free_def demo_sha_def inj_on_def GENESIS_HASH_def)

theorem verify_chain_iff_witness:
  "\<exists>ps. mset ps = mset demo_chain \<and> links demo_sha (\<lambda>_ _. True) ps GENESIS_HASH"
proof -
  have "cv_ok (verifyChain demo_sha (\<lambda>_ _. True) demo_chain)" by code_simp
  then show ?thesis using verify_chain_iff [where sha = demo_sha and sig_ok = "\<lambda>_ _. True" and rs = demo_chain, OF demo_collision_free] by blast
qed

theorem tamper_evident_witness:
  "\<not> cv_ok (verifyChain demo_sha (\<lambda>_ _. True)
     (map (\<lambda>x. if x = hd demo_chain then (hd demo_chain)\<lparr>cp_counts_json := JInt 2\<rparr> else x) demo_chain))"
proof (rule tamper_evident)
  show "cv_ok (verifyChain demo_sha (\<lambda>_ _. True) demo_chain)" by code_simp
  show "normal (payload_json (receipt_chain_payload.truncate ((hd demo_chain)\<lparr>cp_counts_json := JInt 2\<rparr>))) \<noteq>
      normal (payload_json (receipt_chain_payload.truncate (hd demo_chain)))"
    by code_simp
qed (simp_all add: demo_chain_def Let_def demo_collision_free)

theorem canonical_readable_example:
  "canonicalize (JObj [(''b'', JArr [JInt (-7), JNull]), (''a'', JStr ''x'')]) = ''{'' @ json_string ''a'' @ '':'' @ json_string ''x'' @ '','' @ json_string ''b'' @ '':[-7,null]}''"
  by code_simp

end
