(* ===== verification/Source_Ports.thy ===== *)
theory Source_Ports
  imports Receipt_Chain Memory_Tables
begin

text \<open>
  The ports through which the deletion saga reaches the tables of the other modules, with the
  providers the composition roots bind (\<^verbatim>\<open>entrypoints/app-root.module.ts\<close>): the source rows of
  notes, chat messages, emails, task conclusions and web pages, the derived tasks, chat answers
  and reply drafts. The locale \<open>source_port\<close> is the contract of \<^verbatim>\<open>SourceDeletion\<close>; every
  provider is an interpretation of it.
\<close>

subsection \<open>Ports\<close>

record source_cascade =
  sc_object_keys :: "string list"
  sc_file_keys :: "string list"

record source_deletion =
  port_type :: source_type
  port_owner_of :: "string \<Rightarrow> pg \<Rightarrow> user_id option"
  port_delete :: "string \<Rightarrow> pg \<Rightarrow> pg"
  port_cascade :: "(string \<Rightarrow> pg \<Rightarrow> source_cascade) option"
  port_owns_keys :: "(string list \<Rightarrow> pg \<Rightarrow> string list) option"

record derived_cascade =
  dc_artifact :: string
  dc_memories :: "uuid list \<Rightarrow> pg \<Rightarrow> nat \<times> pg"
  dc_source :: "(string \<Rightarrow> string \<Rightarrow> pg \<Rightarrow> nat \<times> pg) option"

subsection \<open>Source rows\<close>

definition source_at :: "source_type \<Rightarrow> string \<Rightarrow> source_row \<Rightarrow> bool" where
  "source_at st i s \<longleftrightarrow> src_type s = st \<and> src_id s = i"

definition row_owner :: "source_type \<Rightarrow> string \<Rightarrow> pg \<Rightarrow> user_id option" where
  "row_owner st i d = map_option src_owner (find (source_at st i) (t_source d))"

definition row_delete :: "source_type \<Rightarrow> string \<Rightarrow> pg \<Rightarrow> pg" where
  "row_delete st i d = d\<lparr>t_source := delete_where (source_at st i) (t_source d)\<rparr>"

definition keep_some :: "'a option list \<Rightarrow> 'a list" where
  "keep_some xs = List.map_filter id xs"

definition NotesSourceDeletion :: source_deletion where
  "NotesSourceDeletion =
     \<lparr>port_type = UserNote, port_owner_of = row_owner UserNote, port_delete = row_delete UserNote,
      port_cascade = None, port_owns_keys = None\<rparr>"

definition TaskConclusionSourceDeletion :: source_deletion where
  "TaskConclusionSourceDeletion =
     \<lparr>port_type = TaskConclusion, port_owner_of = row_owner TaskConclusion,
      port_delete = row_delete TaskConclusion, port_cascade = None, port_owns_keys = None\<rparr>"

definition web_cascade :: "string \<Rightarrow> pg \<Rightarrow> source_cascade" where
  "web_cascade i d =
     \<lparr>sc_object_keys = (case find (source_at Web i) (t_source d) of
          None \<Rightarrow> [] | Some s \<Rightarrow> (case src_raw_key s of None \<Rightarrow> [] | Some k \<Rightarrow> if k = [] then [] else [k])),
      sc_file_keys = []\<rparr>"

definition web_owns_keys :: "string list \<Rightarrow> pg \<Rightarrow> string list" where
  "web_owns_keys keys d =
     (if keys = [] then []
      else filter (\<lambda>k. k \<in> set keys) (keep_some (map src_raw_key (filter (\<lambda>s. src_type s = Web) (t_source d)))))"

definition WebSourceDeletion :: source_deletion where
  "WebSourceDeletion =
     \<lparr>port_type = Web, port_owner_of = row_owner Web, port_delete = row_delete Web,
      port_cascade = Some web_cascade, port_owns_keys = Some web_owns_keys\<rparr>"

definition nonblank_key :: "string option \<Rightarrow> string list" where
  "nonblank_key k = (case k of None \<Rightarrow> [] | Some s \<Rightarrow> if s = [] then [] else [s])"

definition email_cascade :: "string \<Rightarrow> pg \<Rightarrow> source_cascade" where
  "email_cascade i d =
     (case find (source_at Email i) (t_source d) of
        None \<Rightarrow> \<lparr>sc_object_keys = [], sc_file_keys = []\<rparr>
      | Some s \<Rightarrow> \<lparr>sc_object_keys = nonblank_key (src_raw_key s) @ nonblank_key (src_html_key s),
                  sc_file_keys = keep_some (src_attachments s)\<rparr>)"

definition email_owns_keys :: "string list \<Rightarrow> pg \<Rightarrow> string list" where
  "email_owns_keys keys d =
     (if keys = [] then []
      else filter (\<lambda>k. k \<in> set keys)
             (concat (map (\<lambda>s. nonblank_key (src_raw_key s) @ nonblank_key (src_html_key s))
               (filter (\<lambda>s. src_type s = Email) (t_source d)))))"

definition EmailSourceDeletion :: source_deletion where
  "EmailSourceDeletion =
     \<lparr>port_type = Email, port_owner_of = row_owner Email, port_delete = row_delete Email,
      port_cascade = Some email_cascade, port_owns_keys = Some email_owns_keys\<rparr>"

definition chat_owner :: "string \<Rightarrow> pg \<Rightarrow> user_id option" where
  "chat_owner i d = map_option c_owner (find (\<lambda>c. c_id c = i) (t_chat d))"

definition chat_delete :: "string \<Rightarrow> pg \<Rightarrow> pg" where
  "chat_delete i d = d\<lparr>t_chat := delete_where (\<lambda>c. c_id c = i) (t_chat d)\<rparr>"

definition ChatSourceDeletion :: source_deletion where
  "ChatSourceDeletion =
     \<lparr>port_type = Chat, port_owner_of = chat_owner, port_delete = chat_delete,
      port_cascade = None, port_owns_keys = None\<rparr>"

definition SOURCE_DELETIONS :: "source_deletion list" where
  "SOURCE_DELETIONS =
     [NotesSourceDeletion, ChatSourceDeletion, EmailSourceDeletion, TaskConclusionSourceDeletion,
      WebSourceDeletion]"

subsection \<open>Derived artifacts\<close>

definition tasks_cascade :: "uuid list \<Rightarrow> pg \<Rightarrow> nat \<times> pg" where
  "tasks_cascade ids d =
     (if ids = [] then (0, d)
      else let hit = (\<lambda>t. tk_derived_from t \<in> set ids)
           in (length (filter hit (t_task d)), d\<lparr>t_task := delete_where hit (t_task d)\<rparr>))"

definition TasksCascade :: derived_cascade where
  "TasksCascade = \<lparr>dc_artifact = ''tasks'', dc_memories = tasks_cascade, dc_source = None\<rparr>"

fun contains :: "string \<Rightarrow> string \<Rightarrow> bool" where
  "contains pat [] = (pat = [])"
| "contains pat (c # cs) = (take (length pat) (c # cs) = pat \<or> contains pat cs)"

definition CHAT_ANSWER_REDACTED :: string where
  "CHAT_ANSWER_REDACTED = ''This answer referenced information that has since been deleted.''"

definition cite_token :: "uuid \<Rightarrow> string" where
  "cite_token i = ''{{cite:'' @ i @ ''}}''"

definition cites_any :: "uuid list \<Rightarrow> chat_row \<Rightarrow> bool" where
  "cites_any ids c \<longleftrightarrow> c_role c = AssistantRole \<and> list_ex (\<lambda>i. contains (cite_token i) (c_content c)) ids"

definition redact_answers :: "uuid list \<Rightarrow> pg \<Rightarrow> nat \<times> pg" where
  "redact_answers batch d =
     (length (filter (cites_any batch) (t_chat d)),
      d\<lparr>t_chat := update_where (cites_any batch) (\<lambda>c. c\<lparr>c_content := CHAT_ANSWER_REDACTED\<rparr>) (t_chat d)\<rparr>)"

definition IDS_PER_STATEMENT :: nat where
  "IDS_PER_STATEMENT = 100"

function chat_cascade :: "uuid list \<Rightarrow> pg \<Rightarrow> nat \<times> pg" where
  "chat_cascade ids d =
     (if ids = [] then (0, d)
      else let (n, d') = redact_answers (take IDS_PER_STATEMENT ids) d;
               (m, d'') = chat_cascade (drop IDS_PER_STATEMENT ids) d'
           in (n + m, d''))"
  by pat_completeness auto
termination
  by (relation "measure (\<lambda>(ids, d). length ids)") (auto simp: IDS_PER_STATEMENT_def)

declare chat_cascade.simps [simp del]

definition ChatAnswerCascade :: derived_cascade where
  "ChatAnswerCascade = \<lparr>dc_artifact = ''chat_messages'', dc_memories = chat_cascade, dc_source = None\<rparr>"

definition EMAIL_REPLY_DRAFT_ACTION :: string where
  "EMAIL_REPLY_DRAFT_ACTION = ''email.reply_draft''"

definition REDACTED_BODY :: string where
  "REDACTED_BODY = ''[redacted: the email this reply was drafted from was deleted]''"

text \<open>\<open>json_text\<close> is \<^verbatim>\<open>->>\<close>, \<open>json_merge\<close> is \<^verbatim>\<open>||\<close> on objects: the right hand side wins.\<close>

definition json_text :: "json \<Rightarrow> string \<Rightarrow> string option" where
  "json_text j key =
     (case j of
        JObj kvs \<Rightarrow> (case map_of kvs key of None \<Rightarrow> None | Some JNull \<Rightarrow> None
                     | Some (JStr s) \<Rightarrow> Some s | Some v \<Rightarrow> Some (canonicalize v))
      | _ \<Rightarrow> None)"

definition json_merge :: "json \<Rightarrow> (string \<times> json) list \<Rightarrow> json" where
  "json_merge j new =
     (case j of JObj kvs \<Rightarrow> JObj (new @ filter (\<lambda>(k, v). k \<notin> fst ` set new) kvs) | _ \<Rightarrow> j)"

definition draft_of :: "string \<Rightarrow> approval_row \<Rightarrow> bool" where
  "draft_of sourceId a \<longleftrightarrow> ap_action_type a = EMAIL_REPLY_DRAFT_ACTION \<and>
     json_text (ap_payload a) ''emailSourceId'' = Some sourceId \<and>
     json_text (ap_payload a) ''body'' \<noteq> Some REDACTED_BODY"

definition redact_draft :: "approval_row \<Rightarrow> approval_row" where
  "redact_draft a = a\<lparr>ap_payload := json_merge (ap_payload a)
     [(''body'', JStr REDACTED_BODY), (''subject'', JStr []), (''to'', JStr []),
      (''recipientResolved'', JBool False), (''recipientVerified'', JBool False)]\<rparr>"

definition reply_draft_cascade :: "string \<Rightarrow> string \<Rightarrow> pg \<Rightarrow> nat \<times> pg" where
  "reply_draft_cascade st sourceId d =
     (if st \<noteq> ''email'' then (0, d)
      else (length (filter (draft_of sourceId) (t_approval d)),
            d\<lparr>t_approval := update_where (draft_of sourceId) redact_draft (t_approval d)\<rparr>))"

definition ReplyDraftCascade :: derived_cascade where
  "ReplyDraftCascade =
     \<lparr>dc_artifact = ''reply_drafts'', dc_memories = (\<lambda>_ d. (0, d)), dc_source = Some reply_draft_cascade\<rparr>"

definition DERIVED_CASCADES :: "derived_cascade list" where
  "DERIVED_CASCADES = [TasksCascade, ChatAnswerCascade, ReplyDraftCascade]"

subsection \<open>Pending ingestion\<close>

datatype ingestion_cancellation = Cancelled | AlreadyRan | RunInFlight

fun cancellation_text :: "ingestion_cancellation \<Rightarrow> string" where
  "cancellation_text Cancelled = ''cancelled''"
| "cancellation_text AlreadyRan = ''already_ran''"
| "cancellation_text RunInFlight = ''run_in_flight''"

definition INGESTION_PIPELINE_JOB_TYPE :: string where
  "INGESTION_PIPELINE_JOB_TYPE = ''ingestion.pipeline''"

definition consumeIdempotencyKey :: "job_key \<Rightarrow> bool op" where
  "consumeIdempotencyKey key w =
     (if key \<in> set (t_job_execution (w_pg w)) then (Inr False, w)
      else (Inr True, update_pg (\<lambda>d. d\<lparr>t_job_execution := t_job_execution d @ [key]\<rparr>) w))"

definition pipeline_key :: "source_type \<Rightarrow> string \<Rightarrow> job_key" where
  "pipeline_key st i =
     \<lparr>k_source_type = source_type_text st, k_source_id = i, k_job_type = INGESTION_PIPELINE_JOB_TYPE\<rparr>"

text \<open>\<open>in_flight\<close> says which runs hold their advisory lock. Waiting for a run ends with the lock.\<close>

definition cancelPending ::
  "(job_key \<Rightarrow> bool) \<Rightarrow> source_type \<Rightarrow> string \<Rightarrow> bool \<Rightarrow> ingestion_cancellation op" where
  "cancelPending in_flight st i waitForRun =
     (let key = pipeline_key st i in
      if \<not> waitForRun \<and> in_flight key then ret RunInFlight
      else bindA (consumeIdempotencyKey key) (\<lambda>fresh. ret (if fresh then Cancelled else AlreadyRan)))"

subsection \<open>The contract of a source port\<close>

definition same_elsewhere :: "pg \<Rightarrow> pg \<Rightarrow> bool" where
  "same_elsewhere d d' \<longleftrightarrow> t_memory d' = t_memory d \<and> t_relation d' = t_relation d \<and>
     t_receipt d' = t_receipt d \<and> t_file d' = t_file d \<and> t_alert d' = t_alert d \<and>
     t_audit d' = t_audit d \<and> t_outbox d' = t_outbox d \<and> t_jobs d' = t_jobs d \<and>
     t_job_execution d' = t_job_execution d \<and> t_dead_letter d' = t_dead_letter d"

locale source_port =
  fixes owner_of :: "string \<Rightarrow> pg \<Rightarrow> user_id option" and delete :: "string \<Rightarrow> pg \<Rightarrow> pg"
  assumes delete_elsewhere: "same_elsewhere d (delete i d)"
    and owner_deleted: "owner_of i (delete i d) = None"
    and owner_others: "j \<noteq> i \<Longrightarrow> owner_of j (delete i d) = owner_of j d"
    and owner_frame: "t_source d' = t_source d \<Longrightarrow> t_chat d' = t_chat d \<Longrightarrow> owner_of i d' = owner_of i d"
begin

lemma delete_twice: "owner_of j (delete i (delete i d)) = owner_of j (delete i d)"
  by (cases "j = i") (simp_all add: owner_deleted owner_others)

lemma memory_ids_delete [simp]: "memory_ids (delete i d) = memory_ids d"
  using delete_elsewhere [of d i] by (simp add: same_elsewhere_def memory_ids_def)

end

lemma find_delete_where: "find P (delete_where P xs) = None"
  by (induction xs) (auto simp: delete_where_def)

lemma find_delete_other:
  "(\<And>x. P x \<Longrightarrow> \<not> Q x) \<Longrightarrow> find P (delete_where Q xs) = find P xs"
  by (induction xs) (auto simp: delete_where_def)

lemma row_port: "source_port (row_owner st) (row_delete st)"
proof unfold_locales
  fix i j :: string and d
  assume "j \<noteq> i"
  then show "row_owner st j (row_delete st i d) = row_owner st j d"
    using find_delete_other [of "source_at st j" "source_at st i" "t_source d"]
    by (simp add: row_owner_def row_delete_def source_at_def)
qed (auto simp: row_owner_def row_delete_def same_elsewhere_def find_delete_where)

interpretation notes_port: source_port "port_owner_of NotesSourceDeletion" "port_delete NotesSourceDeletion"
  unfolding NotesSourceDeletion_def using row_port by simp

interpretation conclusions_port: source_port "port_owner_of TaskConclusionSourceDeletion"
    "port_delete TaskConclusionSourceDeletion"
  unfolding TaskConclusionSourceDeletion_def using row_port by simp

interpretation web_port: source_port "port_owner_of WebSourceDeletion" "port_delete WebSourceDeletion"
  unfolding WebSourceDeletion_def using row_port by simp

interpretation email_port: source_port "port_owner_of EmailSourceDeletion" "port_delete EmailSourceDeletion"
  unfolding EmailSourceDeletion_def using row_port by simp

lemma chat_port: "source_port chat_owner chat_delete"
proof unfold_locales
  fix i j :: string and d
  assume "j \<noteq> i"
  then show "chat_owner j (chat_delete i d) = chat_owner j d"
    using find_delete_other [of "\<lambda>c. c_id c = j" "\<lambda>c. c_id c = i" "t_chat d"]
    by (simp add: chat_owner_def chat_delete_def)
qed (auto simp: chat_owner_def chat_delete_def same_elsewhere_def find_delete_where)

interpretation chat_messages_port: source_port "port_owner_of ChatSourceDeletion" "port_delete ChatSourceDeletion"
  unfolding ChatSourceDeletion_def using chat_port by simp

lemma adapters_are_ports:
  "a \<in> set SOURCE_DELETIONS \<Longrightarrow> source_port (port_owner_of a) (port_delete a)"
  using row_port chat_port
  by (auto simp: SOURCE_DELETIONS_def NotesSourceDeletion_def ChatSourceDeletion_def
      EmailSourceDeletion_def TaskConclusionSourceDeletion_def WebSourceDeletion_def)

end
