(* ===== verification/Deletion_Saga.thy ===== *)
theory Deletion_Saga
  imports Source_Ports Reconciliation "HOL-Library.Product_Lexorder"
begin

text \<open>
  The deletion saga, \<^verbatim>\<open>memory/deletion-saga.ts\<close>: the enumeration transaction that removes a
  source with everything derived from it and writes the pending receipt, and the worker leg
  that removes the enumerated points and objects and confirms the receipt with its place in
  the chain. The hash and the signature are the arguments \<open>sha\<close> and \<open>sign\<close>.
\<close>

subsection \<open>The counts of a receipt\<close>

record receipt_counts =
  rc_source_type :: string
  rc_source_id :: string
  rc_requested_by :: string
  rc_memory_ids :: "uuid list"
  rc_memory_count :: int
  rc_tasks_removed :: "int option"
  rc_chat_messages_redacted :: "int option"
  rc_reply_drafts_redacted :: "int option"
  rc_point_ids :: "uuid list"
  rc_object_keys :: "string list"
  rc_superseded_by_nulled :: "uuid list"
  rc_enumerated_at :: string

definition opt_entry :: "string \<Rightarrow> int option \<Rightarrow> (string \<times> json) list" where
  "opt_entry key v = (case v of None \<Rightarrow> [] | Some n \<Rightarrow> [(key, JInt n)])"

definition counts_json :: "receipt_counts \<Rightarrow> json" where
  "counts_json c = JObj
     ([(''source'', JObj [(''type'', JStr (rc_source_type c)), (''id'', JStr (rc_source_id c))]),
       (''requested_by'', JStr (rc_requested_by c)),
       (''memory_ids'', jstrs (rc_memory_ids c)),
       (''memory_count'', JInt (rc_memory_count c))] @
      opt_entry ''tasks_removed'' (rc_tasks_removed c) @
      opt_entry ''chat_messages_redacted'' (rc_chat_messages_redacted c) @
      opt_entry ''reply_drafts_redacted'' (rc_reply_drafts_redacted c) @
      [(''point_ids'', jstrs (rc_point_ids c)),
       (''object_keys'', jstrs (rc_object_keys c)),
       (''superseded_by_nulled'', jstrs (rc_superseded_by_nulled c)),
       (''enumerated_at'', JStr (rc_enumerated_at c))])"

text \<open>The schema that parses it back: required strings, integers and string arrays.\<close>

fun as_string :: "json option \<Rightarrow> string option" where
  "as_string (Some (JStr s)) = Some s"
| "as_string _ = None"

fun as_int :: "json option \<Rightarrow> int option" where
  "as_int (Some (JInt n)) = Some n"
| "as_int _ = None"

fun all_strings :: "json list \<Rightarrow> string list option" where
  "all_strings [] = Some []"
| "all_strings (JStr s # vs) = map_option (Cons s) (all_strings vs)"
| "all_strings _ = None"

fun as_strings :: "json option \<Rightarrow> string list option" where
  "as_strings (Some (JArr vs)) = all_strings vs"
| "as_strings _ = None"

fun as_opt_int :: "json option \<Rightarrow> int option option" where
  "as_opt_int None = Some None"
| "as_opt_int (Some (JInt n)) = Some (Some n)"
| "as_opt_int (Some _) = None"

definition parseReceiptCounts :: "json \<Rightarrow> receipt_counts option" where
  "parseReceiptCounts j =
     (case j of
        JObj kvs \<Rightarrow>
          let f = map_of kvs in
          (case f ''source'' of
             Some (JObj src) \<Rightarrow>
               (case (as_string (map_of src ''type''), as_string (map_of src ''id''),
                      as_string (f ''requested_by''), as_strings (f ''memory_ids''),
                      as_int (f ''memory_count''), as_opt_int (f ''tasks_removed''),
                      as_opt_int (f ''chat_messages_redacted''), as_opt_int (f ''reply_drafts_redacted''),
                      as_strings (f ''point_ids''), as_strings (f ''object_keys''),
                      as_strings (f ''superseded_by_nulled''), as_string (f ''enumerated_at'')) of
                  (Some ty, Some i, Some by_user, Some mids, Some n, Some tr, Some cm, Some rd, Some pids,
                   Some keys, Some nulled, Some at_time) \<Rightarrow>
                    Some \<lparr>rc_source_type = ty, rc_source_id = i, rc_requested_by = by_user,
                      rc_memory_ids = mids, rc_memory_count = n, rc_tasks_removed = tr,
                      rc_chat_messages_redacted = cm, rc_reply_drafts_redacted = rd,
                      rc_point_ids = pids, rc_object_keys = keys, rc_superseded_by_nulled = nulled,
                      rc_enumerated_at = at_time\<rparr>
                | _ \<Rightarrow> None)
           | _ \<Rightarrow> None)
      | _ \<Rightarrow> None)"

subsection \<open>Resolving the source\<close>

fun source_type_of_text :: "source_type list \<Rightarrow> string \<Rightarrow> source_type option" where
  "source_type_of_text [] s = None"
| "source_type_of_text (t # ts) s = (if source_type_text t = s then Some t else source_type_of_text ts s)"

definition assertSourceType :: "string \<Rightarrow> source_type op" where
  "assertSourceType raw =
     (case source_type_of_text SOURCE_TYPES raw of
        None \<Rightarrow> raise (BadRequest (UnknownSourceType raw))
      | Some t \<Rightarrow> ret t)"

definition file_row_of :: "string \<Rightarrow> pg \<Rightarrow> file_row option" where
  "file_row_of key d = find (\<lambda>f. f_object_key f = key) (t_file d)"

definition adapter_for :: "source_type \<Rightarrow> source_deletion option" where
  "adapter_for st = find (\<lambda>a. port_type a = st) SOURCE_DELETIONS"

record resolved_source =
  rs_file :: "file_row option"
  rs_adapter :: "source_deletion option"
  rs_owner :: "user_id option"

definition resolveSource :: "source_type \<Rightarrow> string \<Rightarrow> resolved_source op" where
  "resolveSource st sourceId =
     (if st = File
      then bindA (reads (\<lambda>w. file_row_of sourceId (w_pg w))) (\<lambda>fileRow.
             ret \<lparr>rs_file = fileRow, rs_adapter = None, rs_owner = map_option f_owner fileRow\<rparr>)
      else case adapter_for st of
             None \<Rightarrow> raise (BadRequest (NoDeletionAdapter st))
           | Some a \<Rightarrow> bindA (reads (\<lambda>w. port_owner_of a sourceId (w_pg w))) (\<lambda>owner.
               ret \<lparr>rs_file = None, rs_adapter = Some a, rs_owner = owner\<rparr>))"

definition derived_rows :: "source_type \<Rightarrow> string \<Rightarrow> pg \<Rightarrow> memory_row list" where
  "derived_rows st sourceId d = filter (\<lambda>r. m_source_type r = st \<and> m_source_id r = sourceId) (t_memory d)"

definition enumerateAndAuthorize ::
  "principal \<Rightarrow> source_type \<Rightarrow> string \<Rightarrow> user_id option \<Rightarrow> memory_row list op" where
  "enumerateAndAuthorize prin st sourceId sourceOwner =
     bindA (reads (\<lambda>w. derived_rows st sourceId (w_pg w))) (\<lambda>rows.
     if sourceOwner = None \<and> rows = [] then raise (NotFound ''source'' sourceId)
     else if list_ex (\<lambda>r. m_owner r \<noteq> p_user_id prin) rows then raise (NotFound ''source'' sourceId)
     else ret rows)"

definition check_owner :: "principal \<Rightarrow> string \<Rightarrow> resolved_source \<Rightarrow> unit op" where
  "check_owner prin sourceId r =
     raise_if (rs_owner r \<noteq> None \<and> rs_owner r \<noteq> Some (p_user_id prin)) (NotFound ''source'' sourceId)"

definition loadAndAuthorize ::
  "principal \<Rightarrow> source_type \<Rightarrow> string \<Rightarrow> (memory_row list \<times> resolved_source) op" where
  "loadAndAuthorize prin st sourceId =
     bindA (resolveSource st sourceId) (\<lambda>r.
     thenA (check_owner prin sourceId r)
     (bindA (enumerateAndAuthorize prin st sourceId (rs_owner r)) (\<lambda>rows. ret (rows, r))))"

subsection \<open>Preview\<close>

record deletion_preview =
  dp_memory_count :: nat
  dp_object_count :: nat

definition cascade_of :: "resolved_source \<Rightarrow> string \<Rightarrow> pg \<Rightarrow> source_cascade" where
  "cascade_of r sourceId d =
     (case rs_adapter r of
        None \<Rightarrow> \<lparr>sc_object_keys = [], sc_file_keys = []\<rparr>
      | Some a \<Rightarrow> (case port_cascade a of
                    None \<Rightarrow> \<lparr>sc_object_keys = [], sc_file_keys = []\<rparr>
                  | Some f \<Rightarrow> f sourceId d))"

definition previewSourceDeletion :: "principal \<Rightarrow> string \<Rightarrow> string \<Rightarrow> deletion_preview op" where
  "previewSourceDeletion prin rawSourceType sourceId =
     bindA (assertSourceType rawSourceType) (\<lambda>st.
     transaction (
       bindA (loadAndAuthorize prin st sourceId) (\<lambda>(rows, r).
       reads (\<lambda>w. let c = cascade_of r sourceId (w_pg w) in
         \<lparr>dp_memory_count = length rows +
            sum_list (map (\<lambda>k. length (derived_rows File k (w_pg w))) (sc_file_keys c)),
          dp_object_count = (if rs_file r = None then 0 else 1) + length (sc_object_keys c) +
            sum_list (map (\<lambda>k. length (filter (\<lambda>f. f_object_key f = k) (t_file (w_pg w)))) (sc_file_keys c))\<rparr>))))"

subsection \<open>The enumeration transaction\<close>

definition delete_file_row :: "string \<Rightarrow> unit op" where
  "delete_file_row key =
     updates (update_pg (\<lambda>d. d\<lparr>t_file := delete_where (\<lambda>f. f_object_key f = key) (t_file d)\<rparr>))"

text \<open>One attachment: its memories join the rows, its file row goes, its key is returned.\<close>

definition cascadeFileSubSource ::
  "(job_key \<Rightarrow> bool) \<Rightarrow> principal \<Rightarrow> memory_row list \<times> string list \<Rightarrow> string \<Rightarrow>
     (memory_row list \<times> string list) op" where
  "cascadeFileSubSource in_flight prin acc fileKey =
     thenA (cancelPending in_flight File fileKey False)
     (bindA (reads (\<lambda>w. derived_rows File fileKey (w_pg w))) (\<lambda>subRows.
      if list_ex (\<lambda>r. m_owner r \<noteq> p_user_id prin) subRows then raise (NotFound ''source'' fileKey)
      else bindA (reads (\<lambda>w. file_row_of fileKey (w_pg w))) (\<lambda>fileRow.
           case fileRow of
             None \<Rightarrow> ret (fst acc @ subRows, snd acc)
           | Some f \<Rightarrow>
               if f_owner f \<noteq> p_user_id prin then raise (NotFound ''source'' fileKey)
               else thenA (delete_file_row fileKey) (ret (fst acc @ subRows, snd acc @ [fileKey])))))"

record derived_totals =
  dt_tasks :: nat
  dt_chat :: nat
  dt_drafts :: nat

definition run_cascade ::
  "source_type \<Rightarrow> string \<Rightarrow> uuid list \<Rightarrow> derived_totals \<Rightarrow> derived_cascade \<Rightarrow> derived_totals op" where
  "run_cascade st sourceId memoryIds totals c =
     bindA (\<lambda>w. let (n, d) = dc_memories c memoryIds (w_pg w) in (Inr n, update_pg (\<lambda>_. d) w)) (\<lambda>removed.
     let totals1 = (if dc_artifact c = ''tasks'' then totals\<lparr>dt_tasks := dt_tasks totals + removed\<rparr> else totals);
         totals2 = (if dc_artifact c = ''chat_messages'' then totals1\<lparr>dt_chat := dt_chat totals1 + removed\<rparr> else totals1)
     in case dc_source c of
          None \<Rightarrow> ret totals2
        | Some f \<Rightarrow>
            bindA (\<lambda>w. let (n, d) = f (source_type_text st) sourceId (w_pg w) in (Inr n, update_pg (\<lambda>_. d) w)) (\<lambda>redacted.
            ret (if dc_artifact c = ''reply_drafts'' then totals2\<lparr>dt_drafts := dt_drafts totals2 + redacted\<rparr> else totals2)))"

definition delete_rows :: "uuid list \<Rightarrow> uuid list op" where
  "delete_rows memoryIds =
     (if memoryIds = [] then ret []
      else bindA (null_pointers memoryIds) (\<lambda>nulled.
           thenA (delete_memories memoryIds) (ret nulled)))"

definition receipt_pending :: "uuid \<Rightarrow> source_type \<Rightarrow> string \<Rightarrow> receipt_counts \<Rightarrow> receipt_row" where
  "receipt_pending i st sourceId counts =
     \<lparr>r_id = i, r_source_type = st, r_source_id = sourceId, r_counts_json = counts_json counts,
      r_status = Pending, r_prev_hash = None, r_hash = None, r_signature = None, r_signed_at = None,
      r_confirmed_at = None\<rparr>"

definition insert_receipt :: "source_type \<Rightarrow> string \<Rightarrow> receipt_counts \<Rightarrow> uuid op" where
  "insert_receipt st sourceId counts =
     bindA draw_uuid (\<lambda>i w.
       if i \<in> r_id ` set (t_receipt (w_pg w)) then (Inl UniqueViolation, w)
       else (Inr i, update_pg (\<lambda>d. d\<lparr>t_receipt := t_receipt d @ [receipt_pending i st sourceId counts]\<rparr>) w))"

definition DELETION_JOB_TYPE :: string where
  "DELETION_JOB_TYPE = ''deletion.execute''"

definition DELETION_JOB_SOURCE_TYPE :: string where
  "DELETION_JOB_SOURCE_TYPE = ''deletion_receipt''"

definition remove_source :: "source_type \<Rightarrow> string \<Rightarrow> resolved_source \<Rightarrow> string list \<Rightarrow> string list op" where
  "remove_source st sourceId r cascadeObjectKeys =
     (let own = (if st = File \<and> rs_file r \<noteq> None then [sourceId] else []) in
      thenA (when_do (own \<noteq> []) (delete_file_row sourceId))
      (thenA (case rs_adapter r of None \<Rightarrow> ret ()
                | Some a \<Rightarrow> updates (update_pg (port_delete a sourceId)))
        (ret (dedupe (own @ cascadeObjectKeys)))))"

definition finish_request ::
  "principal \<Rightarrow> source_type \<Rightarrow> string \<Rightarrow> receipt_counts \<Rightarrow> nat \<Rightarrow> ingestion_cancellation \<Rightarrow> uuid op" where
  "finish_request prin st sourceId counts liftedPartners ingestion =
     bindA (insert_receipt st sourceId counts) (\<lambda>receiptId.
     thenA (withTransactionalEnqueue
              \<lparr>ev_type = ''source.deletion_requested'',
               ev_payload = [(''source_type'', JStr (source_type_text st)), (''source_id'', JStr sourceId),
                             (''receipt_id'', JStr receiptId)]\<rparr>
              DELETION_JOB_TYPE
              \<lparr>j_source_type = DELETION_JOB_SOURCE_TYPE, j_source_id = receiptId\<rparr>)
     (thenA (writeAudit
              \<lparr>a_actor = ''user:'' @ p_user_id prin, a_action = ''source.deletion_requested'',
               a_entity_type = ''deletion_receipt'', a_entity_id = receiptId,
               a_detail = JObj
                 [(''sourceType'', JStr (source_type_text st)), (''sourceId'', JStr sourceId),
                  (''memoryCount'', JInt (rc_memory_count counts)),
                  (''objectCount'', JInt (int (length (rc_object_keys counts)))),
                  (''supersededByNulled'', JInt (int (length (rc_superseded_by_nulled counts)))),
                  (''contradictionsLifted'', JInt (int liftedPartners)),
                  (''chatMessagesRedacted'', jopt JInt (rc_chat_messages_redacted counts)),
                  (''replyDraftsRedacted'', jopt JInt (rc_reply_drafts_redacted counts)),
                  (''ingestionCancellation'', JStr (cancellation_text ingestion))],
               a_org_id = Some (p_org_id prin), a_owner_id = Some (p_user_id prin)\<rparr>)
       (ret receiptId)))"

definition request_counts ::
  "principal \<Rightarrow> source_type \<Rightarrow> string \<Rightarrow> uuid list \<Rightarrow> derived_totals \<Rightarrow> string list \<Rightarrow>
     uuid list \<Rightarrow> time \<Rightarrow> receipt_counts" where
  "request_counts prin st sourceId memoryIds totals objectKeys nulledPointers now =
     \<lparr>rc_source_type = source_type_text st, rc_source_id = sourceId, rc_requested_by = p_user_id prin,
      rc_memory_ids = memoryIds, rc_memory_count = int (length memoryIds),
      rc_tasks_removed = Some (int (dt_tasks totals)),
      rc_chat_messages_redacted = Some (int (dt_chat totals)),
      rc_reply_drafts_redacted = Some (int (dt_drafts totals)),
      rc_point_ids = memoryIds, rc_object_keys = objectKeys,
      rc_superseded_by_nulled = nulledPointers, rc_enumerated_at = iso_string now\<rparr>"

text \<open>From the enumerated rows on: lift, derived artifacts, rows, source, receipt.\<close>

definition erase_rows ::
  "principal \<Rightarrow> source_type \<Rightarrow> string \<Rightarrow> resolved_source \<Rightarrow> ingestion_cancellation \<Rightarrow>
     memory_row list \<Rightarrow> string list \<Rightarrow> uuid op" where
  "erase_rows prin st sourceId r ingestion rows cascadeObjectKeys =
     (let memoryIds = map m_id rows in
      bindA (liftContradictionsBeforeDeletion memoryIds (Some (p_org_id prin))) (\<lambda>liftedPartners.
      bindA (fold_each (run_cascade st sourceId memoryIds) DERIVED_CASCADES
               \<lparr>dt_tasks = 0, dt_chat = 0, dt_drafts = 0\<rparr>) (\<lambda>totals.
      bindA (delete_rows memoryIds) (\<lambda>nulledPointers.
      bindA (remove_source st sourceId r cascadeObjectKeys) (\<lambda>objectKeys.
      bindA (reads w_clock) (\<lambda>now.
      finish_request prin st sourceId
        (request_counts prin st sourceId memoryIds totals objectKeys nulledPointers now)
        liftedPartners ingestion))))))"

definition erase_resolved ::
  "(job_key \<Rightarrow> bool) \<Rightarrow> principal \<Rightarrow> source_type \<Rightarrow> string \<Rightarrow> resolved_source \<Rightarrow> uuid op" where
  "erase_resolved in_flight prin st sourceId r =
     thenA (check_owner prin sourceId r)
     (bindA (cancelPending in_flight st sourceId (st = File \<and> rs_file r = None)) (\<lambda>ingestion.
      bindA (enumerateAndAuthorize prin st sourceId (rs_owner r)) (\<lambda>rows0.
      bindA (reads (\<lambda>w. cascade_of r sourceId (w_pg w))) (\<lambda>cascade.
      bindA (fold_each (cascadeFileSubSource in_flight prin) (sc_file_keys cascade)
               (rows0, sc_object_keys cascade)) (\<lambda>(rows, cascadeObjectKeys).
      erase_rows prin st sourceId r ingestion rows cascadeObjectKeys)))))"

definition erase_source ::
  "(job_key \<Rightarrow> bool) \<Rightarrow> principal \<Rightarrow> source_type \<Rightarrow> string \<Rightarrow> uuid op" where
  "erase_source in_flight prin st sourceId =
     bindA (resolveSource st sourceId) (erase_resolved in_flight prin st sourceId)"

definition requestSourceDeletion ::
  "(job_key \<Rightarrow> bool) \<Rightarrow> principal \<Rightarrow> string \<Rightarrow> string \<Rightarrow> uuid op" where
  "requestSourceDeletion in_flight prin rawSourceType sourceId =
     bindA (assertSourceType rawSourceType) (\<lambda>st.
     thenA (raise_if (js_trim sourceId = []) (BadRequest BlankSourceId))
       (transaction (erase_source in_flight prin st sourceId)))"

subsection \<open>The worker leg\<close>

definition deleteObject :: "string \<Rightarrow> unit op" where
  "deleteObject key =
     external BucketFailed (\<lambda>_. ())
       (\<lambda>w. w\<lparr>w_objects := delete_where (\<lambda>obj. o_key obj = key) (w_objects w)\<rparr>)"

definition confirmed_rows :: "pg \<Rightarrow> receipt_row list" where
  "confirmed_rows d = filter (\<lambda>r. r_status r = Confirmed) (t_receipt d)"

definition chain_tips :: "pg \<Rightarrow> string option list" where
  "chain_tips d =
     map r_hash (filter (\<lambda>r. \<not> list_ex (\<lambda>r2. r_prev_hash r2 = r_hash r \<and> r_hash r \<noteq> None) (confirmed_rows d))
       (confirmed_rows d))"

definition chainTip :: "string op" where
  "chainTip =
     bindA (reads (\<lambda>w. chain_tips (w_pg w))) (\<lambda>tips.
     case tips of
       [] \<Rightarrow> ret GENESIS_HASH
     | [t] \<Rightarrow> ret (or_else t [])
     | _ \<Rightarrow> raise (Failure ''deletion receipt chain has several tips''))"

record execution_result =
  ex_already_confirmed :: bool
  ex_points :: nat
  ex_objects :: nat

definition confirm_row :: "uuid \<Rightarrow> string \<Rightarrow> string \<Rightarrow> string \<Rightarrow> time \<Rightarrow> unit op" where
  "confirm_row i prevHash hash signature now =
     updates (update_pg (\<lambda>d. d\<lparr>t_receipt := update_where (\<lambda>r. r_id r = i)
       (\<lambda>r. r\<lparr>r_status := Confirmed, r_prev_hash := Some prevHash, r_hash := Some hash,
          r_signature := Some signature, r_signed_at := Some now, r_confirmed_at := Some now\<rparr>) (t_receipt d)\<rparr>))"

definition execute ::
  "(string \<Rightarrow> string) \<Rightarrow> (string \<Rightarrow> string) \<Rightarrow> uuid \<Rightarrow> execution_result op" where
  "execute sha sign receiptId =
     bindA (reads (\<lambda>w. find (\<lambda>r. r_id r = receiptId) (t_receipt (w_pg w)))) (\<lambda>found.
     case found of
       None \<Rightarrow> raise (Failure ''deletion receipt not found'')
     | Some receipt \<Rightarrow>
         if r_status receipt = Confirmed
         then ret \<lparr>ex_already_confirmed = True, ex_points = 0, ex_objects = 0\<rparr>
         else case parseReceiptCounts (r_counts_json receipt) of
           None \<Rightarrow> raise (Failure ''counts_json does not parse'')
         | Some counts \<Rightarrow>
             thenA (deletePoints (rc_point_ids counts))
             (thenA (each deleteObject (rc_object_keys counts))
             (bindA chainTip (\<lambda>prevHash.
              bindA (reads w_clock) (\<lambda>now.
              let hash = hashReceiptPayload sha
                    \<lparr>cp_id = r_id receipt, cp_source_type = source_type_text (r_source_type receipt),
                     cp_source_id = r_source_id receipt, cp_counts_json = r_counts_json receipt,
                     cp_signed_at = iso_string now, cp_confirmed_at = iso_string now,
                     cp_prev_hash = prevHash\<rparr>
              in thenA (confirm_row receiptId prevHash hash (sign hash) now)
                 (thenA (writeAudit
                   \<lparr>a_actor = ''deletion_saga'', a_action = ''deletion_receipt.confirmed'',
                    a_entity_type = ''deletion_receipt'', a_entity_id = receiptId,
                    a_detail = JObj [(''points'', JInt (int (length (rc_point_ids counts)))),
                      (''objects'', JInt (int (length (rc_object_keys counts)))), (''hash'', JStr hash)],
                    a_org_id = None, a_owner_id = Some (rc_requested_by counts)\<rparr>)
                   (ret \<lparr>ex_already_confirmed = False, ex_points = length (rc_point_ids counts),
                         ex_objects = length (rc_object_keys counts)\<rparr>)))))))"

subsection \<open>The saga keeps the invariant\<close>

text \<open>Statements that leave memories and relations alone.\<close>

lemma keeps_frame_op:
  assumes "\<And>w r w'. m w = (r, w') \<Longrightarrow> w_uuids w' = w_uuids w \<and> w_drawn w \<le> w_drawn w' \<and>
      t_memory (w_pg w') = t_memory (w_pg w) \<and> t_relation (w_pg w') = t_relation (w_pg w)"
  shows "mem_keeps m"
proof (rule keeps_fromI)
  fix w
  obtain r w' where run: "m w = (r, w')" by (cases "m w")
  have "memory_safe w \<Longrightarrow> rows_move (t_memory (w_pg w)) (t_memory (w_pg w))"
    by (drule memory_move_refl) (simp add: memory_move_def)
  with assms [OF run] run show "mem_keeps_from m w"
    by (auto simp: keeps_from_def wp_def memory_safe_def memory_move_def ids_drawn_def
        relations_ok_def memory_ids_def)
qed

lemma keeps_cancelPending: "mem_keeps (cancelPending in_flight st i b)"
proof -
  have "mem_keeps (consumeIdempotencyKey key)" for key
    by (rule keeps_frame_op) (auto simp: consumeIdempotencyKey_def split: if_splits)
  then show ?thesis unfolding cancelPending_def Let_def by (intro mem.control)
qed

lemma keeps_delete_file_row: "mem_keeps (delete_file_row key)"
  unfolding delete_file_row_def by (rule keeps_elsewhere) simp

lemma keeps_resolveSource: "mem_keeps (resolveSource st i)"
  unfolding resolveSource_def by (auto split: option.splits intro!: mem.control)

lemma keeps_enumerate: "mem_keeps (enumerateAndAuthorize prin st i owner)"
  unfolding enumerateAndAuthorize_def by (intro mem.control)

lemma keeps_cascadeFileSubSource: "mem_keeps (cascadeFileSubSource in_flight prin acc key)"
  unfolding cascadeFileSubSource_def
  by (auto split: option.splits intro!: mem.control keeps_cancelPending keeps_delete_file_row)

lemma redact_answers_elsewhere: "t_memory (snd (redact_answers ids d)) = t_memory d \<and>
    t_relation (snd (redact_answers ids d)) = t_relation d"
  by (simp add: redact_answers_def)

lemma chat_cascade_elsewhere:
  "t_memory (snd (chat_cascade ids d)) = t_memory d \<and> t_relation (snd (chat_cascade ids d)) = t_relation d"
proof (induction ids d rule: chat_cascade.induct)
  case (1 ids d)
  then show ?case
    by (subst (1 2) chat_cascade.simps) (auto simp: redact_answers_def Let_def split: prod.splits)
qed

lemma cascade_elsewhere:
  assumes "c \<in> set DERIVED_CASCADES"
  shows "t_memory (snd (dc_memories c ids d)) = t_memory d \<and> t_relation (snd (dc_memories c ids d)) = t_relation d"
    and "dc_source c = Some f \<Longrightarrow> t_memory (snd (f st i d)) = t_memory d \<and> t_relation (snd (f st i d)) = t_relation d"
  using assms chat_cascade_elsewhere
  by (auto simp: DERIVED_CASCADES_def TasksCascade_def ChatAnswerCascade_def ReplyDraftCascade_def
      tasks_cascade_def reply_draft_cascade_def Let_def)

lemma keeps_run_cascade:
  assumes c: "c \<in> set DERIVED_CASCADES"
  shows "mem_keeps (run_cascade st i ids totals c)"
proof -
  have step: "mem_keeps (\<lambda>w. let (n, d) = g (w_pg w) in (Inr n, update_pg (\<lambda>_. d) w))"
    if "\<And>d. t_memory (snd (g d)) = t_memory d \<and> t_relation (snd (g d)) = t_relation d" for g :: "pg \<Rightarrow> nat \<times> pg"
  proof (rule keeps_frame_op)
    fix w r w'
    assume "(let (n, d) = g (w_pg w) in (Inr n, update_pg (\<lambda>_. d) w)) = (r, w')"
    then show "w_uuids w' = w_uuids w \<and> w_drawn w \<le> w_drawn w' \<and>
        t_memory (w_pg w') = t_memory (w_pg w) \<and> t_relation (w_pg w') = t_relation (w_pg w)"
      using that [of "w_pg w"] by (auto simp: Let_def split: prod.splits)
  qed
  show ?thesis
    unfolding run_cascade_def Let_def
    by (rule mem.keeps_bind [OF step [unfolded Let_def]])
      (use cascade_elsewhere [OF c] in \<open>auto split: option.splits intro!: mem.control step [unfolded Let_def]\<close>)
qed

lemma keeps_delete_rows: "mem_keeps (delete_rows ids)"
  unfolding delete_rows_def by (intro mem.control keeps_null_pointers keeps_delete_memories)

lemma adapter_for_SomeD: "adapter_for st = Some a \<Longrightarrow> a \<in> set SOURCE_DELETIONS \<and> port_type a = st"
  unfolding adapter_for_def by (auto dest: find_SomeD)

definition bound_adapter :: "resolved_source \<Rightarrow> bool" where
  "bound_adapter r \<longleftrightarrow> (case rs_adapter r of None \<Rightarrow> True | Some a \<Rightarrow> a \<in> set SOURCE_DELETIONS)"

lemma resolveSource_Inr:
  assumes "resolveSource st i w = (Inr r, w')"
  shows "w' = w \<and> bound_adapter r \<and>
    (if st = File then rs_file r = file_row_of i (w_pg w) \<and> rs_adapter r = None
     else rs_file r = None \<and> rs_adapter r = adapter_for st \<and> adapter_for st \<noteq> None)"
  using assms
  by (auto simp: resolveSource_def act_defs bound_adapter_def split: if_splits option.splits
      dest: adapter_for_SomeD)

lemma port_delete_elsewhere:
  assumes "a \<in> set SOURCE_DELETIONS"
  shows "same_elsewhere d (port_delete a i d)"
  using source_port.delete_elsewhere [OF adapters_are_ports [OF assms]] .

lemma keeps_remove_source:
  assumes "bound_adapter r"
  shows "mem_keeps (remove_source st i r keys)"
proof -
  have "mem_keeps (updates (update_pg (port_delete a i)))" if "rs_adapter r = Some a" for a
    using assms that port_delete_elsewhere [of a]
    by (intro keeps_elsewhere) (auto simp: bound_adapter_def same_elsewhere_def)
  then show ?thesis
    unfolding remove_source_def Let_def
    by (auto split: option.splits intro!: mem.control keeps_delete_file_row)
qed

lemma keeps_finish_request: "mem_keeps (finish_request prin st i counts n ing)"
proof -
  have "mem_keeps (\<lambda>w. if j \<in> r_id ` set (t_receipt (w_pg w)) then (Inl UniqueViolation, w)
      else (Inr j, update_pg (\<lambda>d. d\<lparr>t_receipt := t_receipt d @ [q]\<rparr>) w))" for j q
    by (rule keeps_frame_op) (auto split: if_splits)
  then show ?thesis unfolding finish_request_def insert_receipt_def by (intro store_keeps)
qed

text \<open>
  What a contract must grant for an erasure to keep it: each of the steps the erasing
  transaction is made of.
\<close>

locale erasure_contract = pg_evolution safe move
  for safe :: "world \<Rightarrow> bool" and move :: "world \<Rightarrow> world \<Rightarrow> bool" +
  assumes erases_lift: "keeps safe move (liftContradictionsBeforeDeletion ids org)"
    and erases_derived: "c \<in> set DERIVED_CASCADES \<Longrightarrow> keeps safe move (run_cascade st i ids totals c)"
    and erases_memories: "keeps safe move (delete_rows ids)"
    and erases_source: "bound_adapter r \<Longrightarrow> keeps safe move (remove_source st i r keys)"
    and erases_finish: "keeps safe move (finish_request prin st i counts n ing)"
    and erases_pending: "keeps safe move (cancelPending in_flight st i b)"
    and erases_file: "keeps safe move (cascadeFileSubSource in_flight prin acc key)"
begin

lemma keeps_erase_rows: "bound_adapter r \<Longrightarrow> keeps safe move (erase_rows prin st i r ing rows keys)"
  unfolding erase_rows_def Let_def
  by (intro control keeps_fold_in erases_lift erases_derived erases_memories erases_source erases_finish)

lemma keeps_erase_resolved: "bound_adapter r \<Longrightarrow> keeps safe move (erase_resolved in_flight prin st i r)"
  unfolding erase_resolved_def check_owner_def enumerateAndAuthorize_def
  by (auto intro!: keeps_then keeps_raise_if keeps_bind keeps_reads keeps_if keeps_raise keeps_ret keeps_fold_in
      erases_pending erases_file keeps_erase_rows)

lemma keeps_requestSourceDeletion: "keeps safe move (requestSourceDeletion in_flight prin raw i)"
proof -
  have "keeps safe move (erase_source in_flight prin st i)" for st
    unfolding erase_source_def
  proof (rule keeps_fromI, rule from_bind)
    show "keeps_from safe move (resolveSource st i) w" for w
      unfolding resolveSource_def by (rule keepsD) (auto split: option.splits intro!: control)
  qed (auto intro: keepsD keeps_erase_resolved dest: resolveSource_Inr)
  then show ?thesis
    unfolding requestSourceDeletion_def assertSourceType_def
    by (auto split: option.splits intro!: control keeps_transaction)
qed

end

interpretation erase_mem: erasure_contract memory_safe memory_move
  by unfold_locales (rule keeps_liftContradictions keeps_run_cascade keeps_delete_rows keeps_remove_source
    keeps_finish_request keeps_cancelPending keeps_cascadeFileSubSource; assumption?)+

lemma keeps_execute: "mem_keeps (execute sha sign i)"
proof -
  have "mem_keeps (deleteObject key)" for key
    unfolding deleteObject_def by (rule mem.keeps_external) (simp add: outside_pg_def)
  moreover have "mem_keeps chainTip"
    unfolding chainTip_def by (auto split: list.splits intro!: mem.control)
  moreover have "mem_keeps (confirm_row j p h s n)" for j p h s n
    unfolding confirm_row_def by (rule keeps_elsewhere) simp
  ultimately show ?thesis
    unfolding execute_def Let_def
    by (auto split: option.splits intro!: store_keeps)
qed


subsection \<open>Receipts as chain links\<close>

definition toConfirmedReceipt :: "receipt_row \<Rightarrow> confirmed_receipt" where
  "toConfirmedReceipt r =
     \<lparr>cp_id = r_id r, cp_source_type = source_type_text (r_source_type r), cp_source_id = r_source_id r,
      cp_counts_json = r_counts_json r,
      cp_signed_at = (case r_signed_at r of None \<Rightarrow> [] | Some t \<Rightarrow> iso_string t),
      cp_confirmed_at = (case r_confirmed_at r of None \<Rightarrow> [] | Some t \<Rightarrow> iso_string t),
      cp_prev_hash = or_else (r_prev_hash r) [], cr_hash = or_else (r_hash r) [],
      cr_signature = or_else (r_signature r) []\<rparr>"

definition confirmedReceiptsForOwner :: "user_id \<Rightarrow> pg \<Rightarrow> confirmed_receipt list" where
  "confirmedReceiptsForOwner userId d =
     map toConfirmedReceipt
       (sort_key (\<lambda>r. (or_else (r_confirmed_at r) 0, r_id r))
         (filter (\<lambda>r. json_text (r_counts_json r) ''requested_by'' = Some userId) (confirmed_rows d)))"

end
