(* ===== verification/Deletion_Laws.thy ===== *)
theory Deletion_Laws
  imports Deletion_Saga Reconciliation_Laws
begin

text \<open>
  What the deletion saga promises: the receipt counts read back as they were written, a request
  erases memories of its caller only and is refused without a trace when the source is not the
  caller's, one that succeeds erases everything it lists, and the worker leg removes points and
  objects and extends the receipt chain by one valid link.
\<close>

subsection \<open>Receipt counts read back\<close>

lemma all_strings_map [simp]: "all_strings (map JStr xs) = Some xs"
  by (induction xs) auto

lemma as_strings_jstrs [simp]: "as_strings (Some (jstrs xs)) = Some xs"
  by (simp add: jstrs_def)

lemma as_opt_int_entry:
  "as_opt_int (map_of (opt_entry key v @ rest) key) = (if v = None then as_opt_int (map_of rest key) else Some v)"
  by (cases v) (simp_all add: opt_entry_def)

lemma map_of_opt_entry [simp]: "k \<noteq> key \<Longrightarrow> map_of (opt_entry key v @ rest) k = map_of rest k"
  by (cases v) (simp_all add: opt_entry_def)

lemma parse_counts: "parseReceiptCounts (counts_json c) = Some c"
  by (simp add: parseReceiptCounts_def counts_json_def Let_def as_opt_int_entry del: map_of_append)

text \<open>
  The counts a deletion request stores in its receipt are read back unchanged by the
  schema the worker and the sweep parse them with.
\<close>

theorem counts_roundtrip: "parseReceiptCounts (counts_json c) = Some c"
  by (rule parse_counts)

subsection \<open>A failed request changes no table\<close>

lemma transaction_Inl:
  "transaction m w = (Inl e, w') \<Longrightarrow> e = CommitFailed \<or> w_pg w' = w_pg w"
  by (auto simp: transaction_def split: prod.splits sum.splits fault.splits)

lemma request_Inl:
  assumes "requestSourceDeletion in_flight prin raw i w = (Inl e, w')" and "e \<noteq> CommitFailed"
  shows "w_pg w' = w_pg w"
  using assms
  by (auto simp: requestSourceDeletion_def assertSourceType_def thenA_def raise_if_def
      bindA_def ret_def raise_def split: option.splits if_splits prod.splits sum.splits
      dest: transaction_Inl)

subsection \<open>What the steps before the deletion leave alone\<close>

text \<open>The ids, the receipts and the absence of a file row.\<close>

definition ids_receipts :: "uuid set \<times> receipt_row list \<times> string set \<Rightarrow> world \<Rightarrow> bool" where
  "ids_receipts x w \<longleftrightarrow> memory_ids (w_pg w) = fst x \<and> t_receipt (w_pg w) = fst (snd x) \<and>
     (\<forall>k \<in> snd (snd x). file_row_of k (w_pg w) = None)"

interpretation ids: pg_evolution "ids_receipts x" ids_forward for x
  by unfold_locales (auto simp: ids_receipts_def ids_forward_def outside_pg_def)

abbreviation same_ids :: "uuid set \<times> receipt_row list \<times> string set \<Rightarrow> 'a op \<Rightarrow> bool" where
  "same_ids x m \<equiv> keeps (ids_receipts x) ids_forward m"

lemma same_ids_run:
  assumes "\<And>x. same_ids x m" and "m w = (v, w')"
  shows "memory_ids (w_pg w') = memory_ids (w_pg w) \<and> t_receipt (w_pg w') = t_receipt (w_pg w) \<and>
    (file_row_of k (w_pg w) = None \<longrightarrow> file_row_of k (w_pg w') = None)"
  using keeps_run [OF assms(1) _ assms(2),
      of "(memory_ids (w_pg w), t_receipt (w_pg w), {k. file_row_of k (w_pg w) = None})"]
  by (simp add: ids_receipts_def)

lemma same_ids_frame:
  assumes "\<And>w r w'. m w = (r, w') \<Longrightarrow> w_uuids w' = w_uuids w \<and> w_drawn w \<le> w_drawn w' \<and>
      memory_ids (w_pg w') = memory_ids (w_pg w) \<and> t_receipt (w_pg w') = t_receipt (w_pg w) \<and>
      set (t_file (w_pg w')) \<subseteq> set (t_file (w_pg w))"
  shows "same_ids x m"
proof (rule keeps_fromI)
  fix w
  obtain r w' where run: "m w = (r, w')" by (cases "m w")
  have "file_row_of k (w_pg w) = None \<Longrightarrow> file_row_of k (w_pg w') = None" for k
    using assms [OF run] by (auto simp: file_row_of_def find_None_iff)
  with assms [OF run] run show "keeps_from (ids_receipts x) ids_forward m w"
    by (auto simp: keeps_from_def wp_def ids_receipts_def ids_forward_def)
qed

lemma same_ids_update_memory:
  assumes "\<And>q. m_id (f q) = m_id q"
  shows "same_ids x (update_memory j f)"
proof (rule same_ids_frame)
  fix w r w'
  assume run: "update_memory j f w = (r, w')"
  have "set (map m_id (update_where (\<lambda>q. m_id q = j) f (t_memory (w_pg w)))) = set (map m_id (t_memory (w_pg w)))"
    using map_update_where_key [of m_id f "\<lambda>q. m_id q = j" "t_memory (w_pg w)"] assms by simp
  with run show "w_uuids w' = w_uuids w \<and> w_drawn w \<le> w_drawn w' \<and>
      memory_ids (w_pg w') = memory_ids (w_pg w) \<and> t_receipt (w_pg w') = t_receipt (w_pg w) \<and>
      set (t_file (w_pg w')) \<subseteq> set (t_file (w_pg w))"
    by (clarsimp simp: update_memory_def write_memory_def Let_def memory_ids_def split: if_splits)
qed

lemma same_ids_writeAudit: "same_ids x (writeAudit e)"
  by (rule same_ids_frame) (auto simp: writeAudit_def updates_def memory_ids_def)

lemma same_ids_lift: "same_ids x (liftContradictionsBeforeDeletion ids org)"
proof -
  have "same_ids x (restoreFromContradiction row prior act actor org)" for row prior act actor
    unfolding restoreFromContradiction_def
    by (intro ids.control ids.outside_ops same_ids_update_memory same_ids_writeAudit) simp_all
  then have "same_ids x (lift_one ids org n q)" for n q
    unfolding lift_one_def Let_def select_memory_def
    by (auto split: option.splits prod.splits intro!: ids.control)
  then show ?thesis
    unfolding liftContradictionsBeforeDeletion_def by (intro ids.control)
qed

lemma same_ids_cancelPending: "same_ids x (cancelPending in_flight st i b)"
proof -
  have "same_ids x (consumeIdempotencyKey key)" for key
    by (rule same_ids_frame) (auto simp: consumeIdempotencyKey_def memory_ids_def split: if_splits)
  then show ?thesis unfolding cancelPending_def Let_def by (intro ids.control)
qed

lemma same_ids_cascadeFile: "same_ids x (cascadeFileSubSource in_flight prin acc key)"
proof -
  have "same_ids x (delete_file_row key)"
    by (rule same_ids_frame) (auto simp: delete_file_row_def updates_def memory_ids_def)
  then show ?thesis
    unfolding cascadeFileSubSource_def
    by (auto split: option.splits intro!: ids.control same_ids_cancelPending)
qed


subsection \<open>Derived artifacts are gone\<close>

lemma contains_chars: "contains pat s \<Longrightarrow> set pat \<subseteq> set s"
proof (induction s)
  case (Cons c cs)
  then show ?case by (auto dest: in_set_takeD) (metis in_set_takeD set_ConsD subsetD)
qed simp

lemma redacted_cites_none: "\<not> contains (cite_token i) CHAT_ANSWER_REDACTED"
  by (rule notI, drule contains_chars) (simp add: cite_token_def CHAT_ANSWER_REDACTED_def)

definition cited :: "uuid list \<Rightarrow> pg \<Rightarrow> chat_row list" where
  "cited ids d = filter (cites_any ids) (t_chat d)"

lemma redact_row_cites:
  "cites_any ids (if cites_any batch c then c\<lparr>c_content := CHAT_ANSWER_REDACTED\<rparr> else c) \<longleftrightarrow>
     cites_any ids c \<and> \<not> cites_any batch c"
  by (auto simp: cites_any_def list_ex_iff redacted_cites_none)

lemma filter_update_where:
  "filter P (update_where q f xs) = [] \<longleftrightarrow> (\<forall>x \<in> set xs. \<not> P (if q x then f x else x))"
  by (induction xs) auto

lemma chat_cascade_clears:
  "cited ids (snd (chat_cascade ids d)) = [] \<and>
   (\<forall>js. cited js d = [] \<longrightarrow> cited js (snd (chat_cascade ids d)) = [])"
proof (induction ids d rule: chat_cascade.induct)
  case (1 ids d)
  let ?batch = "take IDS_PER_STATEMENT ids" and ?rest = "drop IDS_PER_STATEMENT ids"
  let ?d = "snd (redact_answers ?batch d)"
  have step: "cited js ?d = [] \<longleftrightarrow> (\<forall>c \<in> set (t_chat d). cites_any js c \<longrightarrow> cites_any ?batch c)" for js
    by (auto simp: cited_def redact_answers_def filter_update_where redact_row_cites)
  show ?case
  proof (cases "ids = []")
    case True
    then show ?thesis by (simp add: chat_cascade.simps cited_def cites_any_def)
  next
    case False
    have run: "snd (chat_cascade ids d) = snd (chat_cascade ?rest ?d)"
      using False by (subst chat_cascade.simps) (auto simp: Let_def split: prod.splits)
    have IH: "cited ?rest (snd (chat_cascade ?rest ?d)) = []"
        "\<And>js. cited js ?d = [] \<Longrightarrow> cited js (snd (chat_cascade ?rest ?d)) = []"
      using 1 [OF False, of "redact_answers ?batch d" "fst (redact_answers ?batch d)" ?d] by simp_all
    have split: "cites_any ids c \<longleftrightarrow> cites_any ?batch c \<or> cites_any ?rest c" for c
      using list_ex_append [of "\<lambda>i. contains (cite_token i) (c_content c)" ?batch ?rest]
      by (auto simp: cites_any_def)
    have "cited ?batch (snd (chat_cascade ?rest ?d)) = []" using IH(2) step by blast
    with IH(1) have "cited ids (snd (chat_cascade ids d)) = []"
      by (auto simp: run cited_def filter_empty_conv split)
    moreover have "cited js d = [] \<Longrightarrow> cited js (snd (chat_cascade ids d)) = []" for js
      using IH(2) [of js] step [of js] by (auto simp: run cited_def filter_empty_conv)
    ultimately show ?thesis by blast
  qed
qed

definition derived_tasks :: "uuid list \<Rightarrow> pg \<Rightarrow> task_row list" where
  "derived_tasks ids d = filter (\<lambda>t. tk_derived_from t \<in> set ids) (t_task d)"

lemma chat_cascade_frame:
  "t_task (snd (chat_cascade ids d)) = t_task d \<and> t_receipt (snd (chat_cascade ids d)) = t_receipt d \<and>
   t_source (snd (chat_cascade ids d)) = t_source d \<and> t_file (snd (chat_cascade ids d)) = t_file d"
proof (induction ids d rule: chat_cascade.induct)
  case (1 ids d)
  then show ?case
    by (subst (1 2 3 4) chat_cascade.simps) (auto simp: redact_answers_def Let_def split: prod.splits)
qed

lemma cascades_Inr:
  assumes "fold_each (run_cascade st i ids) DERIVED_CASCADES t0 w = (Inr t, w')"
  shows "cited ids (w_pg w') = [] \<and> derived_tasks ids (w_pg w') = [] \<and>
    t_memory (w_pg w') = t_memory (w_pg w) \<and> t_receipt (w_pg w') = t_receipt (w_pg w) \<and>
    t_file (w_pg w') = t_file (w_pg w)"
proof -
  let ?d0 = "w_pg w"
  let ?d1 = "snd (tasks_cascade ids ?d0)"
  let ?d2 = "snd (chat_cascade ids ?d1)"
  let ?d3 = "snd (reply_draft_cascade (source_type_text st) i ?d2)"
  have w': "w_pg w' = ?d3"
    using assms
    by (auto simp: DERIVED_CASCADES_def run_cascade_def TasksCascade_def ChatAnswerCascade_def
        ReplyDraftCascade_def bindA_def ret_def Let_def split_def)
  have chat3: "t_chat ?d3 = t_chat ?d2" and task3: "t_task ?d3 = t_task ?d2"
    and mem3: "t_memory ?d3 = t_memory ?d2" and rec3: "t_receipt ?d3 = t_receipt ?d2" and file3: "t_file ?d3 = t_file ?d2"
    by (simp_all add: reply_draft_cascade_def)
  have "cited ids ?d3 = []" using chat_cascade_clears [of ids ?d1] by (simp add: cited_def chat3)
  moreover have "derived_tasks ids ?d1 = []"
    by (auto simp: derived_tasks_def tasks_cascade_def Let_def filter_empty_conv split: option.splits)
  then have "derived_tasks ids ?d3 = []"
    using chat_cascade_frame [of ids ?d1] by (simp add: derived_tasks_def task3)
  moreover have "t_memory ?d1 = t_memory ?d0 \<and> t_receipt ?d1 = t_receipt ?d0 \<and> t_file ?d1 = t_file ?d0"
    by (simp add: tasks_cascade_def Let_def)
  then have "t_memory ?d3 = t_memory ?d0 \<and> t_receipt ?d3 = t_receipt ?d0 \<and> t_file ?d3 = t_file ?d0"
    using chat_cascade_elsewhere [of ids ?d1] chat_cascade_frame [of ids ?d1] by (simp add: mem3 rec3 file3)
  ultimately show ?thesis using w' by simp
qed

lemma write_memory_Inr:
  "write_memory f w = (Inr u, w') \<Longrightarrow>
     w' = update_pg (\<lambda>d. d\<lparr>t_memory := f (t_memory (w_pg w))\<rparr>) w"
  by (auto simp: write_memory_def Let_def split: if_splits)

lemma null_pointers_Inr:
  assumes "null_pointers ids w = (Inr n, w')"
  shows "\<exists>rows. set (map m_id rows) = set (map m_id (t_memory (w_pg w))) \<and>
    w' = update_pg (\<lambda>d. d\<lparr>t_memory := rows\<rparr>) w"
proof -
  let ?f = "\<lambda>r. r\<lparr>m_superseded_by := None, m_updated_at := w_clock w\<rparr>"
  have key: "map m_id (update_where p ?f rows) = map m_id rows" for p rows
    by (rule map_update_where_key) simp
  from assms obtain p u where "write_memory (update_where p ?f) w = (Inr u, w')"
    by (auto simp: null_pointers_def Let_def ret_def elim!: thenA_InrE)
  from write_memory_Inr [OF this] show ?thesis
    using key [of p "t_memory (w_pg w)"]
    by (intro exI [of _ "update_where p ?f (t_memory (w_pg w))"]) (simp del: set_map)
qed

lemma delete_memories_Inr:
  assumes "delete_memories ids w = (Inr u, w')"
  shows "w' = update_pg (cascade_relations ids)
    (update_pg (\<lambda>d. d\<lparr>t_memory := delete_where (\<lambda>r. m_id r \<in> set ids) (t_memory (w_pg w))\<rparr>) w)"
  using assms by (auto simp: delete_memories_def updates_def elim!: thenA_InrE dest!: write_memory_Inr)

lemma delete_rows_Inr:
  assumes "delete_rows ids w = (Inr n, w')"
  shows "memory_ids (w_pg w') = memory_ids (w_pg w) - set ids \<and> derived_tasks ids (w_pg w') = [] \<and>
    t_chat (w_pg w') = t_chat (w_pg w) \<and> t_receipt (w_pg w') = t_receipt (w_pg w) \<and>
    t_file (w_pg w') = t_file (w_pg w)"
proof (cases "ids = []")
  case False
  with assms obtain w1 u where w1: "null_pointers ids w = (Inr n, w1)" "delete_memories ids w1 = (Inr u, w')"
    by (auto simp: delete_rows_def ret_def elim!: bindA_InrE thenA_InrE)
  from null_pointers_Inr [OF w1(1)] obtain rows where
    rows: "set (map m_id rows) = set (map m_id (t_memory (w_pg w)))" "w1 = update_pg (\<lambda>d. d\<lparr>t_memory := rows\<rparr>) w"
    by blast
  have "m_id ` set (delete_where (\<lambda>r. m_id r \<in> set ids) rows) = set (map m_id rows) - set ids" by auto
  then show ?thesis
    using delete_memories_Inr [OF w1(2)] rows
    by (simp add: memory_ids_def derived_tasks_def forget_in_task_def filter_map o_def delete_where_def)
qed (use assms in \<open>simp add: delete_rows_def ret_def derived_tasks_def\<close>)


lemma bound_delete:
  assumes "a \<in> set SOURCE_DELETIONS"
  shows "set (t_chat (port_delete a i d)) \<subseteq> set (t_chat d) \<and> t_task (port_delete a i d) = t_task d \<and>
    t_memory (port_delete a i d) = t_memory d \<and> t_receipt (port_delete a i d) = t_receipt d \<and>
    port_owner_of a i (port_delete a i d) = None"
proof -
  have "set (t_chat (port_delete a i d)) \<subseteq> set (t_chat d) \<and> t_task (port_delete a i d) = t_task d"
    using assms by (auto simp: SOURCE_DELETIONS_def NotesSourceDeletion_def ChatSourceDeletion_def
        EmailSourceDeletion_def TaskConclusionSourceDeletion_def WebSourceDeletion_def
        row_delete_def chat_delete_def)
  with source_port.owner_deleted [OF adapters_are_ports [OF assms]] port_delete_elsewhere [OF assms]
  show ?thesis by (simp add: same_elsewhere_def)
qed

definition source_gone :: "source_type \<Rightarrow> string \<Rightarrow> pg \<Rightarrow> bool" where
  "source_gone st i d \<longleftrightarrow>
     (if st = File then file_row_of i d = None
      else (case adapter_for st of None \<Rightarrow> False | Some a \<Rightarrow> port_owner_of a i d = None))"

lemma remove_source_Inr:
  assumes r: "resolveSource st i v = (Inr r, v')" and run: "remove_source st i r keys w = (Inr ks, w')"
    and nofile: "st = File \<Longrightarrow> rs_file r = None \<Longrightarrow> file_row_of i (w_pg w) = None"
  shows "t_memory (w_pg w') = t_memory (w_pg w) \<and> t_task (w_pg w') = t_task (w_pg w) \<and>
    t_receipt (w_pg w') = t_receipt (w_pg w) \<and> set (t_chat (w_pg w')) \<subseteq> set (t_chat (w_pg w)) \<and>
    source_gone st i (w_pg w') \<and> set keys \<subseteq> set ks"
proof (cases "st = File")
  case True
  with resolveSource_Inr [OF r] have "rs_adapter r = None" by simp
  with True run nofile show ?thesis
    by (cases "rs_file r")
      (auto simp: remove_source_def Let_def act_defs delete_file_row_def source_gone_def
        file_row_of_def find_delete_where)
next
  case False
  with resolveSource_Inr [OF r] obtain a where a: "rs_adapter r = Some a" "adapter_for st = Some a"
    by auto
  then have "a \<in> set SOURCE_DELETIONS" by (blast dest: adapter_for_SomeD)
  from bound_delete [OF this, of i "w_pg w"] run False a show ?thesis
    by (auto simp: remove_source_def Let_def act_defs source_gone_def)
qed

lemma finish_request_Inr:
  assumes "finish_request prin st i counts n ing w = (Inr rid, w')"
  shows "t_memory (w_pg w') = t_memory (w_pg w) \<and> t_task (w_pg w') = t_task (w_pg w) \<and>
    t_chat (w_pg w') = t_chat (w_pg w) \<and> source_gone st i (w_pg w') = source_gone st i (w_pg w) \<and>
    t_receipt (w_pg w') = t_receipt (w_pg w) @ [receipt_pending rid st i counts] \<and>
    rid \<notin> r_id ` set (t_receipt (w_pg w)) \<and>
    \<lparr>j_type = DELETION_JOB_TYPE, j_payload = \<lparr>j_source_type = DELETION_JOB_SOURCE_TYPE, j_source_id = rid\<rparr>,
      j_max_attempts = 10\<rparr> \<in> set (t_jobs (w_pg w'))"
proof -
  have frame: "source_gone st i d' = source_gone st i d"
    if "t_file d' = t_file d" "t_source d' = t_source d" "t_chat d' = t_chat d" for d d'
  proof -
    have "port_owner_of a i d' = port_owner_of a i d" if "adapter_for st = Some a" for a
      using that \<open>t_source d' = t_source d\<close> \<open>t_chat d' = t_chat d\<close>
        source_port.owner_frame [OF adapters_are_ports] adapter_for_SomeD by blast
    with that show ?thesis by (auto simp: source_gone_def file_row_of_def split: option.splits)
  qed
  have "source_gone st i (w_pg w') = source_gone st i (w_pg w)"
    by (rule frame)
      (use assms in \<open>auto simp: finish_request_def insert_receipt_def draw_uuid_def act_defs
        withTransactionalEnqueue_def writeAudit_def split: if_splits\<close>)
  with assms show ?thesis
    by (auto simp: finish_request_def insert_receipt_def draw_uuid_def act_defs
        withTransactionalEnqueue_def writeAudit_def split: if_splits)
qed


subsection \<open>Erasure\<close>

lemma fold_cascadeFile_rows:
  assumes "fold_each (cascadeFileSubSource in_flight prin) keys acc w = (Inr out, w')"
  shows "set (fst acc) \<subseteq> set (fst out) \<and> set (snd acc) \<subseteq> set (snd out)"
  using assms
proof (induction keys arbitrary: acc w)
  case (Cons key keys)
  then obtain acc' v where step: "cascadeFileSubSource in_flight prin acc key w = (Inr acc', v)"
      and rest: "fold_each (cascadeFileSubSource in_flight prin) keys acc' v = (Inr out, w')"
    by (auto elim!: bindA_InrE)
  from step have "set (fst acc) \<subseteq> set (fst acc') \<and> set (snd acc) \<subseteq> set (snd acc')"
    by (auto simp: cascadeFileSubSource_def ret_def raise_def elim!: thenA_InrE bindA_InrE
        split: if_splits option.splits)
  with Cons.IH [OF rest] show ?case by blast
qed (simp add: ret_def)

lemma erase_rows_Inr:
  assumes run: "erase_rows prin st i r ing rows keys w = (Inr rid, w')"
    and r: "resolveSource st i v = (Inr r, v')"
    and nofile: "st = File \<Longrightarrow> rs_file r = None \<Longrightarrow> file_row_of i (w_pg w) = None"
  shows "\<exists>counts. rc_memory_ids counts = map m_id rows \<and> rc_point_ids counts = map m_id rows \<and>
    set keys \<subseteq> set (rc_object_keys counts) \<and> rc_requested_by counts = p_user_id prin \<and>
    t_receipt (w_pg w') = t_receipt (w_pg w) @ [receipt_pending rid st i counts] \<and>
    memory_ids (w_pg w') = memory_ids (w_pg w) - set (map m_id rows) \<and>
    cited (map m_id rows) (w_pg w') = [] \<and> derived_tasks (map m_id rows) (w_pg w') = [] \<and>
    source_gone st i (w_pg w') \<and>
    rid \<notin> r_id ` set (t_receipt (w_pg w)) \<and>
    \<lparr>j_type = DELETION_JOB_TYPE, j_payload = \<lparr>j_source_type = DELETION_JOB_SOURCE_TYPE, j_source_id = rid\<rparr>,
      j_max_attempts = 10\<rparr> \<in> set (t_jobs (w_pg w'))"
proof -
  let ?ids = "map m_id rows"
  from run obtain n w1 t w2 nulled w3 ks w4 where
      lift: "liftContradictionsBeforeDeletion ?ids (Some (p_org_id prin)) w = (Inr n, w1)"
      and casc: "fold_each (run_cascade st i ?ids) DERIVED_CASCADES \<lparr>dt_tasks = 0, dt_chat = 0, dt_drafts = 0\<rparr> w1 = (Inr t, w2)"
      and del: "delete_rows ?ids w2 = (Inr nulled, w3)"
      and src: "remove_source st i r keys w3 = (Inr ks, w4)"
      and fin: "finish_request prin st i (request_counts prin st i ?ids t ks nulled (w_clock w4)) n ing w4 = (Inr rid, w')"
    unfolding erase_rows_def Let_def by (auto elim!: bindA_InrE simp: reads_def)
  note l = same_ids_run [OF same_ids_lift lift, of i] and c = cascades_Inr [OF casc]
    and d = delete_rows_Inr [OF del] and f = finish_request_Inr [OF fin]
  have "file_row_of i (w_pg w3) = None" if "st = File" "rs_file r = None"
    using nofile [OF that] l c d by (simp add: file_row_of_def)
  note s = remove_source_Inr [OF r src this]
  have "cited ?ids (w_pg w') = []" "derived_tasks ?ids (w_pg w') = []"
    using c d s f by (auto simp: cited_def derived_tasks_def filter_empty_conv)
  moreover have "memory_ids (w_pg w') = memory_ids (w_pg w) - set ?ids"
    using l c d s f by (simp add: memory_ids_def)
  ultimately show ?thesis
    using l c d s f
    by (intro exI [of _ "request_counts prin st i ?ids t ks nulled (w_clock w4)"])
      (simp add: request_counts_def)
qed

lemma cancelPending_memory: "cancelPending in_flight st i b w = (v, w') \<Longrightarrow> t_memory (w_pg w') = t_memory (w_pg w)"
  by (auto simp: cancelPending_def Let_def consumeIdempotencyKey_def act_defs split: if_splits)

lemma enumerate_Inr:
  "enumerateAndAuthorize prin st i owner w = (Inr rows, w') \<Longrightarrow> w' = w \<and> rows = derived_rows st i (w_pg w)"
  by (auto simp: enumerateAndAuthorize_def ret_def raise_def split: if_splits)

lemma source_type_of_text_Some: "source_type_of_text ts raw = Some st \<Longrightarrow> source_type_text st = raw"
  by (induction ts) (auto split: if_splits)

lemma derived_rows_gone:
  assumes move: "memory_move w w'" and erased: "memory_ids (w_pg w') \<inter> m_id ` set (derived_rows st i (w_pg w)) = {}"
    and old: "memory_ids (w_pg w') \<subseteq> memory_ids (w_pg w)"
  shows "derived_rows st i (w_pg w') = []"
proof -
  have False if r': "r' \<in> set (t_memory (w_pg w'))" "m_source_type r' = st" "m_source_id r' = i" for r'
  proof -
    from r' old obtain r where r: "r \<in> set (t_memory (w_pg w))" "m_id r = m_id r'"
      by (force simp: memory_ids_def)
    with move r'(1) have "same_fact r r'" by (auto simp: memory_move_def rows_move_def row_move_def)
    with r' r have "r \<in> set (derived_rows st i (w_pg w))" by (auto simp: derived_rows_def same_fact_def)
    with erased r r'(1) show False by (auto simp: memory_ids_def)
  qed
  then show ?thesis by (auto simp: derived_rows_def filter_empty_conv)
qed

lemma request_erases:
  assumes safe: "memory_safe w" and run: "requestSourceDeletion in_flight prin raw i w = (Inr rid, w')"
  shows "\<exists>st counts. source_type_text st = raw \<and> rc_point_ids counts = rc_memory_ids counts \<and>
    rc_requested_by counts = p_user_id prin \<and>
    m_id ` set (derived_rows st i (w_pg w)) \<subseteq> set (rc_memory_ids counts) \<and>
    memory_ids (w_pg w') = memory_ids (w_pg w) - set (rc_memory_ids counts) \<and>
    derived_rows st i (w_pg w') = [] \<and> cited (rc_memory_ids counts) (w_pg w') = [] \<and>
    derived_tasks (rc_memory_ids counts) (w_pg w') = [] \<and> source_gone st i (w_pg w') \<and>
    t_receipt (w_pg w') = t_receipt (w_pg w) @ [receipt_pending rid st i counts] \<and>
    rid \<notin> r_id ` set (t_receipt (w_pg w)) \<and>
    \<lparr>j_type = DELETION_JOB_TYPE, j_payload = \<lparr>j_source_type = DELETION_JOB_SOURCE_TYPE, j_source_id = rid\<rparr>,
      j_max_attempts = 10\<rparr> \<in> set (t_jobs (w_pg w'))"
proof -
  from run obtain st w1 where st: "source_type_of_text SOURCE_TYPES raw = Some st"
      and er: "erase_source in_flight prin st i w = (Inr rid, w1)" and pg: "w_pg w' = w_pg w1"
    unfolding requestSourceDeletion_def assertSourceType_def
    by (auto simp: ret_def raise_def raise_if_def elim!: bindA_InrE thenA_InrE
        split: option.splits if_splits dest!: transaction_Inr)
  from er obtain r w0 where r0: "resolveSource st i w = (Inr r, w0)" and er0: "erase_resolved in_flight prin st i r w0 = (Inr rid, w1)"
    unfolding erase_source_def by (rule bindA_InrE)
  from resolveSource_Inr [OF r0] r0 er0 have r: "resolveSource st i w = (Inr r, w)"
    and er: "erase_resolved in_flight prin st i r w = (Inr rid, w1)" by simp_all
  let ?cas = "\<lambda>v. cascade_of r i (w_pg v)"
  from er obtain ing v1 rows keys v2 where
      c: "cancelPending in_flight st i (st = File \<and> rs_file r = None) w = (Inr ing, v1)"
      and fold: "fold_each (cascadeFileSubSource in_flight prin) (sc_file_keys (?cas v1))
        (derived_rows st i (w_pg v1), sc_object_keys (?cas v1)) v1 = (Inr (rows, keys), v2)"
      and rows: "erase_rows prin st i r ing rows keys v2 = (Inr rid, w1)"
    unfolding erase_resolved_def check_owner_def
    by (auto simp: raise_if_def ret_def raise_def reads_def elim!: thenA_InrE bindA_InrE
        dest!: enumerate_Inr split: if_splits)
  have ids: "memory_ids (w_pg v2) = memory_ids (w_pg w)" "t_receipt (w_pg v2) = t_receipt (w_pg w)"
    and nofile: "file_row_of i (w_pg w) = None \<Longrightarrow> file_row_of i (w_pg v2) = None"
    using same_ids_run [OF same_ids_cancelPending c, of i]
      same_ids_run [OF ids.keeps_fold_each [OF same_ids_cascadeFile] fold, of i] by simp_all
  have "file_row_of i (w_pg v2) = None" if "st = File" "rs_file r = None"
    using resolveSource_Inr [OF r] that nofile by simp
  from erase_rows_Inr [OF rows r this] obtain counts where counts:
    "rc_memory_ids counts = map m_id rows" "rc_point_ids counts = map m_id rows"
    "rc_requested_by counts = p_user_id prin"
    "t_receipt (w_pg w1) = t_receipt (w_pg v2) @ [receipt_pending rid st i counts]"
    "memory_ids (w_pg w1) = memory_ids (w_pg v2) - set (map m_id rows)"
    "cited (map m_id rows) (w_pg w1) = []" "derived_tasks (map m_id rows) (w_pg w1) = []"
    "source_gone st i (w_pg w1)" "rid \<notin> r_id ` set (t_receipt (w_pg v2))"
    "\<lparr>j_type = DELETION_JOB_TYPE, j_payload = \<lparr>j_source_type = DELETION_JOB_SOURCE_TYPE, j_source_id = rid\<rparr>,
      j_max_attempts = 10\<rparr> \<in> set (t_jobs (w_pg w1))" by blast
  have "derived_rows st i (w_pg v1) = derived_rows st i (w_pg w)"
    using cancelPending_memory [OF c] by (simp add: derived_rows_def)
  then have sub: "m_id ` set (derived_rows st i (w_pg w)) \<subseteq> set (map m_id rows)"
    using fold_cascadeFile_rows [OF fold] by auto
  have "memory_move w w'" using keeps_run [OF erase_mem.keeps_requestSourceDeletion safe run] by simp
  then have "derived_rows st i (w_pg w') = []"
    by (rule derived_rows_gone) (use counts(5) ids sub pg in auto)
  with source_type_of_text_Some [OF st] counts ids sub pg show ?thesis
    by (intro exI [of _ st] exI [of _ counts]) (simp only: pg simp_thms)
qed


subsection \<open>The worker leg extends the chain\<close>

text \<open>
  The receipt table of an instance: ids are unique, a confirmed row carries its hash and its
  previous hash, and the confirmed rows verify.
\<close>

definition chain_ok :: "(string \<Rightarrow> string) \<Rightarrow> (string \<Rightarrow> string \<Rightarrow> bool) \<Rightarrow> receipt_row list \<Rightarrow> bool" where
  "chain_ok sha sig_ok rows \<longleftrightarrow>
     distinct (map r_id rows) \<and>
     list_all (\<lambda>r. r_status r = Confirmed \<longrightarrow> r_hash r \<noteq> None \<and> r_prev_hash r \<noteq> None) rows \<and>
     cv_ok (verifyChain sha sig_ok (map toConfirmedReceipt (filter (\<lambda>r. r_status r = Confirmed) rows)))"

lemma links_last_no_next:
  assumes cf: "collision_free sha (set ps)" and lk: "links sha sig_ok ps GENESIS_HASH"
    and ne: "ps \<noteq> []" and q: "q \<in> set ps"
  shows "cp_prev_hash q \<noteq> cr_hash (last ps)"
proof
  assume eq: "cp_prev_hash q = cr_hash (last ps)"
  from q obtain j where j: "j < length ps" "ps ! j = q" by (auto simp: in_set_conv_nth)
  let ?n = "length ps - 1"
  have n: "?n < length ps" "last ps = ps ! ?n" using ne by (simp_all add: last_conv_nth)
  have hash: "cr_hash (ps ! k) = sha (payload_text (ps ! k))" if "k < length ps" for k
    using links_nth(1) [OF lk that] .
  show False
  proof (cases j)
    case 0
    then have "sha (payload_text (last ps)) = GENESIS_HASH"
      using links_nth(2) [OF lk j(1)] j eq hash [OF n(1)] n(2) by simp
    then show False using cf ne unfolding collision_free_def by (metis image_eqI last_in_set)
  next
    case (Suc k)
    then have k: "k < length ps" "k \<noteq> ?n" using j(1) by simp_all
    have "sha (payload_text (ps ! k)) = sha (payload_text (ps ! ?n))"
      using links_nth(2) [OF lk j(1)] Suc j(2) eq hash [OF k(1)] hash [OF n(1)] n(2) by simp
    then have "payload_text (ps ! k) = payload_text (ps ! ?n)"
      using cf k(1) n(1) unfolding collision_free_def by (meson image_eqI inj_onD nth_mem)
    then have "cp_prev_hash (ps ! k) = cp_prev_hash (ps ! ?n)" by (rule payload_text_prev)
    with links_prevs_distinct [OF cf lk] k n(1) show False
      by (simp add: distinct_conv_nth)
  qed
qed

lemma links_has_next:
  assumes lk: "links sha sig_ok ps p" and q: "q \<in> set ps" and "q \<noteq> last ps"
  shows "\<exists>q' \<in> set ps. cp_prev_hash q' = cr_hash q"
proof -
  from q obtain j where j: "j < length ps" "ps ! j = q" by (auto simp: in_set_conv_nth)
  have "last ps = ps ! (length ps - 1)" using j(1) by (intro last_conv_nth) auto
  with assms(3) j have "j \<noteq> length ps - 1" by metis
  with j(1) have "Suc j < length ps" by linarith
  with links_nth(2) [OF lk this] j(2) show ?thesis by (metis diff_Suc_1 nat.simps(3) nth_mem)
qed

lemma filter_single:
  "distinct xs \<Longrightarrow> x \<in> set xs \<Longrightarrow> (\<And>y. y \<in> set xs \<Longrightarrow> P y \<longleftrightarrow> y = x) \<Longrightarrow> filter P xs = [x]"
proof (induction xs)
  case (Cons y ys)
  show ?case
  proof (cases "y = x")
    case True
    with Cons.prems have "filter P ys = []" by (auto simp: filter_empty_conv)
    with True Cons.prems(3) [of y] show ?thesis by simp
  next
    case False
    with Cons show ?thesis by simp
  qed
qed simp

lemma toConfirmedReceipt_simps [simp]:
  "cp_prev_hash (toConfirmedReceipt r) = or_else (r_prev_hash r) []"
  "cr_hash (toConfirmedReceipt r) = or_else (r_hash r) []"
  "cp_id (toConfirmedReceipt r) = r_id r"
  by (simp_all add: toConfirmedReceipt_def)

lemma chain_tips_end:
  assumes cf: "collision_free sha (toConfirmedReceipt ` set (confirmed_rows d))"
    and lk: "links sha sig_ok ps GENESIS_HASH"
    and ps: "set ps = toConfirmedReceipt ` set (confirmed_rows d)"
    and ids: "distinct (map r_id (t_receipt d))"
    and full: "\<And>r. r \<in> set (confirmed_rows d) \<Longrightarrow> r_hash r \<noteq> None \<and> r_prev_hash r \<noteq> None"
  shows "chain_tips d = (if ps = [] then [] else [Some (end_hash ps GENESIS_HASH)])"
proof (cases "ps = []")
  case True
  with ps have "confirmed_rows d = []" by simp
  with True show ?thesis by (simp add: chain_tips_def)
next
  case False
  let ?rows = "confirmed_rows d"
  have dist: "distinct ?rows" and inj: "inj_on toConfirmedReceipt (set ?rows)"
  proof -
    have key: "distinct (map r_id ?rows)" using ids by (simp add: confirmed_rows_def distinct_map_filter)
    then show "distinct ?rows" by (simp add: distinct_map)
    show "inj_on toConfirmedReceipt (set ?rows)"
      using key by (intro inj_onI) (metis distinct_key_eq toConfirmedReceipt_simps(3))
  qed
  obtain x where x: "x \<in> set ?rows" "toConfirmedReceipt x = last ps"
    using False ps by (metis image_iff last_in_set)
  have tip: "\<not> list_ex (\<lambda>r2. r_prev_hash r2 = r_hash r \<and> r_hash r \<noteq> None) ?rows \<longleftrightarrow> r = x"
    if r: "r \<in> set ?rows" for r
  proof -
    have next_iff: "r_prev_hash q = r_hash r \<longleftrightarrow> cp_prev_hash (toConfirmedReceipt q) = cr_hash (toConfirmedReceipt r)"
      if "q \<in> set ?rows" for q
      using full [OF that] full [OF r] by (auto simp: or_else_def)
    have "(\<exists>q \<in> set ?rows. r_prev_hash q = r_hash r) \<longleftrightarrow> (\<exists>q \<in> set ps. cp_prev_hash q = cr_hash (toConfirmedReceipt r))"
      using next_iff by (auto simp: ps)
    also have "\<dots> \<longleftrightarrow> toConfirmedReceipt r \<noteq> last ps"
      using links_last_no_next [OF cf [folded ps] lk False] links_has_next [OF lk, of "toConfirmedReceipt r"] r ps
      by (metis imageI)
    also have "\<dots> \<longleftrightarrow> r \<noteq> x" using inj_onD [OF inj _ r x(1)] x(2) by auto
    finally show ?thesis using full [OF r] by (auto simp: list_ex_iff)
  qed
  have "filter (\<lambda>r. \<not> list_ex (\<lambda>r2. r_prev_hash r2 = r_hash r \<and> r_hash r \<noteq> None) ?rows) ?rows = [x]"
    by (rule filter_single [OF dist x(1) tip])
  moreover have "r_hash x = Some (cr_hash (last ps))"
    using full [OF x(1)] x(2) by (auto simp: or_else_def split: option.splits dest: arg_cong [of _ _ cr_hash])
  ultimately show ?thesis using False by (simp add: chain_tips_def end_hash_def)
qed


lemma deletePoints_Inr:
  "deletePoints ids w = (Inr u, w') \<Longrightarrow> w_pg w' = w_pg w \<and> w_objects w' = w_objects w \<and> w_clock w' = w_clock w \<and>
     set (w_points w') = {p \<in> set (w_points w). pt_id p \<notin> set ids}"
  by (auto simp: deletePoints_def external_def ret_def split: if_splits fault.splits)

lemma deleteObject_Inr:
  "deleteObject key w = (Inr u, w') \<Longrightarrow> w_pg w' = w_pg w \<and> w_points w' = w_points w \<and> w_clock w' = w_clock w \<and>
     set (w_objects w') = {b \<in> set (w_objects w). o_key b \<noteq> key}"
  by (auto simp: deleteObject_def external_def split: fault.splits)

lemma delete_objects_Inr:
  "each deleteObject keys w = (Inr u, w') \<Longrightarrow> w_pg w' = w_pg w \<and> w_points w' = w_points w \<and> w_clock w' = w_clock w \<and>
     set (w_objects w') = {b \<in> set (w_objects w). o_key b \<notin> set keys}"
proof (induction keys arbitrary: w)
  case Nil
  then show ?case by (simp add: each_def ret_def)
next
  case (Cons key keys)
  then obtain v u1 where "deleteObject key w = (Inr u1, v)" "each deleteObject keys v = (Inr u, w')"
    by (auto simp: each_def elim!: bindA_InrE)
  with Cons.IH deleteObject_Inr show ?case by fastforce
qed

lemma chainTip_Inr:
  "chainTip w = (Inr t, w') \<Longrightarrow> w' = w \<and>
     (chain_tips (w_pg w) = [] \<and> t = GENESIS_HASH \<or> (\<exists>h. chain_tips (w_pg w) = [h] \<and> t = or_else h []))"
  by (auto simp: chainTip_def ret_def raise_def split: list.splits)

definition sealed :: "(string \<Rightarrow> string) \<Rightarrow> (string \<Rightarrow> string) \<Rightarrow> string \<Rightarrow> time \<Rightarrow> receipt_row \<Rightarrow> receipt_row" where
  "sealed sha sign prevHash now r =
     (let hash = hashReceiptPayload sha
        \<lparr>cp_id = r_id r, cp_source_type = source_type_text (r_source_type r), cp_source_id = r_source_id r,
         cp_counts_json = r_counts_json r, cp_signed_at = iso_string now, cp_confirmed_at = iso_string now,
         cp_prev_hash = prevHash\<rparr>
      in r\<lparr>r_status := Confirmed, r_prev_hash := Some prevHash, r_hash := Some hash,
           r_signature := Some (sign hash), r_signed_at := Some now, r_confirmed_at := Some now\<rparr>)"

lemma find_id_unique:
  "find (\<lambda>q. r_id q = i) rows = Some r \<Longrightarrow> r \<in> set rows \<and> r_id r = i"
  by (auto dest: find_SomeD)

lemma update_where_seal:
  assumes "distinct (map k rows)" and "r \<in> set rows"
  shows "update_where (\<lambda>q. k q = k r) f rows = update_where (\<lambda>q. k q = k r) (\<lambda>_. f r) rows"
  unfolding update_where_def using assms by (auto dest: distinct_key_eq)

lemma execute_Inr:
  assumes run: "execute sha sign i w = (Inr res, w')" and ids: "distinct (map r_id (t_receipt (w_pg w)))"
  shows "\<exists>r. find (\<lambda>q. r_id q = i) (t_receipt (w_pg w)) = Some r \<and>
    (if r_status r = Confirmed then w' = w \<and> ex_already_confirmed res
     else \<exists>counts prev. parseReceiptCounts (r_counts_json r) = Some counts \<and>
       \<not> ex_already_confirmed res \<and>
       (chain_tips (w_pg w) = [] \<and> prev = GENESIS_HASH \<or> (\<exists>h. chain_tips (w_pg w) = [h] \<and> prev = or_else h [])) \<and>
       set (w_points w') = {p \<in> set (w_points w). pt_id p \<notin> set (rc_point_ids counts)} \<and>
       set (w_objects w') = {b \<in> set (w_objects w). o_key b \<notin> set (rc_object_keys counts)} \<and>
       t_memory (w_pg w') = t_memory (w_pg w) \<and>
       t_receipt (w_pg w') = update_where (\<lambda>q. r_id q = i) (\<lambda>_. sealed sha sign prev (w_clock w) r) (t_receipt (w_pg w)))"
proof (cases "find (\<lambda>q. r_id q = i) (t_receipt (w_pg w))")
  case None
  with run show ?thesis by (simp add: execute_def raise_def)
next
  case (Some r)
  show ?thesis
  proof (cases "r_status r = Confirmed")
    case True
    with run Some show ?thesis by (auto simp: execute_def ret_def)
  next
    case False
    with run Some obtain counts where counts: "parseReceiptCounts (r_counts_json r) = Some counts"
      by (auto simp: execute_def raise_def split: option.splits)
    from run Some False counts obtain w1 w2 w3 prev where steps: "deletePoints (rc_point_ids counts) w = (Inr (), w1)"
        "each deleteObject (rc_object_keys counts) w1 = (Inr (), w2)" "chainTip w2 = (Inr prev, w3)"
      and rest: "\<not> ex_already_confirmed res" "t_memory (w_pg w') = t_memory (w_pg w3)"
        "w_points w' = w_points w3" "w_objects w' = w_objects w3"
        "t_receipt (w_pg w') = update_where (\<lambda>q. r_id q = i) (\<lambda>q. q\<lparr>r_status := Confirmed,
           r_prev_hash := Some prev, r_hash := r_hash (sealed sha sign prev (w_clock w3) r),
           r_signature := r_signature (sealed sha sign prev (w_clock w3) r), r_signed_at := Some (w_clock w3),
           r_confirmed_at := Some (w_clock w3)\<rparr>) (t_receipt (w_pg w3))"
      by (auto simp: execute_def confirm_row_def writeAudit_def updates_def ret_def reads_def Let_def sealed_def
          elim!: thenA_InrE bindA_InrE)
    note p = deletePoints_Inr [OF steps(1)] and q = delete_objects_Inr [OF steps(2)] and c = chainTip_Inr [OF steps(3)]
    have r: "r \<in> set (t_receipt (w_pg w))" "r_id r = i" using find_id_unique [OF Some] by simp_all
    have "t_receipt (w_pg w') = update_where (\<lambda>q. r_id q = i) (\<lambda>_. sealed sha sign prev (w_clock w) r) (t_receipt (w_pg w))"
      using rest(5) update_where_seal [OF ids r(1)] p q c r(2) by (simp add: sealed_def Let_def)
    then show ?thesis using Some False counts rest p q c by auto
  qed
qed


lemma confirmed_of_seal:
  assumes "distinct (map r_id rows)" and "r \<in> set rows" and "r_status r \<noteq> Confirmed"
    and s: "r_id s = r_id r" "r_status s = Confirmed"
  shows "mset (filter (\<lambda>q. r_status q = Confirmed) (update_where (\<lambda>q. r_id q = r_id r) (\<lambda>_. s) rows)) =
    add_mset s (mset (filter (\<lambda>q. r_status q = Confirmed) rows))"
  using assms
proof (induction rows)
  case (Cons x xs)
  show ?case
  proof (cases "x = r")
    case True
    with Cons.prems(1) have "r_id r \<notin> r_id ` set xs" by simp
    then have "update_where (\<lambda>q. r_id q = r_id r) (\<lambda>_. s) xs = xs"
      by (intro update_where_idle) (metis imageI)
    with True Cons.prems show ?thesis by simp
  next
    case False
    with Cons.prems have "r \<in> set xs" "r_id x \<noteq> r_id r" by auto
    with Cons show ?thesis by simp
  qed
qed simp

lemma sealed_receipt:
  "toConfirmedReceipt (sealed sha sign prev now r) =
     (let p = \<lparr>cp_id = r_id r, cp_source_type = source_type_text (r_source_type r), cp_source_id = r_source_id r,
               cp_counts_json = r_counts_json r, cp_signed_at = iso_string now, cp_confirmed_at = iso_string now,
               cp_prev_hash = prev\<rparr>
      in receipt_chain_payload.extend p
           \<lparr>cr_hash = hashReceiptPayload sha p, cr_signature = sign (hashReceiptPayload sha p)\<rparr>)"
  by (simp add: toConfirmedReceipt_def sealed_def Let_def or_else_def receipt_chain_payload.defs)

lemma sealed_links:
  assumes "\<And>h. sig_ok h (sign h)"
  shows "links sha sig_ok [toConfirmedReceipt (sealed sha sign prev now r)] prev"
  using assms
  by (simp add: sealed_receipt Let_def hashReceiptPayload_def payload_text_def receipt_chain_payload.defs)

lemma sealed_simps [simp]:
  "r_id (sealed sha sign prev now r) = r_id r" "r_status (sealed sha sign prev now r) = Confirmed"
  "\<exists>h. r_hash (sealed sha sign prev now r) = Some h" "\<exists>h. r_prev_hash (sealed sha sign prev now r) = Some h"
  by (simp_all add: sealed_def Let_def)

lemma find_sealed:
  "find (\<lambda>q. r_id q = i) rows = Some r \<Longrightarrow> r_id s = i \<Longrightarrow>
     find (\<lambda>q. r_id q = i) (update_where (\<lambda>q. r_id q = i) (\<lambda>_. s) rows) = Some s"
  by (induction rows) (auto split: if_splits)

text \<open>A receipt sealed behind the tip of a chain extends every order the chain verifies in.\<close>

lemma seal_extends:
  assumes ok: "chain_ok sha sig_ok (t_receipt d)" and r: "r \<in> set (t_receipt d)" "r_status r \<noteq> Confirmed"
    and prev: "chain_tips d = [] \<and> prev = GENESIS_HASH \<or> (\<exists>h. chain_tips d = [h] \<and> prev = or_else h [])"
    and d': "t_receipt d' = update_where (\<lambda>q. r_id q = r_id r) (\<lambda>_. sealed sha sign prev now r) (t_receipt d)"
    and cf: "collision_free sha (toConfirmedReceipt ` set (confirmed_rows d'))"
    and sig: "\<And>h. sig_ok h (sign h)"
  shows "chain_ok sha sig_ok (t_receipt d') \<and>
    mset (confirmed_rows d') = add_mset (sealed sha sign prev now r) (mset (confirmed_rows d)) \<and>
    (\<exists>ps. mset ps = mset (map toConfirmedReceipt (confirmed_rows d)) \<and>
       links sha sig_ok (ps @ [toConfirmedReceipt (sealed sha sign prev now r)]) GENESIS_HASH)"
proof -
  let ?s = "sealed sha sign prev now r"
  have ids: "distinct (map r_id (t_receipt d))"
    and full: "\<And>r. r \<in> set (t_receipt d) \<Longrightarrow> r_status r = Confirmed \<Longrightarrow> r_hash r \<noteq> None \<and> r_prev_hash r \<noteq> None"
    using ok by (auto simp: chain_ok_def list_all_iff)
  have conf: "mset (confirmed_rows d') = add_mset ?s (mset (confirmed_rows d))"
    using confirmed_of_seal [OF ids r, of ?s] by (simp add: confirmed_rows_def d')
  then have set': "set (confirmed_rows d') = insert ?s (set (confirmed_rows d))"
    by (metis set_mset_add_mset_insert set_mset_mset)
  have cf0: "collision_free sha (toConfirmedReceipt ` set (confirmed_rows d))"
    by (rule collision_free_subset [OF cf]) (auto simp: set')
  from ok have "cv_ok (verifyChain sha sig_ok (map toConfirmedReceipt (confirmed_rows d)))"
    by (simp add: chain_ok_def confirmed_rows_def)
  then obtain ps where ps: "mset ps = mset (map toConfirmedReceipt (confirmed_rows d))"
      "links sha sig_ok ps GENESIS_HASH"
    using verifyChain_links [of sha "map toConfirmedReceipt (confirmed_rows d)" sig_ok] cf0 by auto
  have set_ps: "set ps = toConfirmedReceipt ` set (confirmed_rows d)"
    using ps(1) by (metis list.set_map set_mset_mset)
  have "chain_tips d = (if ps = [] then [] else [Some (end_hash ps GENESIS_HASH)])"
    by (rule chain_tips_end [OF cf0 ps(2) set_ps ids]) (use full in \<open>auto simp: confirmed_rows_def\<close>)
  with prev have "prev = end_hash ps GENESIS_HASH"
    by (auto simp: end_hash_def or_else_def split: if_splits)
  with ps(2) sealed_links [where sig_ok = sig_ok and sign = sign, OF sig]
  have lk: "links sha sig_ok (ps @ [toConfirmedReceipt ?s]) GENESIS_HASH" unfolding links_append by blast
  moreover have "mset (ps @ [toConfirmedReceipt ?s]) = mset (map toConfirmedReceipt (confirmed_rows d'))"
    using ps(1) conf by simp
  ultimately have "cv_ok (verifyChain sha sig_ok (map toConfirmedReceipt (confirmed_rows d')))"
    using verifyChain_links [of sha "map toConfirmedReceipt (confirmed_rows d')" sig_ok] cf by auto
  moreover have "map r_id (t_receipt d') = map r_id (t_receipt d)"
    unfolding d' update_where_def by simp
  ultimately have "chain_ok sha sig_ok (t_receipt d')"
    using ids full by (auto simp: chain_ok_def list_all_iff confirmed_rows_def d' in_set_update_where)
  with conf ps(1) lk show ?thesis by blast
qed

text \<open>
  C15. Provided the hash function does not collide on the confirmed receipts and the signature
  made for a hash verifies for it, executing a deletion on a verifiable chain leaves a
  verifiable chain. A first execution confirms the receipt, and the confirmed ones are then
  those before and this one, linked behind all of them in an order that verifies; executing
  again changes nothing and says it was already confirmed.
\<close>

theorem chain_extends:
  assumes ok: "chain_ok sha sig_ok (t_receipt (w_pg w))" and run: "execute sha sign i w = (Inr res, w')"
    and cf: "collision_free sha (toConfirmedReceipt ` set (confirmed_rows (w_pg w')))"
    and sig: "\<And>h. sig_ok h (sign h)"
  shows "chain_ok sha sig_ok (t_receipt (w_pg w')) \<and>
    execute sha sign i w' = (Inr \<lparr>ex_already_confirmed = True, ex_points = 0, ex_objects = 0\<rparr>, w') \<and>
    (\<exists>q. find (\<lambda>q. r_id q = i) (t_receipt (w_pg w')) = Some q \<and> r_status q = Confirmed \<and>
      (if ex_already_confirmed res then w' = w
       else set (confirmed_rows (w_pg w')) = insert q (set (confirmed_rows (w_pg w))) \<and>
         q \<notin> set (confirmed_rows (w_pg w)) \<and>
         (\<exists>ps. mset ps = mset (map toConfirmedReceipt (confirmed_rows (w_pg w))) \<and>
            links sha sig_ok (ps @ [toConfirmedReceipt q]) GENESIS_HASH)))"
proof -
  let ?rows = "t_receipt (w_pg w)"
  have ids: "distinct (map r_id ?rows)" using ok by (simp add: chain_ok_def)
  from execute_Inr [OF run ids] obtain r where r: "find (\<lambda>q. r_id q = i) ?rows = Some r"
    and cases: "if r_status r = Confirmed then w' = w \<and> ex_already_confirmed res
     else \<exists>prev. \<not> ex_already_confirmed res \<and>
       (chain_tips (w_pg w) = [] \<and> prev = GENESIS_HASH \<or> (\<exists>h. chain_tips (w_pg w) = [h] \<and> prev = or_else h [])) \<and>
       t_receipt (w_pg w') = update_where (\<lambda>q. r_id q = i) (\<lambda>_. sealed sha sign prev (w_clock w) r) ?rows"
    by (auto split: if_splits)
  have r_in: "r \<in> set ?rows" "r_id r = i" using find_id_unique [OF r] by simp_all
  have again: "execute sha sign i w' = (Inr \<lparr>ex_already_confirmed = True, ex_points = 0, ex_objects = 0\<rparr>, w')"
    if "find (\<lambda>q. r_id q = i) (t_receipt (w_pg w')) = Some q" "r_status q = Confirmed" for q
    using that by (simp add: execute_def ret_def)
  show ?thesis
  proof (cases "r_status r = Confirmed")
    case True
    with cases ok r again [of r] show ?thesis by simp
  next
    case False
    with cases obtain prev where new: "\<not> ex_already_confirmed res" and
      prev: "chain_tips (w_pg w) = [] \<and> prev = GENESIS_HASH \<or> (\<exists>h. chain_tips (w_pg w) = [h] \<and> prev = or_else h [])"
      and rows': "t_receipt (w_pg w') = update_where (\<lambda>q. r_id q = i) (\<lambda>_. sealed sha sign prev (w_clock w) r) ?rows"
      by auto
    let ?s = "sealed sha sign prev (w_clock w) r"
    have found: "find (\<lambda>q. r_id q = i) (t_receipt (w_pg w')) = Some ?s"
      using r unfolding rows' by (rule find_sealed) (simp add: r_in(2))
    have s: "r_status ?s = Confirmed" by simp
    have "?s \<notin> set (confirmed_rows (w_pg w))"
    proof
      assume "?s \<in> set (confirmed_rows (w_pg w))"
      then have "?s \<in> set ?rows" "r_id ?s = r_id r" by (simp_all add: confirmed_rows_def)
      with ids r_in(1) have "?s = r" by (metis distinct_key_eq)
      with False s show False by simp
    qed
    moreover note seal_extends [OF ok r_in(1) False prev _ cf sig, unfolded r_in(2), OF rows']
    moreover from this have "set (confirmed_rows (w_pg w')) = insert ?s (set (confirmed_rows (w_pg w)))"
      by (metis set_mset_add_mset_insert set_mset_mset)
    ultimately show ?thesis using new found s again [OF found s] by auto
  qed
qed


subsection \<open>A sample erasure\<close>

definition erase_demo :: "world" where
  "erase_demo = snd (requestSourceDeletion (\<lambda>_. False) sample_principal ''user_note'' ''note'' sample_world)"

lemma erase_demo_facts:
  "requestSourceDeletion (\<lambda>_. False) sample_principal ''user_note'' ''note'' sample_world = (Inr (sample_id 5), erase_demo)"
  "w_faults erase_demo = []"
proof -
  let ?m = "requestSourceDeletion (\<lambda>_. False) sample_principal ''user_note'' ''note'' sample_world"
  have "fst ?m = Inr (sample_id 5) \<and> w_faults (snd ?m) = []" by code_simp
  then show "?m = (Inr (sample_id 5), erase_demo)" and "w_faults erase_demo = []"
    using run_pair [of ?m] by (simp_all add: erase_demo_def)
qed

lemma erase_demo_receipts:
  "\<exists>counts. t_receipt (w_pg erase_demo) = [receipt_pending (sample_id 5) UserNote ''note'' counts]"
proof -
  from request_erases [OF sample_safe erase_demo_facts(1)] obtain st counts where
    "source_type_text st = ''user_note''"
    "t_receipt (w_pg erase_demo) = t_receipt (w_pg sample_world) @ [receipt_pending (sample_id 5) st ''note'' counts]"
    by blast
  moreover from this(1) have "st = UserNote" by (cases st) simp_all
  ultimately show ?thesis by (auto simp: sample_world_def sample_pg_def)
qed

lemma erase_demo_tips: "chain_tips (w_pg erase_demo) = []"
  using erase_demo_receipts by (auto simp: chain_tips_def confirmed_rows_def receipt_pending_def)

lemma external_Fine:
  "w_faults w = [] \<Longrightarrow> external e answer effect w = (Inr (answer (pop_fault w)), effect (pop_fault w)) \<and>
     w_faults (pop_fault w) = []"
  by (cases w) (simp add: external_def next_fault_def pop_fault_def)

lemma deletePoints_Fine: "w_faults w = [] \<Longrightarrow> \<exists>w'. deletePoints ids w = (Inr (), w') \<and> w_faults w' = []"
  by (auto simp: deletePoints_def ret_def external_Fine)

lemma delete_objects_Fine: "w_faults w = [] \<Longrightarrow> \<exists>w'. each deleteObject keys w = (Inr (), w') \<and> w_faults w' = []"
proof (induction keys arbitrary: w)
  case (Cons key keys)
  have "\<exists>v. deleteObject key w = (Inr (), v) \<and> w_faults v = []"
    by (simp add: deleteObject_def external_Fine [OF Cons.prems])
  then obtain v where v: "deleteObject key w = (Inr (), v)" "w_faults v = []" by blast
  from Cons.IH [OF v(2)] v(1) show ?case by (auto simp: each_def bindA_def)
qed (simp add: each_def ret_def)

lemma updates_bind: "bindA (updates f) g s = g () (f s)"
  by (simp add: bindA_def updates_def)

lemma execute_succeeds:
  assumes "find (\<lambda>q. r_id q = i) (t_receipt (w_pg w)) = Some r"
    and "parseReceiptCounts (r_counts_json r) = Some counts"
    and "length (chain_tips (w_pg w)) \<le> 1" and faults: "w_faults w = []"
  shows "\<exists>res w'. execute sha sign i w = (Inr res, w')"
proof (cases "r_status r = Confirmed")
  case True
  with assms(1) show ?thesis by (simp add: execute_def ret_def)
next
  case False
  obtain w1 where w1: "deletePoints (rc_point_ids counts) w = (Inr (), w1)" "w_faults w1 = []"
    using deletePoints_Fine [OF faults] by blast
  obtain w2 where w2: "each deleteObject (rc_object_keys counts) w1 = (Inr (), w2)"
    using delete_objects_Fine [OF w1(2)] by blast
  have "w_pg w2 = w_pg w" using deletePoints_Inr [OF w1(1)] delete_objects_Inr [OF w2] by simp
  with assms(3) obtain prev where prev: "chainTip w2 = (Inr prev, w2)"
    by (cases "chain_tips (w_pg w)") (auto simp: chainTip_def ret_def)
  show ?thesis
    by (simp add: execute_def assms(1,2) False thenA_def bindA_Inr [where m = "deletePoints _", OF w1(1)]
        bindA_Inr [where m = "each _ _", OF w2] bindA_Inr [where m = chainTip, OF prev] Let_def confirm_row_def writeAudit_def updates_bind ret_def)
qed

text \<open>
  C13. After a successful deletion request, the worker leg run without faults on a chain with
  at most one tip returns, and then no memory row of the source, no enumerated index point and
  no enumerated object is left and the receipt is confirmed with the counts the request
  enumerated.
\<close>

theorem erasure_complete:
  assumes safe: "memory_safe w" and run: "requestSourceDeletion in_flight prin raw i w = (Inr rid, w1)"
    and tips: "length (chain_tips (w_pg w1)) \<le> 1" and faults: "w_faults w1 = []"
    and keys: "distinct (map r_id (t_receipt (w_pg w)))"
  shows "\<exists>st counts res w2. execute sha sign rid w1 = (Inr res, w2) \<and> source_type_text st = raw \<and>
    m_id ` set (derived_rows st i (w_pg w)) \<subseteq> set (rc_memory_ids counts) \<and>
    memory_ids (w_pg w2) = memory_ids (w_pg w) - set (rc_memory_ids counts) \<and>
    derived_rows st i (w_pg w2) = [] \<and>
    pt_id ` set (w_points w2) \<inter> set (rc_memory_ids counts) = {} \<and>
    o_key ` set (w_objects w2) \<inter> set (rc_object_keys counts) = {} \<and>
    (\<exists>q. find (\<lambda>q. r_id q = rid) (t_receipt (w_pg w2)) = Some q \<and> r_status q = Confirmed \<and>
       r_counts_json q = counts_json counts)"
proof -
  from request_erases [OF safe run] obtain st counts where c:
    "source_type_text st = raw" "rc_point_ids counts = rc_memory_ids counts"
    "m_id ` set (derived_rows st i (w_pg w)) \<subseteq> set (rc_memory_ids counts)"
    "memory_ids (w_pg w1) = memory_ids (w_pg w) - set (rc_memory_ids counts)"
    "derived_rows st i (w_pg w1) = []"
    "t_receipt (w_pg w1) = t_receipt (w_pg w) @ [receipt_pending rid st i counts]"
    "rid \<notin> r_id ` set (t_receipt (w_pg w))" by blast
  let ?p = "receipt_pending rid st i counts"
  have p: "r_id ?p = rid" "r_status ?p = Pending" "r_counts_json ?p = counts_json counts"
    by (simp_all add: receipt_pending_def)
  have ids1: "distinct (map r_id (t_receipt (w_pg w1)))" using keys c(6,7) p(1) by simp
  have found: "find (\<lambda>q. r_id q = rid) (t_receipt (w_pg w1)) = Some ?p"
    using find_key_unique [OF ids1, of ?p] c(6) p(1) by simp
  have parse: "parseReceiptCounts (r_counts_json ?p) = Some counts" by (simp add: p parse_counts)
  from execute_succeeds [OF found parse tips faults] obtain res w2 where
    ex: "execute sha sign rid w1 = (Inr res, w2)" by blast
  from execute_Inr [OF ex ids1] found p parse obtain prev where e:
    "set (w_points w2) = {q \<in> set (w_points w1). pt_id q \<notin> set (rc_point_ids counts)}"
    "set (w_objects w2) = {b \<in> set (w_objects w1). o_key b \<notin> set (rc_object_keys counts)}"
    "t_memory (w_pg w2) = t_memory (w_pg w1)"
    "t_receipt (w_pg w2) = update_where (\<lambda>q. r_id q = rid) (\<lambda>_. sealed sha sign prev (w_clock w1) ?p) (t_receipt (w_pg w1))"
    by auto
  let ?s = "sealed sha sign prev (w_clock w1) ?p"
  have "find (\<lambda>q. r_id q = rid) (t_receipt (w_pg w2)) = Some ?s"
    using found unfolding e(4) by (rule find_sealed) (simp add: p(1))
  moreover have "r_counts_json ?s = counts_json counts" by (simp add: sealed_def Let_def p)
  ultimately show ?thesis
    using ex c e
    by (intro exI [of _ st] exI [of _ counts] exI [of _ res] exI [of _ w2])
      (auto simp: memory_ids_def derived_rows_def)
qed


theorem erasure_complete_witness:
  "derived_rows UserNote ''note'' (w_pg (snd (execute demo_sha (\<lambda>h. h) (sample_id 5) erase_demo))) = []"
proof -
  have "distinct (map r_id (t_receipt (w_pg sample_world)))" by (simp add: sample_world_def sample_pg_def)
  from erasure_complete [OF sample_safe erase_demo_facts(1) _ erase_demo_facts(2) this,
      of demo_sha "\<lambda>h. h"] erase_demo_tips
  obtain st res w2 where "execute demo_sha (\<lambda>h. h) (sample_id 5) erase_demo = (Inr res, w2)"
    "source_type_text st = ''user_note''" "derived_rows st ''note'' (w_pg w2) = []" by auto
  moreover from this(2) have "st = UserNote" by (cases st) simp_all
  ultimately show ?thesis by simp
qed

theorem chain_extends_witness:
  "chain_ok demo_sha (\<lambda>h s. s = h) (t_receipt (w_pg (snd (execute demo_sha (\<lambda>h. h) (sample_id 5) erase_demo))))"
proof -
  obtain counts where rows: "t_receipt (w_pg erase_demo) = [receipt_pending (sample_id 5) UserNote ''note'' counts]"
    using erase_demo_receipts by blast
  let ?p = "receipt_pending (sample_id 5) UserNote ''note'' counts"
  have ok: "chain_ok demo_sha (\<lambda>h s. s = h) (t_receipt (w_pg erase_demo))"
    by (simp add: rows chain_ok_def receipt_pending_def verifyChain_def)
  have "find (\<lambda>q. r_id q = sample_id 5) (t_receipt (w_pg erase_demo)) = Some ?p"
    and "parseReceiptCounts (r_counts_json ?p) = Some counts"
    by (simp_all add: rows receipt_pending_def parse_counts)
  from execute_succeeds [OF this _ erase_demo_facts(2), of demo_sha "\<lambda>h. h"] erase_demo_tips
  obtain res w' where run: "execute demo_sha (\<lambda>h. h) (sample_id 5) erase_demo = (Inr res, w')" by auto
  from chain_extends [OF ok run demo_collision_free] run show ?thesis by simp
qed

subsection \<open>The request transaction\<close>

text \<open>Who owns a source, and when a request for it is refused.\<close>

definition source_owner :: "source_type \<Rightarrow> string \<Rightarrow> pg \<Rightarrow> user_id option" where
  "source_owner st i d =
     (if st = File then map_option f_owner (file_row_of i d)
      else case adapter_for st of None \<Rightarrow> None | Some a \<Rightarrow> port_owner_of a i d)"

definition not_yours :: "principal \<Rightarrow> source_type \<Rightarrow> string \<Rightarrow> pg \<Rightarrow> bool" where
  "not_yours prin st i d \<longleftrightarrow>
     (case source_owner st i d of
        Some u \<Rightarrow> u \<noteq> p_user_id prin
      | None \<Rightarrow> derived_rows st i d = []) \<or>
     (\<exists>r \<in> set (derived_rows st i d). m_owner r \<noteq> p_user_id prin)"

lemma resolveSource_owner:
  assumes "adapter_for st \<noteq> None \<or> st = File"
  obtains r where "resolveSource st i w = (Inr r, w)" "rs_owner r = source_owner st i (w_pg w)"
proof (cases "st = File")
  case True
  then show ?thesis
    by (intro that [of "\<lparr>rs_file = file_row_of i (w_pg w), rs_adapter = None, rs_owner = map_option f_owner (file_row_of i (w_pg w))\<rparr>"])
      (simp_all add: resolveSource_def source_owner_def ret_def)
next
  case False
  with assms obtain a where "adapter_for st = Some a" by blast
  with False show ?thesis
    by (intro that [of "\<lparr>rs_file = None, rs_adapter = Some a, rs_owner = port_owner_of a i (w_pg w)\<rparr>"])
      (simp_all add: resolveSource_def source_owner_def ret_def)
qed

lemma cancelPending_run:
  "\<exists>ing v. cancelPending in_flight st i b w = (Inr ing, v) \<and> t_memory (w_pg v) = t_memory (w_pg w) \<and>
     w_points v = w_points w \<and> w_objects v = w_objects w"
  by (simp add: cancelPending_def Let_def consumeIdempotencyKey_def act_defs)

lemma erase_resolved_refused:
  assumes "rs_owner r = source_owner st i (w_pg w)" and "not_yours prin st i (w_pg w)"
  shows "\<exists>v. erase_resolved in_flight prin st i r w = (Inl (NotFound ''source'' i), v) \<and>
    w_points v = w_points w \<and> w_objects v = w_objects w"
proof (cases "rs_owner r \<noteq> None \<and> rs_owner r \<noteq> Some (p_user_id prin)")
  case True
  then show ?thesis by (simp add: erase_resolved_def check_owner_def raise_if_def thenA_def bindA_def raise_def)
next
  case False
  obtain ing v where c: "cancelPending in_flight st i (st = File \<and> rs_file r = None) w = (Inr ing, v)"
      "t_memory (w_pg v) = t_memory (w_pg w)" "w_points v = w_points w" "w_objects v = w_objects w"
    using cancelPending_run by blast
  have rows: "derived_rows st i (w_pg v) = derived_rows st i (w_pg w)" using c(2) by (simp add: derived_rows_def)
  have "enumerateAndAuthorize prin st i (rs_owner r) v = (Inl (NotFound ''source'' i), v)"
    using assms False
    by (auto simp: enumerateAndAuthorize_def rows not_yours_def raise_def list_ex_iff split: option.splits)
  then have "bindA (enumerateAndAuthorize prin st i (rs_owner r)) f v = (Inl (NotFound ''source'' i), v)" for f :: "memory_row list \<Rightarrow> uuid op"
    by (rule bindA_Inl)
  moreover have "check_owner prin i r = ret ()" using False by (auto simp: check_owner_def raise_if_def)
  ultimately show ?thesis
    using c(3,4) by (simp add: erase_resolved_def thenA_def ret_bind bindA_Inr [where m = "cancelPending _ _ _ _", OF c(1)])
qed

text \<open>The rows a request erases were found under the source, or one of its attachments, as the caller's.\<close>

definition callers_rows :: "principal \<Rightarrow> pg \<Rightarrow> memory_row list \<Rightarrow> bool" where
  "callers_rows prin d rows \<longleftrightarrow> set rows \<subseteq> {r \<in> set (t_memory d). m_owner r = p_user_id prin}"

lemma cascadeFile_rows:
  assumes "cascadeFileSubSource in_flight prin acc key w = (Inr out, w')" and "callers_rows prin (w_pg w) (fst acc)"
  shows "callers_rows prin (w_pg w') (fst out) \<and> t_memory (w_pg w') = t_memory (w_pg w)"
proof -
  from assms(1) obtain ing v where c: "cancelPending in_flight File key False w = (Inr ing, v)"
      and rest: "\<not> list_ex (\<lambda>r. m_owner r \<noteq> p_user_id prin) (derived_rows File key (w_pg v))"
        "fst out = fst acc @ derived_rows File key (w_pg v)" "t_memory (w_pg w') = t_memory (w_pg v)"
    by (auto simp: cascadeFileSubSource_def ret_def raise_def reads_def delete_file_row_def updates_def elim!: thenA_InrE bindA_InrE
        split: if_splits option.splits)
  have "t_memory (w_pg v) = t_memory (w_pg w)" by (rule cancelPending_memory [OF c])
  with assms(2) rest show ?thesis by (auto simp: callers_rows_def list_ex_iff derived_rows_def)
qed

lemma fold_cascadeFile_callers:
  assumes "fold_each (cascadeFileSubSource in_flight prin) keys acc w = (Inr out, w')" and "callers_rows prin (w_pg w) (fst acc)"
  shows "callers_rows prin (w_pg w') (fst out) \<and> t_memory (w_pg w') = t_memory (w_pg w)"
  using assms
proof (induction keys arbitrary: acc w)
  case (Cons key keys)
  then obtain acc' v where step: "cascadeFileSubSource in_flight prin acc key w = (Inr acc', v)"
      and rest: "fold_each (cascadeFileSubSource in_flight prin) keys acc' v = (Inr out, w')"
    by (auto elim!: bindA_InrE)
  from cascadeFile_rows [OF step Cons.prems(2)] Cons.IH [OF rest] show ?case by simp
qed (simp add: ret_def)

lemma erase_callers:
  assumes "erase_source in_flight prin st i w = (Inr rid, w')"
  shows "\<exists>ids. memory_ids (w_pg w') = memory_ids (w_pg w) - ids \<and>
    (\<forall>j \<in> ids. \<exists>r \<in> set (t_memory (w_pg w)). m_id r = j \<and> m_owner r = p_user_id prin)"
proof -
  from assms obtain r w0 where r0: "resolveSource st i w = (Inr r, w0)" and er0: "erase_resolved in_flight prin st i r w0 = (Inr rid, w')"
    unfolding erase_source_def by (rule bindA_InrE)
  from resolveSource_Inr [OF r0] r0 er0 have r: "resolveSource st i w = (Inr r, w)"
    and er: "erase_resolved in_flight prin st i r w = (Inr rid, w')" by simp_all
  let ?cas = "\<lambda>v. cascade_of r i (w_pg v)"
  from er obtain ing v1 v1' rows0 rows keys v2 where
      c: "cancelPending in_flight st i (st = File \<and> rs_file r = None) w = (Inr ing, v1)"
      and enum': "enumerateAndAuthorize prin st i (rs_owner r) v1 = (Inr rows0, v1')"
      and fold': "fold_each (cascadeFileSubSource in_flight prin) (sc_file_keys (?cas v1'))
        (rows0, sc_object_keys (?cas v1')) v1' = (Inr (rows, keys), v2)"
      and rows: "erase_rows prin st i r ing rows keys v2 = (Inr rid, w')"
    unfolding erase_resolved_def check_owner_def
    by (auto simp: raise_if_def ret_def raise_def reads_def elim!: thenA_InrE bindA_InrE split: if_splits)
  have "v1' = v1" using enumerate_Inr [OF enum'] by simp
  with enum' fold' have enum: "enumerateAndAuthorize prin st i (rs_owner r) v1 = (Inr rows0, v1)"
      and fold: "fold_each (cascadeFileSubSource in_flight prin) (sc_file_keys (?cas v1))
        (rows0, sc_object_keys (?cas v1)) v1 = (Inr (rows, keys), v2)" by simp_all
  have mine: "callers_rows prin (w_pg v1) rows0"
    using enum by (auto simp: callers_rows_def enumerateAndAuthorize_def ret_def raise_def list_ex_iff derived_rows_def split: if_splits)
  have "file_row_of i (w_pg v2) = None" if "st = File" "rs_file r = None"
    using resolveSource_Inr [OF r] that same_ids_run [OF same_ids_cancelPending c, of i]
      same_ids_run [OF ids.keeps_fold_each [OF same_ids_cascadeFile] fold, of i] by simp
  from erase_rows_Inr [OF rows r this] have "memory_ids (w_pg w') = memory_ids (w_pg v2) - set (map m_id rows)" by blast
  moreover have "callers_rows prin (w_pg v2) rows \<and> t_memory (w_pg v2) = t_memory (w_pg w)"
    using fold_cascadeFile_callers [OF fold] mine cancelPending_memory [OF c] by simp
  ultimately show ?thesis
    by (intro exI [of _ "set (map m_id rows)"]) (fastforce simp: callers_rows_def memory_ids_def)
qed

text \<open>
  C16. A deletion request erases only memories of its caller. When the source is unknown (no
  record of it and no memory derived from it), belongs to someone else, or has a derived
  memory of someone else, the request is refused with one and the same not-found error, and no
  table, index point or object changes. The caller names a type with an adapter, or a file,
  and an id that is not blank.
\<close>

theorem erases_own_only:
  assumes safe: "memory_safe w" and run: "requestSourceDeletion in_flight prin (source_type_text st) i w = (res, w')"
    and id: "js_trim i \<noteq> []" and port: "adapter_for st \<noteq> None \<or> st = File"
  shows "(\<forall>r \<in> set (t_memory (w_pg w)). m_id r \<notin> memory_ids (w_pg w') \<longrightarrow> m_owner r = p_user_id prin) \<and>
    (not_yours prin st i (w_pg w) \<longrightarrow> res = Inl (NotFound ''source'' i) \<and> w_pg w' = w_pg w \<and>
       w_points w' = w_points w \<and> w_objects w' = w_objects w)"
proof -
  have "source_type_of_text SOURCE_TYPES (source_type_text st) = Some st" by (cases st) (simp_all add: SOURCE_TYPES_def)
  then have tx: "transaction (erase_source in_flight prin st i) w = (res, w')"
    using run id by (simp add: requestSourceDeletion_def assertSourceType_def bindA_def ret_def thenA_def raise_if_def)
  obtain out v where body: "erase_source in_flight prin st i w = (out, v)" by fastforce
  have "m_owner r = p_user_id prin" if r: "r \<in> set (t_memory (w_pg w))" "m_id r \<notin> memory_ids (w_pg w')" for r
  proof -
    have "w_pg w' \<noteq> w_pg w" using r by (auto simp: memory_ids_def)
    then obtain rid where rid: "out = Inr rid" "w_pg w' = w_pg v"
      using tx body by (auto simp: transaction_def split: sum.splits fault.splits)
    from body rid have "erase_source in_flight prin st i w = (Inr rid, v)" by simp
    from erase_callers [OF this] obtain ids where ids: "memory_ids (w_pg v) = memory_ids (w_pg w) - ids"
      "\<forall>j \<in> ids. \<exists>r \<in> set (t_memory (w_pg w)). m_id r = j \<and> m_owner r = p_user_id prin" by blast
    have "m_id r \<in> ids" using r rid(2) ids(1) by (auto simp: memory_ids_def)
    with ids(2) obtain q where "q \<in> set (t_memory (w_pg w))" "m_id q = m_id r" "m_owner q = p_user_id prin" by blast
    moreover have "distinct (map m_id (t_memory (w_pg w)))" using safe by (simp add: memory_safe_def rows_ok_def)
    ultimately show ?thesis using r(1) by (metis distinct_key_eq)
  qed
  moreover have "res = Inl (NotFound ''source'' i) \<and> w_pg w' = w_pg w \<and> w_points w' = w_points w \<and> w_objects w' = w_objects w"
    if foreign: "not_yours prin st i (w_pg w)"
  proof -
    obtain r where r: "resolveSource st i w = (Inr r, w)" "rs_owner r = source_owner st i (w_pg w)"
      using port by (rule resolveSource_owner)
    from erase_resolved_refused [OF r(2) foreign] obtain v where
      "erase_resolved in_flight prin st i r w = (Inl (NotFound ''source'' i), v)" "w_points v = w_points w" "w_objects v = w_objects w"
      by blast
    with r(1) tx show ?thesis by (auto simp: transaction_def erase_source_def bindA_def)
  qed
  ultimately show ?thesis by blast
qed

theorem erases_own_only_witness:
  "fst (requestSourceDeletion (\<lambda>_. False) \<lparr>p_user_id = ''bob'', p_org_id = ''org''\<rparr> ''user_note'' ''note'' sample_world) =
     Inl (NotFound ''source'' ''note'')"
proof -
  let ?bob = "\<lparr>p_user_id = ''bob'', p_org_id = ''org''\<rparr>"
  have foreign: "not_yours ?bob UserNote ''note'' (w_pg sample_world)"
    by (simp add: not_yours_def derived_rows_def sample_world_def sample_pg_def sample_rows_def) (simp add: sample_row_def)
  have "js_trim ''note'' \<noteq> []" "adapter_for UserNote \<noteq> None \<or> UserNote = File" by code_simp+
  from erases_own_only [OF sample_safe run_pair [OF refl] this, of "\<lambda>_. False" ?bob] foreign show ?thesis by simp
qed

text \<open>
  C14. A successful deletion request leaves no source row and no memory derived from the
  source. Of the memories it erased no task derives, and no chat answer of the assistant cites
  one; all of them are listed in the counts of a pending receipt, as memories and as index
  points, and the worker job for that receipt is queued. The table invariants hold afterwards.
\<close>

theorem request_cleans:
  assumes "memory_safe w" and "requestSourceDeletion in_flight prin raw i w = (Inr rid, w')"
    and gone: "gone = memory_ids (w_pg w) - memory_ids (w_pg w')"
  shows "memory_safe w' \<and>
    (\<forall>t \<in> set (t_task (w_pg w')). tk_derived_from t \<notin> gone) \<and>
    (\<forall>c \<in> set (t_chat (w_pg w')). c_role c = AssistantRole \<longrightarrow>
      (\<forall>j \<in> gone. \<not> contains (cite_token j) (c_content c))) \<and>
    (\<exists>st counts. source_type_text st = raw \<and> source_gone st i (w_pg w') \<and>
      derived_rows st i (w_pg w') = [] \<and> m_id ` set (derived_rows st i (w_pg w)) \<subseteq> gone \<and>
      gone \<subseteq> set (rc_memory_ids counts) \<and> gone \<subseteq> set (rc_point_ids counts) \<and>
      t_receipt (w_pg w') = t_receipt (w_pg w) @ [receipt_pending rid st i counts] \<and>
      \<lparr>j_type = DELETION_JOB_TYPE, j_payload = \<lparr>j_source_type = DELETION_JOB_SOURCE_TYPE, j_source_id = rid\<rparr>,
        j_max_attempts = 10\<rparr> \<in> set (t_jobs (w_pg w')))"
proof -
  have "memory_safe w'" using keeps_run [OF erase_mem.keeps_requestSourceDeletion assms(1,2)] by simp
  moreover from request_erases [OF assms(1,2)] obtain st counts where
    c: "source_type_text st = raw" "source_gone st i (w_pg w')" "derived_rows st i (w_pg w') = []"
    "cited (rc_memory_ids counts) (w_pg w') = []" "derived_tasks (rc_memory_ids counts) (w_pg w') = []"
    "rc_point_ids counts = rc_memory_ids counts"
    "m_id ` set (derived_rows st i (w_pg w)) \<subseteq> set (rc_memory_ids counts)"
    "memory_ids (w_pg w') = memory_ids (w_pg w) - set (rc_memory_ids counts)"
    "t_receipt (w_pg w') = t_receipt (w_pg w) @ [receipt_pending rid st i counts]"
    "\<lparr>j_type = DELETION_JOB_TYPE, j_payload = \<lparr>j_source_type = DELETION_JOB_SOURCE_TYPE, j_source_id = rid\<rparr>,
        j_max_attempts = 10\<rparr> \<in> set (t_jobs (w_pg w'))" by blast
  have g: "gone = memory_ids (w_pg w) \<inter> set (rc_memory_ids counts)" using gone c(8) by blast
  have "m_id ` set (derived_rows st i (w_pg w)) \<subseteq> gone"
    using c(7) unfolding g by (auto simp: memory_ids_def derived_rows_def)
  moreover have "\<forall>t \<in> set (t_task (w_pg w')). tk_derived_from t \<notin> gone"
    using c(5) by (auto simp: g derived_tasks_def filter_empty_conv)
  moreover have "\<forall>c \<in> set (t_chat (w_pg w')). c_role c = AssistantRole \<longrightarrow>
      (\<forall>j \<in> gone. \<not> contains (cite_token j) (c_content c))"
    using c(4) by (auto simp: g cited_def filter_empty_conv cites_any_def list_ex_iff)
  ultimately show ?thesis using c g by (intro conjI exI [of _ st] exI [of _ counts]) auto
qed

theorem request_cleans_witness:
  "memory_safe erase_demo \<and> derived_rows UserNote ''note'' (w_pg erase_demo) = [] \<and>
   sample_id 0 \<in> memory_ids (w_pg sample_world) - memory_ids (w_pg erase_demo)"
proof -
  from request_cleans [OF sample_safe erase_demo_facts(1) refl] obtain st where c: "memory_safe erase_demo"
    "source_type_text st = ''user_note''" "derived_rows st ''note'' (w_pg erase_demo) = []"
    "m_id ` set (derived_rows st ''note'' (w_pg sample_world)) \<subseteq> memory_ids (w_pg sample_world) - memory_ids (w_pg erase_demo)"
    by blast
  from c(2) have st: "st = UserNote" by (cases st) simp_all
  have "sample_row 0 Active 10 None \<in> set (derived_rows UserNote ''note'' (w_pg sample_world))"
    by (simp add: derived_rows_def sample_world_def sample_pg_def sample_rows_def) (simp add: sample_row_def)
  with c st show ?thesis by (metis image_eqI sample_row_simps(1) subsetD)
qed

end
