(* ===== verification/Integrity_Sweep.thy ===== *)
theory Integrity_Sweep
  imports Deletion_Laws Gates
begin

text \<open>
  The nightly sweep, \<^verbatim>\<open>memory/integrity-sweep.ts\<close>: for every confirmed receipt the enumerated
  identifiers are looked for again, orphaned rows and objects are reported, index payloads are
  compared with their rows and repaired, the receipt chain is verified, and every finding
  becomes one alert row. In alert texts a hyphen stands for the dash of the code, which is
  outside the model's characters.
\<close>

subsection \<open>Alerts\<close>

datatype alert_kind =
    MemoryRowPresent
  | QdrantPointPresent
  | ObjectPresent
  | ChainBroken
  | OrphanedMemory
  | OrphanedObject
  | PayloadMismatch

fun alert_kind_text :: "alert_kind \<Rightarrow> string" where
  "alert_kind_text MemoryRowPresent = ''memory_row_present''"
| "alert_kind_text QdrantPointPresent = ''qdrant_point_present''"
| "alert_kind_text ObjectPresent = ''object_present''"
| "alert_kind_text ChainBroken = ''chain_broken''"
| "alert_kind_text OrphanedMemory = ''orphaned_memory''"
| "alert_kind_text OrphanedObject = ''orphaned_object''"
| "alert_kind_text PayloadMismatch = ''payload_mismatch''"

record found_alert =
  fa_receipt_id :: "uuid option"
  fa_kind :: alert_kind
  fa_detail :: string

record sweep_report =
  sw_receipts_checked :: nat
  sw_identifiers_checked :: nat
  sw_objects_scanned :: nat
  sw_payloads_checked :: nat
  sw_payloads_healed :: nat
  sw_new_alerts :: nat
  sw_open_alerts :: nat
  sw_chain_ok :: bool
  sw_chain_error :: "string option"

definition found_of :: "uuid option \<Rightarrow> alert_kind \<Rightarrow> string \<Rightarrow> found_alert" where
  "found_of receipt kind detail = \<lparr>fa_receipt_id = receipt, fa_kind = kind, fa_detail = detail\<rparr>"

subsection \<open>Receipts against the stores\<close>

definition objectExists :: "string \<Rightarrow> bool op" where
  "objectExists key = external BucketFailed (\<lambda>w. list_ex (\<lambda>b. o_key b = key) (w_objects w)) (\<lambda>w. w)"

definition rows_present :: "receipt_row \<Rightarrow> receipt_counts \<Rightarrow> pg \<Rightarrow> found_alert list" where
  "rows_present receipt counts d =
     map (\<lambda>r. found_of (Some (r_id receipt)) MemoryRowPresent (m_id r))
       (filter (\<lambda>r. m_id r \<in> set (rc_memory_ids counts)) (t_memory d))"

definition resurrected :: "receipt_row \<Rightarrow> receipt_counts \<Rightarrow> pg \<Rightarrow> found_alert list" where
  "resurrected receipt counts d =
     map (\<lambda>r. found_of (Some (r_id receipt)) OrphanedMemory (m_id r))
       (filter (\<lambda>r. m_source_type r = r_source_type receipt \<and> m_source_id r = r_source_id receipt \<and>
          m_id r \<notin> set (rc_memory_ids counts)) (t_memory d))"

definition check_object :: "receipt_row \<Rightarrow> found_alert list \<Rightarrow> string \<Rightarrow> found_alert list op" where
  "check_object receipt acc key =
     bindA (objectExists key) (\<lambda>present.
       ret (if present then acc @ [found_of (Some (r_id receipt)) ObjectPresent key] else acc))"

definition check_receipt ::
  "found_alert list \<times> nat \<Rightarrow> receipt_row \<Rightarrow> (found_alert list \<times> nat) op" where
  "check_receipt acc receipt =
     (case parseReceiptCounts (r_counts_json receipt) of
        None \<Rightarrow> raise (Failure ''counts_json does not parse'')
      | Some counts \<Rightarrow>
          bindA (reads (\<lambda>w. rows_present receipt counts (w_pg w))) (\<lambda>rows.
          bindA (retrievePayloads (rc_point_ids counts)) (\<lambda>points.
          bindA (fold_each (check_object receipt) (rc_object_keys counts) []) (\<lambda>objects.
          bindA (reads (\<lambda>w. resurrected receipt counts (w_pg w))) (\<lambda>back_again.
          ret (fst acc @ rows @
                 map (\<lambda>p. found_of (Some (r_id receipt)) QdrantPointPresent (fst p)) points @
                 objects @ back_again,
               snd acc + length (rc_memory_ids counts) + length (rc_point_ids counts) +
                 length (rc_object_keys counts) + length back_again))))))"

subsection \<open>Orphaned memories\<close>

definition orphans_of :: "source_type \<times> string \<Rightarrow> pg \<Rightarrow> found_alert list" where
  "orphans_of g d =
     (case adapter_for (fst g) of
        None \<Rightarrow> []
      | Some a \<Rightarrow>
          (if port_owner_of a (snd g) d \<noteq> None then []
           else map (\<lambda>r. found_of None OrphanedMemory (m_id r)) (derived_rows (fst g) (snd g) d)))"

definition source_groups :: "pg \<Rightarrow> (source_type \<times> string) list" where
  "source_groups d =
     dedupe (map (\<lambda>r. (m_source_type r, m_source_id r))
       (filter (\<lambda>r. m_source_type r \<in> set (map port_type SOURCE_DELETIONS)) (t_memory d)))"

definition collect_orphans :: "found_alert list \<Rightarrow> source_type \<times> string \<Rightarrow> found_alert list op" where
  "collect_orphans acc g =
     bindA (transaction (reads (\<lambda>w. orphans_of g (w_pg w)))) (\<lambda>found. ret (acc @ found))"

definition findOrphanedMemories :: "found_alert list op" where
  "findOrphanedMemories =
     bindA (reads (\<lambda>w. source_groups (w_pg w))) (\<lambda>groups.
       fold_each collect_orphans groups [])"

subsection \<open>Orphaned objects\<close>

fun segments :: "string \<Rightarrow> string list" where
  "segments [] = [[]]"
| "segments (c # cs) =
     (if c = CHR ''/'' then [] # segments cs
      else case segments cs of s # ss \<Rightarrow> (c # s) # ss | [] \<Rightarrow> [[c]])"

definition third_segment :: "string \<Rightarrow> string option" where
  "third_segment key = (let ss = segments key in if 2 < length ss then Some (ss ! 2) else None)"

definition listObjects :: "bucket_object list op" where
  "listObjects = external BucketFailed w_objects (\<lambda>w. w)"

definition known_of :: "string list \<Rightarrow> pg \<Rightarrow> string list" where
  "known_of batch d =
     filter (\<lambda>k. k \<in> set batch) (map f_object_key (t_file d)) @
     concat (map (\<lambda>a. case port_owns_keys a of None \<Rightarrow> [] | Some f \<Rightarrow> f batch d) SOURCE_DELETIONS)"

function known_keys :: "string list \<Rightarrow> pg \<Rightarrow> string list" where
  "known_keys keys d =
     (if keys = [] then [] else known_of (take 500 keys) d @ known_keys (drop 500 keys) d)"
  by pat_completeness auto
termination by (relation "measure (\<lambda>(keys, d). length keys)") auto

declare known_keys.simps [simp del]

definition orphaned_objects :: "nat \<Rightarrow> bucket_object list \<Rightarrow> pg \<Rightarrow> time \<Rightarrow> found_alert list" where
  "orphaned_objects graceMinutes objects d now =
     (let cutoff = now - int graceMinutes * 60000;
          aged = filter (\<lambda>b. third_segment (o_key b) \<noteq> Some ''exports'')
                   (filter (\<lambda>b. o_last_modified b < cutoff) objects);
          stagingKeys = filter (\<lambda>b. third_segment (o_key b) = Some ''staging'') aged;
          durableKeys = filter (\<lambda>b. third_segment (o_key b) \<noteq> Some ''staging'') aged;
          known = known_keys (map o_key durableKeys) d
      in map (\<lambda>b. found_of None OrphanedObject
               (o_key b @ '' - staging object outlived its cleanup window; original bytes not erased'')) stagingKeys @
         map (\<lambda>b. found_of None OrphanedObject
               (o_key b @ '' - object present with no owning record (file_metadata or a connector's retained source); bytes outside any receipt''))
           (filter (\<lambda>b. o_key b \<notin> set known) durableKeys))"

definition findOrphanedObjects :: "nat \<Rightarrow> (nat \<times> found_alert list) op" where
  "findOrphanedObjects graceMinutes =
     bindA listObjects (\<lambda>objects.
     reads (\<lambda>w. (length objects, orphaned_objects graceMinutes objects (w_pg w) (w_clock w))))"

subsection \<open>Payloads against rows\<close>

definition PAYLOAD_PAGE_SIZE :: nat where
  "PAYLOAD_PAGE_SIZE = 500"

definition embedded_after :: "uuid option \<Rightarrow> memory_row list \<Rightarrow> memory_row list" where
  "embedded_after afterId rows =
     sort_key m_id (filter (\<lambda>r. m_embedding_model r \<noteq> None \<and>
       (case afterId of None \<Rightarrow> True | Some i \<Rightarrow> i < m_id r)) rows)"

lemma embedded_after_set:
  "set (embedded_after a rows) =
     {r \<in> set rows. m_embedding_model r \<noteq> None \<and> (case a of None \<Rightarrow> True | Some i \<Rightarrow> i < m_id r)}"
  by (auto simp: embedded_after_def)

lemma length_filter_strict:
  assumes "\<And>x. P x \<Longrightarrow> Q x" and "x \<in> set xs" and "Q x" and "\<not> P x"
  shows "length (filter P xs) < length (filter Q xs)"
  using assms(2)
proof (induction xs)
  case (Cons y ys)
  have le: "length (filter P ys) \<le> length (filter Q ys)"
    using assms(1) by (induction ys) auto
  from Cons show ?case using assms(1,3,4) le by (cases "y = x") auto
qed simp

lemma embedded_after_decreases:
  assumes "take PAYLOAD_PAGE_SIZE (embedded_after a rows) \<noteq> []"
  shows "length (embedded_after (Some (m_id (last (take PAYLOAD_PAGE_SIZE (embedded_after a rows))))) rows)
    < length (embedded_after a rows)"
proof -
  let ?page = "take PAYLOAD_PAGE_SIZE (embedded_after a rows)"
  have "last ?page \<in> set (embedded_after a rows)" using assms by (metis in_set_takeD last_in_set)
  then have l: "last ?page \<in> set rows" "m_embedding_model (last ?page) \<noteq> None"
      "case a of None \<Rightarrow> True | Some i \<Rightarrow> i < m_id (last ?page)"
    by (simp_all add: embedded_after_set)
  have "length (embedded_after (Some (m_id q)) rows) < length (embedded_after a rows)"
    if "q \<in> set rows" "m_embedding_model q \<noteq> None" "case a of None \<Rightarrow> True | Some i \<Rightarrow> i < m_id q" for q
    unfolding embedded_after_def length_sort
    by (rule length_filter_strict [of _ _ q]) (use that in \<open>auto split: option.splits\<close>)
  from this [OF l] show ?thesis .
qed

text \<open>
  The pages of the keyset scan. The loop writes payloads only, so every page is read from the
  same rows.
\<close>

function payload_pages :: "memory_row list \<Rightarrow> uuid option \<Rightarrow> memory_row list list" where
  "payload_pages rows afterId =
     (let page = take PAYLOAD_PAGE_SIZE (embedded_after afterId rows)
      in if page = [] then [] else page # payload_pages rows (Some (m_id (last page))))"
  by pat_completeness auto

termination
  by (relation "measure (\<lambda>(rows, a). length (embedded_after a rows))")
    (auto intro: embedded_after_decreases)

declare payload_pages.simps [simp del]

definition stale_fields :: "memory_row \<Rightarrow> point_payload \<Rightarrow> string list" where
  "stale_fields row p =
     (if pl_owner p \<noteq> m_owner row then [''owner_id''] else []) @
     (if pl_scope p \<noteq> m_scope row then [''scope''] else []) @
     (if pl_status p \<noteq> m_status row then [''status''] else []) @
     (if pl_sensitive p \<noteq> m_sensitive row then [''sensitive''] else [])"

definition heal :: "memory_row \<Rightarrow> point_payload \<Rightarrow> point_payload" where
  "heal row p = p\<lparr>pl_owner := m_owner row, pl_scope := m_scope row, pl_status := m_status row,
     pl_sensitive := m_sensitive row, pl_valid_until := m_valid_until row\<rparr>"

definition check_payload ::
  "(uuid \<times> point_payload) list \<Rightarrow> nat \<times> found_alert list \<Rightarrow> memory_row \<Rightarrow> (nat \<times> found_alert list) op" where
  "check_payload payloads acc row =
     (case map_of (rev payloads) (m_id row) of
        None \<Rightarrow> ret (fst acc, snd acc @ [found_of None PayloadMismatch
          (m_id row @ '' - indexed point missing; run reindex. Recall-only: retrieval re-gates through Postgres, this is not a leak'')])
      | Some p \<Rightarrow>
          (let stale = stale_fields row p in
           if stale = [] then ret acc
           else thenA (setPayload (m_id row) (heal row))
             (ret (Suc (fst acc), snd acc @ [found_of None PayloadMismatch
               (m_id row @ '' - stale index payload ('' @ join '', '' stale @
                ''); self-healed by re-upsert. Recall/consistency only, not a leak: retrieval re-gates every hit through Postgres'')]))))"

definition check_page ::
  "nat \<times> nat \<times> found_alert list \<Rightarrow> memory_row list \<Rightarrow> (nat \<times> nat \<times> found_alert list) op" where
  "check_page acc page =
     bindA (retrievePayloads (map m_id page)) (\<lambda>payloads.
     bindA (fold_each (check_payload payloads) page (snd acc)) (\<lambda>found.
     ret (fst acc + length page, found)))"

definition reconcilePayloads :: "(nat \<times> nat \<times> found_alert list) op" where
  "reconcilePayloads =
     bindA (reads (\<lambda>w. payload_pages (t_memory (w_pg w)) None)) (\<lambda>pages.
       fold_each check_page pages (0, 0, []))"

subsection \<open>One run\<close>

definition alert_of :: "time \<Rightarrow> found_alert \<Rightarrow> alert_row" where
  "alert_of now f = \<lparr>al_receipt_id = fa_receipt_id f, al_kind = alert_kind_text (fa_kind f),
     al_detail = fa_detail f, al_detected_at = now\<rparr>"

text \<open>The unique index \<^verbatim>\<open>(coalesce(receipt_id::text, ''), kind, detail)\<close>.\<close>

definition same_alert :: "alert_row \<Rightarrow> alert_row \<Rightarrow> bool" where
  "same_alert a b \<longleftrightarrow> or_else (al_receipt_id a) [] = or_else (al_receipt_id b) [] \<and>
     al_kind a = al_kind b \<and> al_detail a = al_detail b"

definition insert_alert :: "nat \<Rightarrow> found_alert \<Rightarrow> nat op" where
  "insert_alert n f w =
     (let a = alert_of (w_clock w) f
      in if list_ex (same_alert a) (t_alert (w_pg w)) then (Inr n, w)
         else (Inr (Suc n), update_pg (\<lambda>d. d\<lparr>t_alert := t_alert d @ [a]\<rparr>) w))"

fun chain_error_text :: "chain_error \<Rightarrow> string" where
  "chain_error_text (ChainForks p) = ''chain forks: two receipts share prev_hash '' @ p"
| "chain_error_text (BrokenLinkage p) = ''broken linkage: no receipt links to '' @ p"
| "chain_error_text (HashMismatch i) = ''receipt '' @ i @ '': stored hash does not match payload''"
| "chain_error_text (SignatureInvalid i) = ''receipt '' @ i @ '': signature invalid''"

definition chain_alerts :: "chain_verification \<Rightarrow> found_alert list" where
  "chain_alerts v =
     (if cv_ok v then []
      else [found_of None ChainBroken (case cv_error v of None \<Rightarrow> ''unknown'' | Some e \<Rightarrow> chain_error_text e)])"

definition report_json :: "sweep_report \<Rightarrow> json" where
  "report_json r = JObj
     ([(''receiptsChecked'', JInt (int (sw_receipts_checked r))),
       (''identifiersChecked'', JInt (int (sw_identifiers_checked r))),
       (''objectsScanned'', JInt (int (sw_objects_scanned r))),
       (''payloadsChecked'', JInt (int (sw_payloads_checked r))),
       (''payloadsHealed'', JInt (int (sw_payloads_healed r))),
       (''newAlerts'', JInt (int (sw_new_alerts r))),
       (''openAlerts'', JInt (int (sw_open_alerts r))),
       (''chainOk'', JBool (sw_chain_ok r))] @
      (case sw_chain_error r of None \<Rightarrow> [] | Some e \<Rightarrow> [(''chainError'', JStr e)]))"

definition countAlerts :: "pg \<Rightarrow> nat" where
  "countAlerts d = length (t_alert d)"

definition sweep_run ::
  "(string \<Rightarrow> string) \<Rightarrow> (string \<Rightarrow> string \<Rightarrow> bool) \<Rightarrow> nat \<Rightarrow> sweep_report op" where
  "sweep_run sha sig_ok graceMinutes =
     bindA (reads (\<lambda>w. confirmed_rows (w_pg w))) (\<lambda>confirmed.
     bindA (fold_each check_receipt confirmed ([], 0)) (\<lambda>(receiptFound, identifiers).
     bindA findOrphanedMemories (\<lambda>orphans.
     bindA (findOrphanedObjects graceMinutes) (\<lambda>(scanned, orphanObjects).
     bindA reconcilePayloads (\<lambda>(checked, healed, mismatches).
     let chain = verifyChain sha sig_ok (map toConfirmedReceipt confirmed);
         found = receiptFound @ orphans @ orphanObjects @ mismatches @ chain_alerts chain
     in bindA (fold_each insert_alert found 0) (\<lambda>newAlerts.
        bindA (reads (\<lambda>w. countAlerts (w_pg w))) (\<lambda>openAlerts.
        let report = \<lparr>sw_receipts_checked = length confirmed, sw_identifiers_checked = identifiers,
              sw_objects_scanned = scanned, sw_payloads_checked = checked, sw_payloads_healed = healed,
              sw_new_alerts = newAlerts, sw_open_alerts = openAlerts, sw_chain_ok = cv_ok chain,
              sw_chain_error = map_option chain_error_text (cv_error chain)\<rparr>
        in bindA draw_uuid (\<lambda>entityId.
           thenA (writeAudit \<lparr>a_actor = ''integrity_sweep'', a_action = ''sweep.completed'',
                    a_entity_type = ''integrity_sweep'', a_entity_id = entityId,
                    a_detail = report_json report, a_org_id = None, a_owner_id = None\<rparr>)
             (ret report)))))))))"

record integrity_status =
  is_last_sweep_at :: "string option"
  is_last_report :: "json option"
  is_open_alerts :: nat

definition sweep_status :: "pg \<Rightarrow> integrity_status" where
  "sweep_status d =
     (let last_entry = (case sort_key (\<lambda>a. - a_created_at a) (filter (\<lambda>a. a_action a = ''sweep.completed'') (t_audit d)) of
                          [] \<Rightarrow> None | a # _ \<Rightarrow> Some a)
      in \<lparr>is_last_sweep_at = map_option (\<lambda>a. iso_string (a_created_at a)) last_entry,
          is_last_report = map_option a_detail last_entry,
          is_open_alerts = countAlerts d\<rparr>)"

definition listAlerts :: "nat \<Rightarrow> pg \<Rightarrow> alert_row list" where
  "listAlerts limit d = take limit (sort_key (\<lambda>a. - al_detected_at a) (t_alert d))"


subsection \<open>What the scans read\<close>

text \<open>The scans look at the tables, the ids of the points, the objects and the clock.\<close>

definition same_view :: "world \<Rightarrow> world \<Rightarrow> bool" where
  "same_view w w' \<longleftrightarrow> w_pg w' = w_pg w \<and> map pt_id (w_points w') = map pt_id (w_points w) \<and>
     w_objects w' = w_objects w \<and> w_clock w' = w_clock w"

lemma same_view_refl [simp]: "same_view w w"
  by (simp add: same_view_def)

lemma same_view_trans: "same_view u v \<Longrightarrow> same_view v w \<Longrightarrow> same_view u w"
  by (simp add: same_view_def)

lemma external_Inr:
  "external e answer effect w = (Inr v, w') \<Longrightarrow> v = answer w \<and> w' = effect (pop_fault w)"
  by (auto simp: external_def split: fault.splits)

lemma retrievePayloads_Inr:
  assumes "retrievePayloads is w = (Inr ps, w')"
  shows "ps = map (\<lambda>p. (pt_id p, pt_payload p)) (filter (\<lambda>p. pt_id p \<in> set is) (w_points w)) \<and>
    w_pg w' = w_pg w \<and> w_points w' = w_points w \<and> w_objects w' = w_objects w \<and> w_clock w' = w_clock w"
  using assms by (auto simp: retrievePayloads_def ret_def dest!: external_Inr split: if_splits)

lemma objectExists_Inr:
  "objectExists key w = (Inr b, w') \<Longrightarrow> b = list_ex (\<lambda>q. o_key q = key) (w_objects w) \<and>
     w_pg w' = w_pg w \<and> w_points w' = w_points w \<and> w_objects w' = w_objects w \<and> w_clock w' = w_clock w"
  by (auto simp: objectExists_def dest!: external_Inr)

definition objects_present :: "receipt_row \<Rightarrow> string list \<Rightarrow> bucket_object list \<Rightarrow> found_alert list" where
  "objects_present receipt keys objects =
     map (\<lambda>k. found_of (Some (r_id receipt)) ObjectPresent k)
       (filter (\<lambda>k. list_ex (\<lambda>q. o_key q = k) objects) keys)"

lemma check_objects_Inr:
  assumes "fold_each (check_object receipt) keys acc w = (Inr found, w')"
  shows "found = acc @ objects_present receipt keys (w_objects w) \<and>
    w_pg w' = w_pg w \<and> w_points w' = w_points w \<and> w_objects w' = w_objects w \<and> w_clock w' = w_clock w"
  using assms
proof (induction keys arbitrary: acc w)
  case (Cons key keys)
  then obtain acc1 v where step: "check_object receipt acc key w = (Inr acc1, v)"
      and rest: "fold_each (check_object receipt) keys acc1 v = (Inr found, w')"
    by (auto elim!: bindA_InrE)
  from step obtain b where "objectExists key w = (Inr b, v)"
    "acc1 = (if b then acc @ [found_of (Some (r_id receipt)) ObjectPresent key] else acc)"
    by (auto simp: check_object_def ret_def elim!: bindA_InrE)
  with Cons.IH [OF rest] objectExists_Inr show ?case
    by (fastforce simp: objects_present_def)
qed (simp add: ret_def objects_present_def)

definition points_present :: "receipt_row \<Rightarrow> uuid list \<Rightarrow> uuid list \<Rightarrow> found_alert list" where
  "points_present receipt ids stored =
     map (found_of (Some (r_id receipt)) QdrantPointPresent) (filter (\<lambda>i. i \<in> set ids) stored)"

definition receipt_found :: "world \<Rightarrow> receipt_row \<Rightarrow> found_alert list" where
  "receipt_found w receipt =
     (case parseReceiptCounts (r_counts_json receipt) of
        None \<Rightarrow> []
      | Some counts \<Rightarrow>
          rows_present receipt counts (w_pg w) @
          points_present receipt (rc_point_ids counts) (map pt_id (w_points w)) @
          objects_present receipt (rc_object_keys counts) (w_objects w) @
          resurrected receipt counts (w_pg w))"

lemma receipt_found_view: "same_view w w' \<Longrightarrow> receipt_found w' receipt = receipt_found w receipt"
  by (simp add: receipt_found_def same_view_def split: option.splits)

lemma check_receipt_Inr:
  assumes "check_receipt acc receipt w = (Inr out, w')"
  shows "fst out = fst acc @ receipt_found w receipt \<and> same_view w w' \<and> w_points w' = w_points w \<and>
    (\<exists>counts. parseReceiptCounts (r_counts_json receipt) = Some counts)"
proof (cases "parseReceiptCounts (r_counts_json receipt)")
  case None
  with assms show ?thesis by (simp add: check_receipt_def raise_def)
next
  case (Some counts)
  with assms obtain ps v objs v1 where
      p: "retrievePayloads (rc_point_ids counts) w = (Inr ps, v)"
      and o: "fold_each (check_object receipt) (rc_object_keys counts) [] v = (Inr objs, v1)"
      and out: "w' = v1" "fst out = fst acc @ rows_present receipt counts (w_pg w) @
        map (\<lambda>p. found_of (Some (r_id receipt)) QdrantPointPresent (fst p)) ps @ objs @
        resurrected receipt counts (w_pg v1)"
    by (auto simp: check_receipt_def ret_def reads_def elim!: bindA_InrE)
  from retrievePayloads_Inr [OF p] check_objects_Inr [OF o] out Some show ?thesis
    by (simp add: receipt_found_def points_present_def same_view_def filter_map o_def comp_def)
qed

lemma check_receipts_Inr:
  assumes "fold_each check_receipt rows acc w = (Inr out, w')"
  shows "fst out = fst acc @ concat (map (receipt_found w) rows) \<and> same_view w w' \<and> w_points w' = w_points w"
  using assms
proof (induction rows arbitrary: acc w)
  case (Cons r rows)
  then obtain acc1 v where step: "check_receipt acc r w = (Inr acc1, v)"
      and rest: "fold_each check_receipt rows acc1 v = (Inr out, w')"
    by (auto elim!: bindA_InrE)
  note s = check_receipt_Inr [OF step] and i = Cons.IH [OF rest]
  have "map (receipt_found v) rows = map (receipt_found w) rows"
    using s receipt_found_view by auto
  with s i show ?case by (auto intro: same_view_trans)
qed (simp add: ret_def)


lemma receipt_found_Nil:
  assumes "parseReceiptCounts (r_counts_json receipt) = Some counts"
  shows "receipt_found w receipt = [] \<longleftrightarrow>
    memory_ids (w_pg w) \<inter> set (rc_memory_ids counts) = {} \<and>
    pt_id ` set (w_points w) \<inter> set (rc_point_ids counts) = {} \<and>
    o_key ` set (w_objects w) \<inter> set (rc_object_keys counts) = {} \<and>
    derived_rows (r_source_type receipt) (r_source_id receipt) (w_pg w) = []"
  using assms
  by (auto simp: receipt_found_def rows_present_def points_present_def objects_present_def resurrected_def
      derived_rows_def filter_empty_conv memory_ids_def list_ex_iff)

text \<open>
  C17. The sweep finds nothing wrong with a receipt exactly when no enumerated memory row,
  index point or object and no other memory of the erased source is present.
\<close>

theorem receipt_clean_iff:
  assumes "check_receipt ([], 0) receipt w = (Inr (found, n), w')"
    and "parseReceiptCounts (r_counts_json receipt) = Some counts"
  shows "found = [] \<longleftrightarrow>
    memory_ids (w_pg w) \<inter> set (rc_memory_ids counts) = {} \<and>
    pt_id ` set (w_points w) \<inter> set (rc_point_ids counts) = {} \<and>
    o_key ` set (w_objects w) \<inter> set (rc_object_keys counts) = {} \<and>
    derived_rows (r_source_type receipt) (r_source_id receipt) (w_pg w) = []"
  using check_receipt_Inr [OF assms(1)] receipt_found_Nil [OF assms(2)] by simp

subsection \<open>Payloads converge\<close>

lemma map_of_rev_distinct: "distinct (map fst xs) \<Longrightarrow> map_of (rev xs) = map_of xs"
  by (rule map_of_inject_set [THEN iffD2]) (simp_all add: rev_map [symmetric])

lemma heal_fixes [simp]: "stale_fields row (heal row p) = []"
  by (simp add: stale_fields_def heal_def)

lemma setPayload_Inr:
  "setPayload i patch w = (Inr u, w') \<Longrightarrow>
     w_points w' = patch_points i patch (w_points w) \<and> w_pg w' = w_pg w \<and> w_objects w' = w_objects w \<and>
     w_clock w' = w_clock w"
  by (auto simp: setPayload_def dest!: external_Inr)

lemma map_pt_id_patch [simp]: "map pt_id (patch_points i patch ps) = map pt_id ps"
  unfolding patch_points_def by (rule map_update_where_key) simp

text \<open>The payload of the point of a row agrees with the row on every gate field.\<close>

definition in_step :: "memory_row \<Rightarrow> point list \<Rightarrow> bool" where
  "in_step r ps \<longleftrightarrow> (\<forall>p \<in> set ps. pt_id p = m_id r \<longrightarrow> stale_fields r (pt_payload p) = [])"

lemma in_step_patch_self: "in_step r (patch_points (m_id r) (heal r) ps)"
  by (auto simp: in_step_def patch_points_def in_set_update_where)

lemma in_step_patch_other:
  "m_id q \<noteq> m_id r \<Longrightarrow> in_step r (patch_points (m_id q) f ps) = in_step r ps"
  by (fastforce simp: in_step_def patch_points_def in_set_update_where)

lemma check_payload_Inr:
  assumes run: "check_payload payloads acc r w = (Inr out, w')"
    and pay: "payloads = map (\<lambda>p. (pt_id p, pt_payload p)) (filter (\<lambda>p. pt_id p \<in> is) ps)"
    and ps: "distinct (map pt_id ps)" "m_id r \<in> is"
    and now: "\<And>p. p \<in> set (w_points w) \<Longrightarrow> pt_id p = m_id r \<Longrightarrow> p \<in> set ps"
  shows "in_step r (w_points w') \<and> same_view w w' \<and>
    (w_points w' = w_points w \<or> w_points w' = patch_points (m_id r) (heal r) (w_points w))"
proof -
  have keys: "map fst payloads = map pt_id (filter (\<lambda>p. pt_id p \<in> is) ps)"
    by (simp add: pay o_def comp_def)
  have look: "map_of (rev payloads) = map_of payloads"
    by (rule map_of_rev_distinct) (use ps(1) in \<open>simp add: keys distinct_map_filter\<close>)
  have find: "map_of payloads (m_id r) = Some (pt_payload p)" if "p \<in> set ps" "pt_id p = m_id r" for p
  proof -
    have "(m_id r, pt_payload p) \<in> set payloads"
      using that ps(2) by (auto simp: pay image_iff intro!: bexI [of _ p])
    moreover have "distinct (map fst payloads)" using ps(1) by (simp add: keys distinct_map_filter)
    ultimately show ?thesis by (rule map_of_is_SomeI [rotated])
  qed
  show ?thesis
  proof (cases "map_of payloads (m_id r)")
    case None
    then have "in_step r (w_points w)" using find now by (force simp: in_step_def)
    with run None show ?thesis by (simp add: check_payload_def look ret_def)
  next
    case (Some p)
    show ?thesis
    proof (cases "stale_fields r p = []")
      case True
      have "in_step r (w_points w)" using find now Some True by (force simp: in_step_def)
      with run Some True show ?thesis by (simp add: check_payload_def look ret_def)
    next
      case False
      with run Some obtain u where "setPayload (m_id r) (heal r) w = (Inr u, w')"
        by (auto simp: check_payload_def look ret_def Let_def elim!: thenA_InrE)
      from setPayload_Inr [OF this] show ?thesis
        by (simp add: in_step_patch_self same_view_def)
    qed
  qed
qed

lemma check_payloads_Inr:
  assumes "fold_each (check_payload payloads) rows acc w = (Inr out, w')"
    and pay: "payloads = map (\<lambda>p. (pt_id p, pt_payload p)) (filter (\<lambda>p. pt_id p \<in> is) ps)"
    and ps: "distinct (map pt_id ps)" and rows: "m_id ` set rows \<subseteq> is" "distinct (map m_id rows)"
    and now: "\<And>p. p \<in> set (w_points w) \<Longrightarrow> pt_id p \<in> m_id ` set rows \<Longrightarrow> p \<in> set ps"
  shows "same_view w w' \<and> (\<forall>r \<in> set rows. in_step r (w_points w')) \<and>
    (\<forall>q. m_id q \<notin> m_id ` set rows \<longrightarrow> in_step q (w_points w) \<longrightarrow> in_step q (w_points w'))"
  using assms(1) rows now
proof (induction rows arbitrary: acc w)
  case (Cons r rows)
  then obtain acc1 v where step: "check_payload payloads acc r w = (Inr acc1, v)"
      and rest: "fold_each (check_payload payloads) rows acc1 v = (Inr out, w')"
    by (auto elim!: bindA_InrE)
  have "m_id r \<in> is" using Cons.prems(2) by simp
  note s = check_payload_Inr [OF step pay ps this] 
  have s': "in_step r (w_points v) \<and> same_view w v \<and>
    (w_points v = w_points w \<or> w_points v = patch_points (m_id r) (heal r) (w_points w))"
    by (rule s) (use Cons.prems(4) in simp)
  have fresh: "m_id r \<notin> m_id ` set rows" using Cons.prems(3) by simp
  have now': "p \<in> set ps" if "p \<in> set (w_points v)" "pt_id p \<in> m_id ` set rows" for p
  proof -
    have "pt_id p \<noteq> m_id r" using that(2) fresh by auto
    with that(1) s' have "p \<in> set (w_points w)"
      by (auto simp: patch_points_def in_set_update_where split: if_splits)
    with that(2) Cons.prems(4) show ?thesis by auto
  qed
  have i: "same_view v w' \<and> (\<forall>r \<in> set rows. in_step r (w_points w')) \<and>
    (\<forall>q. m_id q \<notin> m_id ` set rows \<longrightarrow> in_step q (w_points v) \<longrightarrow> in_step q (w_points w'))"
    by (rule Cons.IH [OF rest]) (use Cons.prems(2,3) now' in auto)
  have "in_step q (w_points v)" if "m_id q \<noteq> m_id r" "in_step q (w_points w)" for q
    using s' that in_step_patch_other [of r q] by auto
  with i s' fresh show ?case by (auto intro: same_view_trans)
qed (simp add: ret_def)


text \<open>The pages are consecutive and cover the embedded rows.\<close>

lemma filter_beyond_last:
  assumes sorted: "sorted_wrt (\<lambda>x y. f x < (f y :: 'k :: linorder)) xs" and ne: "take n xs \<noteq> []"
  shows "filter (\<lambda>x. f (last (take n xs)) < f x) xs = drop n xs"
proof -
  let ?l = "last (take n xs)"
  have split: "sorted_wrt (\<lambda>x y. f x < f y) (take n xs @ drop n xs)" using sorted by simp
  have "\<not> f ?l < f x" if x: "x \<in> set (take n xs)" for x
  proof -
    have "sorted_wrt (\<lambda>x y. f x < f y) (take n xs)" using split unfolding sorted_wrt_append by blast
    then have "sorted_wrt (\<lambda>x y. f x < f y) (butlast (take n xs) @ [?l])"
      by (simp only: append_butlast_last_id [OF ne])
    moreover have "x \<in> set (butlast (take n xs) @ [?l])" using x ne by simp
    ultimately show ?thesis by (auto simp: sorted_wrt_append)
  qed
  then have "filter (\<lambda>x. f ?l < f x) (take n xs) = []" by (simp add: filter_empty_conv)
  moreover have "filter (\<lambda>x. f ?l < f x) (drop n xs) = drop n xs"
    using split last_in_set [OF ne] unfolding sorted_wrt_append filter_id_conv by blast
  ultimately show ?thesis by (metis append_Nil append_take_drop_id filter_append)
qed

lemma embedded_after_sorted:
  assumes "distinct (map m_id rows)"
  shows "sorted_wrt (\<lambda>x y. m_id x < m_id y) (embedded_after a rows)"
proof -
  let ?E = "embedded_after a rows"
  have "distinct (map m_id ?E)"
    unfolding embedded_after_def distinct_map using assms by (auto simp: distinct_map inj_on_def)
  moreover have "sorted (map m_id ?E)" by (simp add: embedded_after_def)
  ultimately have "sorted_wrt (<) (map m_id ?E)" by (simp add: strict_sorted_iff)
  then show ?thesis by (simp add: sorted_wrt_map)
qed

lemma payload_pages_cover:
  assumes "distinct (map m_id rows)"
  shows "concat (payload_pages rows a) = embedded_after a rows"
  using assms
proof (induction rows a rule: payload_pages.induct)
  case (1 rows a)
  let ?E = "embedded_after a rows" and ?page = "take PAYLOAD_PAGE_SIZE (embedded_after a rows)"
  show ?case
  proof (cases "?page = []")
    case True
    then show ?thesis by (simp add: payload_pages.simps PAYLOAD_PAGE_SIZE_def)
  next
    case False
    let ?l = "last ?page"
    have "?l \<in> set ?E" using False by (metis in_set_takeD last_in_set)
    then have l: "case a of None \<Rightarrow> True | Some i \<Rightarrow> i < m_id ?l" by (simp add: embedded_after_set)
    have "embedded_after (Some (m_id ?l)) rows = filter (\<lambda>r. m_id ?l < m_id r) ?E"
      using l unfolding embedded_after_def filter_sort filter_filter
      by (intro arg_cong [of _ _ "sort_key m_id"] filter_cong) (auto split: option.splits)
    also have "\<dots> = drop PAYLOAD_PAGE_SIZE ?E"
      by (rule filter_beyond_last [OF embedded_after_sorted [OF 1(2)] False])
    finally have "concat (payload_pages rows (Some (m_id ?l))) = drop PAYLOAD_PAGE_SIZE ?E"
      using 1(1) [OF refl False 1(2)] by simp
    then show ?thesis using False by (subst payload_pages.simps) (simp add: Let_def)
  qed
qed


lemma check_page_Inr:
  assumes run: "check_page acc page w = (Inr out, w')"
    and ps: "distinct (map pt_id (w_points w))" and rows: "distinct (map m_id page)"
  shows "same_view w w' \<and> (\<forall>r \<in> set page. in_step r (w_points w')) \<and>
    (\<forall>q. m_id q \<notin> m_id ` set page \<longrightarrow> in_step q (w_points w) \<longrightarrow> in_step q (w_points w'))"
proof -
  from run obtain payloads v found where
      p: "retrievePayloads (map m_id page) w = (Inr payloads, v)"
      and f: "fold_each (check_payload payloads) page (snd acc) v = (Inr found, w')"
    by (auto simp: check_page_def ret_def elim!: bindA_InrE)
  note v = retrievePayloads_Inr [OF p]
  have "same_view v w' \<and> (\<forall>r \<in> set page. in_step r (w_points w')) \<and>
    (\<forall>q. m_id q \<notin> m_id ` set page \<longrightarrow> in_step q (w_points v) \<longrightarrow> in_step q (w_points w'))"
    by (rule check_payloads_Inr [OF f, of "set (map m_id page)" "w_points w"]) (use v ps rows in auto)
  then show ?thesis using v by (auto simp: same_view_def)
qed

lemma check_pages_Inr:
  assumes "fold_each check_page pages acc w = (Inr out, w')"
    and "distinct (map pt_id (w_points w))" and "distinct (map m_id (concat pages))"
  shows "same_view w w' \<and> (\<forall>r \<in> set (concat pages). in_step r (w_points w')) \<and>
    (\<forall>q. m_id q \<notin> m_id ` set (concat pages) \<longrightarrow> in_step q (w_points w) \<longrightarrow> in_step q (w_points w'))"
  using assms
proof (induction pages arbitrary: acc w)
  case (Cons page pages)
  then obtain acc1 v where step: "check_page acc page w = (Inr acc1, v)"
      and rest: "fold_each check_page pages acc1 v = (Inr out, w')"
    by (auto elim!: bindA_InrE)
  have d: "distinct (map m_id page)" "distinct (map m_id (concat pages))"
    "m_id ` set page \<inter> m_id ` set (concat pages) = {}"
    using Cons.prems(3) by (simp_all only: concat.simps map_append distinct_append set_map)
  note s = check_page_Inr [OF step Cons.prems(2) d(1)]
  have "distinct (map pt_id (w_points v))" using s Cons.prems(2) by (simp add: same_view_def)
  note i = Cons.IH [OF rest this d(2)]
  show ?case
  proof (intro conjI)
    show "same_view w w'" using s i same_view_trans by blast
    show "\<forall>r \<in> set (concat (page # pages)). in_step r (w_points w')"
    proof
      fix r assume "r \<in> set (concat (page # pages))"
      then consider "r \<in> set (concat pages)" | "r \<in> set page" by auto
      then show "in_step r (w_points w')"
      proof cases
        case 2
        with d(3) have "m_id r \<notin> m_id ` set (concat pages)" by blast
        with 2 s i show ?thesis by blast
      qed (use i in blast)
    qed
    show "\<forall>q. m_id q \<notin> m_id ` set (concat (page # pages)) \<longrightarrow> in_step q (w_points w) \<longrightarrow> in_step q (w_points w')"
      using s i by (simp add: image_Un)
  qed
qed (simp add: ret_def)

lemma reconcilePayloads_Inr:
  assumes run: "reconcilePayloads w = (Inr out, w')"
    and ps: "distinct (map pt_id (w_points w))" and rows: "distinct (map m_id (t_memory (w_pg w)))"
  shows "same_view w w' \<and>
    (\<forall>r \<in> set (t_memory (w_pg w)). m_embedding_model r \<noteq> None \<longrightarrow> in_step r (w_points w'))"
proof -
  let ?rows = "t_memory (w_pg w)"
  have cover: "concat (payload_pages ?rows None) = embedded_after None ?rows"
    by (rule payload_pages_cover [OF rows])
  have "distinct (map m_id (embedded_after None ?rows))"
    unfolding embedded_after_def distinct_map using rows by (auto simp: distinct_map inj_on_def)
  with check_pages_Inr [OF run [unfolded reconcilePayloads_def reads_bind] ps] cover
  show ?thesis by (auto simp: embedded_after_set)
qed

lemma in_step_payload:
  "stale_fields r p = [] \<Longrightarrow> satisfies (buildGateFilter prin inc) p = satisfies (buildGateFilter prin inc) (payload_of r)"
  by (simp add: stale_fields_def satisfies_gate payload_of_def split: if_splits)

text \<open>
  C18. After the payload scan every indexed row that has a point has a payload with its status
  on which the vector gate decides as the SQL gate decides on the row.
\<close>

theorem sweep_heals_gates:
  assumes run: "reconcilePayloads w = (Inr out, w')"
    and ps: "distinct (map pt_id (w_points w))" and rows: "distinct (map m_id (t_memory (w_pg w)))"
    and r: "r \<in> set (t_memory (w_pg w))" "m_embedding_model r \<noteq> None"
    and p: "p \<in> set (w_points w')" "pt_id p = m_id r"
  shows "pl_status (pt_payload p) = m_status r \<and>
    satisfies (buildGateFilter prin includeSensitive) (pt_payload p) = visibleTo prin includeSensitive r"
proof -
  have "stale_fields r (pt_payload p) = []"
    using reconcilePayloads_Inr [OF run ps rows] r p by (auto simp: in_step_def)
  moreover from this have "pl_status (pt_payload p) = m_status r" by (simp add: stale_fields_def split: if_splits)
  moreover have "satisfies (buildGateFilter prin includeSensitive) (payload_of r) = visibleTo prin includeSensitive r"
    by (auto simp: satisfies_gate visibleTo_def payload_of_def)
  ultimately show ?thesis using in_step_payload by metis
qed


definition sweep_demo :: world where
  "sweep_demo = sample_world\<lparr>
     w_pg := (w_pg sample_world)\<lparr>t_memory := map (\<lambda>r. r\<lparr>m_embedding_model := Some ''e''\<rparr>) sample_rows\<rparr>,
     w_points := map (\<lambda>r. (sample_point r)\<lparr>pt_payload := (pt_payload (sample_point r))\<lparr>pl_status := Active\<rparr>\<rparr>) sample_rows\<rparr>"

theorem sweep_heals_gates_witness:
  "map (\<lambda>p. pl_status (pt_payload p)) (filter (\<lambda>p. pt_id p = sample_id 2) (w_points (snd (reconcilePayloads sweep_demo)))) =
     [UserApproved]"
proof -
  let ?m = "reconcilePayloads sweep_demo" and ?r = "(sample_row 2 UserApproved 30 None)\<lparr>m_embedding_model := Some ''e''\<rparr>"
  have run: "map_sum id fst (fst ?m) = Inr 5 \<and> map pt_id (w_points (snd ?m)) = map sample_id [0, 1, 2, 3, 4]"
    by code_simp
  then obtain out where "fst ?m = Inr out" by (cases "fst ?m") auto
  note m = run_pair [OF this]
  have d: "distinct (map pt_id (w_points sweep_demo))" "distinct (map m_id (t_memory (w_pg sweep_demo)))"
    by (simp_all add: sweep_demo_def sample_world_def sample_pg_def sample_rows_def sample_point_def)
  have r: "?r \<in> set (t_memory (w_pg sweep_demo))"
    by (simp add: sweep_demo_def sample_world_def sample_pg_def sample_rows_def)
  have st: "pl_status (pt_payload p) = UserApproved" if "p \<in> set (w_points (snd ?m))" "pt_id p = sample_id 2" for p
    using sweep_heals_gates [OF m d r, of p sample_principal False] that by simp
  have "length (filter (\<lambda>p. pt_id p = sample_id 2) (w_points (snd ?m))) = length (filter (\<lambda>i. i = sample_id 2) (map pt_id (w_points (snd ?m))))"
    by (simp add: filter_map o_def)
  also have "\<dots> = 1" by (simp add: run)
  finally obtain p where "filter (\<lambda>p. pt_id p = sample_id 2) (w_points (snd ?m)) = [p]"
    by (auto simp: length_Suc_conv)
  moreover from this have "p \<in> set (filter (\<lambda>p. pt_id p = sample_id 2) (w_points (snd ?m)))" by simp
  then have "p \<in> set (w_points (snd ?m))" "pt_id p = sample_id 2" by simp_all
  ultimately show ?thesis using st by simp
qed

text \<open>An intact receipt: the sample erasure leaves nothing behind.\<close>

theorem receipt_clean_iff_witness:
  "fst (check_receipt ([], 0) (receipt_pending ''r'' UserNote ''gone'' (request_counts sample_principal UserNote ''gone'' []
      \<lparr>dt_tasks = 0, dt_chat = 0, dt_drafts = 0\<rparr> [] [] 0)) sample_world) = Inr ([], 0)"
proof -
  let ?c = "request_counts sample_principal UserNote ''gone'' [] \<lparr>dt_tasks = 0, dt_chat = 0, dt_drafts = 0\<rparr> [] [] 0"
  let ?r = "receipt_pending ''r'' UserNote ''gone'' ?c"
  let ?m = "check_receipt ([], 0) ?r sample_world"
  have p: "parseReceiptCounts (r_counts_json ?r) = Some ?c" by (simp add: receipt_pending_def parse_counts)
  have "map_sum id snd (fst ?m) = Inr 0"
    by (simp add: check_receipt_def parse_counts retrievePayloads_def ret_def request_counts_def bindA_def reads_def
        resurrected_def sample_world_def sample_pg_def sample_rows_def sample_row_def receipt_pending_def)
  then obtain found where "fst ?m = Inr (found, 0)" by (cases "fst ?m") auto
  note m = run_pair [OF this]
  have "derived_rows UserNote ''gone'' (w_pg sample_world) = []"
    by (simp add: derived_rows_def sample_world_def sample_pg_def sample_rows_def sample_row_def)
  then have "found = []"
    using receipt_clean_iff [OF m p] by (simp add: request_counts_def receipt_pending_def)
  with m show ?thesis by (metis fst_conv)
qed


subsection \<open>A second run finds nothing new\<close>

definition missing_alert :: "memory_row \<Rightarrow> found_alert" where
  "missing_alert r = found_of None PayloadMismatch
     (m_id r @ '' - indexed point missing; run reindex. Recall-only: retrieval re-gates through Postgres, this is not a leak'')"

lemma map_of_rev_None: "map_of (rev xs) k = None \<longleftrightarrow> k \<notin> fst ` set xs"
  by (simp add: map_of_eq_None_iff)

lemma check_payload_found:
  assumes "check_payload payloads acc r w = (Inr out, w')"
  shows "set (snd acc) \<subseteq> set (snd out)"
    and "m_id r \<notin> fst ` set payloads \<Longrightarrow> missing_alert r \<in> set (snd out)"
    and "(\<And>p. (m_id r, p) \<in> set payloads \<Longrightarrow> stale_fields r p = []) \<Longrightarrow>
      set (snd out) \<subseteq> set (snd acc) \<union> {a. a = missing_alert r \<and> m_id r \<notin> fst ` set payloads} \<and> w' = w \<and> fst out = fst acc"
proof -
  have look: "(m_id r, p) \<in> set payloads" if "map_of (rev payloads) (m_id r) = Some p" for p
    using map_of_SomeD [OF that] by simp
  show "set (snd acc) \<subseteq> set (snd out)"
    using assms by (auto simp: check_payload_def ret_def Let_def elim!: thenA_InrE split: option.splits if_splits)
  show "m_id r \<notin> fst ` set payloads \<Longrightarrow> missing_alert r \<in> set (snd out)"
    using assms by (auto simp: check_payload_def ret_def Let_def missing_alert_def map_of_rev_None [symmetric])
  show "set (snd out) \<subseteq> set (snd acc) \<union> {a. a = missing_alert r \<and> m_id r \<notin> fst ` set payloads} \<and> w' = w \<and>
      fst out = fst acc"
    if "\<And>p. (m_id r, p) \<in> set payloads \<Longrightarrow> stale_fields r p = []"
    using assms that look
    by (auto simp: check_payload_def ret_def missing_alert_def map_of_rev_None split: option.splits if_splits)
qed

lemma check_payloads_found:
  assumes "fold_each (check_payload payloads) rows acc w = (Inr out, w')"
  shows "set (snd acc) \<subseteq> set (snd out) \<and>
    (\<forall>r \<in> set rows. m_id r \<notin> fst ` set payloads \<longrightarrow> missing_alert r \<in> set (snd out)) \<and>
    ((\<forall>r \<in> set rows. \<forall>p. (m_id r, p) \<in> set payloads \<longrightarrow> stale_fields r p = []) \<longrightarrow>
      set (snd out) \<subseteq> set (snd acc) \<union> missing_alert ` {r \<in> set rows. m_id r \<notin> fst ` set payloads} \<and> w' = w \<and>
      fst out = fst acc)"
  using assms
proof (induction rows arbitrary: acc w)
  case (Cons r rows)
  then obtain acc1 v where step: "check_payload payloads acc r w = (Inr acc1, v)"
      and rest: "fold_each (check_payload payloads) rows acc1 v = (Inr out, w')"
    by (auto elim!: bindA_InrE)
  note s = check_payload_found [OF step] and i = Cons.IH [OF rest]
  show ?case
  proof (intro conjI impI)
    show "set (snd acc) \<subseteq> set (snd out)" using s(1) i by blast
    show "\<forall>q \<in> set (r # rows). m_id q \<notin> fst ` set payloads \<longrightarrow> missing_alert q \<in> set (snd out)"
      using s(2) i by auto
    assume clean: "\<forall>q \<in> set (r # rows). \<forall>p. (m_id q, p) \<in> set payloads \<longrightarrow> stale_fields q p = []"
    have "set (snd acc1) \<subseteq> set (snd acc) \<union> {a. a = missing_alert r \<and> m_id r \<notin> fst ` set payloads} \<and> v = w \<and>
        fst acc1 = fst acc"
      by (rule s(3)) (use clean in auto)
    moreover have "set (snd out) \<subseteq> set (snd acc1) \<union> missing_alert ` {r \<in> set rows. m_id r \<notin> fst ` set payloads} \<and> w' = v \<and>
        fst out = fst acc1"
      using i clean by simp
    ultimately show "set (snd out) \<subseteq> set (snd acc) \<union> missing_alert ` {q \<in> set (r # rows). m_id q \<notin> fst ` set payloads}"
      and "w' = w" and "fst out = fst acc" by (auto 0 3 simp: image_iff)
  qed
qed (simp add: ret_def)

lemma check_pages_found:
  assumes "fold_each check_page pages acc w = (Inr out, w')"
    and "distinct (map pt_id (w_points w))" and "distinct (map m_id (concat pages))"
  shows "set (snd (snd acc)) \<subseteq> set (snd (snd out)) \<and>
    (\<forall>r \<in> set (concat pages). m_id r \<notin> pt_id ` set (w_points w) \<longrightarrow> missing_alert r \<in> set (snd (snd out))) \<and>
    ((\<forall>r \<in> set (concat pages). in_step r (w_points w)) \<longrightarrow> set (snd (snd out)) \<subseteq> set (snd (snd acc)) \<union>
        missing_alert ` {r \<in> set (concat pages). m_id r \<notin> pt_id ` set (w_points w)} \<and>
      fst (snd out) = fst (snd acc) \<and> w_points w' = w_points w)"
  using assms
proof (induction pages arbitrary: acc w)
  case (Cons page pages)
  then obtain acc1 v where step: "check_page acc page w = (Inr acc1, v)"
      and rest: "fold_each check_page pages acc1 v = (Inr out, w')"
    by (auto elim!: bindA_InrE)
  from step obtain payloads u found where
      p: "retrievePayloads (map m_id page) w = (Inr payloads, u)"
      and f: "fold_each (check_payload payloads) page (snd acc) u = (Inr found, v)"
      and acc1: "snd acc1 = found"
    by (auto simp: check_page_def ret_def elim!: bindA_InrE)
  note u = retrievePayloads_Inr [OF p] and g = check_payloads_found [OF f]
  have pay: "(m_id r, q) \<in> set payloads \<longleftrightarrow> (\<exists>x \<in> set (w_points w). pt_id x = m_id r \<and> pt_payload x = q)"
    if "r \<in> set page" for r q
    using u that by (auto simp: image_iff)
  have mem: "m_id r \<in> fst ` set payloads \<longleftrightarrow> m_id r \<in> pt_id ` set (w_points w)" if "r \<in> set page" for r
  proof
    show "m_id r \<in> fst ` set payloads" if "m_id r \<in> pt_id ` set (w_points w)"
      using that pay [OF \<open>r \<in> set page\<close>] by (metis fst_conv image_iff)
    show "m_id r \<in> pt_id ` set (w_points w)" if "m_id r \<in> fst ` set payloads"
      using that pay [OF \<open>r \<in> set page\<close>] by force
  qed
  have d: "distinct (map m_id page)" "distinct (map m_id (concat pages))"
    using Cons.prems(3) by (simp_all only: concat.simps map_append distinct_append)
  have view: "same_view w v" using check_page_Inr [OF step Cons.prems(2) d(1)] by simp
  then have ids: "map pt_id (w_points v) = map pt_id (w_points w)" by (simp add: same_view_def)
  then have idset: "pt_id ` set (w_points v) = pt_id ` set (w_points w)" by (metis set_map)
  have dv: "distinct (map pt_id (w_points v))" using ids Cons.prems(2) by simp
  note i = Cons.IH [OF rest dv d(2), unfolded idset]
  show ?case
  proof (intro conjI impI)
    show "set (snd (snd acc)) \<subseteq> set (snd (snd out))" using g i acc1 by auto
    show "\<forall>r \<in> set (concat (page # pages)). m_id r \<notin> pt_id ` set (w_points w) \<longrightarrow> missing_alert r \<in> set (snd (snd out))"
      using g i acc1 mem by auto
    assume clean: "\<forall>r \<in> set (concat (page # pages)). in_step r (w_points w)"
    have "\<forall>r \<in> set page. \<forall>q. (m_id r, q) \<in> set payloads \<longrightarrow> stale_fields r q = []"
      using clean pay by (auto simp: in_step_def)
    with g have "set (snd found) \<subseteq> set (snd (snd acc)) \<union> missing_alert ` {r \<in> set page. m_id r \<notin> fst ` set payloads} \<and> v = u \<and>
        fst found = fst (snd acc)"
      by blast
    then have found: "set (snd found) \<subseteq> set (snd (snd acc)) \<union> missing_alert ` {r \<in> set page. m_id r \<notin> fst ` set payloads}"
      and "v = u" and same: "fst found = fst (snd acc)" by simp_all
    then have vw: "w_points v = w_points w" using u by simp
    with i clean have "set (snd (snd out)) \<subseteq> set (snd (snd acc1)) \<union>
        missing_alert ` {r \<in> set (concat pages). m_id r \<notin> pt_id ` set (w_points w)}"
      and "fst (snd out) = fst (snd acc1)" and "w_points w' = w_points v" by simp_all
    moreover have "missing_alert ` {r \<in> set page. m_id r \<notin> fst ` set payloads} \<subseteq>
        missing_alert ` {r \<in> set (concat (page # pages)). m_id r \<notin> pt_id ` set (w_points w)}"
      using mem by (intro image_mono) auto
    moreover have "missing_alert ` {r \<in> set (concat pages). m_id r \<notin> pt_id ` set (w_points w)} \<subseteq>
        missing_alert ` {r \<in> set (concat (page # pages)). m_id r \<notin> pt_id ` set (w_points w)}"
      by (intro image_mono) auto
    ultimately show "set (snd (snd out)) \<subseteq> set (snd (snd acc)) \<union>
        missing_alert ` {r \<in> set (concat (page # pages)). m_id r \<notin> pt_id ` set (w_points w)}"
      and "fst (snd out) = fst (snd acc)" and "w_points w' = w_points w" using found acc1 same vw by (blast, simp_all)
  qed
qed (simp add: ret_def)

text \<open>The sources, files and memories a scan reads; alerts and audit rows are not among them.\<close>

definition sweep_view :: "world \<Rightarrow> world \<Rightarrow> bool" where
  "sweep_view w w' \<longleftrightarrow> (\<exists>as us. w_pg w' = (w_pg w)\<lparr>t_alert := as, t_audit := us\<rparr>) \<and>
     map pt_id (w_points w') = map pt_id (w_points w) \<and> w_objects w' = w_objects w \<and> w_clock w' = w_clock w"

lemma receipt_found_sweep_view: "sweep_view w w' \<Longrightarrow> receipt_found w' = receipt_found w"
  by (rule ext) (auto simp: receipt_found_def sweep_view_def rows_present_def resurrected_def split: option.splits)

lemma orphans_of_frame: "orphans_of g (d\<lparr>t_alert := as, t_audit := us\<rparr>) = orphans_of g d"
proof -
  have "port_owner_of a i (d\<lparr>t_alert := as, t_audit := us\<rparr>) = port_owner_of a i d" if "a \<in> set SOURCE_DELETIONS" for a i
    using that by (auto simp: row_owner_def chat_owner_def SOURCE_DELETIONS_def NotesSourceDeletion_def ChatSourceDeletion_def
      EmailSourceDeletion_def TaskConclusionSourceDeletion_def WebSourceDeletion_def)
  moreover have "a \<in> set SOURCE_DELETIONS" if "adapter_for st = Some a" for st a
    using that by (auto simp: adapter_for_def find_Some_iff)
  ultimately show ?thesis by (auto simp: orphans_of_def derived_rows_def split: option.splits)
qed

lemma known_of_frame: "known_of b (d\<lparr>t_alert := as, t_audit := us\<rparr>) = known_of b d"
  by (simp add: known_of_def email_owns_keys_def web_owns_keys_def SOURCE_DELETIONS_def NotesSourceDeletion_def ChatSourceDeletion_def
      EmailSourceDeletion_def TaskConclusionSourceDeletion_def WebSourceDeletion_def)

lemma known_keys_frame: "known_keys ks (d\<lparr>t_alert := as, t_audit := us\<rparr>) = known_keys ks d"
proof (induction "length ks" arbitrary: ks rule: less_induct)
  case less
  then show ?case by (subst (1 2) known_keys.simps) (simp add: known_of_frame)
qed

lemma findOrphanedObjects_Inr:
  assumes "findOrphanedObjects g w = (Inr out, w')"
  shows "out = (length (w_objects w), orphaned_objects g (w_objects w) (w_pg w) (w_clock w)) \<and>
    same_view w w' \<and> w_points w' = w_points w"
  using assms unfolding findOrphanedObjects_def listObjects_def
  by (auto elim!: bindA_InrE dest!: external_Inr simp: reads_def same_view_def)

lemma findOrphanedMemories_Inr:
  assumes "findOrphanedMemories w = (Inr out, w')"
  shows "out = concat (map (\<lambda>g. orphans_of g (w_pg w)) (source_groups (w_pg w))) \<and>
    same_view w w' \<and> w_points w' = w_points w"
proof -
  have "fold_each collect_orphans gs acc w = (Inr out, w') \<Longrightarrow>
      out = acc @ concat (map (\<lambda>g. orphans_of g (w_pg w)) gs) \<and> same_view w w' \<and> w_points w' = w_points w"
    for gs acc
  proof (induction gs arbitrary: acc w)
    case (Cons g gs)
    then obtain acc1 v where step: "collect_orphans acc g w = (Inr acc1, v)"
        and rest: "fold_each collect_orphans gs acc1 v = (Inr out, w')"
      by (auto elim!: bindA_InrE)
    from step have "acc1 = acc @ orphans_of g (w_pg w) \<and> w_pg v = w_pg w \<and> w_points v = w_points w \<and> same_view w v"
      by (auto elim!: bindA_InrE simp: collect_orphans_def transaction_def reads_def ret_def same_view_def split: fault.splits)
    with Cons.IH [OF rest] show ?case by (auto intro: same_view_trans)
  qed (simp add: ret_def)
  from this [of _ "[]"] assms show ?thesis by (simp add: findOrphanedMemories_def)
qed


lemma reconcilePayloads_found:
  assumes "reconcilePayloads w = (Inr out, w')"
    and ps: "distinct (map pt_id (w_points w))" and rows: "distinct (map m_id (t_memory (w_pg w)))"
  defines "gone \<equiv> missing_alert `
    {r \<in> set (t_memory (w_pg w)). m_embedding_model r \<noteq> None \<and> m_id r \<notin> pt_id ` set (w_points w)}"
  shows "gone \<subseteq> set (snd (snd out)) \<and>
    ((\<forall>r \<in> set (t_memory (w_pg w)). m_embedding_model r \<noteq> None \<longrightarrow> in_step r (w_points w)) \<longrightarrow>
      set (snd (snd out)) \<subseteq> gone \<and> fst (snd out) = 0 \<and> w_points w' = w_points w)"
proof -
  let ?rows = "t_memory (w_pg w)"
  note run = assms(1) [unfolded reconcilePayloads_def reads_bind]
  have "distinct (map m_id (concat (payload_pages ?rows None)))"
    using rows unfolding payload_pages_cover [OF rows] embedded_after_def distinct_map
    by (auto simp: distinct_map inj_on_def)
  from check_pages_found [OF run ps this] show ?thesis
    unfolding payload_pages_cover [OF rows] gone_def by (auto simp: embedded_after_set)
qed

subsubsection \<open>Alerts are inserted once\<close>

abbreviation alerted :: "pg \<Rightarrow> found_alert \<Rightarrow> bool" where
  "alerted d f \<equiv> list_ex (same_alert (alert_of 0 f)) (t_alert d)"

lemma alerted_any_time: "list_ex (same_alert (alert_of now f)) rows = list_ex (same_alert (alert_of 0 f)) rows"
  by (simp add: same_alert_def [abs_def] alert_of_def)

lemma insert_alert_cases:
  "insert_alert n f w =
     (if alerted (w_pg w) f then (Inr n, w)
      else (Inr (Suc n), update_pg (\<lambda>d. d\<lparr>t_alert := t_alert d @ [alert_of (w_clock w) f]\<rparr>) w))"
  by (simp add: insert_alert_def Let_def alerted_any_time [of "w_clock w"])

lemma insert_alerts_Inr:
  assumes "fold_each insert_alert found n w = (Inr m, w')"
  shows "(\<exists>rows. w' = update_pg (\<lambda>d. d\<lparr>t_alert := t_alert d @ rows\<rparr>) w) \<and> (\<forall>f \<in> set found. alerted (w_pg w') f)"
  using assms
proof (induction found arbitrary: n w)
  case Nil
  then have "w' = update_pg (\<lambda>d. d\<lparr>t_alert := t_alert d @ []\<rparr>) w" by (simp add: ret_def update_pg_def)
  then show ?case by (intro conjI exI) (assumption, simp)
next
  case (Cons f found)
  then obtain n1 v where step: "insert_alert n f w = (Inr n1, v)"
      and rest: "fold_each insert_alert found n1 v = (Inr m, w')"
    by (auto elim!: bindA_InrE)
  from step obtain new where v: "v = update_pg (\<lambda>d. d\<lparr>t_alert := t_alert d @ new\<rparr>) w" and f: "alerted (w_pg v) f"
  proof (cases "alerted (w_pg w) f")
    case True
    then have "v = update_pg (\<lambda>d. d\<lparr>t_alert := t_alert d @ []\<rparr>) w" using step
      by (simp add: insert_alert_cases update_pg_def)
    from that [OF this] True this show thesis by simp
  next
    case False
    then have "v = update_pg (\<lambda>d. d\<lparr>t_alert := t_alert d @ [alert_of (w_clock w) f]\<rparr>) w" using step
      by (simp add: insert_alert_cases)
    with that show thesis by (simp add: same_alert_def alert_of_def)
  qed
  from Cons.IH [OF rest] obtain rows where w': "w' = update_pg (\<lambda>d. d\<lparr>t_alert := t_alert d @ rows\<rparr>) v"
      and known: "\<forall>f \<in> set found. alerted (w_pg w') f" by blast
  have "w' = update_pg (\<lambda>d. d\<lparr>t_alert := t_alert d @ (new @ rows)\<rparr>) w"
    using v w' by (simp add: update_pg_def)
  moreover have "alerted (w_pg w') f" using f w' by simp
  ultimately show ?case using known by (intro conjI exI) (assumption, simp)
qed

lemma insert_alerts_known:
  "(\<And>f. f \<in> set found \<Longrightarrow> alerted (w_pg w) f) \<Longrightarrow> fold_each insert_alert found n w = (Inr n, w)"
  by (induction found) (simp_all add: ret_def bindA_def insert_alert_cases)


subsubsection \<open>The run as a whole\<close>

definition scan_found :: "nat \<Rightarrow> world \<Rightarrow> found_alert list" where
  "scan_found graceMinutes w =
     concat (map (receipt_found w) (confirmed_rows (w_pg w))) @
     concat (map (\<lambda>g. orphans_of g (w_pg w)) (source_groups (w_pg w))) @
     orphaned_objects graceMinutes (w_objects w) (w_pg w) (w_clock w)"

definition chain_found :: "(string \<Rightarrow> string) \<Rightarrow> (string \<Rightarrow> string \<Rightarrow> bool) \<Rightarrow> world \<Rightarrow> found_alert list" where
  "chain_found sha sig_ok w = chain_alerts (verifyChain sha sig_ok (map toConfirmedReceipt (confirmed_rows (w_pg w))))"

lemma scan_found_view: "sweep_view w w' \<Longrightarrow> scan_found g w' = scan_found g w \<and> chain_found sha sig_ok w' = chain_found sha sig_ok w"
  using receipt_found_sweep_view [of w w']
  by (auto simp: scan_found_def chain_found_def sweep_view_def confirmed_rows_def source_groups_def
      orphans_of_frame orphaned_objects_def known_keys_frame)

lemma sweep_run_Inr:
  assumes "sweep_run sha sig_ok g w = (Inr rep, w')"
  obtains v checked healed mism v' u n where
    "same_view w v" "w_points v = w_points w" "reconcilePayloads v = (Inr (checked, healed, mism), v')"
    "fold_each insert_alert (scan_found g w @ mism @ chain_found sha sig_ok w) 0 v' = (Inr n, u)"
    "sw_new_alerts rep = n" "sw_payloads_healed rep = healed" "w_points w' = w_points u"
    "w_objects w' = w_objects u" "w_clock w' = w_clock u"
    "(w_pg w')\<lparr>t_audit := t_audit (w_pg u)\<rparr> = w_pg u"
proof -
  let ?c = "confirmed_rows (w_pg w)"
  from assms obtain receipts ids v1 orphans v2 scanned objs v3 checked healed mism v4 n u where
      a: "fold_each check_receipt ?c ([], 0) w = (Inr (receipts, ids), v1)"
      and b: "findOrphanedMemories v1 = (Inr orphans, v2)"
      and c: "findOrphanedObjects g v2 = (Inr (scanned, objs), v3)"
      and d: "reconcilePayloads v3 = (Inr (checked, healed, mism), v4)"
      and e: "fold_each insert_alert (receipts @ orphans @ objs @ mism @
          chain_alerts (verifyChain sha sig_ok (map toConfirmedReceipt ?c))) 0 v4 = (Inr n, u)"
      and f: "sw_new_alerts rep = n" "sw_payloads_healed rep = healed" "w_points w' = w_points u"
        "w_objects w' = w_objects u" "w_clock w' = w_clock u" "(w_pg w')\<lparr>t_audit := t_audit (w_pg u)\<rparr> = w_pg u"
    unfolding sweep_run_def reads_bind Let_def
    by (elim bindA_InrE) (auto simp: ret_def draw_uuid_def writeAudit_def updates_def elim!: bindA_InrE thenA_InrE)
  note sa = check_receipts_Inr [OF a] and sb = findOrphanedMemories_Inr [OF b] and sc = findOrphanedObjects_Inr [OF c]
  have "receipts @ orphans @ objs = scan_found g w"
    using sa sb sc by (simp add: scan_found_def same_view_def)
  with e have "fold_each insert_alert (scan_found g w @ mism @ chain_found sha sig_ok w) 0 v4 = (Inr n, u)"
    by (simp add: chain_found_def flip: append_assoc)
  moreover have "same_view w v3" "w_points v3 = w_points w" using sa sb sc same_view_trans by (blast, simp)
  ultimately show thesis using that [OF _ _ d] f by blast
qed


definition points_gone :: "world \<Rightarrow> found_alert list" where
  "points_gone w = map missing_alert
     (filter (\<lambda>r. m_embedding_model r \<noteq> None \<and> m_id r \<notin> pt_id ` set (w_points w)) (t_memory (w_pg w)))"

lemma points_gone_view: "sweep_view w w' \<Longrightarrow> set (points_gone w') = set (points_gone w)"
  by (auto simp: sweep_view_def points_gone_def dest!: arg_cong [where f = set])

text \<open>After a run every finding that a later run can make again is alerted, and the index is in step.\<close>

lemma sweep_run_settles:
  assumes "sweep_run sha sig_ok g w = (Inr rep, w')"
    and ps: "distinct (map pt_id (w_points w))" and rows: "distinct (map m_id (t_memory (w_pg w)))"
  shows "sweep_view w w'"
    and "\<And>f. f \<in> set (scan_found g w @ points_gone w @ chain_found sha sig_ok w) \<Longrightarrow> alerted (w_pg w') f"
    and "\<And>r. r \<in> set (t_memory (w_pg w)) \<Longrightarrow> m_embedding_model r \<noteq> None \<Longrightarrow> in_step r (w_points w')"
proof -
  obtain v checked healed mism v' u where
      v: "same_view w v" "w_points v = w_points w" and rec: "reconcilePayloads v = (Inr (checked, healed, mism), v')"
      and ins: "fold_each insert_alert (scan_found g w @ mism @ chain_found sha sig_ok w) 0 v' = (Inr (sw_new_alerts rep), u)"
      and w': "w_points w' = w_points u" "w_objects w' = w_objects u" "w_clock w' = w_clock u"
        "(w_pg w')\<lparr>t_audit := t_audit (w_pg u)\<rparr> = w_pg u"
    by (rule sweep_run_Inr [OF assms(1)]) blast
  have rv: "distinct (map m_id (t_memory (w_pg v)))" and pv: "distinct (map pt_id (w_points v))"
    using rows ps v by (simp_all add: same_view_def)
  note heal = reconcilePayloads_Inr [OF rec pv rv] and gone = reconcilePayloads_found [OF rec pv rv]
  note u = insert_alerts_Inr [OF ins]
  obtain more where pg: "w_pg u = (w_pg v')\<lparr>t_alert := t_alert (w_pg v') @ more\<rparr>"
      and side: "w_points u = w_points v'" "w_objects u = w_objects v'" "w_clock u = w_clock v'"
    using u by (auto simp: update_pg_def)
  have same: "same_view w v'" using v heal same_view_trans by blast
  have "w_pg w' = (w_pg u)\<lparr>t_audit := t_audit (w_pg w')\<rparr>"
    using arg_cong [OF w'(4), of "\<lambda>d. d\<lparr>t_audit := t_audit (w_pg w')\<rparr>"] by simp
  then have "w_pg w' = (w_pg w)\<lparr>t_alert := t_alert (w_pg w) @ more, t_audit := t_audit (w_pg w')\<rparr>"
    using pg same by (simp add: same_view_def)
  with w' side same show "sweep_view w w'"
    unfolding sweep_view_def same_view_def by auto
  have "t_alert (w_pg w') = t_alert (w_pg u)" using arg_cong [OF w'(4), of t_alert] by simp
  moreover have "set (points_gone w) \<subseteq> set mism" using gone v by (simp add: points_gone_def same_view_def)
  ultimately show "alerted (w_pg w') f" if "f \<in> set (scan_found g w @ points_gone w @ chain_found sha sig_ok w)" for f
    using u that by auto
  show "in_step r (w_points w')" if "r \<in> set (t_memory (w_pg w))" "m_embedding_model r \<noteq> None" for r
    using heal that v side w' by (simp add: same_view_def)
qed

text \<open>
  A sweep that follows another one with no change in between raises no new alert, heals
  no payload and changes neither the alerts nor the points.
\<close>

theorem sweep_idempotent:
  assumes first: "sweep_run sha sig_ok g w = (Inr rep1, w1)" and second: "sweep_run sha sig_ok g w1 = (Inr rep2, w2)"
    and ps: "distinct (map pt_id (w_points w))" and rows: "distinct (map m_id (t_memory (w_pg w)))"
  shows "sw_new_alerts rep2 = 0 \<and> sw_payloads_healed rep2 = 0 \<and>
    t_alert (w_pg w2) = t_alert (w_pg w1) \<and> w_points w2 = w_points w1"
proof -
  note settled = sweep_run_settles [OF first ps rows]
  obtain x checked healed mism x' y where
      x: "same_view w1 x" "w_points x = w_points w1" and rec: "reconcilePayloads x = (Inr (checked, healed, mism), x')"
      and ins: "fold_each insert_alert (scan_found g w1 @ mism @ chain_found sha sig_ok w1) 0 x' = (Inr (sw_new_alerts rep2), y)"
      and w2: "sw_payloads_healed rep2 = healed" "w_points w2 = w_points y" "(w_pg w2)\<lparr>t_audit := t_audit (w_pg y)\<rparr> = w_pg y"
    by (rule sweep_run_Inr [OF second]) blast
  have mem: "t_memory (w_pg x) = t_memory (w_pg w)" "map pt_id (w_points x) = map pt_id (w_points w)"
    using settled(1) x by (auto simp: sweep_view_def same_view_def)
  then have rx: "distinct (map m_id (t_memory (w_pg x)))" and px: "distinct (map pt_id (w_points x))"
    using rows ps by simp_all
  have "set mism \<subseteq> set (points_gone x) \<and> healed = 0 \<and> w_points x' = w_points x"
    using reconcilePayloads_found [OF rec px rx] settled(3) mem x by (simp add: points_gone_def)
  moreover have "set (points_gone x) = set (points_gone w)"
    using points_gone_view [OF settled(1)] x by (simp add: points_gone_def same_view_def)
  ultimately have clean: "set mism \<subseteq> set (points_gone w)" "healed = 0" "w_points x' = w_points x" by simp_all
  have pg: "w_pg x' = w_pg w1" using x reconcilePayloads_Inr [OF rec px rx] by (simp add: same_view_def)
  have "alerted (w_pg x') f" if "f \<in> set (scan_found g w1 @ mism @ chain_found sha sig_ok w1)" for f
    unfolding pg by (rule settled(2)) (use that clean scan_found_view [OF settled(1), of g sha sig_ok] in auto)
  from insert_alerts_known [where found = "scan_found g w1 @ mism @ chain_found sha sig_ok w1" and w = x' and n = 0, OF this] have "sw_new_alerts rep2 = 0 \<and> y = x'"
    using ins by simp
  moreover have "t_alert (w_pg w2) = t_alert (w_pg y)" using arg_cong [OF w2(3), of t_alert] by simp
  ultimately show ?thesis using clean w2 x pg by simp
qed


theorem sweep_idempotent_witness:
  "map_sum id sw_new_alerts (fst (sweep_run id (\<lambda>_ _. True) 60 sweep_demo)) = Inr 8 \<and>
   map_sum id sw_new_alerts (fst (sweep_run id (\<lambda>_ _. True) 60
     (snd (sweep_run id (\<lambda>_ _. True) 60 sweep_demo)))) = Inr 0"
proof -
  let ?s = "sweep_run id (\<lambda>_ _. True) 60"
  let ?m = "?s sweep_demo"
  let ?n = "?s (snd ?m)"
  have one: "map_sum id sw_new_alerts (fst ?m) = Inr 8" by code_simp
  have two: "map_sum id sw_receipts_checked (fst ?n) = Inr 0" by code_simp
  obtain rep1 where "fst ?m = Inr rep1" using one by (cases "fst ?m") auto
  note m = run_pair [OF this]
  obtain rep2 where n2: "fst ?n = Inr rep2" using two by (cases "fst ?n") auto
  note n = run_pair [OF this]
  have d: "distinct (map pt_id (w_points sweep_demo))" "distinct (map m_id (t_memory (w_pg sweep_demo)))"
    by (simp_all add: sweep_demo_def sample_world_def sample_pg_def sample_rows_def sample_point_def)
  show ?thesis using sweep_idempotent [OF m n d] one n2 by simp
qed

end
