(* ===== verification/Job_Queue.thy ===== *)
theory Job_Queue
  imports Deletion_Laws
begin

text \<open>
  The job runner's contract, \<^verbatim>\<open>infrastructure/queue.ts\<close>: a job's effect and the claim of its
  idempotency key share one transaction, a duplicate delivery finds the key and skips, the
  last failing attempt parks the job in the dead-letter table, and a continuation of the
  handler runs after the commit without being able to fail the job. Advisory locks are not
  modelled (an operation runs alone); \<open>describe\<close> is the text of an error object, which in the
  code comes from the libraries that threw it.

  Also the in-process counters of the same module: rate limits, daily counters and the model
  budget.
\<close>

subsection \<open>The transaction of a job\<close>

definition key_of :: "string \<Rightarrow> job_payload \<Rightarrow> job_key" where
  "key_of jobType p =
     \<lparr>k_source_type = j_source_type p, k_source_id = j_source_id p, k_job_type = jobType\<rparr>"

definition payload_ok :: "job_payload \<Rightarrow> bool" where
  "payload_ok p \<longleftrightarrow> j_source_type p \<noteq> [] \<and> j_source_id p \<noteq> []"

text \<open>A handler returns the continuation to run after the commit, if any.\<close>

type_synonym job_handler = "job_payload \<Rightarrow> unit op option op"

definition claim_and_run :: "string \<Rightarrow> job_handler \<Rightarrow> job_payload \<Rightarrow> unit op option op" where
  "claim_and_run jobType handler p =
     transaction (
       bindA (consumeIdempotencyKey (key_of jobType p)) (\<lambda>claimed.
         if \<not> claimed then ret None else handler p))"

definition best_effort :: "unit op \<Rightarrow> unit op" where
  "best_effort m w = (Inr (), snd (m w))"

subsection \<open>The dead-letter table\<close>

definition DEAD_LETTER_WRITE_ATTEMPTS :: nat where
  "DEAD_LETTER_WRITE_ATTEMPTS = 3"

definition insert_dead_letter :: "dead_letter_row \<Rightarrow> unit op" where
  "insert_dead_letter row =
     transaction (updates (update_pg (\<lambda>d. d\<lparr>t_dead_letter := t_dead_letter d @ [row]\<rparr>)))"

fun park :: "err \<Rightarrow> dead_letter_row \<Rightarrow> nat \<Rightarrow> unit op" where
  "park e row 0 = raise e"
| "park e row (Suc left) =
     (\<lambda>w. case insert_dead_letter row w of
        (Inr _, w') \<Rightarrow> (Inr (), w')
      | (Inl _, w') \<Rightarrow> park e row left w')"

definition idempotentTask ::
  "(err \<Rightarrow> string) \<Rightarrow> string \<Rightarrow> job_handler \<Rightarrow> job_payload \<Rightarrow> nat \<Rightarrow> nat \<Rightarrow> unit op" where
  "idempotentTask describe jobType handler p attempts maxAttempts w =
     (if \<not> payload_ok p then (Inl (Failure ''job payload does not parse''), w)
      else case claim_and_run jobType handler p w of
        (Inr None, w') \<Rightarrow> (Inr (), w')
      | (Inr (Some after), w') \<Rightarrow> best_effort after w'
      | (Inl e, w') \<Rightarrow>
          (if maxAttempts \<le> attempts
           then park e \<lparr>d_job_type = jobType, d_payload = p, d_error = describe e, d_attempts = attempts\<rparr>
                  DEAD_LETTER_WRITE_ATTEMPTS w'
           else (Inl e, w')))"

text \<open>
  The single-flight guard of the recurring jobs; \<open>held\<close> says which names are running. The body
  runs on connections of its own, so that the wrapping transaction holds the lock and nothing
  else: if it fails, the effects of the body stay.
\<close>

definition lock_transaction :: "'a op \<Rightarrow> 'a op" where
  "lock_transaction body w =
     (case body w of
        (Inl e, w') \<Rightarrow> (Inl e, w')
      | (Inr a, w') \<Rightarrow> (if next_fault w' = Fine then (Inr a, pop_fault w') else (Inl CommitFailed, pop_fault w')))"

definition runSingleFlight :: "(string \<Rightarrow> bool) \<Rightarrow> string \<Rightarrow> 'a op \<Rightarrow> 'a option op" where
  "runSingleFlight held name fn =
     lock_transaction (if held name then ret None else bindA fn (\<lambda>result. ret (Some result)))"

subsection \<open>Executed keys are never forgotten\<close>

definition keys_grow :: "world \<Rightarrow> world \<Rightarrow> bool" where
  "keys_grow w w' \<longleftrightarrow> w_uuids w' = w_uuids w \<and> w_drawn w \<le> w_drawn w' \<and>
     set (t_job_execution (w_pg w)) \<subseteq> set (t_job_execution (w_pg w'))"

interpretation keys: pg_evolution "\<lambda>_. True" keys_grow
  by unfold_locales (auto simp: keys_grow_def outside_pg_def)

abbreviation grows :: "'a op \<Rightarrow> bool" where
  "grows m \<equiv> keeps (\<lambda>_. True) keys_grow m"

lemma grows_run: "grows m \<Longrightarrow> m w = (r, w') \<Longrightarrow> set (t_job_execution (w_pg w)) \<subseteq> set (t_job_execution (w_pg w'))"
  using keeps_run [of "\<lambda>_. True" keys_grow m w r w'] by (simp add: keys_grow_def)

lemma grows_frame:
  assumes "\<And>w r w'. m w = (r, w') \<Longrightarrow> w_uuids w' = w_uuids w \<and> w_drawn w \<le> w_drawn w' \<and>
      set (t_job_execution (w_pg w)) \<subseteq> set (t_job_execution (w_pg w'))"
  shows "grows m"
proof (rule keeps_fromI)
  fix w
  show "keeps_from (\<lambda>_. True) keys_grow m w"
    using assms by (cases "m w") (simp add: keeps_from_def wp_def keys_grow_def)
qed

lemma grows_update:
  assumes "\<And>d. t_job_execution (f d) = t_job_execution d"
  shows "grows (updates (update_pg f))"
  by (rule grows_frame) (auto simp: updates_def assms)

lemma grows_writeAudit: "grows (writeAudit e)"
  unfolding writeAudit_def by (rule grows_frame) (auto simp: updates_def)

lemma grows_consume: "grows (consumeIdempotencyKey k)"
  by (rule grows_frame) (auto simp: consumeIdempotencyKey_def split: if_splits)

lemma consume_Inr:
  "consumeIdempotencyKey k w = (Inr b, w') \<Longrightarrow>
     b = (k \<notin> set (t_job_execution (w_pg w))) \<and> (b = False \<longrightarrow> w' = w) \<and> k \<in> set (t_job_execution (w_pg w'))"
  by (auto simp: consumeIdempotencyKey_def split: if_splits)

subsection \<open>The contract of a handler\<close>

text \<open>
  What the runner asks of a handler: it forgets no executed key, and its continuation writes no
  table.
\<close>

locale guarded_job =
  fixes handler :: job_handler
  assumes handler_grows: "grows (handler p)"
    and after_elsewhere: "handler p w = (Inr (Some after), w1) \<Longrightarrow> after w2 = (r, w3) \<Longrightarrow> w_pg w3 = w_pg w2"
begin

lemma claim_Inr:
  assumes "claim_and_run jobType handler p w = (Inr out, w')"
  shows "key_of jobType p \<in> set (t_job_execution (w_pg w'))"
    and "key_of jobType p \<notin> set (t_job_execution (w_pg w)) \<Longrightarrow>
      \<exists>v v'. handler p v = (Inr out, v') \<and> w_pg w' = w_pg v' \<and>
        v = update_pg (\<lambda>d. d\<lparr>t_job_execution := t_job_execution d @ [key_of jobType p]\<rparr>) w"
proof -
  let ?body = "bindA (consumeIdempotencyKey (key_of jobType p)) (\<lambda>claimed. if \<not> claimed then ret None else handler p)"
  obtain v where body: "?body w = (Inr out, v)" and w': "w_pg w' = w_pg v"
    using assms by (auto simp: claim_and_run_def transaction_def split: prod.splits sum.splits fault.splits)
  obtain b u where c: "consumeIdempotencyKey (key_of jobType p) w = (Inr b, u)"
      and h: "(if \<not> b then ret None else handler p) u = (Inr out, v)"
    using body by (auto elim!: bindA_InrE)
  note c' = consume_Inr [OF c]
  show "key_of jobType p \<in> set (t_job_execution (w_pg w'))"
    using c' h w' grows_run [OF handler_grows, of p u "Inr out" v] by (cases b) (auto simp: ret_def)
  assume "key_of jobType p \<notin> set (t_job_execution (w_pg w))"
  then have "u = update_pg (\<lambda>d. d\<lparr>t_job_execution := t_job_execution d @ [key_of jobType p]\<rparr>) w" "b"
    using c c' by (auto simp: consumeIdempotencyKey_def)
  with h w' show "\<exists>v v'. handler p v = (Inr out, v') \<and> w_pg w' = w_pg v' \<and>
        v = update_pg (\<lambda>d. d\<lparr>t_job_execution := t_job_execution d @ [key_of jobType p]\<rparr>) w"
    by auto
qed

end

text \<open>A commit that reports a failure has rolled the tables back unless its reply was lost.\<close>

definition no_lost_reply :: "world \<Rightarrow> bool" where
  "no_lost_reply w \<longleftrightarrow> LostReply \<notin> set (w_faults w)"

definition parked :: "dead_letter_row \<Rightarrow> world \<Rightarrow> world \<Rightarrow> nat \<Rightarrow> bool" where
  "parked row w w' n \<longleftrightarrow>
     w_pg w' = (w_pg w)\<lparr>t_dead_letter := t_dead_letter (w_pg w) @ replicate n row\<rparr> \<and>
     w_points w' = w_points w \<and> w_objects w' = w_objects w \<and> w_clock w' = w_clock w \<and>
     set (w_faults w') \<subseteq> set (w_faults w)"

lemma parked_trans: "parked row u v m \<Longrightarrow> parked row v w n \<Longrightarrow> parked row u w (m + n)"
  by (auto simp: parked_def replicate_add)

lemma insert_dead_letter_run:
  assumes "insert_dead_letter row w = (r, w')"
  shows "\<exists>n. parked row w w' n \<and> (r = Inr () \<longrightarrow> n = 1) \<and> (r \<noteq> Inr () \<and> no_lost_reply w \<longrightarrow> n = 0)"
proof -
  have tl: "set (tl (w_faults w)) \<subseteq> set (w_faults w)" by (cases "w_faults w") auto
  show ?thesis
  proof (cases "next_fault w")
    case Fine
    then have "parked row w w' 1" "r = Inr ()" using assms tl
      by (auto simp: insert_dead_letter_def transaction_def updates_def next_fault_def parked_def pop_fault_def update_pg_def)
    then show ?thesis by auto
  next
    case RefusedCall
    then have "parked row w w' 0" "r \<noteq> Inr ()" using assms tl
      by (auto simp: insert_dead_letter_def transaction_def updates_def next_fault_def parked_def pop_fault_def update_pg_def)
    then show ?thesis by auto
  next
    case LostReply
    then have "parked row w w' 1" "r \<noteq> Inr ()" "\<not> no_lost_reply w" using assms tl
      by (auto simp: insert_dead_letter_def transaction_def updates_def next_fault_def parked_def pop_fault_def
          update_pg_def no_lost_reply_def split: list.splits)
    then show ?thesis by auto
  qed
qed

lemma park_outcome:
  assumes "park e row k w = (r, w')"
  shows "\<exists>n. parked row w w' n \<and> (r = Inr () \<longrightarrow> 0 < n) \<and> (r \<noteq> Inr () \<longrightarrow> r = Inl e) \<and>
    (r \<noteq> Inr () \<and> no_lost_reply w \<longrightarrow> n = 0)"
  using assms
proof (induction k arbitrary: w)
  case 0
  then have "parked row w w' 0" by (simp add: parked_def raise_def)
  then show ?case using 0 by (auto simp: raise_def)
next
  case (Suc k)
  obtain r1 v where ins: "insert_dead_letter row w = (r1, v)" by fastforce
  obtain m where m: "parked row w v m" "r1 = Inr () \<longrightarrow> m = 1" "r1 \<noteq> Inr () \<and> no_lost_reply w \<longrightarrow> m = 0"
    using insert_dead_letter_run [OF ins] by blast
  show ?case
  proof (cases r1)
    case (Inr u)
    then show ?thesis using Suc.prems ins m by auto
  next
    case (Inl x)
    then have "park e row k v = (r, w')" using Suc.prems ins by simp
    then obtain n where n: "parked row v w' n" "r = Inr () \<longrightarrow> 0 < n" "r \<noteq> Inr () \<longrightarrow> r = Inl e"
        "r \<noteq> Inr () \<and> no_lost_reply v \<longrightarrow> n = 0"
      using Suc.IH by blast
    moreover have "no_lost_reply w \<longrightarrow> no_lost_reply v" using m(1) by (auto simp: parked_def no_lost_reply_def)
    ultimately show ?thesis using parked_trans [OF m(1) n(1)] m(3) Inl by auto
  qed
qed

text \<open>The four ways a delivery ends.\<close>

lemma task_cases:
  assumes "idempotentTask describe jobType handler p attempts maxAttempts w = (r, w')"
  obtains (unparsed) "\<not> payload_ok p" "r = Inl (Failure ''job payload does not parse'')" "w' = w"
  | (committed) out v where "claim_and_run jobType handler p w = (Inr out, v)" "r = Inr ()"
      "w' = (case out of None \<Rightarrow> v | Some after \<Rightarrow> snd (after v))"
  | (retry) e where "claim_and_run jobType handler p w = (Inl e, w')" "r = Inl e" "attempts < maxAttempts"
  | (last) e v where "claim_and_run jobType handler p w = (Inl e, v)" "maxAttempts \<le> attempts"
      "park e \<lparr>d_job_type = jobType, d_payload = p, d_error = describe e, d_attempts = attempts\<rparr>
         DEAD_LETTER_WRITE_ATTEMPTS v = (r, w')"
proof (cases "payload_ok p")
  case False
  then show ?thesis using assms unparsed by (simp add: idempotentTask_def)
next
  case True
  obtain out v where c: "claim_and_run jobType handler p w = (out, v)" by fastforce
  show ?thesis
  proof (cases out)
    case (Inl e)
    with c have c: "claim_and_run jobType handler p w = (Inl e, v)" by simp
    show ?thesis
    proof (cases "maxAttempts \<le> attempts")
      case True
      with assms \<open>payload_ok p\<close> c show ?thesis by (intro last [OF c]) (simp_all add: idempotentTask_def)
    next
      case False
      with assms \<open>payload_ok p\<close> c show ?thesis by (intro retry [of e]) (simp_all add: idempotentTask_def)
    qed
  next
    case (Inr res)
    with c have c: "claim_and_run jobType handler p w = (Inr res, v)" by simp
    with assms True show ?thesis
      by (intro committed [OF c]) (auto simp: idempotentTask_def best_effort_def split: option.splits)
  qed
qed

text \<open>
  A contract that the claim of a key and a dead letter keep is kept by every delivery of a job
  whose handler and continuation keep it.
\<close>

locale delivery_contract = pg_evolution safe move
  for safe :: "world \<Rightarrow> bool" and move :: "world \<Rightarrow> world \<Rightarrow> bool" +
  assumes keeps_claim_key: "keeps safe move (consumeIdempotencyKey k)"
    and keeps_dead_letter: "keeps safe move (insert_dead_letter row)"
begin

lemma keeps_park: "keeps safe move (park e row n)"
proof (induction n)
  case (Suc n)
  show ?case
  proof (rule keeps_fromI)
    fix w :: world
    obtain r v where ins: "insert_dead_letter row w = (r, v)" by fastforce
    obtain r2 v2 where rest: "park e row n v = (r2, v2)" by fastforce
    show "keeps_from safe move (park e row (Suc n)) w"
      using keeps_run [OF keeps_dead_letter _ ins] keeps_run [OF Suc _ rest] ins rest move_trans [of w v v2]
      by (auto simp: keeps_from_def wp_def split: sum.splits)
  qed
qed (simp add: keeps_raise)

lemma keeps_delivery:
  assumes "\<And>p. keeps safe move (handler p)"
    and "\<And>w after w'. handler p w = (Inr (Some after), w') \<Longrightarrow> keeps safe move after"
  shows "keeps safe move (idempotentTask describe jobType handler p attempts maxAttempts)"
proof (rule keeps_fromI)
  fix w :: world
  have claim: "keeps safe move (claim_and_run jobType handler p)"
    unfolding claim_and_run_def by (intro control keeps_transaction assms(1) keeps_claim_key)
  have after: "keeps safe move after" if "claim_and_run jobType handler p w = (Inr (Some after), v)" for after v
    using that assms(2)
    by (auto simp: claim_and_run_def transaction_def bindA_def ret_def split: prod.splits sum.splits fault.splits if_splits)
  obtain r w' where run: "idempotentTask describe jobType handler p attempts maxAttempts w = (r, w')" by fastforce
  have "safe w \<longrightarrow> safe w' \<and> move w w'"
    using run
  proof (cases rule: task_cases)
    case (committed out v)
    show ?thesis
    proof (cases out)
      case None
      then show ?thesis using committed keeps_run [OF claim _ committed(1)] by simp
    next
      case (Some after')
      then have "keeps safe move after'" using after committed(1) by simp
      then show ?thesis
        using committed Some keeps_run [OF claim _ committed(1)] keeps_run [of safe move after' v] move_trans [of w v w']
        by (cases "after' v") simp
    qed
  next
    case (last e v)
    then show ?thesis
      using keeps_run [OF claim _ last(1)] keeps_run [OF keeps_park _ last(3)] move_trans [of w v w'] by simp
  next
    case (retry e)
    then show ?thesis using keeps_run [OF claim _ retry(1)] by simp
  qed (simp add: move_refl)
  with run show "keeps_from safe move (idempotentTask describe jobType handler p attempts maxAttempts) w"
    by (simp add: keeps_from_def wp_def)
qed

end

text \<open>
  C19. A delivery of a job whose idempotency key is already recorded changes no table but the
  dead letters, no index point and no object, whatever the handler is.
\<close>

theorem job_duplicate_skips:
  assumes "key_of jobType p \<in> set (t_job_execution (w_pg w))"
    and "idempotentTask describe jobType handler p attempts maxAttempts w = (r, w')"
  shows "w_points w' = w_points w \<and> w_objects w' = w_objects w \<and>
    (\<exists>letters. w_pg w' = (w_pg w)\<lparr>t_dead_letter := letters\<rparr>)"
proof -
  have claim: "out = Inr None \<or> out = Inl CommitFailed" "w_pg v = w_pg w" "w_points v = w_points w" "w_objects v = w_objects w"
    if "claim_and_run jobType handler p w = (out, v)" for out v
    using that assms(1)
    by (auto simp: claim_and_run_def consumeIdempotencyKey_def transaction_def bindA_def ret_def split: fault.splits)
  from assms(2) show ?thesis
  proof (cases rule: task_cases)
    case (last e v)
    with park_outcome [OF last(3)] claim [OF last(1)] show ?thesis by (auto simp: parked_def)
  next
    case (committed out v)
    with claim [OF committed(1)] show ?thesis by (auto intro: exI [of _ "t_dead_letter (w_pg w)"])
  next
    case (retry e)
    with claim [OF retry(1)] show ?thesis by (auto intro: exI [of _ "t_dead_letter (w_pg w)"])
  qed (auto intro: exI [of _ "t_dead_letter (w_pg w)"])
qed

lemma claim_Inl:
  "claim_and_run jobType handler p w = (Inl e, w') \<Longrightarrow> e \<noteq> CommitFailed \<Longrightarrow> w_pg w' = w_pg w"
  by (auto simp: claim_and_run_def transaction_def split: prod.splits sum.splits fault.splits)

text \<open>
  C20. A delivery that ends in an error other than an unconfirmed commit leaves the tables as
  they were, up to dead letters of this job written on its final attempt.
\<close>

theorem job_failure_clean:
  assumes "idempotentTask describe jobType handler p attempts maxAttempts w = (Inl e, w')" and "e \<noteq> CommitFailed"
  shows "\<exists>letters. w_pg w' = (w_pg w)\<lparr>t_dead_letter := t_dead_letter (w_pg w) @ letters\<rparr> \<and>
    set letters \<subseteq> {letter. d_payload letter = p \<and> maxAttempts \<le> attempts}"
proof -
  have same: "d = d\<lparr>t_dead_letter := t_dead_letter d @ []\<rparr>" for d by simp
  from assms(1) show ?thesis
  proof (cases rule: task_cases)
    case unparsed
    then show ?thesis using same by (intro exI [of _ "[]"]) simp
  next
    case (retry x)
    then show ?thesis using claim_Inl assms(2) by (intro exI [of _ "[]"]) simp
  next
    case (last x v)
    then obtain n where "parked \<lparr>d_job_type = jobType, d_payload = p, d_error = describe x, d_attempts = attempts\<rparr> v w' n" "e = x"
      using park_outcome [OF last(3)] by auto
    moreover from this have "w_pg v = w_pg w" using claim_Inl [OF last(1)] assms(2) by simp
    ultimately show ?thesis using last(2) by (auto simp: parked_def intro!: exI [of _ "replicate n _"])
  qed simp
qed

context guarded_job begin

lemma not_lost:
  assumes "idempotentTask describe jobType handler p attempts maxAttempts w = (Inr (), w')"
  shows "key_of jobType p \<in> set (t_job_execution (w_pg w')) \<or>
    list_ex (\<lambda>letter. d_payload letter = p \<and> d_job_type letter = jobType) (t_dead_letter (w_pg w'))"
  using assms
proof (cases rule: task_cases)
  case (committed out v)
  show ?thesis
  proof (cases out)
    case (Some after)
    from committed(1) obtain u u' where "handler p u = (Inr (Some after), u')"
      unfolding Some by (auto simp: claim_and_run_def transaction_def bindA_def ret_def
          split: prod.splits sum.splits fault.splits if_splits)
    then have "w_pg w' = w_pg v" using after_elsewhere [of p u after u' v] committed(3) Some by (cases "after v") simp
    then show ?thesis using claim_Inr(1) [OF committed(1)] by simp
  qed (use committed claim_Inr(1) in auto)
next
  case (last e v)
  then show ?thesis using park_outcome [OF last(3)] by (auto simp: parked_def list_ex_iff)
qed simp_all

end


subsection \<open>The deletion job\<close>

definition deletion_handler :: "(string \<Rightarrow> string) \<Rightarrow> (string \<Rightarrow> string) \<Rightarrow> job_handler" where
  "deletion_handler sha sign p = thenA (execute sha sign (j_source_id p)) (ret None)"

lemma grows_execute: "grows (execute sha sign i)"
proof -
  have "grows (deleteObject key)" for key
    unfolding deleteObject_def by (rule keys.keeps_external) (simp add: outside_pg_def)
  moreover have "grows chainTip"
    unfolding chainTip_def by (auto split: list.splits intro!: keys.control)
  moreover have "grows (confirm_row j p h s n)" for j p h s n
    unfolding confirm_row_def by (rule grows_update) simp
  ultimately show ?thesis
    unfolding execute_def Let_def
    by (auto split: option.splits intro!: keys.control keys.outside_ops grows_writeAudit)
qed

interpretation deletion_leg: guarded_job "deletion_handler sha sign" for sha sign
proof unfold_locales
  show "grows (deletion_handler sha sign p)" for p
    unfolding deletion_handler_def by (intro keys.control grows_execute)
qed (auto simp: deletion_handler_def ret_def elim!: thenA_InrE)

text \<open>A first delivery that the queue counts as done confirmed the receipt or left a dead letter.\<close>

lemma first_delivery_settles:
  assumes run: "idempotentTask describe DELETION_JOB_TYPE (deletion_handler sha sign) p attempts maxAttempts w = (Inr (), w')"
    and fresh: "key_of DELETION_JOB_TYPE p \<notin> set (t_job_execution (w_pg w))"
    and receipts: "distinct (map r_id (t_receipt (w_pg w)))"
  shows "(\<exists>r \<in> set (t_receipt (w_pg w')). r_id r = j_source_id p \<and> r_status r = Confirmed) \<or>
    (\<exists>letter \<in> set (t_dead_letter (w_pg w')). d_payload letter = p \<and> d_job_type letter = DELETION_JOB_TYPE)"
  using run
proof (cases rule: task_cases)
  case (committed out v)
  obtain u u' where h: "deletion_handler sha sign p u = (Inr out, u')" and v: "w_pg v = w_pg u'"
      and u: "u = update_pg (\<lambda>d. d\<lparr>t_job_execution := t_job_execution d @ [key_of DELETION_JOB_TYPE p]\<rparr>) w"
    using deletion_leg.claim_Inr(2) [OF committed(1) fresh] by blast
  then obtain res where x: "execute sha sign (j_source_id p) u = (Inr res, u')" and "out = None"
    by (auto simp: deletion_handler_def ret_def elim!: thenA_InrE)
  have d: "distinct (map r_id (t_receipt (w_pg u)))" using receipts u by simp
  obtain r where r: "find (\<lambda>q. r_id q = j_source_id p) (t_receipt (w_pg u)) = Some r"
      "r_status r = Confirmed \<and> u' = u \<or> (\<exists>prev. t_receipt (w_pg u') =
        update_where (\<lambda>q. r_id q = j_source_id p) (\<lambda>_. sealed sha sign prev (w_clock u) r) (t_receipt (w_pg u)))"
    using execute_Inr [OF x d] by (auto split: if_splits)
  then have mem: "r \<in> set (t_receipt (w_pg u))" "r_id r = j_source_id p" by (auto simp: find_Some_iff)
  from r(2) show ?thesis
  proof
    assume "r_status r = Confirmed \<and> u' = u"
    then show ?thesis using mem committed(3) \<open>out = None\<close> v by auto
  next
    assume "\<exists>prev. t_receipt (w_pg u') =
        update_where (\<lambda>q. r_id q = j_source_id p) (\<lambda>_. sealed sha sign prev (w_clock u) r) (t_receipt (w_pg u))"
    then obtain prev where "sealed sha sign prev (w_clock u) r \<in> set (t_receipt (w_pg u'))"
      using mem by (force simp: update_where_def)
    moreover have "r_id (sealed sha sign prev (w_clock u) r) = j_source_id p \<and>
        r_status (sealed sha sign prev (w_clock u) r) = Confirmed"
      using mem by simp
    ultimately show ?thesis using committed(3) \<open>out = None\<close> v by (intro disjI1 bexI) simp_all
  qed
next
  case (last e v)
  then show ?thesis using park_outcome [OF last(3)] by (auto simp: parked_def)
qed simp_all


subsection \<open>Runs without faults\<close>

interpretation calm: evolution "\<lambda>w. w_faults w = []" "\<lambda>_ _. True"
  by unfold_locales auto

abbreviation stays_calm :: "'a op \<Rightarrow> bool" where
  "stays_calm m \<equiv> keeps (\<lambda>w. w_faults w = []) (\<lambda>_ _. True) m"

lemma calm_frame: "(\<And>w r w'. m w = (r, w') \<Longrightarrow> w_faults w = [] \<Longrightarrow> w_faults w' = []) \<Longrightarrow> stays_calm m"
  by (rule keeps_fromI) (auto simp: keeps_from_def wp_def split: prod.splits)

lemma calm_external: "(\<And>w. w_faults (effect w) = w_faults w) \<Longrightarrow> stays_calm (external e answer effect)"
  by (rule calm_frame) (auto simp: external_def next_fault_def pop_fault_def)

lemma transaction_calm:
  "body w = (Inr x, v) \<Longrightarrow> w_faults v = [] \<Longrightarrow> transaction body w = (Inr x, pop_fault v)"
  by (simp add: transaction_def next_fault_def)

lemma calm_transaction:
  assumes "stays_calm body"
  shows "stays_calm (transaction body)"
proof (rule calm_frame)
  fix w r w'
  assume run: "transaction body w = (r, w')" and calm: "w_faults w = []"
  obtain r1 v where body: "body w = (r1, v)" by fastforce
  have "w_faults v = []" using keeps_run [OF assms calm body] by simp
  show "w_faults w' = []"
  proof (cases r1)
    case (Inl e)
    with body have "transaction body w = (Inl e, v\<lparr>w_pg := w_pg w\<rparr>)" by (simp add: transaction_def)
    with run \<open>w_faults v = []\<close> show ?thesis by auto
  next
    case (Inr x)
    with transaction_calm [of body w x v] body run \<open>w_faults v = []\<close> show ?thesis by (auto simp: pop_fault_def)
  qed
qed

lemma calm_writeAudit: "stays_calm (writeAudit e)"
  unfolding writeAudit_def by (rule calm_frame) (auto simp: updates_def)

lemma calm_execute: "stays_calm (execute sha sign i)"
proof -
  have "stays_calm (deleteObject key)" for key
    unfolding deleteObject_def by (rule calm_external) simp
  moreover have "stays_calm (deletePoints ids)" for ids
    unfolding deletePoints_def by (auto intro!: calm.keeps_ret calm_external)
  moreover have "stays_calm chainTip"
    unfolding chainTip_def by (auto split: list.splits intro!: calm.control)
  moreover have "stays_calm (confirm_row j p h s n)" for j p h s n
    unfolding confirm_row_def by (rule calm_frame) (auto simp: updates_def)
  ultimately show ?thesis
    unfolding execute_def Let_def by (auto split: option.splits intro!: calm.control calm_writeAudit)
qed

subsection \<open>Applications\<close>

abbreviation demo_leg :: "job_payload \<Rightarrow> world \<Rightarrow> (err + unit) \<times> world" where
  "demo_leg p \<equiv> idempotentTask (\<lambda>_. ''error'') DELETION_JOB_TYPE (deletion_handler demo_sha (\<lambda>h. h)) p 1 10"

definition demo_payload :: job_payload where
  "demo_payload = \<lparr>j_source_type = DELETION_JOB_SOURCE_TYPE, j_source_id = sample_id 5\<rparr>"

lemma demo_claim:
  "\<exists>v. claim_and_run DELETION_JOB_TYPE (deletion_handler demo_sha (\<lambda>h. h)) demo_payload erase_demo = (Inr None, v)"
proof -
  obtain counts where rows: "t_receipt (w_pg erase_demo) = [receipt_pending (sample_id 5) UserNote ''note'' counts]"
    using erase_demo_receipts by blast
  let ?k = "key_of DELETION_JOB_TYPE demo_payload"
  let ?u = "update_pg (\<lambda>d. d\<lparr>t_job_execution := t_job_execution d @ [?k]\<rparr>) erase_demo"
  have claim: "consumeIdempotencyKey ?k erase_demo = (Inr True, ?u)"
  proof -
    have "t_job_execution (w_pg erase_demo) =
        [\<lparr>k_source_type = ''user_note'', k_source_id = ''note'', k_job_type = INGESTION_PIPELINE_JOB_TYPE\<rparr>]"
      unfolding erase_demo_def by code_simp
    then show ?thesis
      by (simp add: consumeIdempotencyKey_def key_of_def demo_payload_def DELETION_JOB_SOURCE_TYPE_def)
  qed
  let ?p = "receipt_pending (sample_id 5) UserNote ''note'' counts"
  have "find (\<lambda>q. r_id q = sample_id 5) (t_receipt (w_pg ?u)) = Some ?p"
    and "parseReceiptCounts (r_counts_json ?p) = Some counts"
    by (simp_all add: rows receipt_pending_def parse_counts)
  moreover have "chain_tips (w_pg ?u) = []"
    using erase_demo_tips by (simp add: chain_tips_def confirmed_rows_def)
  moreover have calm: "w_faults ?u = []" using erase_demo_facts(2) by simp
  ultimately obtain res v where x: "execute demo_sha (\<lambda>h. h) (sample_id 5) ?u = (Inr res, v)"
    using execute_succeeds [of "sample_id 5" ?u ?p counts demo_sha "\<lambda>h. h"] by auto
  have "w_faults v = []" using keeps_run [OF calm_execute calm x] by simp
  moreover have "deletion_handler demo_sha (\<lambda>h. h) demo_payload ?u = (Inr None, v)"
    using x by (simp add: deletion_handler_def demo_payload_def thenA_def bindA_Inr ret_def)
  ultimately have "claim_and_run DELETION_JOB_TYPE (deletion_handler demo_sha (\<lambda>h. h)) demo_payload erase_demo = (Inr None, pop_fault v)"
    unfolding claim_and_run_def using claim by (intro transaction_calm) (simp_all add: bindA_Inr)
  then show ?thesis ..
qed

lemma demo_leg_runs:
  "demo_leg demo_payload erase_demo = (Inr (), snd (demo_leg demo_payload erase_demo))"
  "key_of DELETION_JOB_TYPE demo_payload \<in> set (t_job_execution (w_pg (snd (demo_leg demo_payload erase_demo))))"
proof -
  obtain v where c: "claim_and_run DELETION_JOB_TYPE (deletion_handler demo_sha (\<lambda>h. h)) demo_payload erase_demo = (Inr None, v)"
    using demo_claim ..
  have "payload_ok demo_payload"
    by (simp add: payload_ok_def demo_payload_def DELETION_JOB_SOURCE_TYPE_def sample_id_def)
  with c have run: "demo_leg demo_payload erase_demo = (Inr (), v)" by (simp add: idempotentTask_def)
  then show "demo_leg demo_payload erase_demo = (Inr (), snd (demo_leg demo_payload erase_demo))" by simp
  show "key_of DELETION_JOB_TYPE demo_payload \<in> set (t_job_execution (w_pg (snd (demo_leg demo_payload erase_demo))))"
    using deletion_leg.claim_Inr(1) [OF c] run by simp
qed


text \<open>A second delivery of the same job skips; a delivery for an unknown receipt fails cleanly.\<close>

theorem job_duplicate_skips_witness:
  "w_points (snd (demo_leg demo_payload (snd (demo_leg demo_payload erase_demo)))) =
     w_points (snd (demo_leg demo_payload erase_demo))"
  using job_duplicate_skips [OF demo_leg_runs(2) run_pair [OF refl]] by blast

theorem job_failure_clean_witness:
  "w_pg (snd (demo_leg demo_payload sample_world)) = w_pg sample_world"
proof -
  let ?m = "demo_leg demo_payload sample_world"
  have "fst ?m = Inl (Failure ''deletion receipt not found'')" by code_simp
  from job_failure_clean [OF run_pair [OF this]] show ?thesis by (auto simp: demo_payload_def)
qed

end
