(* ===== verification/Usage_Limits.thy ===== *)
theory Usage_Limits
  imports Prelude
begin

text \<open>
  The in-process limits of \<^verbatim>\<open>infrastructure/rate-limit.ts\<close>, \<^verbatim>\<open>daily-counters.ts\<close> and
  \<^verbatim>\<open>model-budget.ts\<close>: the state is the map the object holds, the clock is an argument. A
  request carries the bucket of its route (if it has one) and the user (if authenticated).
\<close>

subsection \<open>Fixed windows\<close>

record window_state =
  win_count :: int
  win_reset_at :: time

record rate_buckets =
  rb_limit :: "string \<Rightarrow> int option"
  rb_window_seconds :: int

datatype admission = Admitted | TooMany int

record request =
  rq_bucket :: "string option"
  rq_user :: "string option"
  rq_now :: time

definition limit_key :: "string \<Rightarrow> string \<Rightarrow> string" where
  "limit_key bucket userId = bucket @ '':'' @ userId"

definition retry_after :: "time \<Rightarrow> time \<Rightarrow> int" where
  "retry_after resetAt now = max 1 (- ((now - resetAt) div 1000))"

text \<open>The metered part: a bucket with a positive limit and a user.\<close>

definition admit :: "int \<Rightarrow> int \<Rightarrow> time \<Rightarrow> window_state option \<Rightarrow> admission \<times> window_state option" where
  "admit limit windowMs now state =
     (case state of
        None \<Rightarrow> (Admitted, Some \<lparr>win_count = 1, win_reset_at = now + windowMs\<rparr>)
      | Some s \<Rightarrow>
          if win_reset_at s \<le> now then (Admitted, Some \<lparr>win_count = 1, win_reset_at = now + windowMs\<rparr>)
          else if limit \<le> win_count s then (TooMany (retry_after (win_reset_at s) now), Some s)
          else (Admitted, Some (s\<lparr>win_count := win_count s + 1\<rparr>)))"

definition canActivate ::
  "rate_buckets \<Rightarrow> request \<Rightarrow> (string \<Rightarrow> window_state option) \<Rightarrow> admission \<times> (string \<Rightarrow> window_state option)" where
  "canActivate buckets rq windows =
     (case rq_bucket rq of
        None \<Rightarrow> (Admitted, windows)
      | Some bucket \<Rightarrow>
          (case rb_limit buckets bucket of
             None \<Rightarrow> (Admitted, windows)
           | Some limit \<Rightarrow>
               if limit \<le> 0 then (Admitted, windows)
               else (case rq_user rq of
                  None \<Rightarrow> (Admitted, windows)
                | Some userId \<Rightarrow>
                    if userId = [] then (Admitted, windows)
                    else let key = limit_key bucket userId;
                             (verdict, state) = admit limit (rb_window_seconds buckets * 1000) (rq_now rq) (windows key)
                         in (verdict, windows(key := state)))))"

fun serve :: "rate_buckets \<Rightarrow> request list \<Rightarrow> (string \<Rightarrow> window_state option) \<Rightarrow> (request \<times> admission) list" where
  "serve buckets [] windows = []"
| "serve buckets (rq # rqs) windows =
     (let (verdict, windows') = canActivate buckets rq windows in (rq, verdict) # serve buckets rqs windows')"

subsection \<open>How many requests a window lets through\<close>

fun admit_all :: "int \<Rightarrow> int \<Rightarrow> window_state option \<Rightarrow> time list \<Rightarrow> (time \<times> admission) list" where
  "admit_all limit windowMs state [] = []"
| "admit_all limit windowMs state (now # ts) =
     (let (verdict, state') = admit limit windowMs now state
      in (now, verdict) # admit_all limit windowMs state' ts)"

definition asked_by :: "string \<Rightarrow> string \<Rightarrow> request \<Rightarrow> bool" where
  "asked_by bucket userId rq \<longleftrightarrow> rq_bucket rq = Some bucket \<and> rq_user rq = Some userId"

definition plain_bucket :: "request \<Rightarrow> bool" where
  "plain_bucket rq \<longleftrightarrow> (case rq_bucket rq of None \<Rightarrow> True | Some b \<Rightarrow> CHR '':'' \<notin> set b)"

lemma limit_key_inject:
  "CHR '':'' \<notin> set b \<Longrightarrow> CHR '':'' \<notin> set b' \<Longrightarrow> limit_key b u = limit_key b' u' \<longleftrightarrow> b = b' \<and> u = u'"
proof (induction b arbitrary: b')
  case Nil
  then show ?case by (cases b') (auto simp: limit_key_def)
next
  case (Cons c cs)
  then show ?case by (cases b') (auto simp: limit_key_def)
qed

text \<open>The requests of one user for one bucket are decided as if there were no others.\<close>

lemma serve_projects:
  assumes "rb_limit buckets b = Some L" and "0 < L" and "u \<noteq> []" and "CHR '':'' \<notin> set b"
    and "list_all plain_bucket rqs"
  shows "map (\<lambda>(rq, v). (rq_now rq, v)) (filter (\<lambda>(rq, v). asked_by b u rq) (serve buckets rqs windows)) =
    admit_all L (rb_window_seconds buckets * 1000) (windows (limit_key b u)) (map rq_now (filter (asked_by b u) rqs))"
  using assms(5)
proof (induction rqs arbitrary: windows)
  case (Cons rq rqs)
  obtain v windows' where c: "canActivate buckets rq windows = (v, windows')" by fastforce
  note IH = Cons.IH [of windows']
  show ?case
  proof (cases "asked_by b u rq")
    case True
    then obtain s' where "admit L (rb_window_seconds buckets * 1000) (rq_now rq) (windows (limit_key b u)) = (v, s')"
      "windows' (limit_key b u) = s'"
      using c assms(1-3) by (auto simp: canActivate_def asked_by_def Let_def split: prod.splits)
    then show ?thesis using True c IH Cons.prems by simp
  next
    case False
    have "windows' (limit_key b u) = windows (limit_key b u)"
      using c False Cons.prems limit_key_inject [OF assms(4), of _ u]
      by (auto simp: canActivate_def asked_by_def plain_bucket_def Let_def split: option.splits if_splits prod.splits)
    then show ?thesis using False c IH Cons.prems by simp
  qed
qed simp

definition let_through :: "time \<Rightarrow> time \<Rightarrow> (time \<times> admission) list \<Rightarrow> nat" where
  "let_through a b xs = length (filter (\<lambda>(t, v). v = Admitted \<and> a \<le> t \<and> t < b) xs)"

lemma admit_cases:
  "admit L W now s =
     (if s = None \<or> win_reset_at (the s) \<le> now then (Admitted, Some \<lparr>win_count = 1, win_reset_at = now + W\<rparr>)
      else if L \<le> win_count (the s) then (TooMany (retry_after (win_reset_at (the s)) now), s)
      else (Admitted, Some ((the s)\<lparr>win_count := win_count (the s) + 1\<rparr>)))"
  by (cases s) (auto simp: admit_def)

lemma let_through_later: "sorted (t # ts) \<Longrightarrow> b \<le> t \<Longrightarrow> let_through a b (admit_all L W s (t # ts)) = 0"
proof -
  have "map fst (admit_all L W s ts) = ts" for s ts
    by (induction ts arbitrary: s) (simp_all add: case_prod_unfold Let_def)
  then have "fst ` set (admit_all L W s ts) = set ts" for s ts by (metis list.set_map)
  then have "x \<in> set (admit_all L W s (t # ts)) \<Longrightarrow> fst x \<in> set (t # ts)" for x by fastforce
  moreover assume "sorted (t # ts)" "b \<le> t"
  ultimately show ?thesis by (fastforce simp: let_through_def filter_empty_conv)
qed

text \<open>Inside a window that has not expired before \<open>b\<close>, what is left of the limit.\<close>

lemma let_through_window:
  assumes "sorted ts" and "win_count s \<le> L" and "b \<le> win_reset_at s"
  shows "int (let_through a b (admit_all L W (Some s) ts)) \<le> L - win_count s"
  using assms
proof (induction ts arbitrary: s)
  case (Cons t ts)
  show ?case
  proof (cases "b \<le> t")
    case True
    then show ?thesis using let_through_later [OF Cons.prems(1) True] Cons.prems(2) by simp
  next
    case False
    then have "\<not> win_reset_at s \<le> t" using Cons.prems(3) by simp
    then show ?thesis using Cons.IH [of s] Cons.IH [of "s\<lparr>win_count := win_count s + 1\<rparr>"] Cons.prems False
      by (auto simp: admit_cases let_through_def)
  qed
qed (simp add: let_through_def)

definition counted :: "int \<Rightarrow> window_state option \<Rightarrow> bool" where
  "counted L s \<longleftrightarrow> (case s of None \<Rightarrow> True | Some x \<Rightarrow> 0 \<le> win_count x \<and> win_count x \<le> L)"

definition room :: "int \<Rightarrow> window_state option \<Rightarrow> int" where
  "room L s = (case s of None \<Rightarrow> 0 | Some x \<Rightarrow> L - win_count x)"

lemma admit_counted: "counted L s \<Longrightarrow> 0 < L \<Longrightarrow> counted L (snd (admit L W t s))"
  by (auto simp: counted_def admit_def split: option.splits)

lemma let_through_since:
  assumes "sorted ts" and "0 < L" and "counted L s" and "b \<le> a + W" and "list_all (\<lambda>t. a \<le> t) ts"
  shows "int (let_through a b (admit_all L W s ts)) \<le> L + room L s"
  using assms(1,3,5)
proof (induction ts arbitrary: s)
  case (Cons t ts)
  have "0 \<le> L + room L s" using Cons.prems(2) assms(2) by (auto simp: counted_def room_def split: option.splits)
  consider (late) "b \<le> t" | (fresh) "t < b" "s = None \<or> win_reset_at (the s) \<le> t"
    | (live) x where "t < b" "s = Some x" "t < win_reset_at x"
    by (cases s) (auto simp: not_le [symmetric])
  then show ?case
  proof cases
    case late
    then show ?thesis using let_through_later [OF Cons.prems(1) late] \<open>0 \<le> L + room L s\<close> by simp
  next
    case fresh
    let ?n = "\<lparr>win_count = 1, win_reset_at = t + W\<rparr>"
    have "int (let_through a b (admit_all L W (Some ?n) ts)) \<le> L - 1"
      using let_through_window [of ts ?n L b a W] Cons.prems assms(2,4) by simp
    moreover have "0 \<le> room L s"
      using Cons.prems(2) by (auto simp: counted_def room_def split: option.splits)
    ultimately show ?thesis using fresh Cons.prems(3) by (simp add: admit_cases let_through_def)
  next
    case (live x)
    show ?thesis
    proof (cases "L \<le> win_count x")
      case True
      then show ?thesis using live Cons by (simp add: admit_cases let_through_def)
    next
      case False
      let ?y = "x\<lparr>win_count := win_count x + 1\<rparr>"
      have "int (let_through a b (admit_all L W (Some ?y) ts)) \<le> L + room L (Some ?y)"
        using Cons.IH [of "Some ?y"] Cons.prems False live by (simp add: counted_def)
      then show ?thesis using False live Cons.prems by (simp add: admit_cases let_through_def room_def)
    qed
  qed
next
  case Nil
  then show ?case using assms(2) by (auto simp: let_through_def counted_def room_def split: option.splits)
qed

lemma let_through_any:
  assumes "sorted ts" and "0 < L" and "counted L s" and "b \<le> a + W"
  shows "int (let_through a b (admit_all L W s ts)) \<le> 2 * L"
  using assms(1,3)
proof (induction ts arbitrary: s)
  case (Cons t ts)
  show ?case
  proof (cases "a \<le> t")
    case True
    then have "list_all (\<lambda>t. a \<le> t) (t # ts)" using Cons.prems(1) by (auto simp: list_all_iff)
    moreover have "room L s \<le> L" using Cons.prems(2) assms(2) by (auto simp: counted_def room_def split: option.splits)
    ultimately show ?thesis using let_through_since [OF Cons.prems(1) assms(2) Cons.prems(2) assms(4)] by fastforce
  next
    case False
    obtain v s' where st: "admit L W t s = (v, s')" by fastforce
    then have "counted L s'" using admit_counted [OF Cons.prems(2) assms(2), of W t] by simp
    then show ?thesis using Cons.IH [of s'] Cons.prems(1) False st by (simp add: let_through_def)
  qed
qed (use assms(2) in \<open>simp add: let_through_def\<close>)

text \<open>
  C22. In any span of one window length the limiter lets through at most twice the limit of a
  bucket for one user, whatever other users and buckets do.
\<close>

theorem rate_limit_bound:
  assumes "rb_limit buckets b = Some L" and "0 < L" and "u \<noteq> []" and "CHR '':'' \<notin> set b"
    and "list_all plain_bucket rqs" and "sorted (map rq_now rqs)"
  shows "int (length (filter (\<lambda>(rq, v). asked_by b u rq \<and> v = Admitted \<and>
      start \<le> rq_now rq \<and> rq_now rq < start + rb_window_seconds buckets * 1000) (serve buckets rqs Map.empty))) \<le> 2 * L"
proof -
  let ?W = "rb_window_seconds buckets * 1000" and ?mine = "filter (\<lambda>(rq, v). asked_by b u rq) (serve buckets rqs Map.empty)"
  have "sorted (map rq_now (filter (asked_by b u) rqs))" using assms(6) by (rule sorted_filter)
  then have "int (let_through start (start + ?W) (map (\<lambda>(rq, v). (rq_now rq, v)) ?mine)) \<le> 2 * L"
    unfolding serve_projects [OF assms(1-5)] by (rule let_through_any) (simp_all add: assms(2) counted_def)
  then show ?thesis by (simp add: let_through_def filter_map o_def case_prod_unfold conj_commute conj_left_commute)
qed


text \<open>A refusal is final for nobody: after the announced delay the same request passes.\<close>

lemma retry_after_reaches: "resetAt \<le> now + retry_after resetAt now * 1000"
proof -
  have "(now - resetAt) div 1000 * 1000 \<le> now - resetAt"
    using minus_mod_eq_div_mult [of "now - resetAt" 1000] pos_mod_sign [of 1000 "now - resetAt"] by linarith
  then show ?thesis by (simp add: retry_after_def max_def)
qed

text \<open>
  A client that waits as long as the refusal told it to is admitted, if it sent nothing
  in between.
\<close>

theorem rate_limit_retry:
  assumes "canActivate buckets rq windows = (TooMany k, windows')" and "rq_now rq + k * 1000 \<le> t"
  shows "windows' = windows \<and> 1 \<le> k \<and> fst (canActivate buckets (rq\<lparr>rq_now := t\<rparr>) windows') = Admitted"
proof -
  obtain b L u where rq: "rq_bucket rq = Some b" "rb_limit buckets b = Some L" "0 < L" "rq_user rq = Some u" "u \<noteq> []"
    using assms(1) by (simp add: canActivate_def split: option.splits if_splits)
  obtain v s' where a: "admit L (rb_window_seconds buckets * 1000) (rq_now rq) (windows (limit_key b u)) = (v, s')" by fastforce
  with assms(1) rq have v: "v = TooMany k" and w: "windows' = windows(limit_key b u := s')"
    by (simp_all add: canActivate_def)
  from a v obtain s where s: "windows (limit_key b u) = Some s" "s' = Some s"
      "k = retry_after (win_reset_at s) (rq_now rq)"
    by (cases "windows (limit_key b u)") (simp_all add: admit_def split: if_splits)
  have "win_reset_at s \<le> t" using retry_after_reaches [of "win_reset_at s" "rq_now rq"] assms(2) s(3) by simp
  moreover have "windows' = windows" using w s by (simp add: fun_upd_idem)
  moreover have "1 \<le> k" using s(3) by (simp add: retry_after_def)
  ultimately show ?thesis using rq s by (simp add: canActivate_def Let_def admit_def)
qed

subsection \<open>Daily counters\<close>

record counters =
  dc_day :: string
  dc_counts :: "string \<Rightarrow> int option"

definition today :: "time \<Rightarrow> string" where
  "today now = take 10 (iso_string now)"

definition roll :: "time \<Rightarrow> counters \<Rightarrow> counters" where
  "roll now c = (if today now \<noteq> dc_day c then \<lparr>dc_day = today now, dc_counts = Map.empty\<rparr> else c)"

definition count_of :: "string \<Rightarrow> string \<Rightarrow> counters \<Rightarrow> int" where
  "count_of userId bucket c = (case dc_counts c (limit_key bucket userId) of None \<Rightarrow> 0 | Some n \<Rightarrow> n)"

definition counter_get :: "time \<Rightarrow> string \<Rightarrow> string \<Rightarrow> counters \<Rightarrow> int \<times> counters" where
  "counter_get now userId bucket c = (let c' = roll now c in (count_of userId bucket c', c'))"

definition counter_add :: "time \<Rightarrow> string \<Rightarrow> string \<Rightarrow> int \<Rightarrow> counters \<Rightarrow> int \<times> counters" where
  "counter_add now userId bucket n c =
     (let c' = roll now c; next_count = count_of userId bucket c' + n
      in (next_count, c'\<lparr>dc_counts := (dc_counts c')(limit_key bucket userId := Some next_count)\<rparr>))"

subsection \<open>The model budget\<close>

record model_limits =
  ml_calls :: int
  ml_tokens :: int

definition CALLS :: string where
  "CALLS = ''model_calls''"

definition TOKENS :: string where
  "TOKENS = ''model_tokens''"

definition hasBudget :: "model_limits \<Rightarrow> time \<Rightarrow> string \<Rightarrow> counters \<Rightarrow> bool \<times> counters" where
  "hasBudget limits now userId c =
     (let (calls, c1) = counter_get now userId CALLS c
      in if calls < ml_calls limits
         then (let (tokens, c2) = counter_get now userId TOKENS c1 in (tokens < ml_tokens limits, c2))
         else (False, c1))"

definition budget_record :: "time \<Rightarrow> string \<Rightarrow> rat \<Rightarrow> counters \<Rightarrow> counters" where
  "budget_record now userId tokens c =
     snd (counter_add now userId TOKENS (max 0 \<lceil>tokens\<rceil>) (snd (counter_add now userId CALLS 1 c)))"

text \<open>
  The decorator of \<^verbatim>\<open>model-gateway/budgeted.gateway.ts\<close>. \<open>user\<close> is the user of the request's
  usage scope, the inner gateway's answer is an argument (\<open>None\<close> when it throws).
\<close>

datatype gateway_error = BudgetExceeded | ProviderFailed

definition gate :: "model_limits \<Rightarrow> time \<Rightarrow> string option \<Rightarrow> counters \<Rightarrow> bool \<times> counters" where
  "gate limits now user c =
     (case user of
        None \<Rightarrow> (True, c)
      | Some u \<Rightarrow> if u = [] then (True, c) else hasBudget limits now u c)"

definition charge :: "time \<Rightarrow> string option \<Rightarrow> nat \<Rightarrow> counters \<Rightarrow> counters" where
  "charge now user chars c =
     (case user of
        None \<Rightarrow> c
      | Some u \<Rightarrow> if u = [] then c else budget_record now u (of_int \<lceil>of_nat chars / (4::rat)\<rceil>) c)"

record completion =
  co_text :: string
  co_usage :: "(nat \<times> nat) option"

definition budgeted_complete ::
  "model_limits \<Rightarrow> time \<Rightarrow> string option \<Rightarrow> string \<Rightarrow> completion option \<Rightarrow> counters \<Rightarrow>
     (gateway_error + completion) \<times> counters" where
  "budgeted_complete limits now user input inner c =
     (let (ok, c1) = gate limits now user c in
      if \<not> ok then (Inl BudgetExceeded, c1)
      else case inner of
        None \<Rightarrow> (Inl ProviderFailed, c1)
      | Some result \<Rightarrow>
          (Inr result,
           case (user, co_usage result) of
             (Some u, Some (i, out)) \<Rightarrow>
               if u = [] then charge now user (length input + length (co_text result)) c1
               else budget_record now u (of_nat (i + out)) c1
           | _ \<Rightarrow> charge now user (length input + length (co_text result)) c1))"

text \<open>
  A stream: the inner gateway yields \<open>deltas\<close> and then ends or throws; the consumer takes at
  most \<open>taken\<close> of them and then leaves the generator (which has not even started if it takes none).
\<close>

definition budgeted_stream ::
  "model_limits \<Rightarrow> time \<Rightarrow> string option \<Rightarrow> string \<Rightarrow> string list \<Rightarrow> bool \<Rightarrow> nat option \<Rightarrow> counters \<Rightarrow>
     (gateway_error + string list) \<times> counters" where
  "budgeted_stream limits now user input deltas throws taken c =
     (let (ok, c1) = gate limits now user c in
      if taken = Some 0 then (Inr [], c)
      else if \<not> ok then (Inl BudgetExceeded, c1)
      else case taken of
        Some k \<Rightarrow>
          if k \<le> length deltas then (Inr (take k deltas), c1)
          else if throws then (Inl ProviderFailed, c1)
          else (Inr deltas, charge now user (length input + length (concat deltas)) c1)
      | None \<Rightarrow>
          if throws then (Inl ProviderFailed, c1)
          else (Inr deltas, charge now user (length input + length (concat deltas)) c1))"

definition budgeted_embed ::
  "model_limits \<Rightarrow> time \<Rightarrow> string option \<Rightarrow> string list \<Rightarrow> rat list list option \<Rightarrow> counters \<Rightarrow>
     (gateway_error + rat list list) \<times> counters" where
  "budgeted_embed limits now user texts inner c =
     (let (ok, c1) = gate limits now user c in
      if \<not> ok then (Inl BudgetExceeded, c1)
      else case inner of
        None \<Rightarrow> (Inl ProviderFailed, c1)
      | Some vectors \<Rightarrow> (Inr vectors, charge now user (length (concat texts)) c1))"


subsection \<open>The budget bounds the calls of a day\<close>

record model_call =
  mc_user :: "string option"
  mc_input :: string
  mc_outcome :: "completion option"
  mc_now :: time

fun run_calls :: "model_limits \<Rightarrow> model_call list \<Rightarrow> counters \<Rightarrow> (model_call \<times> (gateway_error + completion)) list \<times> counters" where
  "run_calls limits [] c = ([], c)"
| "run_calls limits (call # calls) c =
     (let (r, c1) = budgeted_complete limits (mc_now call) (mc_user call) (mc_input call) (mc_outcome call) c;
          (rs, c2) = run_calls limits calls c1
      in ((call, r) # rs, c2))"

definition served :: "string \<Rightarrow> model_call \<times> (gateway_error + completion) \<Rightarrow> bool" where
  "served u x \<longleftrightarrow> mc_user (fst x) = Some u \<and> \<not> isl (snd x)"

lemma keys_differ: "limit_key CALLS u \<noteq> limit_key TOKENS u'" "limit_key CALLS u = limit_key CALLS u' \<longleftrightarrow> u = u'"
  by (simp_all add: limit_key_def CALLS_def TOKENS_def)

lemma roll_same_day: "today now = dc_day c \<Longrightarrow> roll now c = c"
  by (simp add: roll_def)

lemma budget_record_calls:
  assumes "today now = dc_day c"
  shows "dc_day (budget_record now u tokens c) = dc_day c"
    and "count_of u' CALLS (budget_record now u tokens c) = count_of u' CALLS c + (if u' = u then 1 else 0)"
  using assms keys_differ(1) [THEN not_sym, of u' u] keys_differ(1) [of u' u] keys_differ(2) [of u' u]
  by (simp_all add: budget_record_def counter_add_def Let_def roll_same_day count_of_def)

lemma hasBudget_same_day:
  "today now = dc_day c \<Longrightarrow>
     hasBudget limits now u c = (count_of u CALLS c < ml_calls limits \<and> count_of u TOKENS c < ml_tokens limits, c)"
  by (simp add: hasBudget_def counter_get_def Let_def roll_same_day)

lemma complete_calls:
  assumes "today now = dc_day c" and "u \<noteq> []"
    and run: "budgeted_complete limits now user input inner c = (r, c')"
  shows "dc_day c' = dc_day c \<and>
    count_of u CALLS c' = count_of u CALLS c + (if user = Some u \<and> \<not> isl r then 1 else 0) \<and>
    (user = Some u \<and> \<not> isl r \<longrightarrow> count_of u CALLS c < ml_calls limits)"
  using assms budget_record_calls [OF assms(1)]
  by (auto simp: budgeted_complete_def gate_def charge_def hasBudget_same_day split: option.splits if_splits)

text \<open>
  C23. Over the calls of one day made one after another, the completed calls of a user are at
  most the daily cap, and each is counted once.
\<close>

theorem budget_bounds_calls:
  assumes "list_all (\<lambda>call. today (mc_now call) = dc_day c) calls" and "u \<noteq> []" and "0 \<le> ml_calls limits"
    and "run_calls limits calls c = (rs, c')" and "count_of u CALLS c = 0"
  shows "int (length (filter (served u) rs)) \<le> ml_calls limits \<and> count_of u CALLS c' = int (length (filter (served u) rs))"
proof -
  have "int (length (filter (served u) rs)) + count_of u CALLS c \<le> max (count_of u CALLS c) (ml_calls limits) \<and>
      count_of u CALLS c' = count_of u CALLS c + int (length (filter (served u) rs))"
    using assms(1,4)
  proof (induction calls arbitrary: c rs)
    case (Cons call calls)
    obtain r c1 rs' where step: "budgeted_complete limits (mc_now call) (mc_user call) (mc_input call) (mc_outcome call) c = (r, c1)"
        and rest: "run_calls limits calls c1 = (rs', c')" and rs: "rs = (call, r) # rs'"
      using Cons.prems(2) by (auto split: prod.splits)
    note s = complete_calls [OF _ assms(2) step]
    then have "list_all (\<lambda>call. today (mc_now call) = dc_day c1) calls" using Cons.prems(1) by simp
    from Cons.IH [OF this rest] s Cons.prems(1) show ?case by (auto simp: rs served_def)
  qed simp
  then show ?thesis using assms(3,5) by simp
qed

theorem abandoned_stream_free:
  "today now = dc_day c \<Longrightarrow> k \<le> length deltas \<Longrightarrow>
     snd (budgeted_stream limits now (Some u) input deltas throws (Some k) c) = c"
  by (simp add: budgeted_stream_def gate_def hasBudget_same_day)


subsection \<open>Applications\<close>

definition demo_buckets :: rate_buckets where
  "demo_buckets = \<lparr>rb_limit = [''chat'' \<mapsto> 2], rb_window_seconds = 60\<rparr>"

definition demo_request :: "time \<Rightarrow> request" where
  "demo_request t = \<lparr>rq_bucket = Some ''chat'', rq_user = Some ''ann'', rq_now = t\<rparr>"

theorem rate_limit_bound_witness:
  "int (length (filter (\<lambda>(rq, v). asked_by ''chat'' ''ann'' rq \<and> v = Admitted \<and>
      0 \<le> rq_now rq \<and> rq_now rq < 0 + rb_window_seconds demo_buckets * 1000)
     (serve demo_buckets (map demo_request [0, 10, 20, 59999, 60000]) Map.empty))) \<le> 2 * 2"
  by (rule rate_limit_bound) (simp_all add: demo_buckets_def demo_request_def plain_bucket_def)

theorem rate_limit_retry_witness:
  "fst (canActivate demo_buckets (demo_request 60000)
     [''chat:ann'' \<mapsto> \<lparr>win_count = 2, win_reset_at = 60000\<rparr>]) = Admitted"
proof -
  have "canActivate demo_buckets (demo_request 58500) [''chat:ann'' \<mapsto> \<lparr>win_count = 2, win_reset_at = 60000\<rparr>] =
      (TooMany 2, [''chat:ann'' \<mapsto> \<lparr>win_count = 2, win_reset_at = 60000\<rparr>])"
    by (simp add: canActivate_def demo_buckets_def demo_request_def limit_key_def admit_def retry_after_def)
  from rate_limit_retry [OF this, of 60500] show ?thesis
    by (simp add: canActivate_def demo_buckets_def demo_request_def limit_key_def admit_def)
qed

definition demo_call :: model_call where
  "demo_call = \<lparr>mc_user = Some ''ann'', mc_input = ''hello'',
     mc_outcome = Some \<lparr>co_text = ''hi'', co_usage = None\<rparr>, mc_now = 0\<rparr>"

definition demo_counters :: counters where
  "demo_counters = \<lparr>dc_day = today 0, dc_counts = Map.empty\<rparr>"

theorem budget_bounds_calls_witness:
  "int (length (filter (served ''ann'') (fst (run_calls \<lparr>ml_calls = 2, ml_tokens = 100\<rparr>
     [demo_call, demo_call, demo_call] demo_counters)))) \<le> 2"
  using budget_bounds_calls [where calls = "[demo_call, demo_call, demo_call]" and c = demo_counters
      and u = "''ann''" and limits = "\<lparr>ml_calls = 2, ml_tokens = 100\<rparr>", OF _ _ _ prod.collapse [symmetric]]
  by (simp add: demo_call_def demo_counters_def count_of_def del: run_calls.simps)

theorem abandoned_stream_free_witness:
  "budgeted_stream \<lparr>ml_calls = 2, ml_tokens = 100\<rparr> 0 (Some ''ann'') ''hello'' [''a'', ''b'', ''c''] False (Some 2) demo_counters =
     (Inr [''a'', ''b''], demo_counters)"
proof -
  have "snd (budgeted_stream \<lparr>ml_calls = 2, ml_tokens = 100\<rparr> 0 (Some ''ann'') ''hello'' [''a'', ''b'', ''c''] False (Some 2) demo_counters) = demo_counters"
    by (rule abandoned_stream_free) (simp_all add: demo_counters_def)
  then show ?thesis
    by (simp add: budgeted_stream_def gate_def hasBudget_same_day demo_counters_def count_of_def)
qed

end
