(* ===== verification/Approvals.thy ===== *)
theory Approvals
  imports Job_Queue Memory_Reads
begin

text \<open>
  The approval aggregate of \<^verbatim>\<open>src/agents\<close>: the transition function of
  \<^verbatim>\<open>domain/approval-machine.ts\<close>, the registry with its two actions (\<^verbatim>\<open>actions/\<close>), the
  request side of \<^verbatim>\<open>approval.service.ts\<close> and the worker's \<^verbatim>\<open>approval.executor.ts\<close>. Payloads are
  validated JSON: \<open>is_uuid\<close> is the validator's test for UUIDs, a library. Text is modelled on
  single bytes, the dash and the ellipsis of fixed texts as their UTF-8 bytes.
\<close>

subsection \<open>The state machine\<close>

fun approval_status_text :: "approval_status \<Rightarrow> string" where
  "approval_status_text Draft = ''draft''"
| "approval_status_text PendingApproval = ''pending_approval''"
| "approval_status_text Approved = ''approved''"
| "approval_status_text Rejected = ''rejected''"
| "approval_status_text Expired = ''expired''"
| "approval_status_text Executed = ''executed''"

fun EDGES :: "approval_status \<Rightarrow> approval_status list" where
  "EDGES Draft = [PendingApproval]"
| "EDGES PendingApproval = [Approved, Rejected, Expired]"
| "EDGES Approved = [Executed]"
| "EDGES Rejected = []"
| "EDGES Expired = []"
| "EDGES Executed = []"

definition checkApprovalTransition :: "approval_status \<Rightarrow> approval_status \<Rightarrow> approval_refusal option" where
  "checkApprovalTransition source target =
     (if target \<in> set (EDGES source) then None
      else Some (if EDGES source = [] then ApprovalTerminal source else IllegalApprovalTransition source target))"

definition APPROVAL_EXECUTE_JOB_TYPE :: string where
  "APPROVAL_EXECUTE_JOB_TYPE = ''approval.execute''"

definition APPROVAL_JOB_SOURCE_TYPE :: string where
  "APPROVAL_JOB_SOURCE_TYPE = ''approval''"

subsection \<open>Payloads\<close>

record reply_draft =
  rd_to :: string
  rd_recipient_resolved :: "bool option"
  rd_recipient_verified :: "bool option"
  rd_subject :: string
  rd_in_reply_to :: "string option"
  rd_references :: "string list"
  rd_body :: string
  rd_email_source_id :: "string option"

datatype action_payload =
    BulkOutdate "uuid list" "string option"
  | ReplyDraft reply_draft

fun as_opt_string :: "json option \<Rightarrow> string option option" where
  "as_opt_string None = Some None"
| "as_opt_string (Some (JStr s)) = Some (Some s)"
| "as_opt_string (Some _) = None"

fun as_nullable_string :: "json option \<Rightarrow> string option option" where
  "as_nullable_string (Some JNull) = Some None"
| "as_nullable_string (Some (JStr s)) = Some (Some s)"
| "as_nullable_string _ = None"

fun as_opt_bool :: "json option \<Rightarrow> bool option option" where
  "as_opt_bool None = Some None"
| "as_opt_bool (Some (JBool b)) = Some (Some b)"
| "as_opt_bool (Some _) = None"

definition bulk_schema :: "(string \<Rightarrow> bool) \<Rightarrow> json \<Rightarrow> action_payload option" where
  "bulk_schema is_uuid j =
     (case j of
        JObj kvs \<Rightarrow>
          (case (as_strings (map_of kvs ''memoryIds''), as_opt_string (map_of kvs ''reason'')) of
             (Some ids, Some reason) \<Rightarrow>
               if ids \<noteq> [] \<and> length ids \<le> 500 \<and> list_all is_uuid ids \<and>
                  (case reason of None \<Rightarrow> True | Some r \<Rightarrow> length r \<le> 500)
               then Some (BulkOutdate ids reason) else None
           | _ \<Rightarrow> None)
      | _ \<Rightarrow> None)"

definition reply_schema :: "json \<Rightarrow> action_payload option" where
  "reply_schema j =
     (case j of
        JObj kvs \<Rightarrow>
          let f = map_of kvs in
          (case (as_string (f ''to''), as_opt_bool (f ''recipientResolved''), as_opt_bool (f ''recipientVerified''),
                 as_string (f ''subject''), as_nullable_string (f ''inReplyTo''), as_strings (f ''references''),
                 as_string (f ''body''), as_nullable_string (f ''emailSourceId'')) of
             (Some recipient, Some resolved, Some verified, Some subject, Some inReplyTo, Some refs, Some body,
              Some sourceId) \<Rightarrow>
               if length recipient \<le> 320 \<and> length subject \<le> 998 \<and> body \<noteq> [] \<and> length body \<le> 20000
               then Some (ReplyDraft \<lparr>rd_to = recipient, rd_recipient_resolved = resolved,
                      rd_recipient_verified = verified, rd_subject = subject, rd_in_reply_to = inReplyTo,
                      rd_references = refs, rd_body = body, rd_email_source_id = sourceId\<rparr>)
               else None
           | _ \<Rightarrow> None)
      | _ \<Rightarrow> None)"

text \<open>What the column stores: the parsed payload, absent optional fields left out.\<close>

definition opt_field :: "string \<Rightarrow> ('a \<Rightarrow> json) \<Rightarrow> 'a option \<Rightarrow> (string \<times> json) list" where
  "opt_field key enc v = (case v of None \<Rightarrow> [] | Some x \<Rightarrow> [(key, enc x)])"

fun payload_to_json :: "action_payload \<Rightarrow> json" where
  "payload_to_json (BulkOutdate ids reason) =
     JObj ((''memoryIds'', jstrs ids) # opt_field ''reason'' JStr reason)"
| "payload_to_json (ReplyDraft p) =
     JObj ([(''to'', JStr (rd_to p))] @ opt_field ''recipientResolved'' JBool (rd_recipient_resolved p) @
       opt_field ''recipientVerified'' JBool (rd_recipient_verified p) @
       [(''subject'', JStr (rd_subject p)), (''inReplyTo'', jopt JStr (rd_in_reply_to p)),
        (''references'', jstrs (rd_references p)), (''body'', JStr (rd_body p)),
        (''emailSourceId'', jopt JStr (rd_email_source_id p))])"

subsection \<open>The two actions\<close>

fun bulk_summarize :: "action_payload \<Rightarrow> string" where
  "bulk_summarize (BulkOutdate ids reason) =
     ''Mark '' @ nat_digits (length ids) @ '' memor'' @ plural (length ids) ''y'' ''ies'' @ '' outdated''"
| "bulk_summarize _ = []"

fun bulk_preview :: "action_payload \<Rightarrow> string list" where
  "bulk_preview (BulkOutdate ids reason) =
     [nat_digits (length ids) @ '' target memor'' @ plural (length ids) ''y'' ''ies''] @
     (case reason of None \<Rightarrow> [] | Some r \<Rightarrow> if r = [] then [] else [''Reason: '' @ r]) @
     [''Excludes user-approved memories; reversible (outdated '' @ [CHR 0xE2, CHR 0x86, CHR 0x92] @ '' active).'']"
| "bulk_preview _ = []"

definition isRecipientResolved :: "reply_draft \<Rightarrow> bool" where
  "isRecipientResolved p \<longleftrightarrow> rd_recipient_resolved p \<noteq> Some False"

definition isRecipientVerified :: "reply_draft \<Rightarrow> bool" where
  "isRecipientVerified p \<longleftrightarrow> rd_recipient_verified p \<noteq> Some False"

definition recipientLine :: "reply_draft \<Rightarrow> string" where
  "recipientLine p =
     (if \<not> isRecipientResolved p
        then ''To: (recipient not recovered '' @ em_dash @ '' set it before sending)''
      else if \<not> isRecipientVerified p
        then ''To (suggested from the forwarded message '' @ em_dash @ '' VERIFY before sending): '' @ rd_to p
      else ''To: '' @ rd_to p)"

fun lines_of :: "string \<Rightarrow> string list" where
  "lines_of [] = [[]]"
| "lines_of (c # cs) =
     (if c = CHR 0x0A then [] # lines_of cs
      else case lines_of cs of l # ls \<Rightarrow> (c # l) # ls | [] \<Rightarrow> [[c]])"

definition bodyPreview :: "string \<Rightarrow> string list" where
  "bodyPreview body =
     map (\<lambda>l. if 120 < length l then take 117 l @ ellipsis else l) (take 12 (lines_of body)) @
     (if 12 < length (lines_of body) then [ellipsis] else [])"

fun reply_summarize :: "action_payload \<Rightarrow> string" where
  "reply_summarize (ReplyDraft p) =
     (if isRecipientResolved p then ''Draft reply to '' @ rd_to p else ''Draft reply (set recipient)'')"
| "reply_summarize _ = []"

fun reply_preview :: "action_payload \<Rightarrow> string list" where
  "reply_preview (ReplyDraft p) =
     [recipientLine p, ''Subject: '' @ (if rd_subject p = [] then ''(no subject)'' else rd_subject p), em_dash] @
     bodyPreview (rd_body p) @
     [em_dash, ''Cogeto does NOT send email. Approving finalises this draft for you to copy,'' @
               '' download as .eml, or open in your own mail client and send yourself.'']"
| "reply_preview _ = []"

record action_context =
  cx_user_id :: user_id
  cx_org_id :: string

record action_result =
  ar_summary :: string
  ar_detail :: "(string \<times> json) list"
  ar_after :: "unit op option"

fun bulk_authorize :: "principal \<Rightarrow> action_payload \<Rightarrow> unit op" where
  "bulk_authorize prin (BulkOutdate ids reason) =
     bindA (reads (\<lambda>w. getManyForPrincipal prin True ids (w_pg w))) (\<lambda>visible.
       let owned = map m_id (filter (\<lambda>r. m_owner r = p_user_id prin) visible);
           missing = filter (\<lambda>i. i \<notin> set owned) ids
       in raise_if (missing \<noteq> []) (BadRequest (NotYoursToChange (length missing))))"
| "bulk_authorize prin _ = ret ()"

definition skipped_json :: "uuid \<times> string \<Rightarrow> json" where
  "skipped_json s = JObj [(''id'', JStr (fst s)), (''reason'', JStr (snd s))]"

fun bulk_execute :: "action_context \<Rightarrow> action_payload \<Rightarrow> action_result op" where
  "bulk_execute ctx (BulkOutdate ids reason) =
     bindA (bulkMarkOutdatedForOwner (cx_user_id ctx) ids) (\<lambda>result.
       ret \<lparr>ar_summary = ''Marked '' @ nat_digits (length (b_changed result)) @ '' outdated'' @
              (if b_skipped result = [] then [] else '', skipped '' @ nat_digits (length (b_skipped result))),
            ar_detail = [(''changed'', jstrs (b_changed result)), (''skipped'', JArr (map skipped_json (b_skipped result)))],
            ar_after = (if b_changed result = [] then None
                        else Some (syncStatusPayloads (b_changed result) Outdated))\<rparr>)"
| "bulk_execute ctx _ = raise (Failure ''payload of another action'')"

fun reply_execute :: "action_context \<Rightarrow> action_payload \<Rightarrow> action_result op" where
  "reply_execute ctx (ReplyDraft p) =
     ret \<lparr>ar_summary = ''Reply draft to '' @ rd_to p @ '' finalised '' @ em_dash @ '' not sent (send it from your own client)'',
          ar_detail = [(''recipient'', JStr (rd_to p)), (''finalised'', JBool True), (''sent'', JBool False),
                       (''requestedBy'', JStr (cx_user_id ctx))],
          ar_after = None\<rparr>"
| "reply_execute ctx _ = raise (Failure ''payload of another action'')"


subsection \<open>The registry\<close>

record action_definition =
  ad_type :: string
  ad_schema :: "json \<Rightarrow> action_payload option"
  ad_initial_status :: approval_status
  ad_ttl_seconds :: nat
  ad_summarize :: "action_payload \<Rightarrow> string"
  ad_preview :: "action_payload \<Rightarrow> string list"
  ad_content_bearing :: bool
  ad_authorize_create :: "(principal \<Rightarrow> action_payload \<Rightarrow> unit op) option"
  ad_execute :: "action_context \<Rightarrow> action_payload \<Rightarrow> action_result op"

definition BULK_OUTDATE_ACTION :: string where
  "BULK_OUTDATE_ACTION = ''memory.bulk_outdate''"

definition buildBulkOutdateAction :: "(string \<Rightarrow> bool) \<Rightarrow> action_definition" where
  "buildBulkOutdateAction is_uuid =
     \<lparr>ad_type = BULK_OUTDATE_ACTION, ad_schema = bulk_schema is_uuid, ad_initial_status = PendingApproval,
      ad_ttl_seconds = 24 * 60 * 60, ad_summarize = bulk_summarize, ad_preview = bulk_preview,
      ad_content_bearing = False, ad_authorize_create = Some bulk_authorize, ad_execute = bulk_execute\<rparr>"

definition buildEmailReplyDraftAction :: action_definition where
  "buildEmailReplyDraftAction =
     \<lparr>ad_type = EMAIL_REPLY_DRAFT_ACTION, ad_schema = reply_schema, ad_initial_status = PendingApproval,
      ad_ttl_seconds = 7 * 24 * 60 * 60, ad_summarize = reply_summarize, ad_preview = reply_preview,
      ad_content_bearing = True, ad_authorize_create = None, ad_execute = reply_execute\<rparr>"

definition registry_get :: "(string \<Rightarrow> bool) \<Rightarrow> string \<Rightarrow> action_definition op" where
  "registry_get is_uuid actionType =
     (if actionType = BULK_OUTDATE_ACTION then ret (buildBulkOutdateAction is_uuid)
      else if actionType = EMAIL_REPLY_DRAFT_ACTION then ret buildEmailReplyDraftAction
      else raise (BadRequest (UnknownActionType actionType)))"

definition registry_parse :: "(string \<Rightarrow> bool) \<Rightarrow> string \<Rightarrow> json \<Rightarrow> action_payload op" where
  "registry_parse is_uuid actionType raw =
     bindA (registry_get is_uuid actionType) (\<lambda>def.
       case ad_schema def raw of
         None \<Rightarrow> raise (BadRequest (InvalidPayload actionType))
       | Some payload \<Rightarrow> ret payload)"

subsection \<open>What a caller sees\<close>

record approval_dto =
  ao_id :: uuid
  ao_action_type :: string
  ao_status :: approval_status
  ao_summary :: string
  ao_preview :: "string list"
  ao_requested_by :: "user_id option"
  ao_created_at :: "string option"
  ao_expires_at :: "string option"
  ao_decided_by :: "user_id option"
  ao_decided_at :: "string option"
  ao_executed_at :: "string option"
  ao_result :: "string option"

definition toDto :: "(string \<Rightarrow> bool) \<Rightarrow> approval_row \<Rightarrow> user_id \<Rightarrow> string option \<Rightarrow> approval_dto op" where
  "toDto is_uuid row viewerId result =
     bindA (registry_get is_uuid (ap_action_type row)) (\<lambda>def.
     let payload = ad_schema def (ap_payload row);
         contentGated = (ad_content_bearing def \<and> ap_requested_by row \<noteq> Some viewerId)
     in ret
       \<lparr>ao_id = ap_id row, ao_action_type = ap_action_type row, ao_status = ap_status row,
        ao_summary =
          (if contentGated then ''Private draft (visible only to the member who requested it)''
           else case payload of Some p \<Rightarrow> ad_summarize def p | None \<Rightarrow> ap_action_type row),
        ao_preview =
          (if contentGated then [''The content of this item is visible only to the member who requested it.'']
           else case payload of Some p \<Rightarrow> ad_preview def p | None \<Rightarrow> []),
        ao_requested_by = ap_requested_by row, ao_created_at = Some (iso_string (ap_created_at row)),
        ao_expires_at = map_option iso_string (ap_expires_at row), ao_decided_by = ap_decided_by row,
        ao_decided_at = map_option iso_string (ap_decided_at row),
        ao_executed_at = map_option iso_string (ap_executed_at row), ao_result = result\<rparr>)"

text \<open>\<^verbatim>\<open>a.summary\<close> is falsy when empty; a later audit row of the same approval overwrites an earlier one.\<close>

definition execution_results :: "approval_row list \<Rightarrow> pg \<Rightarrow> string \<Rightarrow> string option" where
  "execution_results rows d =
     (let executed = map ap_id (filter (\<lambda>r. ap_status r = Executed) rows);
          auditRows = filter (\<lambda>a. a_action a = ''approval.executed'' \<and> a_entity_id a \<in> set executed) (t_audit d)
      in map_of (rev (List.map_filter (\<lambda>a. case json_text (a_detail a) ''summary'' of
             Some s \<Rightarrow> if s = [] then None else Some (a_entity_id a, s) | None \<Rightarrow> None) auditRows)))"

definition toDtos :: "(string \<Rightarrow> bool) \<Rightarrow> approval_row list \<Rightarrow> user_id \<Rightarrow> approval_dto list op" where
  "toDtos is_uuid rows viewerId =
     bindA (reads (\<lambda>w. execution_results rows (w_pg w))) (\<lambda>results.
       fold_each (\<lambda>acc r. bindA (toDto is_uuid r viewerId (results (ap_id r))) (\<lambda>dto. ret (acc @ [dto]))) rows [])"

subsection \<open>The request side\<close>

definition approval_by_id :: "uuid \<Rightarrow> pg \<Rightarrow> approval_row option" where
  "approval_by_id i d = find (\<lambda>a. ap_id a = i) (t_approval d)"

definition insert_approval :: "approval_row \<Rightarrow> unit op" where
  "insert_approval row w =
     (if ap_id row \<in> ap_id ` set (t_approval (w_pg w)) then (Inl UniqueViolation, w)
      else (Inr (), update_pg (\<lambda>d. d\<lparr>t_approval := t_approval d @ [row]\<rparr>) w))"

definition update_approval :: "uuid \<Rightarrow> (approval_row \<Rightarrow> approval_row) \<Rightarrow> unit op" where
  "update_approval i f = updates (update_pg (\<lambda>d. d\<lparr>t_approval := update_where (\<lambda>a. ap_id a = i) f (t_approval d)\<rparr>))"

definition approval_audit ::
  "string \<Rightarrow> string \<Rightarrow> uuid \<Rightarrow> (string \<times> json) list \<Rightarrow> string option \<Rightarrow> user_id option \<Rightarrow> audit_entry" where
  "approval_audit actor action i detail org owner =
     \<lparr>a_actor = actor, a_action = action, a_entity_type = ''approval'', a_entity_id = i,
      a_detail = JObj detail, a_org_id = org, a_owner_id = owner\<rparr>"

definition submit_approval ::
  "principal \<Rightarrow> string \<Rightarrow> action_definition \<Rightarrow> action_payload \<Rightarrow> approval_row op" where
  "submit_approval prin actionType def payload =
     bindA (reads w_clock) (\<lambda>now.
     transaction (
       bindA draw_uuid (\<lambda>i.
       let row = \<lparr>ap_id = i, ap_action_type = actionType, ap_payload = payload_to_json payload,
             ap_status = ad_initial_status def, ap_org_id = Some (p_org_id prin),
             ap_requested_by = Some (p_user_id prin), ap_decided_by = None, ap_decided_at = None,
             ap_executed_at = None, ap_expires_at = Some (now + int (ad_ttl_seconds def) * 1000),
             ap_created_at = now\<rparr>
       in thenA (insert_approval row)
          (thenA (writeAudit (approval_audit (''user:'' @ p_user_id prin) ''approval.created'' i
                    [(''actionType'', JStr actionType), (''status'', JStr (approval_status_text (ap_status row)))]
                    (Some (p_org_id prin)) (Some (p_user_id prin))))
            (ret row)))))"

definition authorize_create :: "action_definition \<Rightarrow> principal \<Rightarrow> action_payload \<Rightarrow> unit op" where
  "authorize_create def prin payload =
     (case ad_authorize_create def of None \<Rightarrow> ret () | Some check \<Rightarrow> check prin payload)"

definition approval_create ::
  "(string \<Rightarrow> bool) \<Rightarrow> principal \<Rightarrow> string \<Rightarrow> json \<Rightarrow> approval_dto op" where
  "approval_create is_uuid prin actionType rawPayload =
     bindA (registry_get is_uuid actionType) (\<lambda>def.
     bindA (registry_parse is_uuid actionType rawPayload) (\<lambda>payload.
     thenA (authorize_create def prin payload)
     (bindA (submit_approval prin actionType def payload) (\<lambda>row.
      toDto is_uuid row (p_user_id prin) None))))"

definition lockForOrg :: "principal \<Rightarrow> uuid \<Rightarrow> approval_row op" where
  "lockForOrg prin i =
     bindA (reads (\<lambda>w. approval_by_id i (w_pg w))) (\<lambda>found.
       case found of
         None \<Rightarrow> raise (NotFound ''approval'' i)
       | Some row \<Rightarrow> if ap_org_id row \<noteq> Some (p_org_id prin) then raise (NotFound ''approval'' i) else ret row)"

datatype decision = Approve | Reject

definition decided_status :: "decision \<Rightarrow> approval_status" where
  "decided_status decision = (if decision = Approve then Approved else Rejected)"

definition decide :: "(string \<Rightarrow> bool) \<Rightarrow> principal \<Rightarrow> uuid \<Rightarrow> decision \<Rightarrow> approval_row op" where
  "decide is_uuid prin i decision =
     bindA (lockForOrg prin i) (\<lambda>current.
     bindA (registry_get is_uuid (ap_action_type current)) (\<lambda>def.
     thenA (raise_if (ad_content_bearing def \<and> ap_requested_by current \<noteq> Some (p_user_id prin)) (NotFound ''approval'' i))
     (thenA (case checkApprovalTransition (ap_status current) (decided_status decision) of
               Some refusal \<Rightarrow> raise (Unprocessable refusal) | None \<Rightarrow> ret ())
     (bindA (reads w_clock) (\<lambda>now.
      let decided = (\<lambda>a. a\<lparr>ap_status := decided_status decision, ap_decided_by := Some (p_user_id prin),
                              ap_decided_at := Some now\<rparr>)
      in thenA (update_approval i decided)
        (thenA (writeAudit (approval_audit (''user:'' @ p_user_id prin)
                  (if decision = Approve then ''approval.approved'' else ''approval.rejected'') i
                  [(''actionType'', JStr (ap_action_type current)),
                   (''from'', JStr (approval_status_text (ap_status current))),
                   (''to'', JStr (approval_status_text (decided_status decision)))]
                  (Some (p_org_id prin)) (Some (p_user_id prin))))
        (thenA (when_do (decision = Approve) (withTransactionalEnqueue
                  \<lparr>ev_type = ''approval.approved'',
                   ev_payload = [(''source_type'', JStr APPROVAL_JOB_SOURCE_TYPE), (''source_id'', JStr i)]\<rparr>
                  APPROVAL_EXECUTE_JOB_TYPE \<lparr>j_source_type = APPROVAL_JOB_SOURCE_TYPE, j_source_id = i\<rparr>))
          (ret (decided current)))))))))"

definition approval_confirm ::
  "(string \<Rightarrow> bool) \<Rightarrow> principal \<Rightarrow> uuid \<Rightarrow> decision \<Rightarrow> approval_dto op" where
  "approval_confirm is_uuid prin i decision =
     bindA (transaction (decide is_uuid prin i decision)) (\<lambda>row. toDto is_uuid row (p_user_id prin) None)"

definition is_stale :: "time \<Rightarrow> approval_row \<Rightarrow> bool" where
  "is_stale now a \<longleftrightarrow> ap_status a = PendingApproval \<and> (case ap_expires_at a of None \<Rightarrow> False | Some t \<Rightarrow> t < now)"

definition expireStale :: "nat op" where
  "expireStale =
     transaction (
       bindA (reads (\<lambda>w. filter (is_stale (w_clock w)) (t_approval (w_pg w)))) (\<lambda>stale.
         if stale = [] then ret 0
         else let ids = map ap_id stale in
           thenA (updates (update_pg (\<lambda>d. d\<lparr>t_approval :=
                    update_where (\<lambda>a. ap_id a \<in> set ids) (\<lambda>a. a\<lparr>ap_status := Expired\<rparr>) (t_approval d)\<rparr>)))
           (thenA (each (\<lambda>r. writeAudit (approval_audit ''scheduler'' ''approval.expired'' (ap_id r)
                      [(''actionType'', JStr (ap_action_type r)), (''from'', JStr ''pending_approval''), (''to'', JStr ''expired'')]
                      (ap_org_id r) (ap_requested_by r))) stale)
             (ret (length stale)))))"

text \<open>
  \<^verbatim>\<open>ORDER BY created_at DESC\<close>, and \<^verbatim>\<open>ORDER BY decided_at DESC\<close>, where Postgres puts NULL first.
\<close>

definition pending_rows :: "principal \<Rightarrow> pg \<Rightarrow> approval_row list" where
  "pending_rows prin d =
     take 200 (sort_key (\<lambda>a. - ap_created_at a)
       (filter (\<lambda>a. ap_org_id a = Some (p_org_id prin) \<and> ap_status a = PendingApproval) (t_approval d)))"

definition history_rows :: "principal \<Rightarrow> pg \<Rightarrow> approval_row list" where
  "history_rows prin d =
     take 200 (nulls_first_desc ap_decided_at
       (filter (\<lambda>a. ap_org_id a = Some (p_org_id prin) \<and> ap_status a \<in> {Executed, Rejected, Expired}) (t_approval d)))"

definition listPending :: "(string \<Rightarrow> bool) \<Rightarrow> principal \<Rightarrow> approval_dto list op" where
  "listPending is_uuid prin =
     bindA (reads (\<lambda>w. pending_rows prin (w_pg w))) (\<lambda>rows. toDtos is_uuid rows (p_user_id prin))"

definition listHistory :: "(string \<Rightarrow> bool) \<Rightarrow> principal \<Rightarrow> approval_dto list op" where
  "listHistory is_uuid prin =
     bindA (reads (\<lambda>w. history_rows prin (w_pg w))) (\<lambda>rows. toDtos is_uuid rows (p_user_id prin))"

definition approval_get :: "(string \<Rightarrow> bool) \<Rightarrow> principal \<Rightarrow> uuid \<Rightarrow> approval_dto op" where
  "approval_get is_uuid prin i =
     bindA (lockForOrg prin i) (\<lambda>row.
     bindA (toDtos is_uuid [row] (p_user_id prin)) (\<lambda>dtos. ret (hd dtos)))"


subsection \<open>The finished draft\<close>

definition is_alnum :: "char \<Rightarrow> bool" where
  "is_alnum c = (let n = (of_char c :: nat) in
     (48 \<le> n \<and> n \<le> 57) \<or> (65 \<le> n \<and> n \<le> 90) \<or> (97 \<le> n \<and> n \<le> 122))"

definition upper_hex :: "nat \<Rightarrow> char" where
  "upper_hex n = (if n < 10 then char_of (48 + n) else char_of (55 + n))"

definition percent :: "char \<Rightarrow> string" where
  "percent c = (let n = (of_char c :: nat) in [CHR ''%'', upper_hex (n div 16), upper_hex (n mod 16)])"

definition encodeURIComponent :: "string \<Rightarrow> string" where
  "encodeURIComponent s =
     concat (map (\<lambda>c. if is_alnum c \<or> c \<in> set ''-_.!~*'' \<or> c = CHR 0x27 \<or> c = CHR ''('' \<or> c = CHR '')''
                       then [c] else percent c) s)"

text \<open>The serialisation of \<^verbatim>\<open>URLSearchParams\<close>: a space becomes a plus sign.\<close>

definition form_encode :: "string \<Rightarrow> string" where
  "form_encode s =
     concat (map (\<lambda>c. if c = CHR '' '' then ''+''
                       else if is_alnum c \<or> c \<in> set ''*-._'' then [c] else percent c) s)"

definition buildMailto :: "reply_draft \<Rightarrow> string" where
  "buildMailto p =
     ''mailto:'' @ encodeURIComponent (rd_to p) @
     ''?subject='' @ form_encode (rd_subject p) @ ''&body='' @ form_encode (rd_body p)"

definition CRLF :: string where
  "CRLF = [CHR 0x0D, CHR 0x0A]"

text \<open>\<^verbatim>\<open>body.replace(/\r?\n/g, '\r\n')\<close>\<close>

fun crlf_lines :: "string \<Rightarrow> string" where
  "crlf_lines [] = []"
| "crlf_lines (c # cs) =
     (if c = CHR 0x0A then CRLF @ crlf_lines cs
      else if c = CHR 0x0D then (case cs of
             d # ds \<Rightarrow> if d = CHR 0x0A then CRLF @ crlf_lines ds else c # crlf_lines cs
           | [] \<Rightarrow> [c])
      else c # crlf_lines cs)"

definition eml_headers :: "reply_draft \<Rightarrow> string list" where
  "eml_headers p =
     [''To: '' @ rd_to p, ''Subject: '' @ rd_subject p, ''MIME-Version: 1.0'',
      ''Content-Type: text/plain; charset=utf-8''] @
     (case rd_in_reply_to p of None \<Rightarrow> [] | Some i \<Rightarrow> if i = [] then [] else [''In-Reply-To: '' @ i]) @
     (if rd_references p = [] then [] else [''References: '' @ join '' '' (rd_references p)])"

definition buildEml :: "reply_draft \<Rightarrow> string" where
  "buildEml p = join CRLF (eml_headers p) @ CRLF @ CRLF @ crlf_lines (rd_body p) @ CRLF"

record reply_draft_view =
  dv_approval_id :: uuid
  dv_status :: approval_status
  dv_to :: string
  dv_recipient_resolved :: bool
  dv_recipient_verified :: bool
  dv_subject :: string
  dv_body :: string
  dv_mailto :: string
  dv_eml :: string
  dv_sent :: bool

definition getEmailDraft :: "(string \<Rightarrow> bool) \<Rightarrow> principal \<Rightarrow> uuid \<Rightarrow> reply_draft_view op" where
  "getEmailDraft is_uuid prin i =
     bindA (reads (\<lambda>w. approval_by_id i (w_pg w))) (\<lambda>found.
       case found of
         None \<Rightarrow> raise (NotFound ''email draft'' i)
       | Some row \<Rightarrow>
           if ap_org_id row \<noteq> Some (p_org_id prin) \<or> ap_requested_by row \<noteq> Some (p_user_id prin) \<or>
              ap_action_type row \<noteq> EMAIL_REPLY_DRAFT_ACTION
           then raise (NotFound ''email draft'' i)
           else bindA (registry_parse is_uuid EMAIL_REPLY_DRAFT_ACTION (ap_payload row)) (\<lambda>payload.
             case payload of
               ReplyDraft p \<Rightarrow>
                 ret \<lparr>dv_approval_id = ap_id row, dv_status = ap_status row, dv_to = rd_to p,
                      dv_recipient_resolved = isRecipientResolved p, dv_recipient_verified = isRecipientVerified p,
                      dv_subject = rd_subject p, dv_body = rd_body p, dv_mailto = buildMailto p,
                      dv_eml = buildEml p, dv_sent = False\<rparr>
             | BulkOutdate _ _ \<Rightarrow> raise (Failure ''payload of another action'')))"

subsection \<open>Execution in the worker\<close>

definition perform_action ::
  "approval_row \<Rightarrow> action_definition \<Rightarrow> action_payload \<Rightarrow> (bool \<times> unit op option) op" where
  "perform_action row def payload =
     (let ctx = \<lparr>cx_user_id = or_else (ap_requested_by row) [], cx_org_id = or_else (ap_org_id row) []\<rparr>
      in bindA (ad_execute def ctx payload) (\<lambda>result.
         bindA (reads w_clock) (\<lambda>now.
         thenA (update_approval (ap_id row) (\<lambda>a. a\<lparr>ap_status := Executed, ap_executed_at := Some now\<rparr>))
         (thenA (writeAudit (approval_audit (''approval_executor:'' @ cx_user_id ctx) ''approval.executed'' (ap_id row)
                   ([(''actionType'', JStr (ap_action_type row)), (''summary'', JStr (ar_summary result))] @ ar_detail result)
                   (ap_org_id row) (Some (cx_user_id ctx))))
           (ret (False, ar_after result))))))"

definition approval_execute :: "(string \<Rightarrow> bool) \<Rightarrow> uuid \<Rightarrow> (bool \<times> unit op option) op" where
  "approval_execute is_uuid approvalId =
     bindA (reads (\<lambda>w. approval_by_id approvalId (w_pg w))) (\<lambda>found.
     case found of
       None \<Rightarrow> raise (Failure ''approval not found'')
     | Some row \<Rightarrow>
         if ap_status row = Executed then ret (True, None)
         else if ap_status row \<noteq> Approved then raise (Failure ''cannot execute approval in this state'')
         else bindA (registry_get is_uuid (ap_action_type row)) (\<lambda>def.
           case ad_schema def (ap_payload row) of
             None \<Rightarrow> raise (Failure ''approval has an invalid stored payload'')
           | Some payload \<Rightarrow> perform_action row def payload))"

definition approval_handler :: "(string \<Rightarrow> bool) \<Rightarrow> job_handler" where
  "approval_handler is_uuid p = bindA (approval_execute is_uuid (j_source_id p)) (\<lambda>r. ret (snd r))"

end
