(* ===== verification/Approval_Laws.thy ===== *)
theory Approval_Laws
  imports Approvals Reconciliation_Laws
begin

text \<open>
  What the approval aggregate guarantees: statuses only move along the machine's edges under
  every call and job, nothing executes without a recorded decision, the bulk action changes
  what it reports, drafts stay private, and the texts of a finished draft can be read back.
\<close>

subsection \<open>Operations that leave approvals alone\<close>

definition approvals_are :: "approval_row list \<Rightarrow> world \<Rightarrow> bool" where
  "approvals_are A w \<longleftrightarrow> t_approval (w_pg w) = A"

interpretation apr: pg_evolution "approvals_are A" ids_forward for A
  by unfold_locales (auto simp: approvals_are_def ids_forward_def outside_pg_def)

abbreviation leaves_approvals :: "approval_row list \<Rightarrow> 'a op \<Rightarrow> bool" where
  "leaves_approvals A m \<equiv> keeps (approvals_are A) ids_forward m"

lemma apr_update_pg: "(\<And>d. t_approval (f d) = t_approval d) \<Longrightarrow> leaves_approvals A (updates (update_pg f))"
  by (auto simp: keeps_def keeps_from_def wp_simps approvals_are_def ids_forward_def)

lemma apr_writeAudit: "leaves_approvals A (writeAudit e)"
  by (auto simp: writeAudit_def keeps_def keeps_from_def wp_simps approvals_are_def ids_forward_def)

lemma apr_enqueue: "leaves_approvals A (withTransactionalEnqueue ev job payload)"
  unfolding withTransactionalEnqueue_def by (rule apr_update_pg) simp

lemma apr_write_memory: "leaves_approvals A (write_memory f)"
  by (auto simp: keeps_def keeps_from_def wp_def write_memory_def Let_def approvals_are_def ids_forward_def)

lemma apr_update: "leaves_approvals A (update_memory i f)" "leaves_approvals A (update_returning row f)"
  unfolding update_memory_def update_returning_def by (intro apr.control apr_write_memory)+

lemma apr_select: "leaves_approvals A (select_memory i)"
  unfolding select_memory_def by (rule apr.keeps_reads)

lemma apr_lockRow: "leaves_approvals A (lockRow i actor)"
  unfolding lockRow_def by (auto split: option.splits intro!: apr.control apr_select)

lemma apr_consume: "leaves_approvals A (consumeIdempotencyKey k)"
  by (auto simp: keeps_def keeps_from_def wp_def consumeIdempotencyKey_def approvals_are_def ids_forward_def)

lemmas apr_ops = apr.control apr.outside_ops apr.keeps_transaction apr_writeAudit apr_enqueue apr_update apr_select
  apr_lockRow apr_consume

lemma apr_transitionInTx: "leaves_approvals A (transitionInTx actor i to sync)"
  unfolding transitionInTx_def by (auto split: transition_check.splits intro!: apr_ops)

lemma apr_bulk: "leaves_approvals A (bulkMarkOutdatedForOwner owner ids)"
proof -
  have "leaves_approvals A (bulk_one owner acc i)" for acc i
    unfolding bulk_one_def
    by (rule apr.keeps_bind [OF apr_select]) (auto split: option.splits intro!: apr_ops apr_transitionInTx)
  then show ?thesis unfolding bulkMarkOutdatedForOwner_def by (intro apr_ops)
qed

lemma apr_sync: "leaves_approvals A (syncStatusPayloads ids st)"
  unfolding syncStatusPayloads_def by (intro apr_ops)

lemma apr_ad_execute:
  "def \<in> {buildBulkOutdateAction is_uuid, buildEmailReplyDraftAction} \<Longrightarrow> leaves_approvals A (ad_execute def ctx payload)"
  by (cases payload) (auto simp: buildBulkOutdateAction_def buildEmailReplyDraftAction_def intro!: apr_ops apr_bulk)

lemma apr_registry: "leaves_approvals A (registry_get is_uuid ty)" "leaves_approvals A (registry_parse is_uuid ty raw)"
proof -
  show g: "leaves_approvals A (registry_get is_uuid ty)"
    unfolding registry_get_def by (intro apr_ops)
  show "leaves_approvals A (registry_parse is_uuid ty raw)"
    unfolding registry_parse_def by (rule apr.keeps_bind [OF g]) (auto split: option.splits intro: apr_ops)
qed

subsection \<open>Approvals move along the edges\<close>

definition approval_edge :: "approval_status \<Rightarrow> approval_status \<Rightarrow> bool" where
  "approval_edge s t \<longleftrightarrow> t \<in> set (EDGES s)"

definition decided_ok :: "approval_row \<Rightarrow> bool" where
  "decided_ok a \<longleftrightarrow> (ap_status a \<in> {Approved, Rejected, Executed} \<longrightarrow> ap_decided_by a \<noteq> None \<and>
     (ap_action_type a = EMAIL_REPLY_DRAFT_ACTION \<longrightarrow> ap_decided_by a = ap_requested_by a))"

definition approvals_ok :: "world \<Rightarrow> bool" where
  "approvals_ok w \<longleftrightarrow> distinct (map ap_id (t_approval (w_pg w))) \<and> list_all decided_ok (t_approval (w_pg w))"

definition follows :: "approval_row \<Rightarrow> approval_row \<Rightarrow> bool" where
  "follows a b \<longleftrightarrow> ap_id b = ap_id a \<and> ap_action_type b = ap_action_type a \<and> ap_org_id b = ap_org_id a \<and>
     ap_requested_by b = ap_requested_by a \<and> ap_created_at b = ap_created_at a \<and> ap_expires_at b = ap_expires_at a \<and>
     approval_edge\<^sup>*\<^sup>* (ap_status a) (ap_status b)"

definition approval_ids :: "world \<Rightarrow> uuid set" where
  "approval_ids w = ap_id ` set (t_approval (w_pg w))"

text \<open>Every approval goes on along the edges; one that is new began as a draft or as pending.\<close>

definition approvals_move :: "world \<Rightarrow> world \<Rightarrow> bool" where
  "approvals_move w w' \<longleftrightarrow> ids_forward w w' \<and>
     (\<forall>a \<in> set (t_approval (w_pg w)). \<exists>b \<in> set (t_approval (w_pg w')). follows a b) \<and>
     (\<forall>b \<in> set (t_approval (w_pg w')). ap_id b \<notin> approval_ids w \<longrightarrow> approval_edge\<^sup>*\<^sup>* Draft (ap_status b))"

lemma follows_refl [simp]: "follows a a"
  by (simp add: follows_def)

lemma follows_trans: "follows a b \<Longrightarrow> follows b c \<Longrightarrow> follows a c"
  by (auto simp: follows_def)

lemma follows_kept: "approvals_ok w \<Longrightarrow> a \<in> set (t_approval (w_pg w)) \<Longrightarrow> b \<in> set (t_approval (w_pg w)) \<Longrightarrow>
    ap_id a = ap_id b \<Longrightarrow> a = b"
  by (auto simp: approvals_ok_def distinct_map inj_on_def)

lemma approvals_move_trans:
  assumes ok: "approvals_ok t" "approvals_ok u" and st: "approvals_move s t" and tu: "approvals_move t u"
  shows "approvals_move s u"
proof -
  have "approval_edge\<^sup>*\<^sup>* Draft (ap_status c)"
    if c: "c \<in> set (t_approval (w_pg u))" "ap_id c \<notin> approval_ids s" for c
  proof (cases "ap_id c \<in> approval_ids t")
    case True
    then obtain b where b: "b \<in> set (t_approval (w_pg t))" "ap_id b = ap_id c" by (auto simp: approval_ids_def)
    then obtain c' where c': "c' \<in> set (t_approval (w_pg u))" "follows b c'" using tu by (auto simp: approvals_move_def)
    then have "c' = c" using follows_kept [OF ok(2) c'(1) c(1)] b(2) by (simp add: follows_def)
    moreover have "approval_edge\<^sup>*\<^sup>* Draft (ap_status b)" using st b c(2) by (simp add: approvals_move_def)
    ultimately show ?thesis using c'(2) by (auto simp: follows_def intro: rtranclp_trans)
  qed (use tu c in \<open>simp add: approvals_move_def\<close>)
  moreover have "\<exists>c \<in> set (t_approval (w_pg u)). follows a c" if "a \<in> set (t_approval (w_pg s))" for a
    using st tu that unfolding approvals_move_def by (meson follows_trans)
  ultimately show ?thesis
    using st tu unfolding approvals_move_def ids_forward_def by (metis le_trans)
qed

lemma approvals_move_same:
  "t_approval (w_pg w') = t_approval (w_pg w) \<Longrightarrow> ids_forward w w' \<Longrightarrow> approvals_move w w'"
  by (auto simp: approvals_move_def approval_ids_def intro: follows_refl)

interpretation life: pg_evolution approvals_ok approvals_move
proof unfold_locales
  fix s t u
  assume "approvals_ok t" "approvals_ok u" "approvals_move s t" "approvals_move t u"
  then show "approvals_move s u" by (rule approvals_move_trans)
qed (auto simp: approvals_ok_def outside_pg_def ids_forward_def intro!: approvals_move_same,
    simp_all add: approvals_move_def ids_forward_def)

abbreviation lives :: "'a op \<Rightarrow> bool" where
  "lives m \<equiv> keeps approvals_ok approvals_move m"

lemma lives_frame:
  assumes "\<And>A. leaves_approvals A m"
  shows "lives m"
proof (rule keeps_fromI)
  fix w
  obtain r w' where run: "m w = (r, w')" by fastforce
  then have "approvals_are (t_approval (w_pg w)) w' \<and> ids_forward w w'"
    using keeps_run [OF assms _ run, of "t_approval (w_pg w)"] by (simp add: approvals_are_def)
  then show "keeps_from approvals_ok approvals_move m w"
    using run by (auto simp: keeps_from_def wp_def approvals_ok_def approvals_are_def intro: approvals_move_same)
qed


lemma lives_insert:
  assumes "decided_ok row" and "ap_status row \<in> {Draft, PendingApproval}"
  shows "lives (insert_approval row)"
proof -
  have "approval_edge\<^sup>*\<^sup>* Draft (ap_status row)" using assms(2) by (auto simp: approval_edge_def)
  then show ?thesis
    using assms(1)
    by (intro keeps_fromI)
      (auto simp: keeps_from_def wp_def insert_approval_def approvals_ok_def approvals_move_def approval_ids_def
        ids_forward_def intro: follows_refl)
qed

text \<open>An update of one row, or of several, along an edge.\<close>

lemma lives_update_where:
  assumes "\<And>a. a \<in> set (t_approval (w_pg w)) \<Longrightarrow> P a \<Longrightarrow> decided_ok a \<Longrightarrow> follows a (f a) \<and> decided_ok (f a)"
  shows "keeps_from approvals_ok approvals_move
    (updates (update_pg (\<lambda>d. d\<lparr>t_approval := update_where P f (t_approval d)\<rparr>))) w"
proof (cases "approvals_ok w")
  case ok: True
  let ?A = "t_approval (w_pg w)"
  have f: "P a \<Longrightarrow> follows a (f a) \<and> decided_ok (f a)" if "a \<in> set ?A" for a
    using assms [OF that] ok that by (auto simp: approvals_ok_def list_all_iff)
  have "map ap_id (update_where P f ?A) = map ap_id ?A"
    unfolding update_where_def using f by (auto simp: follows_def)
  moreover have "list_all decided_ok (update_where P f ?A)"
    using ok f by (auto simp: approvals_ok_def list_all_iff update_where_def)
  moreover have "\<exists>b \<in> set (update_where P f ?A). follows a b" if "a \<in> set ?A" for a
    using f [OF that] that by (cases "P a") (force simp: update_where_def)+
  moreover have "ap_id b \<in> ap_id ` set ?A" if "b \<in> set (update_where P f ?A)" for b
    using that calculation(1) by (metis image_eqI set_map)
  ultimately show ?thesis
    using ok by (simp add: keeps_from_def wp_simps approvals_ok_def approvals_move_def approval_ids_def ids_forward_def)
qed (simp add: keeps_from_def)

lemma approval_by_id_Some:
  "approvals_ok w \<Longrightarrow> approval_by_id i (w_pg w) = Some a \<longleftrightarrow> a \<in> set (t_approval (w_pg w)) \<and> ap_id a = i"
  using find_key_unique [of ap_id "t_approval (w_pg w)" a]
  by (auto simp: approvals_ok_def approval_by_id_def find_Some_iff)

lemma lives_toDto: "lives (toDto is_uuid row viewer result)" "lives (toDtos is_uuid rows viewer)"
proof -
  have g: "lives (registry_get is_uuid ty)" for ty by (rule lives_frame) (rule apr_registry)
  show d: "lives (toDto is_uuid row viewer result)" for row result
    unfolding toDto_def Let_def by (intro life.keeps_bind [OF g] life.keeps_ret)
  show "lives (toDtos is_uuid rows viewer)"
    unfolding toDtos_def by (intro life.control d)
qed

lemma lives_writeAudit: "lives (writeAudit e)"
  by (rule lives_frame) (rule apr_writeAudit)

lemma lives_enqueue: "lives (withTransactionalEnqueue ev j p)"
  by (rule lives_frame) (rule apr_enqueue)

lemma lives_registry: "lives (registry_get is_uuid ty)" "lives (registry_parse is_uuid ty raw)"
  by (rule lives_frame, rule apr_registry)+

lemmas life_ops = life.control life.outside_ops life.keeps_transaction lives_writeAudit lives_enqueue lives_registry lives_toDto

lemma registry_get_Inr:
  "registry_get is_uuid ty w = (Inr def, w') \<Longrightarrow>
     w' = w \<and> def \<in> {buildBulkOutdateAction is_uuid, buildEmailReplyDraftAction} \<and> ad_type def = ty"
  by (auto simp: registry_get_def ret_def raise_def buildBulkOutdateAction_def buildEmailReplyDraftAction_def split: if_splits)

lemma lives_create: "lives (approval_create is_uuid prin ty raw)"
proof (rule keeps_fromI)
  fix w
  have "lives (bulk_authorize prin p)" for p
    by (cases p) (auto intro!: life_ops simp: Let_def)
  then have auth: "lives (authorize_create def prin payload)" and submit: "lives (submit_approval prin ty def payload)"
    if "def \<in> {buildBulkOutdateAction is_uuid, buildEmailReplyDraftAction}" for def payload
    using that unfolding authorize_create_def submit_approval_def Let_def
    by (auto simp: buildBulkOutdateAction_def buildEmailReplyDraftAction_def decided_ok_def
        intro!: life_ops lives_insert)
  show "keeps_from approvals_ok approvals_move (approval_create is_uuid prin ty raw) w"
    unfolding approval_create_def
    by (rule life.from_bind [OF keepsD [OF lives_registry(1)]], drule registry_get_Inr)
      (intro keepsD life_ops auth submit; simp)
qed

lemma lockForOrg_Inr:
  "lockForOrg prin i w = (Inr row, w') \<Longrightarrow>
     w' = w \<and> approval_by_id i (w_pg w) = Some row \<and> ap_org_id row = Some (p_org_id prin)"
  by (auto simp: lockForOrg_def ret_def raise_def split: option.splits if_splits)

lemma decided_along_edge:
  assumes "checkApprovalTransition (ap_status a) (decided_status decision) = None"
  shows "follows a (a\<lparr>ap_status := decided_status decision, ap_decided_by := by_user, ap_decided_at := at_time\<rparr>)"
  using assms by (auto simp: follows_def checkApprovalTransition_def approval_edge_def split: if_splits)

lemma raise_if_Inr: "raise_if b e w = (Inr u, w') \<Longrightarrow> \<not> b \<and> w' = w"
  by (auto simp: raise_if_def raise_def ret_def split: if_splits)

text \<open>The decided row follows the current one and carries its decision.\<close>

lemma lives_decision:
  assumes "approval_by_id i (w_pg w) = Some current" and "def \<in> {buildBulkOutdateAction is_uuid, buildEmailReplyDraftAction}"
    and "ad_type def = ap_action_type current"
    and "\<not> (ad_content_bearing def \<and> ap_requested_by current \<noteq> Some u)"
    and "checkApprovalTransition (ap_status current) (decided_status decision) = None"
  shows "keeps_from approvals_ok approvals_move (update_approval i
    (\<lambda>a. a\<lparr>ap_status := decided_status decision, ap_decided_by := Some u, ap_decided_at := Some now\<rparr>)) w"
proof (cases "approvals_ok w")
  case ok: True
  show ?thesis
    unfolding update_approval_def
  proof (rule lives_update_where)
    fix a assume "a \<in> set (t_approval (w_pg w))" "ap_id a = i"
    then have "a = current" using assms(1) approval_by_id_Some [OF ok, of i a] by simp
    moreover have "decided_ok (current\<lparr>ap_status := decided_status decision, ap_decided_by := Some u, ap_decided_at := Some now\<rparr>)"
      using assms(2-4) by (auto simp: decided_ok_def buildBulkOutdateAction_def buildEmailReplyDraftAction_def
          BULK_OUTDATE_ACTION_def EMAIL_REPLY_DRAFT_ACTION_def)
    ultimately show "follows a (a\<lparr>ap_status := decided_status decision, ap_decided_by := Some u, ap_decided_at := Some now\<rparr>) \<and>
        decided_ok (a\<lparr>ap_status := decided_status decision, ap_decided_by := Some u, ap_decided_at := Some now\<rparr>)"
      using decided_along_edge [OF assms(5)] by simp
  qed
qed (simp add: keeps_from_def)

lemma lives_lockForOrg: "lives (lockForOrg prin i)"
  unfolding lockForOrg_def by (auto split: option.splits intro!: life_ops)

lemma lives_decide: "lives (decide is_uuid prin i decision)"
proof (rule keeps_fromI)
  fix w
  show "keeps_from approvals_ok approvals_move (decide is_uuid prin i decision) w"
    unfolding decide_def Let_def
  proof (rule life.from_bind [OF keepsD [OF lives_lockForOrg]], drule lockForOrg_Inr,
      rule life.from_bind [OF keepsD [OF lives_registry(1)]], drule registry_get_Inr,
      rule life.from_then [OF life.from_raise_if], drule raise_if_Inr,
      rule life.from_then, goal_cases)
    case 1
    then show ?case by (auto split: option.splits intro: life.from_ret life.from_raise)
  next
    case (2 current s def t u v x y)
    then have "keeps_from approvals_ok approvals_move (update_approval i (\<lambda>a. a\<lparr>ap_status := decided_status decision,
        ap_decided_by := Some (p_user_id prin), ap_decided_at := Some now\<rparr>)) y" for now
      by (intro lives_decision [of _ _ current def is_uuid]) (auto simp: ret_def raise_def split: option.splits)
    then show ?case
      unfolding keeps_from_reads by (intro life.from_then) (assumption | intro keepsD life_ops lives_enqueue)+
  qed
qed

lemma lives_confirm: "lives (approval_confirm is_uuid prin i decision)"
  unfolding approval_confirm_def by (intro life_ops lives_decide)

lemma lives_expire: "lives expireStale"
proof (rule keeps_fromI)
  fix w :: world
  let ?stale = "filter (is_stale (w_clock w)) (t_approval (w_pg w))"
  have "keeps_from approvals_ok approvals_move (updates (update_pg (\<lambda>d. d\<lparr>t_approval :=
      update_where (\<lambda>a. ap_id a \<in> set (map ap_id ?stale)) (\<lambda>a. a\<lparr>ap_status := Expired\<rparr>) (t_approval d)\<rparr>))) w"
  proof (cases "approvals_ok w")
    case ok: True
    then show ?thesis
    proof (intro lives_update_where)
      fix a assume a: "a \<in> set (t_approval (w_pg w))" "ap_id a \<in> set (map ap_id ?stale)"
      then obtain b where "b \<in> set (t_approval (w_pg w))" "is_stale (w_clock w) b" "ap_id a = ap_id b" by auto
      with a ok have "is_stale (w_clock w) a"
        by (metis approval_by_id_Some option.inject)
      then show "follows a (a\<lparr>ap_status := Expired\<rparr>) \<and> decided_ok (a\<lparr>ap_status := Expired\<rparr>)"
        by (auto simp: follows_def decided_ok_def is_stale_def approval_edge_def)
    qed
  qed (simp add: keeps_from_def)
  then show "keeps_from approvals_ok approvals_move expireStale w"
    unfolding expireStale_def Let_def
    by (intro life.from_transaction) (auto intro!: life.from_ret life.from_then intro: keepsD life_ops)
qed


subsubsection \<open>The worker\<close>

lemma lives_perform:
  assumes row: "approval_by_id (ap_id row) (w_pg w) = Some row" "ap_status row = Approved"
    and def: "def \<in> {buildBulkOutdateAction is_uuid, buildEmailReplyDraftAction}"
  shows "keeps_from approvals_ok approvals_move (perform_action row def payload) w"
proof -
  have same: "t_approval (w_pg v) = t_approval (w_pg w)" if "ad_execute def ctx payload w = (Inr result, v)" for ctx result v
    using keeps_run [OF apr_ad_execute [OF def] _ that, of "t_approval (w_pg w)"] by (simp add: approvals_are_def)
  have upd: "keeps_from approvals_ok approvals_move
      (update_approval (ap_id row) (\<lambda>a. a\<lparr>ap_status := Executed, ap_executed_at := Some now\<rparr>)) v"
    if "t_approval (w_pg v) = t_approval (w_pg w)" for v now
  proof (cases "approvals_ok v")
    case ok: True
    have "a = row" if "a \<in> set (t_approval (w_pg v))" "ap_id a = ap_id row" for a
      using that approval_by_id_Some [OF ok, of "ap_id row" a] row \<open>t_approval (w_pg v) = t_approval (w_pg w)\<close>
      by (simp add: approval_by_id_def)
    moreover have "decided_ok row \<Longrightarrow> follows row (row\<lparr>ap_status := Executed, ap_executed_at := Some now\<rparr>) \<and>
        decided_ok (row\<lparr>ap_status := Executed, ap_executed_at := Some now\<rparr>)"
      using row(2) by (simp add: follows_def decided_ok_def approval_edge_def r_into_rtranclp)
    ultimately show ?thesis
      unfolding update_approval_def by (intro lives_update_where) metis
  qed (simp add: keeps_from_def)
  have act: "lives (ad_execute def ctx payload)" for ctx by (rule lives_frame) (rule apr_ad_execute [OF def])
  show ?thesis
    unfolding perform_action_def Let_def
  proof (rule life.from_bind [OF keepsD [OF act]], unfold keeps_from_reads, rule life.from_then [OF upd])
    fix a v
    assume "ad_execute def \<lparr>cx_user_id = or_else (ap_requested_by row) [], cx_org_id = or_else (ap_org_id row) []\<rparr> payload w = (Inr a, v)"
    then show "t_approval (w_pg v) = t_approval (w_pg w)" by (rule same)
  qed (intro keepsD life_ops)
qed

lemma lives_execute: "lives (approval_execute is_uuid i)"
proof (rule keeps_fromI)
  fix w :: world
  show "keeps_from approvals_ok approvals_move (approval_execute is_uuid i) w"
  proof (cases "approval_by_id i (w_pg w)")
    case None
    then show ?thesis by (simp add: approval_execute_def life.from_raise)
  next
    case (Some row)
    then have i: "ap_id row = i" by (auto simp: approval_by_id_def find_Some_iff)
    show ?thesis
    proof (cases "ap_status row = Approved")
      case True
      have "keeps_from approvals_ok approvals_move
         (bindA (registry_get is_uuid (ap_action_type row)) (\<lambda>def.
           case ad_schema def (ap_payload row) of
             None \<Rightarrow> raise (Failure ''approval has an invalid stored payload'')
           | Some payload \<Rightarrow> perform_action row def payload)) w"
        by (rule life.from_bind [OF keepsD [OF lives_registry(1)]], drule registry_get_Inr)
          (use Some True i in \<open>auto split: option.splits intro!: life.from_raise lives_perform [of _ _ _ is_uuid]\<close>)
      then show ?thesis by (simp add: approval_execute_def Some True)
    next
      case False
      then show ?thesis by (simp add: approval_execute_def Some life.from_ret life.from_raise)
    qed
  qed
qed


subsubsection \<open>Jobs\<close>

lemma apr_insert_dead_letter: "leaves_approvals A (insert_dead_letter row)"
  unfolding insert_dead_letter_def by (intro apr_ops apr_update_pg) simp

interpretation life: delivery_contract approvals_ok approvals_move
  by unfold_locales (rule lives_frame, rule apr_consume apr_insert_dead_letter)+

lemma bulk_execute_after:
  "ad_execute def ctx p w = (Inr res, w') \<Longrightarrow> def \<in> {buildBulkOutdateAction is_uuid, buildEmailReplyDraftAction} \<Longrightarrow>
     ar_after res = Some after \<Longrightarrow> \<exists>ids. after = syncStatusPayloads ids Outdated"
proof (cases p)
  case (BulkOutdate ids reason)
  assume "ad_execute def ctx p w = (Inr res, w')" "ar_after res = Some after"
    "def \<in> {buildBulkOutdateAction is_uuid, buildEmailReplyDraftAction}"
  with BulkOutdate obtain out :: bulk_result where "(if b_changed out = [] then None else Some (syncStatusPayloads (b_changed out) Outdated)) = Some after"
    by (auto simp: buildBulkOutdateAction_def buildEmailReplyDraftAction_def ret_def raise_def elim!: bindA_InrE)
  then have "after = syncStatusPayloads (b_changed out) Outdated" by (simp split: if_splits)
  then show ?thesis by (rule exI)
qed (auto simp: buildBulkOutdateAction_def buildEmailReplyDraftAction_def ret_def raise_def)

lemma approval_execute_after:
  assumes "approval_execute is_uuid i w = (Inr (b, Some after), w')"
  shows "\<exists>ids. after = syncStatusPayloads ids Outdated"
proof -
  obtain row where "approval_by_id i (w_pg w) = Some row"
    using assms by (auto simp: approval_execute_def raise_def split: option.splits)
  with assms obtain def v payload where get: "registry_get is_uuid (ap_action_type row) w = (Inr def, v)"
      and perform: "perform_action row def payload v = (Inr (b, Some after), w')"
    by (auto simp: approval_execute_def ret_def raise_def elim!: bindA_InrE split: if_splits option.splits)
  then obtain ctx res u where "ad_execute def ctx payload v = (Inr res, u)" "ar_after res = Some after"
    by (auto simp: perform_action_def Let_def ret_def elim!: bindA_InrE thenA_InrE)
  then show ?thesis using bulk_execute_after registry_get_Inr [OF get] by blast
qed

lemma lives_approval_job: "lives (idempotentTask describe jobType (approval_handler is_uuid) p attempts maxAttempts)"
proof (rule life.keeps_delivery)
  show "lives (approval_handler is_uuid q)" for q
    unfolding approval_handler_def by (intro life_ops lives_execute)
  fix w after w'
  assume "approval_handler is_uuid p w = (Inr (Some after), w')"
  then obtain b v where "approval_execute is_uuid (j_source_id p) w = (Inr (b, Some after), v)"
    by (auto simp: approval_handler_def ret_def elim!: bindA_InrE)
  then obtain ids where "after = syncStatusPayloads ids Outdated" using approval_execute_after by blast
  then show "lives after" using lives_frame [OF apr_sync] by simp
qed


subsubsection \<open>Deletions redact drafts and nothing else\<close>

lemma apr_delete_rows: "leaves_approvals A (delete_rows ids)"
proof -
  have "leaves_approvals A (null_pointers ids)"
    by (auto simp: keeps_def keeps_from_def wp_def null_pointers_def write_memory_def Let_def act_defs
        approvals_are_def ids_forward_def split: if_splits)
  moreover have "leaves_approvals A (delete_memories ids)"
    unfolding delete_memories_def by (intro apr.control apr_write_memory apr_update_pg) simp
  ultimately show ?thesis unfolding delete_rows_def by (intro apr.control)
qed

lemma apr_lift: "leaves_approvals A (liftContradictionsBeforeDeletion ids org)"
proof -
  have "leaves_approvals A (restoreFromContradiction row prior act actor org)" for row prior act actor org
    unfolding restoreFromContradiction_def by (intro apr_ops)
  then have "leaves_approvals A (lift_one ids org n q)" for n q
    unfolding lift_one_def Let_def by (auto split: option.splits prod.splits intro!: apr_ops)
  then show ?thesis unfolding liftContradictionsBeforeDeletion_def by (intro apr_ops)
qed

lemma apr_cancelPending: "leaves_approvals A (cancelPending in_flight st i b)"
  unfolding cancelPending_def Let_def by (intro apr_ops)

lemma apr_delete_file_row: "leaves_approvals A (delete_file_row key)"
  unfolding delete_file_row_def by (rule apr_update_pg) simp

lemma apr_cascadeFile: "leaves_approvals A (cascadeFileSubSource in_flight prin acc key)"
  unfolding cascadeFileSubSource_def
  by (auto split: option.splits intro!: apr.control apr_cancelPending apr_delete_file_row)

lemma apr_remove_source: "bound_adapter r \<Longrightarrow> leaves_approvals A (remove_source st i r keys)"
proof -
  assume r: "bound_adapter r"
  have "leaves_approvals A (updates (update_pg (port_delete a i)))" if "rs_adapter r = Some a" for a
    using r that
    by (intro apr_update_pg) (auto simp: bound_adapter_def SOURCE_DELETIONS_def NotesSourceDeletion_def ChatSourceDeletion_def
        EmailSourceDeletion_def TaskConclusionSourceDeletion_def WebSourceDeletion_def row_delete_def chat_delete_def)
  then show ?thesis
    unfolding remove_source_def Let_def
    by (auto split: option.splits intro!: apr.control apr_delete_file_row)
qed

lemma apr_finish: "leaves_approvals A (finish_request prin st i counts n ing)"
proof -
  have "leaves_approvals A (\<lambda>w. if j \<in> r_id ` set (t_receipt (w_pg w)) then (Inl UniqueViolation, w)
      else (Inr j, update_pg (\<lambda>d. d\<lparr>t_receipt := t_receipt d @ [q]\<rparr>) w))" for j q
    by (auto simp: keeps_def keeps_from_def wp_def approvals_are_def ids_forward_def)
  then show ?thesis unfolding finish_request_def insert_receipt_def by (intro apr_ops)
qed

lemma redact_follows: "draft_of s a \<Longrightarrow> decided_ok a \<Longrightarrow> follows a (redact_draft a) \<and> decided_ok (redact_draft a)"
  by (simp add: redact_draft_def follows_def decided_ok_def)

lemma chat_cascade_approvals: "t_approval (snd (chat_cascade ids d)) = t_approval d"
proof (induction ids d rule: chat_cascade.induct)
  case (1 ids d)
  then show ?case
    by (subst chat_cascade.simps) (auto simp: redact_answers_def Let_def split: prod.splits)
qed

lemma lives_cascade:
  assumes "c \<in> set DERIVED_CASCADES"
  shows "lives (run_cascade st i ids totals c)"
proof -
  have run: "lives (\<lambda>w. let (n, d) = g (w_pg w) in (Inr n, update_pg (\<lambda>_. d) w))"
    if "\<And>w. approvals_ok w \<Longrightarrow> keeps_from approvals_ok approvals_move (updates (update_pg (\<lambda>_. snd (g (w_pg w))))) w"
    for g :: "pg \<Rightarrow> nat \<times> pg"
    by (rule keeps_fromI) (use that in \<open>force simp: keeps_from_def wp_def updates_def Let_def split: prod.splits\<close>)
  have same: "keeps_from approvals_ok approvals_move (updates (update_pg (\<lambda>_. d))) w"
    if "t_approval d = t_approval (w_pg w)" for d and w :: world
    using that by (auto simp: keeps_from_def wp_simps approvals_ok_def ids_forward_def intro!: approvals_move_same)
  have mem: "lives (\<lambda>w. let (n, d) = dc_memories c ids (w_pg w) in (Inr n, update_pg (\<lambda>_. d) w))"
    using assms chat_cascade_approvals
    by (intro run same) (auto simp: DERIVED_CASCADES_def TasksCascade_def ChatAnswerCascade_def ReplyDraftCascade_def tasks_cascade_def Let_def)
  have redact: "keeps_from approvals_ok approvals_move (updates (update_pg (\<lambda>_. snd (reply_draft_cascade s i (w_pg w))))) w"
    for s and w :: world
  proof (cases "s = ''email''")
    case True
    have "keeps_from approvals_ok approvals_move
        (updates (update_pg (\<lambda>d. d\<lparr>t_approval := update_where (draft_of i) redact_draft (t_approval d)\<rparr>))) w"
      by (rule lives_update_where) (simp add: redact_follows)
    then show ?thesis using True by (simp add: keeps_from_def wp_simps reply_draft_cascade_def update_pg_def)
  qed (simp add: same reply_draft_cascade_def)
  have src: "lives (\<lambda>w. let (n, d) = f s i (w_pg w) in (Inr n, update_pg (\<lambda>_. d) w))" if "dc_source c = Some f" for f s
    using assms that by (intro run) (auto simp: DERIVED_CASCADES_def TasksCascade_def ChatAnswerCascade_def ReplyDraftCascade_def intro: redact)
  show ?thesis
    unfolding run_cascade_def Let_def
    by (rule life.keeps_bind [OF mem [unfolded Let_def]])
      (auto split: option.splits intro!: life.control src [unfolded Let_def])
qed

interpretation life: erasure_contract approvals_ok approvals_move
  by unfold_locales (rule lives_frame [OF apr_lift] lives_cascade lives_frame [OF apr_delete_rows]
    lives_frame [OF apr_remove_source] lives_frame [OF apr_finish] lives_frame [OF apr_cancelPending]
    lives_frame [OF apr_cascadeFile]; assumption?)+

subsection \<open>Histories of an instance\<close>

text \<open>
  Everything that touches approvals: requests, the expiry pass, deliveries of the execution job
  (any number, in any order, for any payload), deletions, and what the model leaves open, the
  clock and the faults of external calls.
\<close>

inductive approval_step :: "(string \<Rightarrow> bool) \<Rightarrow> (err \<Rightarrow> string) \<Rightarrow> world \<Rightarrow> world \<Rightarrow> bool"
  for is_uuid :: "string \<Rightarrow> bool" and describe :: "err \<Rightarrow> string" where
  create: "approval_create is_uuid prin ty raw w = (r, w') \<Longrightarrow> approval_step is_uuid describe w w'"
| confirm: "approval_confirm is_uuid prin i d w = (r, w') \<Longrightarrow> approval_step is_uuid describe w w'"
| expire: "expireStale w = (r, w') \<Longrightarrow> approval_step is_uuid describe w w'"
| deliver: "idempotentTask describe APPROVAL_EXECUTE_JOB_TYPE (approval_handler is_uuid) p attempts maxAttempts w = (r, w') \<Longrightarrow>
    approval_step is_uuid describe w w'"
| erase: "requestSourceDeletion in_flight prin raw_type i w = (r, w') \<Longrightarrow> approval_step is_uuid describe w w'"
| environment: "approval_step is_uuid describe w (w\<lparr>w_clock := now, w_faults := faults\<rparr>)"

lemma approval_step_keeps:
  assumes "approval_step is_uuid describe w w'" and "approvals_ok w"
  shows "approvals_ok w' \<and> approvals_move w w'"
  using assms(1)
proof cases
  case (create prin ty raw r)
  then show ?thesis using keeps_run [OF lives_create assms(2)] by blast
next
  case (confirm prin i d r)
  then show ?thesis using keeps_run [OF lives_confirm assms(2)] by blast
next
  case (expire r)
  then show ?thesis using keeps_run [OF lives_expire assms(2)] by blast
next
  case (deliver p attempts maxAttempts r)
  then show ?thesis using keeps_run [OF lives_approval_job assms(2)] by blast
next
  case (erase in_flight prin raw_type i r)
  then show ?thesis using keeps_run [OF life.keeps_requestSourceDeletion assms(2)] by blast
next
  case (environment now faults)
  then show ?thesis using assms(2) by (auto simp: approvals_ok_def ids_forward_def intro!: approvals_move_same)
qed

lemma approval_steps_keep:
  assumes "(approval_step is_uuid describe)\<^sup>*\<^sup>* w w'" and "approvals_ok w"
  shows "approvals_ok w' \<and> approvals_move w w'"
  using assms
proof (induction rule: rtranclp_induct)
  case (step v w')
  then show ?case using approval_step_keeps [of is_uuid describe v w'] life.move_trans [of w v w'] by simp
qed (simp add: life.move_refl)

lemma edge_from_terminal: "approval_edge\<^sup>*\<^sup>* s t \<Longrightarrow> EDGES s = [] \<Longrightarrow> t = s"
  by (erule converse_rtranclpE) (auto simp: approval_edge_def)

text \<open>
  Over every history of requests, decisions, expiry passes, deliveries of the execution
  job and source deletions, an approval that was rejected, expired or executed stays so, with
  the same action and requester.
\<close>

theorem approval_final:
  assumes "(approval_step is_uuid describe)\<^sup>*\<^sup>* w w'" and "approvals_ok w" and "a \<in> set (t_approval (w_pg w))"
    and "ap_status a \<in> {Rejected, Expired, Executed}"
  shows "\<exists>b. approval_by_id (ap_id a) (w_pg w') = Some b \<and> ap_status b = ap_status a \<and>
    ap_action_type b = ap_action_type a \<and> ap_requested_by b = ap_requested_by a"
proof -
  have ok: "approvals_ok w'" and "approvals_move w w'" using approval_steps_keep [OF assms(1,2)] by simp_all
  then obtain b where b: "b \<in> set (t_approval (w_pg w'))" "follows a b"
    using assms(3) unfolding approvals_move_def by blast
  moreover have "ap_status b = ap_status a"
    using b(2) assms(4) edge_from_terminal [of "ap_status a" "ap_status b"] by (auto simp: follows_def)
  ultimately show ?thesis using approval_by_id_Some [OF ok, of "ap_id a" b] by (auto simp: follows_def)
qed

text \<open>
  C24. Starting from no approvals, an approval that is approved or executed carries the user
  who decided it, and for a reply draft that user is the one who requested it.
\<close>

theorem execution_decided:
  assumes "t_approval (w_pg w) = []" and "(approval_step is_uuid describe)\<^sup>*\<^sup>* w w'"
    and "approval_by_id i (w_pg w') = Some a" and "ap_status a \<in> {Approved, Executed}"
  shows "ap_decided_by a \<noteq> None \<and>
    (if ap_action_type a = EMAIL_REPLY_DRAFT_ACTION then ap_decided_by a = ap_requested_by a else True)"
proof -
  have "approvals_ok w" using assms(1) by (simp add: approvals_ok_def)
  then have ok: "approvals_ok w'" using approval_steps_keep [OF assms(2)] by simp
  then have "decided_ok a" using assms(3) approval_by_id_Some [OF ok] by (auto simp: approvals_ok_def list_all_iff)
  then show ?thesis using assms(4) by (auto simp: decided_ok_def)
qed

subsection \<open>The bulk action\<close>

text \<open>What one memory becomes.\<close>

definition bulk_eligible :: "user_id \<Rightarrow> memory_row \<Rightarrow> bool" where
  "bulk_eligible owner r \<longleftrightarrow> m_owner r = owner \<and> m_status r \<notin> {UserApproved, Replaced, Outdated}"

lemma bulk_one_Inr:
  assumes "bulk_one owner acc i w = (Inr out, w')"
  shows "(case memory_by_id i (w_pg w) of
      Some r \<Rightarrow> if bulk_eligible owner r
        then b_changed out = b_changed acc @ [i] \<and> b_skipped out = b_skipped acc \<and>
          (\<forall>j. memory_by_id j (w_pg w') = (if j = i then Some (r\<lparr>m_status := Outdated, m_updated_at := w_clock w\<rparr>) else memory_by_id j (w_pg w)))
        else b_changed out = b_changed acc \<and> map fst (b_skipped out) = map fst (b_skipped acc) @ [i] \<and> w' = w
    | None \<Rightarrow> b_changed out = b_changed acc \<and> map fst (b_skipped out) = map fst (b_skipped acc) @ [i] \<and> w' = w)"
proof (cases "memory_by_id i (w_pg w)")
  case None
  then show ?thesis using assms by (auto simp: bulk_one_def select_memory_def skip_def ret_def)
next
  case (Some r)
  show ?thesis
  proof (cases "bulk_eligible owner r")
    case False
    then have "\<exists>reason. bulk_one owner acc i w = (Inr (skip i reason acc), w)"
      using Some by (cases "m_owner r = owner") (auto simp: bulk_one_def select_memory_def ret_def bulk_eligible_def)
    then obtain reason where "bulk_one owner acc i w = (Inr (skip i reason acc), w)" ..
    then show ?thesis using assms Some False by (simp add: skip_def)
  next
    case True
    then obtain u where t: "transitionInTx (User owner) i Outdated False w = (Inr u, w')" and out: "out = acc\<lparr>b_changed := b_changed acc @ [i]\<rparr>"
      using assms Some by (auto simp: bulk_one_def select_memory_def bulk_eligible_def ret_def elim!: thenA_InrE)
    from transitionInTx_Inr [OF t] Some have "u = r\<lparr>m_status := Outdated, m_updated_at := w_clock w\<rparr>" by auto
    then show ?thesis using transitionInTx_row(1) [OF t] out True Some by simp
  qed
qed


definition outdated_of :: "memory_row \<Rightarrow> memory_row \<Rightarrow> bool" where
  "outdated_of r r' \<longleftrightarrow> (\<exists>t. r' = r\<lparr>m_status := Outdated, m_updated_at := t\<rparr>)"

definition bulk_changes :: "user_id \<Rightarrow> uuid list \<Rightarrow> pg \<Rightarrow> pg \<Rightarrow> bool" where
  "bulk_changes owner ids d d' \<longleftrightarrow> (\<forall>j. case memory_by_id j d of
     None \<Rightarrow> memory_by_id j d' = None
   | Some r \<Rightarrow> (\<exists>r'. memory_by_id j d' = Some r' \<and>
       (if j \<in> set ids \<and> bulk_eligible owner r then outdated_of r r' else r' = r)))"

definition eligible_in :: "user_id \<Rightarrow> pg \<Rightarrow> uuid \<Rightarrow> bool" where
  "eligible_in owner d j \<longleftrightarrow> (case memory_by_id j d of None \<Rightarrow> False | Some r \<Rightarrow> bulk_eligible owner r)"

lemma bulk_fold_Inr:
  assumes "fold_each (bulk_one owner) ids acc w = (Inr out, w')" and "distinct ids"
  shows "bulk_changes owner ids (w_pg w) (w_pg w') \<and>
    b_changed out = b_changed acc @ filter (eligible_in owner (w_pg w)) ids \<and>
    map fst (b_skipped out) = map fst (b_skipped acc) @ filter (\<lambda>j. \<not> eligible_in owner (w_pg w) j) ids"
  using assms
proof (induction ids arbitrary: acc w)
  case Nil
  then show ?case by (auto simp: ret_def bulk_changes_def split: option.splits)
next
  case (Cons i ids)
  then obtain acc1 v where step: "bulk_one owner acc i w = (Inr acc1, v)"
      and rest: "fold_each (bulk_one owner) ids acc1 v = (Inr out, w')"
    by (auto elim!: bindA_InrE)
  have d: "i \<notin> set ids" "distinct ids" using Cons.prems(2) by simp_all
  note IH = Cons.IH [OF rest d(2)] and s = bulk_one_Inr [OF step]
  have others: "memory_by_id j (w_pg v) = memory_by_id j (w_pg w)" if "j \<noteq> i" for j
    using s that by (auto split: option.splits if_splits)
  then have "eligible_in owner (w_pg v) j = eligible_in owner (w_pg w) j" if "j \<noteq> i" for j
    using that by (simp add: eligible_in_def)
  then have el: "filter (eligible_in owner (w_pg v)) ids = filter (eligible_in owner (w_pg w)) ids"
      "filter (\<lambda>j. \<not> eligible_in owner (w_pg v) j) ids = filter (\<lambda>j. \<not> eligible_in owner (w_pg w) j) ids"
    using d(1) by (metis (mono_tags, lifting) filter_cong)+
  have ch: "bulk_changes owner ids (w_pg v) (w_pg w')" using IH by simp
  have i': "memory_by_id i (w_pg w') = memory_by_id i (w_pg v)"
    using ch d(1) unfolding bulk_changes_def by (cases "memory_by_id i (w_pg v)") (force dest: spec [of _ i])+
  have "bulk_changes owner (i # ids) (w_pg w) (w_pg w')"
    unfolding bulk_changes_def
  proof
    fix j
    show "case memory_by_id j (w_pg w) of None \<Rightarrow> memory_by_id j (w_pg w') = None
      | Some r \<Rightarrow> \<exists>r'. memory_by_id j (w_pg w') = Some r' \<and>
          (if j \<in> set (i # ids) \<and> bulk_eligible owner r then outdated_of r r' else r' = r)"
    proof (cases "j = i")
      case True
      then show ?thesis using s i' by (auto simp: outdated_of_def split: option.splits if_splits)
    next
      case False
      then show ?thesis using spec [OF ch [unfolded bulk_changes_def], of j] others [OF False]
        by (cases "memory_by_id j (w_pg w)") auto
    qed
  qed
  moreover have "b_changed acc1 = b_changed acc @ filter (eligible_in owner (w_pg w)) [i]"
      "map fst (b_skipped acc1) = map fst (b_skipped acc) @ filter (\<lambda>j. \<not> eligible_in owner (w_pg w) j) [i]"
    using s by (auto simp: eligible_in_def split: option.splits if_splits)
  ultimately show ?case using IH el by simp
qed

lemma find_by_key_update_where:
  "(\<And>x. k (f x) = k x) \<Longrightarrow> find (\<lambda>x. k x = i) (update_where (\<lambda>x. k x = i) f rows) = map_option f (find (\<lambda>x. k x = i) rows)"
  by (induction rows) auto

lemma perform_bulk:
  assumes "perform_action a (buildBulkOutdateAction is_uuid) (BulkOutdate ids reason) w = (Inr (already, after), w')"
    and "ap_requested_by a = Some u" and "ap_id a = i"
  obtains result v where "bulkMarkOutdatedForOwner u ids w = (Inr result, v)" "\<not> already"
    "after = (if b_changed result = [] then None else Some (syncStatusPayloads (b_changed result) Outdated))"
    "t_memory (w_pg w') = t_memory (w_pg v)"
    "t_approval (w_pg w') = update_where (\<lambda>x. ap_id x = i) (\<lambda>x. x\<lparr>ap_status := Executed, ap_executed_at := Some (w_clock v)\<rparr>) (t_approval (w_pg v))"
  using assms
  by (auto simp: perform_action_def Let_def buildBulkOutdateAction_def or_else_def update_approval_def updates_def
      writeAudit_def ret_def reads_def elim!: bindA_InrE thenA_InrE)

text \<open>
  C25. Executing an approved bulk request marks outdated exactly the listed memories that
  belong to the requester and are not user-approved, replaced or already outdated, leaves
  every other memory as it is, marks the approval executed and leaves the index to a
  continuation over the changed memories.
\<close>

theorem bulk_outdate_effect:
  assumes a: "approval_by_id i (w_pg w) = Some a" "ap_status a = Approved" "ap_action_type a = BULK_OUTDATE_ACTION"
      "ap_requested_by a = Some u" "bulk_schema is_uuid (ap_payload a) = Some (BulkOutdate ids reason)"
    and run: "approval_execute is_uuid i w = (Inr (already, after), w')"
  shows "bulk_changes u ids (w_pg w) (w_pg w') \<and> \<not> already \<and>
    map_option ap_status (approval_by_id i (w_pg w')) = Some Executed \<and>
    after = (let changed = filter (eligible_in u (w_pg w)) (dedupe ids)
             in if changed = [] then None else Some (syncStatusPayloads changed Outdated))"
proof -
  have i: "ap_id a = i" using a(1) by (auto simp: approval_by_id_def find_Some_iff)
  have "perform_action a (buildBulkOutdateAction is_uuid) (BulkOutdate ids reason) w = (Inr (already, after), w')"
    using run a unfolding approval_execute_def reads_bind
    by (simp add: registry_get_def bindA_Inr [OF ret_def]) (simp add: buildBulkOutdateAction_def)
  then obtain result v where bulk: "bulkMarkOutdatedForOwner u ids w = (Inr result, v)"
      and out: "\<not> already" "after = (if b_changed result = [] then None else Some (syncStatusPayloads (b_changed result) Outdated))"
        "t_memory (w_pg w') = t_memory (w_pg v)"
        "t_approval (w_pg w') = update_where (\<lambda>x. ap_id x = i) (\<lambda>x. x\<lparr>ap_status := Executed, ap_executed_at := Some (w_clock v)\<rparr>) (t_approval (w_pg v))"
    using perform_bulk [OF _ a(4) i] by metis
  have "t_approval (w_pg v) = t_approval (w_pg w)"
    using keeps_run [OF apr_bulk _ bulk, of "t_approval (w_pg w)"] by (simp add: approvals_are_def)
  then have "map_option ap_status (approval_by_id i (w_pg w')) = Some Executed"
    using a(1) out(4) by (simp add: approval_by_id_def find_by_key_update_where)
  moreover have fold: "bulk_changes u (dedupe ids) (w_pg w) (w_pg v)" "b_changed result = filter (eligible_in u (w_pg w)) (dedupe ids)"
    using bulk_fold_Inr [OF bulk [unfolded bulkMarkOutdatedForOwner_def]] by simp_all
  then have "bulk_changes u ids (w_pg w) (w_pg w')"
    using out(3) by (simp only: bulk_changes_def set_dedupe memory_by_id_def simp_thms)
  ultimately show ?thesis using out(1,2) fold(2) by (simp add: Let_def)
qed

subsection \<open>Applications\<close>

text \<open>Answers are rendered without touching the state.\<close>

lemma toDto_state: "snd (toDto is_uuid row viewer result w) = w"
  by (auto simp: toDto_def registry_get_def bindA_def ret_def raise_def Let_def)

lemma snd_bindA_pure: "(\<And>a v. snd (f a v) = v) \<Longrightarrow> snd (bindA m f w) = snd (m w)"
  by (auto simp: bindA_def split: sum.splits prod.splits)

lemma snd_bindA_cong: "(\<And>a v. snd (f a v) = snd (g a v)) \<Longrightarrow> snd (bindA m f w) = snd (bindA m g w)"
  by (auto simp: bindA_def split: sum.splits prod.splits)

lemma approval_create_state:
  "snd (approval_create is_uuid prin ty raw w) =
     snd (bindA (registry_get is_uuid ty) (\<lambda>def.
       bindA (registry_parse is_uuid ty raw) (\<lambda>payload.
       thenA (authorize_create def prin payload) (submit_approval prin ty def payload))) w)"
  unfolding approval_create_def thenA_def
  by (intro snd_bindA_cong snd_bindA_pure toDto_state)

lemma approval_confirm_state:
  "snd (approval_confirm is_uuid prin i d w) = snd (transaction (decide is_uuid prin i d) w)"
  unfolding approval_confirm_def by (intro snd_bindA_pure toDto_state)

definition demo_payload :: json where
  "demo_payload = payload_to_json (BulkOutdate [sample_id 0, sample_id 2] None)"

definition demo_created :: world where
  "demo_created = snd (approval_create (\<lambda>_. True) sample_principal BULK_OUTDATE_ACTION demo_payload sample_world)"

definition demo_approved :: world where
  "demo_approved = snd (approval_confirm (\<lambda>_. True) sample_principal (sample_id 5) Approve demo_created)"

definition demo_executed :: world where
  "demo_executed = snd (idempotentTask (\<lambda>_. []) APPROVAL_EXECUTE_JOB_TYPE (approval_handler (\<lambda>_. True))
     \<lparr>j_source_type = APPROVAL_JOB_SOURCE_TYPE, j_source_id = sample_id 5\<rparr> 1 10 demo_approved)"

definition demo_row :: "approval_status \<Rightarrow> user_id option \<Rightarrow> time option \<Rightarrow> time option \<Rightarrow> approval_row" where
  "demo_row st by_user decided executed =
     \<lparr>ap_id = sample_id 5, ap_action_type = BULK_OUTDATE_ACTION, ap_payload = demo_payload, ap_status = st,
      ap_org_id = Some ''org'', ap_requested_by = Some ''ann'', ap_decided_by = by_user, ap_decided_at = decided,
      ap_executed_at = executed, ap_expires_at = Some 86400100, ap_created_at = 100\<rparr>"

lemma demo_owned:
  "filter (\<lambda>i. i \<notin> set (map m_id (filter (\<lambda>r. m_owner r = p_user_id sample_principal)
     (getManyForPrincipal sample_principal True [sample_id 0, sample_id 2] (w_pg sample_world))))) [sample_id 0, sample_id 2] = []"
  by code_simp

lemma demo_authorized:
  "bulk_authorize sample_principal (BulkOutdate [sample_id 0, sample_id 2] None) sample_world = (Inr (), sample_world)"
  unfolding bulk_authorize.simps reads_bind Let_def demo_owned by (simp add: raise_if_def ret_def)

lemma demo_created_eq:
  "demo_created = snd (submit_approval sample_principal BULK_OUTDATE_ACTION (buildBulkOutdateAction (\<lambda>_. True))
     (BulkOutdate [sample_id 0, sample_id 2] None) sample_world)"
  unfolding demo_created_def approval_create_state
  by (simp add: registry_parse_def registry_get_def ret_bind thenA_def)
    (simp add: buildBulkOutdateAction_def demo_payload_def bulk_schema_def opt_field_def authorize_create_def
      ret_bind del: bulk_authorize.simps add: bindA_Inr [of "bulk_authorize _ _", OF demo_authorized])

lemma demo_created_rows: "t_approval (w_pg demo_created) = [demo_row PendingApproval None None None]"
  unfolding demo_created_eq
  by (simp add: submit_approval_def act_defs transaction_def draw_uuid_def insert_approval_def writeAudit_def buildBulkOutdateAction_def
    next_fault_def sample_world_def sample_pg_def Let_def demo_row_def demo_payload_def sample_principal_def)

text \<open>A decision on a pending request of the bulk action.\<close>

lemma decide_bulk:
  assumes "approval_by_id i (w_pg w) = Some a" and "ap_org_id a = Some (p_org_id prin)"
    and "ap_status a = PendingApproval" and "ap_action_type a = BULK_OUTDATE_ACTION" and "w_faults w = []"
  shows "t_approval (w_pg (snd (approval_confirm is_uuid prin i d w))) =
    update_where (\<lambda>x. ap_id x = i) (\<lambda>x. x\<lparr>ap_status := decided_status d, ap_decided_by := Some (p_user_id prin),
      ap_decided_at := Some (w_clock w)\<rparr>) (t_approval (w_pg w))"
proof -
  have "checkApprovalTransition PendingApproval (decided_status d) = None"
    by (cases d) (simp_all add: checkApprovalTransition_def decided_status_def)
  then show ?thesis
    using assms unfolding approval_confirm_state
    by (simp add: decide_def transaction_def lockForOrg_def act_defs registry_get_def buildBulkOutdateAction_def update_approval_def
        writeAudit_def withTransactionalEnqueue_def next_fault_def)
qed

lemma demo_quiet: "w_faults demo_created = []" "w_clock demo_created = 100"
  unfolding demo_created_eq
  by (simp_all add: submit_approval_def act_defs transaction_def draw_uuid_def insert_approval_def writeAudit_def
    buildBulkOutdateAction_def next_fault_def sample_world_def sample_pg_def Let_def pop_fault_def)

lemma demo_approved_rows: "t_approval (w_pg demo_approved) = [demo_row Approved (Some ''ann'') (Some 100) None]"
proof -
  have "approval_by_id (sample_id 5) (w_pg demo_created) = Some (demo_row PendingApproval None None None)"
    by (simp add: approval_by_id_def demo_created_rows) (simp add: demo_row_def)
  then show ?thesis
    unfolding demo_approved_def
    by (subst decide_bulk) (simp_all add: demo_created_rows demo_quiet, simp_all add: demo_row_def sample_principal_def decided_status_def)
qed

lemma demo_history: "(approval_step (\<lambda>_. True) (\<lambda>_. []))\<^sup>*\<^sup>* sample_world demo_approved"
proof -
  have "approval_step (\<lambda>_. True) (\<lambda>_. []) sample_world demo_created"
    unfolding demo_created_def by (rule approval_step.create [OF surjective_pairing])
  moreover have "approval_step (\<lambda>_. True) (\<lambda>_. []) demo_created demo_approved"
    unfolding demo_approved_def by (rule approval_step.confirm [OF surjective_pairing])
  ultimately show ?thesis by auto
qed

theorem execution_decided_witness:
  "ap_decided_by (demo_row Approved (Some ''ann'') (Some 100) None) \<noteq> None"
  using execution_decided [OF _ demo_history, of "sample_id 5" "demo_row Approved (Some ''ann'') (Some 100) None"]
  by (simp add: approval_by_id_def demo_approved_rows sample_world_def sample_pg_def) (simp add: demo_row_def)

definition demo_executing :: "approval_status \<Rightarrow> world" where
  "demo_executing st = update_pg (\<lambda>d. d\<lparr>t_approval := [demo_row st (Some ''ann'') (Some 100) None]\<rparr>) sample_world"

theorem approval_final_witness:
  "\<exists>b. approval_by_id (sample_id 5) (w_pg (snd (approval_confirm (\<lambda>_. True) sample_principal (sample_id 5) Approve (demo_executing Rejected)))) = Some b \<and>
     ap_status b = Rejected"
proof -
  have "approval_step (\<lambda>_. True) (\<lambda>_. []) (demo_executing Rejected)
      (snd (approval_confirm (\<lambda>_. True) sample_principal (sample_id 5) Approve (demo_executing Rejected)))"
    by (rule approval_step.confirm [OF surjective_pairing])
  then show ?thesis
    using approval_final [of "\<lambda>_. True" "\<lambda>_. []" "demo_executing Rejected" _ "demo_row Rejected (Some ''ann'') (Some 100) None"]
    by (auto simp: approvals_ok_def decided_ok_def demo_executing_def demo_row_def BULK_OUTDATE_ACTION_def EMAIL_REPLY_DRAFT_ACTION_def)
qed

lemma execute_bulk_runs:
  assumes "approval_by_id i (w_pg w) = Some a" "ap_status a = Approved" "ap_action_type a = BULK_OUTDATE_ACTION"
    and "ap_requested_by a = Some u" "bulk_schema is_uuid (ap_payload a) = Some (BulkOutdate ids reason)"
    and "\<not> isl (fst (bulkMarkOutdatedForOwner u ids w))"
  shows "\<exists>out w'. approval_execute is_uuid i w = (Inr out, w')"
proof -
  obtain res v where "bulkMarkOutdatedForOwner u ids w = (Inr res, v)"
    using assms(6) by (cases "bulkMarkOutdatedForOwner u ids w"; cases "fst (bulkMarkOutdatedForOwner u ids w)") auto
  then show ?thesis
    using assms(1-5)
    by (simp add: approval_execute_def registry_get_def ret_bind)
      (simp add: buildBulkOutdateAction_def perform_action_def or_else_def Let_def act_defs update_approval_def writeAudit_def, blast)
qed

lemma demo_bulk_runs: "\<not> isl (fst (bulkMarkOutdatedForOwner ''ann'' [sample_id 0, sample_id 2] (demo_executing Approved)))"
  by code_simp

theorem bulk_outdate_effect_witness:
  "\<exists>w' :: world. bulk_changes ''ann'' [sample_id 0, sample_id 2] (w_pg (demo_executing Approved)) (w_pg w')"
proof -
  have ids_row: "approval_by_id (sample_id 5) (w_pg (demo_executing Approved)) = Some (demo_row Approved (Some ''ann'') (Some 100) None)"
    by (simp add: demo_executing_def approval_by_id_def demo_row_def)
  obtain b after w' where run: "approval_execute (\<lambda>_. True) (sample_id 5) (demo_executing Approved) = (Inr (b, after), w')"
    using demo_bulk_runs execute_bulk_runs [OF ids_row, of "''ann''" "\<lambda>_. True" "[sample_id 0, sample_id 2]" None]
    by (auto simp: demo_row_def demo_payload_def bulk_schema_def opt_field_def)
  have "bulk_changes ''ann'' [sample_id 0, sample_id 2] (w_pg (demo_executing Approved)) (w_pg w')"
    using bulk_outdate_effect [OF ids_row _ _ _ _ run, of "''ann''" "[sample_id 0, sample_id 2]" None]
    by (simp add: demo_row_def demo_payload_def bulk_schema_def opt_field_def)
  then show ?thesis by (rule exI)
qed

end
