(* ===== verification/Draft_Privacy.thy ===== *)
theory Draft_Privacy
  imports Approval_Laws
begin

text \<open>
  What becomes visible of a reply draft, and what can be read back from what is stored and
  handed out: the stored payload, the \<^verbatim>\<open>mailto\<close> link and the \<^verbatim>\<open>.eml\<close> file.
\<close>

subsection \<open>Who sees a draft\<close>

text \<open>
  C26. For anyone but its requester a reply draft cannot be opened or decided, and the
  approval shown does not depend on the payload apart from the result line.
\<close>

theorem draft_private:
  assumes "approval_by_id i (w_pg w) = Some a" and "ap_action_type a = EMAIL_REPLY_DRAFT_ACTION"
    and "ap_requested_by a \<noteq> Some (p_user_id prin)"
  shows "getEmailDraft is_uuid prin i w = (Inl (NotFound ''email draft'' i), w) \<and>
    approval_confirm is_uuid prin i d w = (Inl (NotFound ''approval'' i), w) \<and>
    toDto is_uuid (a\<lparr>ap_payload := p\<rparr>) (p_user_id prin) result w = toDto is_uuid (a\<lparr>ap_payload := q\<rparr>) (p_user_id prin) result w"
proof -
  have reg: "registry_get is_uuid EMAIL_REPLY_DRAFT_ACTION = ret buildEmailReplyDraftAction"
    by (simp add: registry_get_def EMAIL_REPLY_DRAFT_ACTION_def BULK_OUTDATE_ACTION_def)
  have "decide is_uuid prin i d w = (Inl (NotFound ''approval'' i), w)"
    using assms by (auto simp: decide_def lockForOrg_def reg act_defs buildEmailReplyDraftAction_def)
  then have "approval_confirm is_uuid prin i d w = (Inl (NotFound ''approval'' i), w)"
    by (simp add: approval_confirm_def transaction_def bindA_def)
  moreover have "getEmailDraft is_uuid prin i w = (Inl (NotFound ''email draft'' i), w)"
    using assms by (simp add: getEmailDraft_def raise_def)
  moreover have "toDto is_uuid (a\<lparr>ap_payload := p\<rparr>) (p_user_id prin) result w = toDto is_uuid (a\<lparr>ap_payload := q\<rparr>) (p_user_id prin) result w"
    using assms by (simp add: toDto_def reg ret_bind Let_def) (simp add: buildEmailReplyDraftAction_def)
  ultimately show ?thesis by simp
qed

text \<open>
  The placeholder does not cover the result line: it comes from the audit entry of the
  execution, whose summary names the recipient, and every member of the organisation gets it.
\<close>

definition result_line :: "reply_draft \<Rightarrow> string" where
  "result_line p = ''Reply draft to '' @ rd_to p @ '' finalised '' @ em_dash @ '' not sent (send it from your own client)''"

lemma execution_results_last:
  assumes "t_audit d = old @ [e]" and "a_action e = ''approval.executed''" and "a_entity_id e = ap_id a"
    and "json_text (a_detail e) ''summary'' = Some s" and "s \<noteq> []" and "ap_status a = Executed"
  shows "execution_results [a] d (ap_id a) = Some s"
  using assms by (simp add: execution_results_def Let_def map_filter_def)

lemma toDto_reply:
  "ap_action_type row = EMAIL_REPLY_DRAFT_ACTION \<Longrightarrow>
     \<exists>dto. toDto is_uuid row viewer result w = (Inr dto, w) \<and> ao_result dto = result"
  by (simp add: toDto_def registry_get_def EMAIL_REPLY_DRAFT_ACTION_def BULK_OUTDATE_ACTION_def ret_bind Let_def) (simp add: ret_def)

lemma toDtos_one:
  "toDtos is_uuid [row] viewer w =
     bindA (toDto is_uuid row viewer (execution_results [row] (w_pg w) (ap_id row))) (\<lambda>dto. ret [dto]) w"
  by (auto simp: toDtos_def bindA_def ret_def reads_def split: sum.splits prod.splits)

lemma approval_get_found:
  "approval_by_id i (w_pg w) = Some row \<Longrightarrow> ap_org_id row = Some (p_org_id prin) \<Longrightarrow>
     toDto is_uuid row (p_user_id prin) (execution_results [row] (w_pg w) (ap_id row)) w = (Inr dto, w) \<Longrightarrow>
     approval_get is_uuid prin i w = (Inr dto, w)"
  by (simp add: approval_get_def lockForOrg_def bindA_Inr [of "toDtos _ _ _"] toDtos_one) (simp add: bindA_def reads_def ret_def toDtos_one)

theorem result_reveals_recipient:
  assumes "approval_by_id i (w_pg w) = Some a" and "ap_action_type a = EMAIL_REPLY_DRAFT_ACTION" and "ap_status a = Approved"
    and "reply_schema (ap_payload a) = Some (ReplyDraft p)" and "ap_org_id a = Some (p_org_id viewer)"
  shows "\<exists>out w' dto. approval_execute is_uuid i w = (Inr out, w') \<and> fst (approval_get is_uuid viewer i w') = Inr dto \<and>
    ao_result dto = Some (result_line p)"
proof -
  have i: "ap_id a = i" using assms(1) by (auto simp: approval_by_id_def find_Some_iff)
  have reg: "registry_get is_uuid EMAIL_REPLY_DRAFT_ACTION = ret buildEmailReplyDraftAction"
    by (simp add: registry_get_def EMAIL_REPLY_DRAFT_ACTION_def BULK_OUTDATE_ACTION_def)
  let ?ex = "\<lambda>x. x\<lparr>ap_status := Executed, ap_executed_at := Some (w_clock w)\<rparr>"
  obtain out w' where run: "approval_execute is_uuid i w = (Inr out, w')"
      and rows: "t_approval (w_pg w') = update_where (\<lambda>x. ap_id x = i) ?ex (t_approval (w_pg w))"
      and audit: "\<exists>e. t_audit (w_pg w') = t_audit (w_pg w) @ [e] \<and> a_action e = ''approval.executed'' \<and> a_entity_id e = i \<and>
        json_text (a_detail e) ''summary'' = Some (result_line p)"
    using assms(1-4) i
    by (simp add: approval_execute_def reg ret_bind)
      (simp add: buildEmailReplyDraftAction_def perform_action_def Let_def act_defs update_approval_def writeAudit_def
        approval_audit_def json_text_def result_line_def audit_entry.defs)
  have "approval_by_id i (w_pg w') = Some (?ex a)"
    using assms(1) rows by (simp add: approval_by_id_def find_by_key_update_where)
  moreover have "execution_results [?ex a] (w_pg w') (ap_id (?ex a)) = Some (result_line p)"
  proof -
    obtain e where "t_audit (w_pg w') = t_audit (w_pg w) @ [e]" "a_action e = ''approval.executed''" "a_entity_id e = i"
        "json_text (a_detail e) ''summary'' = Some (result_line p)" using audit by blast
    then show ?thesis using i by (intro execution_results_last) (simp_all add: result_line_def)
  qed
  moreover obtain dto where "toDto is_uuid (?ex a) (p_user_id viewer) (execution_results [?ex a] (w_pg w') (ap_id (?ex a))) w' = (Inr dto, w')"
      "ao_result dto = execution_results [?ex a] (w_pg w') (ap_id (?ex a))"
    using assms(2) toDto_reply [of "?ex a"] by fastforce
  ultimately have "\<exists>dto. fst (approval_get is_uuid viewer i w') = Inr dto \<and> ao_result dto = Some (result_line p)"
    using assms(5) by (simp add: approval_get_found toDtos_one)
  then show ?thesis using run by blast
qed

subsection \<open>Stored payloads are read back\<close>

lemma as_opt_string_field [simp]: "as_opt_string (map_option JStr v) = Some v" "as_opt_bool (map_option JBool b) = Some b"
  by (cases v; simp) (cases b; simp)

lemma as_nullable_string_jopt [simp]: "as_nullable_string (Some (jopt JStr v)) = Some v"
  by (cases v) (simp_all add: jopt_def)

lemma bulk_schema_stored: "bulk_schema is_uuid j = Some p \<Longrightarrow> bulk_schema is_uuid (payload_to_json p) = Some p"
  by (auto simp: bulk_schema_def opt_field_def split: json.splits option.splits if_splits)

definition reads_as :: "(string \<Rightarrow> json option) \<Rightarrow> reply_draft \<Rightarrow> bool" where
  "reads_as f p \<longleftrightarrow> as_string (f ''to'') = Some (rd_to p) \<and> as_opt_bool (f ''recipientResolved'') = Some (rd_recipient_resolved p) \<and>
     as_opt_bool (f ''recipientVerified'') = Some (rd_recipient_verified p) \<and> as_string (f ''subject'') = Some (rd_subject p) \<and>
     as_nullable_string (f ''inReplyTo'') = Some (rd_in_reply_to p) \<and> as_strings (f ''references'') = Some (rd_references p) \<and>
     as_string (f ''body'') = Some (rd_body p) \<and> as_nullable_string (f ''emailSourceId'') = Some (rd_email_source_id p) \<and>
     length (rd_to p) \<le> 320 \<and> length (rd_subject p) \<le> 998 \<and> rd_body p \<noteq> [] \<and> length (rd_body p) \<le> 20000"

lemma reply_schema_iff:
  "reply_schema j = Some q \<longleftrightarrow> (\<exists>kvs p. j = JObj kvs \<and> q = ReplyDraft p \<and> reads_as (map_of kvs) p)"
proof (cases j)
  case (JObj kvs)
  have "(case (o1, o2, o3, o4, o5, o6, o7, o8) of
      (Some recipient, Some resolved, Some verified, Some subject, Some inReplyTo, Some refs, Some body, Some sourceId) \<Rightarrow>
        if length recipient \<le> 320 \<and> length subject \<le> 998 \<and> body \<noteq> [] \<and> length body \<le> 20000
        then Some (ReplyDraft \<lparr>rd_to = recipient, rd_recipient_resolved = resolved, rd_recipient_verified = verified,
          rd_subject = subject, rd_in_reply_to = inReplyTo, rd_references = refs, rd_body = body, rd_email_source_id = sourceId\<rparr>)
        else None | _ \<Rightarrow> None) = Some q \<longleftrightarrow>
    (\<exists>p. q = ReplyDraft p \<and> o1 = Some (rd_to p) \<and> o2 = Some (rd_recipient_resolved p) \<and> o3 = Some (rd_recipient_verified p) \<and>
      o4 = Some (rd_subject p) \<and> o5 = Some (rd_in_reply_to p) \<and> o6 = Some (rd_references p) \<and> o7 = Some (rd_body p) \<and>
      o8 = Some (rd_email_source_id p) \<and> length (rd_to p) \<le> 320 \<and> length (rd_subject p) \<le> 998 \<and> rd_body p \<noteq> [] \<and>
      length (rd_body p) \<le> 20000)" (is "?l = ?r") for o1 o2 o3 o4 o5 o6 o7 o8
  proof
    show "?l \<Longrightarrow> ?r" by (auto split: option.splits if_splits)
    show "?r \<Longrightarrow> ?l" by auto
  qed
  then show ?thesis unfolding JObj reply_schema_def Let_def json.case reads_as_def by simp
qed (simp_all add: reply_schema_def)

lemma reads_as_stored: "reads_as f p \<Longrightarrow> \<exists>kvs. payload_to_json (ReplyDraft p) = JObj kvs \<and> reads_as (map_of kvs) p"
  by (cases "rd_recipient_resolved p"; cases "rd_recipient_verified p"; simp add: reads_as_def opt_field_def)

lemma reply_schema_stored: "reply_schema j = Some p \<Longrightarrow> reply_schema (payload_to_json p) = Some p"
  using reads_as_stored by (fastforce simp: reply_schema_iff simp del: payload_to_json.simps)

text \<open>
  A payload that was accepted and stored is accepted again, with the same value, when it
  is read for display or execution.
\<close>

theorem payload_reparses:
  assumes "registry_parse is_uuid actionType raw w = (Inr p, w')"
  shows "registry_parse is_uuid actionType (payload_to_json p) w = (Inr p, w)"
proof -
  obtain def where get: "registry_get is_uuid actionType = ret def" "def = buildBulkOutdateAction is_uuid \<or> def = buildEmailReplyDraftAction"
    using assms by (auto simp: registry_parse_def registry_get_def bindA_def raise_def split: if_splits)
  with assms have "ad_schema def raw = Some p"
    by (auto simp: registry_parse_def ret_bind ret_def raise_def split: option.splits)
  then have "ad_schema def (payload_to_json p) = Some p"
    using get(2) bulk_schema_stored reply_schema_stored
    by (auto simp: buildBulkOutdateAction_def buildEmailReplyDraftAction_def)
  then show ?thesis using get(1) by (simp add: registry_parse_def ret_bind ret_def)
qed

text \<open>A draft redacted by a deletion still parses, to a payload without address, subject or body.\<close>

lemma redacted_parses:
  assumes "reply_schema (ap_payload a) = Some (ReplyDraft p)"
  shows "reply_schema (ap_payload (redact_draft a)) = Some (ReplyDraft (p\<lparr>rd_to := [], rd_subject := [],
    rd_body := REDACTED_BODY, rd_recipient_resolved := Some False, rd_recipient_verified := Some False\<rparr>))"
proof -
  obtain kvs where kvs: "ap_payload a = JObj kvs" "reads_as (map_of kvs) p" using assms by (auto simp: reply_schema_iff)
  have keep: "map_of (filter (\<lambda>(k, v). P k) kvs) key = (if P key then map_of kvs key else None)" for P key
    by (induction kvs) auto
  show ?thesis
    using kvs by (simp add: reply_schema_iff redact_draft_def json_merge_def reads_as_def keep REDACTED_BODY_def)
qed

subsection \<open>The mailto link\<close>

text \<open>How a reader decodes: percent escapes, and for a form also plus signs.\<close>

fun unhex :: "char \<Rightarrow> nat" where
  "unhex c = (let n = of_char c in if n < 58 then n - 48 else n - 55)"

fun percent_decode :: "string \<Rightarrow> string" where
  "percent_decode [] = []"
| "percent_decode (c # cs) =
     (if c = CHR ''%'' then
        (case cs of
           a # b # rest \<Rightarrow> char_of (16 * unhex a + unhex b :: nat) # percent_decode rest
         | _ \<Rightarrow> c # percent_decode cs)
      else c # percent_decode cs)"

definition plus_to_space :: "string \<Rightarrow> string" where
  "plus_to_space = map (\<lambda>c. if c = CHR ''+'' then CHR '' '' else c)"

definition mailto_fields :: "string \<Rightarrow> string \<times> string \<times> string" where
  "mailto_fields u =
     (let rest = drop 7 u; recipient = takeWhile (\<lambda>c. c \<noteq> CHR ''?'') rest;
          query = drop (length recipient + 9) rest; subject = takeWhile (\<lambda>c. c \<noteq> CHR ''&'') query
      in (recipient, subject, drop (length subject + 6) query))"

lemma unhex_upper: "n < 16 \<Longrightarrow> unhex (upper_hex n) = n"
  by (auto simp: upper_hex_def Let_def)

lemma percent_decode_percent: "percent_decode (percent c @ rest) = c # percent_decode rest"
proof -
  have "(of_char c :: nat) div 16 < 16" by (rule less_mult_imp_div_less) (simp add: nat_of_char_less_256)
  then show ?thesis by (simp add: percent_def Let_def unhex_upper del: unhex.simps)
qed

lemma percent_chars: "set (percent c) \<subseteq> {d. d \<noteq> CHR ''?'' \<and> d \<noteq> CHR ''&'' \<and> d \<noteq> CHR ''+''}"
proof -
  have "upper_hex n \<notin> {CHR ''?'', CHR ''&'', CHR ''+''}" if "n < 16" for n
    using that by (auto simp: upper_hex_def char_of_eq_iff take_bit_eq_mod split: if_splits)
  moreover have "(of_char c :: nat) div 16 < 16" by (rule less_mult_imp_div_less) (simp add: nat_of_char_less_256)
  ultimately show ?thesis by (auto simp: percent_def Let_def)
qed

lemma encodeURIComponent_Cons:
  "encodeURIComponent (c # cs) =
     (if is_alnum c \<or> c \<in> set ''-_.!~*'' \<or> c = CHR 0x27 \<or> c = CHR ''('' \<or> c = CHR '')'' then [c] else percent c) @
     encodeURIComponent cs"
  by (simp add: encodeURIComponent_def)

lemma form_encode_Cons:
  "form_encode (c # cs) =
     (if c = CHR '' '' then ''+'' else if is_alnum c \<or> c \<in> set ''*-._'' then [c] else percent c) @ form_encode cs"
  by (simp add: form_encode_def)

lemma decode_component: "percent_decode (encodeURIComponent s) = s"
proof (induction s)
  case (Cons c cs)
  have "\<not> is_alnum CHR ''%''" by (simp add: is_alnum_def)
  then show ?case using Cons by (auto simp: encodeURIComponent_Cons percent_decode_percent)
qed (simp add: encodeURIComponent_def)

text \<open>A reader that only knows percent escapes, as the URI standard for \<^verbatim>\<open>mailto\<close> asks, sees plus signs.\<close>

lemma decode_form_plus: "percent_decode (form_encode s) = map (\<lambda>c. if c = CHR '' '' then CHR ''+'' else c) s"
proof (induction s)
  case (Cons c cs)
  have "\<not> is_alnum CHR ''%''" by (simp add: is_alnum_def)
  then show ?case using Cons by (auto simp: form_encode_Cons percent_decode_percent)
qed (simp add: form_encode_def)

lemma plus_to_space_percent [simp]: "plus_to_space (percent c) = percent c"
  using percent_chars [of c] unfolding plus_to_space_def by (auto intro!: map_idI)

lemma decode_form: "percent_decode (plus_to_space (form_encode s)) = s"
proof (induction s)
  case (Cons c cs)
  have app: "plus_to_space (xs @ ys) = plus_to_space xs @ plus_to_space ys" for xs ys by (simp add: plus_to_space_def)
  have "\<not> is_alnum CHR ''%''" "\<not> is_alnum CHR ''+''" by (simp_all add: is_alnum_def)
  then show ?case using Cons by (auto simp: form_encode_Cons percent_decode_percent app) (auto simp: plus_to_space_def)
qed (simp add: form_encode_def plus_to_space_def)

lemma component_chars: "CHR ''?'' \<notin> set (encodeURIComponent s)"
proof -
  have "CHR ''?'' \<notin> set (percent c)" for c using percent_chars [of c] by auto
  then show ?thesis by (auto simp: encodeURIComponent_def is_alnum_def)
qed

lemma form_chars: "CHR ''&'' \<notin> set (form_encode s)"
proof -
  have "CHR ''&'' \<notin> set (percent c)" for c using percent_chars [of c] by auto
  then show ?thesis by (auto simp: form_encode_def is_alnum_def)
qed

text \<open>
  From the mailto link of a draft a reader that splits at the separators and decodes as a
  form gets back recipient, subject and body.
\<close>

theorem mailto_readable:
  "mailto_fields (buildMailto p) = (encodeURIComponent (rd_to p), form_encode (rd_subject p), form_encode (rd_body p)) \<and>
     percent_decode (encodeURIComponent (rd_to p)) = rd_to p \<and>
     percent_decode (plus_to_space (form_encode (rd_subject p))) = rd_subject p \<and>
     percent_decode (plus_to_space (form_encode (rd_body p))) = rd_body p"
proof -
  have stop: "takeWhile (\<lambda>c. c \<noteq> d) (xs @ d # ys) = xs" if "d \<notin> set xs" for d :: char and xs ys
    using that by (induction xs) auto
  show ?thesis
    using stop [OF component_chars] stop [OF form_chars]
    by (simp add: mailto_fields_def buildMailto_def Let_def decode_component decode_form drop_Cons')
qed

theorem mailto_blank_as_plus:
  "percent_decode (form_encode ''see you'') = ''see+you''"
  by (simp add: decode_form_plus)

subsection \<open>Expiry\<close>

lemma expire_Inr:
  assumes "expireStale w = (Inr n, w')"
  shows "let stale = filter (is_stale (w_clock w)) (t_approval (w_pg w)) in n = length stale \<and>
    (stale = [] \<and> w_pg w' = w_pg w \<or>
     (\<exists>f v. each (\<lambda>r. writeAudit (f r)) stale (update_pg (\<lambda>d. d\<lparr>t_approval := update_where (\<lambda>a. ap_id a \<in> set (map ap_id stale))
        (\<lambda>a. a\<lparr>ap_status := Expired\<rparr>) (t_approval d)\<rparr>) w) = (Inr (), v) \<and> w_pg w' = w_pg v))"
proof -
  obtain v where body: "bindA (reads (\<lambda>w. filter (is_stale (w_clock w)) (t_approval (w_pg w)))) (\<lambda>stale.
         if stale = [] then ret 0
         else let ids = map ap_id stale in
           thenA (updates (update_pg (\<lambda>d. d\<lparr>t_approval :=
                    update_where (\<lambda>a. ap_id a \<in> set ids) (\<lambda>a. a\<lparr>ap_status := Expired\<rparr>) (t_approval d)\<rparr>)))
           (thenA (each (\<lambda>r. writeAudit (approval_audit ''scheduler'' ''approval.expired'' (ap_id r)
                      [(''actionType'', JStr (ap_action_type r)), (''from'', JStr ''pending_approval''), (''to'', JStr ''expired'')]
                      (ap_org_id r) (ap_requested_by r))) stale)
             (ret (length stale)))) w = (Inr n, v)" and pg: "w_pg w' = w_pg v"
    using assms by (auto simp: expireStale_def transaction_def split: prod.splits sum.splits fault.splits)
  show ?thesis
  proof (cases "filter (is_stale (w_clock w)) (t_approval (w_pg w)) = []")
    case True
    then show ?thesis using body pg unfolding reads_bind by (simp add: ret_def Let_def)
  next
    case False
    let ?f = "\<lambda>r. approval_audit ''scheduler'' ''approval.expired'' (ap_id r)
      [(''actionType'', JStr (ap_action_type r)), (''from'', JStr ''pending_approval''), (''to'', JStr ''expired'')]
      (ap_org_id r) (ap_requested_by r)"
    from body obtain u v1 where "each (\<lambda>r. writeAudit (?f r)) (filter (is_stale (w_clock w)) (t_approval (w_pg w))) u = (Inr (), v1)"
        "u = update_pg (\<lambda>d. d\<lparr>t_approval := update_where (\<lambda>a. ap_id a \<in> set (map ap_id (filter (is_stale (w_clock w)) (t_approval (w_pg w)))))
          (\<lambda>a. a\<lparr>ap_status := Expired\<rparr>) (t_approval d)\<rparr>) w"
        "n = length (filter (is_stale (w_clock w)) (t_approval (w_pg w)))" "v = v1"
      unfolding reads_bind Let_def if_not_P [OF False] updates_def ret_def by (elim thenA_InrE) simp
    then show ?thesis using pg unfolding Let_def
      by (intro conjI disjI2 exI [of _ ?f] exI [of _ v1]) (simp_all only:)
  qed
qed

text \<open>
  The expiry pass expires exactly the pending approvals past their expiry date, returns
  their number, changes no other approval and leaves nothing for a second pass.
\<close>

theorem expire_exact:
  assumes "expireStale w = (Inr n, w')" and "distinct (map ap_id (t_approval (w_pg w)))"
  shows "t_approval (w_pg w') = map (\<lambda>a. if is_stale (w_clock w) a then a\<lparr>ap_status := Expired\<rparr> else a) (t_approval (w_pg w)) \<and>
    n = length (filter (is_stale (w_clock w)) (t_approval (w_pg w))) \<and> filter (is_stale (w_clock w)) (t_approval (w_pg w')) = []"
proof -
  let ?A = "t_approval (w_pg w)" and ?st = "is_stale (w_clock w)"
  let ?expire = "update_where (\<lambda>a. ap_id a \<in> set (map ap_id (filter ?st ?A))) (\<lambda>a. a\<lparr>ap_status := Expired\<rparr>) ?A"
  have same: "ap_id a \<in> ap_id ` {b \<in> set ?A. ?st b} \<longleftrightarrow> ?st a" if "a \<in> set ?A" for a
    using distinct_key_eq [OF assms(2) that] that by auto
  have audits: "t_approval (w_pg v') = t_approval (w_pg v)" if "each (\<lambda>r. writeAudit (f r)) rows v = (x, v')"
    for f and rows :: "approval_row list" and v v' x
    using keeps_run [OF apr.keeps_each [OF apr_writeAudit] _ that, of "t_approval (w_pg v)"] by (simp add: approvals_are_def)
  have "n = length (filter ?st ?A) \<and> t_approval (w_pg w') = ?expire"
    using expire_Inr [OF assms(1), unfolded Let_def]
  proof (elim conjE disjE exE, goal_cases)
    case 1
    then show ?case by (simp add: update_where_idle filter_empty_conv image_iff)
  next
    case (2 f v)
    then show ?case using audits [OF 2(2)] by simp
  qed
  moreover have "?expire = map (\<lambda>a. if ?st a then a\<lparr>ap_status := Expired\<rparr> else a) ?A"
    using same by (auto simp: update_where_def)
  moreover have "filter ?st (map (\<lambda>a. if ?st a then a\<lparr>ap_status := Expired\<rparr> else a) ?A) = []"
    by (auto simp: filter_empty_conv is_stale_def)
  ultimately show ?thesis by simp
qed

text \<open>
  An expired request never gets a decision date, and \<^verbatim>\<open>ORDER BY decided_at DESC\<close> puts rows without
  one first: as soon as there are 200 of them the history shows no decided request any more.
\<close>

theorem history_hides_decisions:
  assumes "200 \<le> length (filter (\<lambda>a. ap_org_id a = Some (p_org_id prin) \<and> ap_status a = Expired \<and> ap_decided_at a = None) (t_approval d))"
  shows "list_all (\<lambda>a. ap_decided_at a = None) (history_rows prin d)"
proof -
  let ?mine = "filter (\<lambda>a. ap_org_id a = Some (p_org_id prin) \<and> ap_status a \<in> {Executed, Rejected, Expired}) (t_approval d)"
  have mono: "length (filter P xs) \<le> length (filter Q xs)" if "\<And>x. P x \<Longrightarrow> Q x" for P Q and xs :: "approval_row list"
    using that by (induction xs) auto
  have "length (filter (\<lambda>a. ap_org_id a = Some (p_org_id prin) \<and> ap_status a = Expired \<and> ap_decided_at a = None) (t_approval d))
      \<le> length (filter (\<lambda>a. ap_decided_at a = None) ?mine)"
    unfolding filter_filter by (rule mono) auto
  then have "200 \<le> length (filter (\<lambda>a. ap_decided_at a = None) ?mine)" using assms by linarith
  then have "history_rows prin d = take 200 (filter (\<lambda>a. ap_decided_at a = None) ?mine)"
    unfolding history_rows_def nulls_first_desc_def take_append by simp
  then show ?thesis by (auto simp: list_all_iff dest: in_set_takeD)
qed

subsection \<open>Applications\<close>

definition demo_draft :: reply_draft where
  "demo_draft = \<lparr>rd_to = ''bob@example.org'', rd_recipient_resolved = Some True, rd_recipient_verified = None,
     rd_subject = ''Re: plan'', rd_in_reply_to = None, rd_references = [], rd_body = ''see you'', rd_email_source_id = Some ''mail''\<rparr>"

definition demo_draft_row :: "approval_status \<Rightarrow> approval_row" where
  "demo_draft_row st =
     \<lparr>ap_id = sample_id 5, ap_action_type = EMAIL_REPLY_DRAFT_ACTION, ap_payload = payload_to_json (ReplyDraft demo_draft),
      ap_status = st, ap_org_id = Some ''org'', ap_requested_by = Some ''ann'', ap_decided_by = Some ''ann'', ap_decided_at = Some 100,
      ap_executed_at = None, ap_expires_at = Some 200, ap_created_at = 100\<rparr>"

definition demo_drafts :: "approval_status \<Rightarrow> time \<Rightarrow> world" where
  "demo_drafts st now = (update_pg (\<lambda>d. d\<lparr>t_approval := [demo_draft_row st]\<rparr>) sample_world)\<lparr>w_clock := now\<rparr>"

lemma demo_drafts_row: "approval_by_id (sample_id 5) (w_pg (demo_drafts st now)) = Some (demo_draft_row st)"
  by (simp add: approval_by_id_def demo_drafts_def demo_draft_row_def)

definition demo_colleague :: principal where
  "demo_colleague = \<lparr>p_user_id = ''joe'', p_org_id = ''org''\<rparr>"

theorem draft_private_witness:
  "approval_confirm (\<lambda>_. True) demo_colleague (sample_id 5) Approve (demo_drafts PendingApproval 150) =
     (Inl (NotFound ''approval'' (sample_id 5)), demo_drafts PendingApproval 150)"
  using draft_private [OF demo_drafts_row, of PendingApproval demo_colleague "\<lambda>_. True" 150 Approve]
  by (simp add: demo_draft_row_def demo_colleague_def)

lemma demo_draft_parses: "reply_schema (payload_to_json (ReplyDraft demo_draft)) = Some (ReplyDraft demo_draft)"
  by (simp add: reply_schema_iff reads_as_def demo_draft_def opt_field_def jstrs_def)

theorem result_reveals_recipient_witness:
  "\<exists>out w' dto. approval_execute (\<lambda>_. True) (sample_id 5) (demo_drafts Approved 150) = (Inr out, w') \<and>
     fst (approval_get (\<lambda>_. True) demo_colleague (sample_id 5) w') = Inr dto \<and> ao_result dto = Some (result_line demo_draft)"
  using demo_draft_parses
  by (intro result_reveals_recipient [OF demo_drafts_row]) (simp_all add: demo_draft_row_def demo_colleague_def del: payload_to_json.simps)

theorem payload_reparses_witness:
  "registry_parse (\<lambda>_. True) EMAIL_REPLY_DRAFT_ACTION (payload_to_json (ReplyDraft demo_draft)) sample_world = (Inr (ReplyDraft demo_draft), sample_world)"
proof (rule payload_reparses)
  show "registry_parse (\<lambda>_. True) EMAIL_REPLY_DRAFT_ACTION (payload_to_json (ReplyDraft demo_draft)) sample_world = (Inr (ReplyDraft demo_draft), sample_world)"
    by (simp add: registry_parse_def registry_get_def EMAIL_REPLY_DRAFT_ACTION_def BULK_OUTDATE_ACTION_def ret_bind
        buildEmailReplyDraftAction_def demo_draft_parses ret_def del: payload_to_json.simps)
qed

theorem expire_exact_witness:
  "\<exists>n w'. expireStale (demo_drafts PendingApproval 300) = (Inr n, w') \<and>
     map ap_status (t_approval (w_pg w')) = [Expired]"
proof -
  have "\<not> isl (fst (expireStale (demo_drafts PendingApproval 300)))"
    by (simp add: expireStale_def transaction_def demo_drafts_def sample_world_def sample_pg_def is_stale_def demo_draft_row_def
        act_defs each_def writeAudit_def next_fault_def)
  then obtain n w' where run: "expireStale (demo_drafts PendingApproval 300) = (Inr n, w')"
    by (cases "expireStale (demo_drafts PendingApproval 300)"; cases "fst (expireStale (demo_drafts PendingApproval 300))") auto
  show ?thesis
    using expire_exact [OF run] run by (simp add: demo_drafts_def is_stale_def demo_draft_row_def)
qed

end
