(* ===== verification/Tasks.thy ===== *)
theory Tasks
  imports Job_Queue Memory_Reads
begin

text \<open>
  The tasks module of \<^verbatim>\<open>src/tasks\<close>: the first-person rule (\<^verbatim>\<open>derivation-rule.ts\<close>), the phrasing
  of conclusions (\<^verbatim>\<open>task-conclusion.ts\<close>), and every operation of \<^verbatim>\<open>tasks.engine.ts\<close> that writes.
  The verdicts of the language model and the stored language of a user are arguments. Reads
  that the code runs outside the transaction see the tables as they were when it began; a
  cleared dormant flag is modelled as part of the transaction that clears it.
\<close>

subsection \<open>Which memories derive a task\<close>

definition DERIVING_KINDS :: "fact_kind list" where
  "DERIVING_KINDS = [Commitment, OpenLoop]"

definition firstPersonSource :: "source_type \<Rightarrow> bool option \<Rightarrow> bool" where
  "firstPersonSource st authored_by_user =
     (case st of UserNote \<Rightarrow> True | Chat \<Rightarrow> True | Email \<Rightarrow> authored_by_user = Some True | _ \<Rightarrow> False)"

definition first_person :: "memory_row \<Rightarrow> bool" where
  "first_person row = firstPersonSource (m_source_type row) (m_authored_by_user row)"

definition derivable :: "memory_row \<Rightarrow> bool" where
  "derivable row \<longleftrightarrow>
     (case m_kind row of None \<Rightarrow> False | Some k \<Rightarrow> k \<in> set DERIVING_KINDS) \<and>
     m_status row \<in> {Active, Uncertain} \<and> first_person row"

text \<open>
  The condition of a commitment: the first clause opened by one of the keywords. The two
  alternatives spelt with letters beyond code unit 255 cannot occur in the strings modelled.
\<close>

definition CONDITION_WORDS :: "string list" where
  "CONDITION_WORDS = [''after'', ''once'', ''when'', ''as soon as'', ''kada'', ''kad'']"

definition clause_length :: "string \<Rightarrow> string \<Rightarrow> nat option" where
  "clause_length s word =
     (let rest = drop (length word) s;
          blanks = length (takeWhile js_space rest);
          clause = length (takeWhile (\<lambda>c. c \<noteq> CHR ''.'' \<and> c \<noteq> CHR '';'') (drop blanks rest))
      in if to_lower (take (length word) s) = word \<and> 1 \<le> blanks \<and> 5 \<le> blanks + clause
         then Some (length word + blanks + min 120 clause) else None)"

definition clause_at :: "string \<Rightarrow> string option" where
  "clause_at s = map_option (\<lambda>n. take n s) (first_some (map (clause_length s) CONDITION_WORDS))"

fun find_clause :: "bool \<Rightarrow> string \<Rightarrow> string option" where
  "find_clause at_start [] = None"
| "find_clause at_start (c # cs) =
     (case (if at_start then clause_at (c # cs) else None) of
        Some m \<Rightarrow> Some m
      | None \<Rightarrow>
          (case (if is_letter c then None else clause_at cs) of
             Some m \<Rightarrow> Some (c # m)
           | None \<Rightarrow> find_clause False cs))"

definition conditionOf :: "memory_row \<Rightarrow> string option" where
  "conditionOf row = map_option js_trim (find_clause True (or_else (m_content row) []))"

subsection \<open>Conclusions\<close>

datatype language = English | Croatian

definition QUOTE_CAP :: nat where
  "QUOTE_CAP = 200"

definition clip :: "string \<Rightarrow> string" where
  "clip s =
     (let t = rev (dropWhile (\<lambda>c. c \<in> set ''.!?'') (rev (js_trim s)))
      in if QUOTE_CAP < length t then take (QUOTE_CAP - 1) t @ ellipsis else t)"

definition month_name :: "language \<Rightarrow> int \<Rightarrow> string" where
  "month_name lang m =
     (if lang = English
      then [''January'', ''February'', ''March'', ''April'', ''May'', ''June'', ''July'', ''August'',
            ''September'', ''October'', ''November'', ''December''] ! nat (m - 1)
      else [''sije'' @ [CHR 0xC4, CHR 0x8D] @ ''nja'', ''velja'' @ [CHR 0xC4, CHR 0x8D] @ ''e'',
            ''o'' @ [CHR 0xC5, CHR 0xBE] @ ''ujka'', ''travnja'', ''svibnja'', ''lipnja'', ''srpnja'', ''kolovoza'',
            ''rujna'', ''listopada'', ''studenoga'', ''prosinca''] ! nat (m - 1))"

definition conclusionDate :: "time \<Rightarrow> language \<Rightarrow> string" where
  "conclusionDate t lang =
     (case civil_of_days (t div 86400000) of (y, m, d) \<Rightarrow>
        if lang = Croatian
        then nat_digits (nat d) @ ''. '' @ month_name lang m @ '' '' @ nat_digits (nat y) @ ''.''
        else nat_digits (nat d) @ '' '' @ month_name lang m @ '' '' @ nat_digits (nat y))"

record conclusion_input =
  ci_type :: conclusion_type
  ci_title :: string
  ci_recorded_at :: time
  ci_concluded_at :: time
  ci_trigger :: "string option"
  ci_condition :: "string option"
  ci_locale :: language

definition quoted :: "string \<Rightarrow> string" where
  "quoted s = [CHR 0x22] @ s @ [CHR 0x22]"

definition dash :: string where
  "dash = '' '' @ em_dash @ '' ''"

definition buildConclusionStatement :: "conclusion_input \<Rightarrow> string" where
  "buildConclusionStatement input =
     (let hr = (ci_locale input = Croatian);
          title = clip (ci_title input);
          recorded = conclusionDate (ci_recorded_at input) (ci_locale input);
          concluded = conclusionDate (ci_concluded_at input) (ci_locale input)
      in if ci_type input = ConditionMet
         then let condition = clip (or_else (ci_condition input) (if hr then ''navedeni uvjet'' else ''the stated condition''));
                  trigger = clip (or_else (ci_trigger input) [])
              in if hr
                 then trigger @ dash @ ''dana '' @ concluded @ '' time je ispunjen uvjet '' @ quoted condition @
                      '' za obvezu '' @ quoted title @ '' zabilje'' @ [CHR 0xC5, CHR 0xBE] @ ''enu '' @ recorded
                 else trigger @ dash @ ''on '' @ concluded @ '' this satisfied the condition '' @ quoted condition @
                      '' for the commitment '' @ quoted title @ '' recorded on '' @ recorded @ ''.''
         else case ci_trigger input of
           Some c \<Rightarrow>
             if c \<noteq> []
             then (if hr
                   then clip c @ dash @ ''dana '' @ concluded @ '' time je dovr'' @ [CHR 0xC5, CHR 0xA1] @ ''ena obveza '' @
                        quoted title @ '' zabilje'' @ [CHR 0xC5, CHR 0xBE] @ ''ena '' @ recorded
                   else clip c @ dash @ ''on '' @ concluded @ '' this completed the commitment '' @
                        quoted title @ '' recorded on '' @ recorded @ ''.'')
             else (if hr
                   then ''Obveza '' @ quoted title @ '' zabilje'' @ [CHR 0xC5, CHR 0xBE] @ ''ena '' @ recorded @
                        '' dovr'' @ [CHR 0xC5, CHR 0xA1] @ ''ena je '' @ concluded
                   else ''The commitment '' @ quoted title @ '' recorded on '' @ recorded @ '' was completed on '' @ concluded @ ''.'')
         | None \<Rightarrow>
             if hr
             then ''Obveza '' @ quoted title @ '' zabilje'' @ [CHR 0xC5, CHR 0xBE] @ ''ena '' @ recorded @
                  '' dovr'' @ [CHR 0xC5, CHR 0xA1] @ ''ena je '' @ concluded
             else ''The commitment '' @ quoted title @ '' recorded on '' @ recorded @ '' was completed on '' @ concluded @ ''.'')"

subsection \<open>The task table\<close>

text \<open>
  Writes check the constraints of migration 0014: the primary key, one task per deriving
  memory, and the foreign keys.
\<close>

definition task_refs_ok :: "pg \<Rightarrow> task_row \<Rightarrow> bool" where
  "task_refs_ok d t \<longleftrightarrow> tk_derived_from t \<in> memory_ids d \<and>
     (case tk_condition_met_by t of None \<Rightarrow> True | Some m \<Rightarrow> m \<in> memory_ids d) \<and>
     (case tk_closed_by t of None \<Rightarrow> True | Some m \<Rightarrow> m \<in> memory_ids d)"

definition write_tasks :: "(task_row list \<Rightarrow> task_row list) \<Rightarrow> unit op" where
  "write_tasks f w =
     (let ts = f (t_task (w_pg w)) in
      if \<not> (distinct (map tk_id ts) \<and> distinct (map tk_derived_from ts)) then (Inl UniqueViolation, w)
      else if \<not> list_all (task_refs_ok (w_pg w)) ts then (Inl FkViolation, w)
      else (Inr (), update_pg (\<lambda>d. d\<lparr>t_task := ts\<rparr>) w))"

definition task_by_id :: "uuid \<Rightarrow> pg \<Rightarrow> task_row option" where
  "task_by_id i d = find (\<lambda>t. tk_id t = i) (t_task d)"

definition task_of_memory :: "uuid \<Rightarrow> pg \<Rightarrow> task_row option" where
  "task_of_memory m d = find (\<lambda>t. tk_derived_from t = m) (t_task d)"

definition set_task :: "uuid \<Rightarrow> (task_row \<Rightarrow> task_row) \<Rightarrow> unit op" where
  "set_task i f = write_tasks (update_where (\<lambda>t. tk_id t = i) f)"

definition live :: "task_row \<Rightarrow> bool" where
  "live t \<longleftrightarrow> tk_status t = TaskOpen \<or> tk_status t = TaskBlocked"

fun task_status_text :: "task_status \<Rightarrow> string" where
  "task_status_text TaskOpen = ''open''"
| "task_status_text TaskBlocked = ''blocked_on_condition''"
| "task_status_text TaskDone = ''done''"
| "task_status_text TaskDismissed = ''dismissed''"

fun kind_text :: "fact_kind \<Rightarrow> string" where
  "kind_text Commitment = ''commitment''"
| "kind_text Decision = ''decision''"
| "kind_text Preference = ''preference''"
| "kind_text FactKind = ''fact''"
| "kind_text OpenLoop = ''open_loop''"

definition task_audit :: "string \<Rightarrow> string \<Rightarrow> uuid \<Rightarrow> (string \<times> json) list \<Rightarrow> user_id option \<Rightarrow> string option \<Rightarrow> audit_entry" where
  "task_audit actor action i detail owner org =
     \<lparr>a_actor = actor, a_action = action, a_entity_type = ''task'', a_entity_id = i,
      a_detail = JObj detail, a_org_id = org, a_owner_id = owner\<rparr>"

text \<open>The engine's audit entry: the organisation is looked up for the owner.\<close>

definition engine_audit :: "string \<Rightarrow> uuid \<Rightarrow> (string \<times> json) list \<Rightarrow> user_id \<Rightarrow> unit op" where
  "engine_audit action i detail owner =
     bindA (orgFor owner) (\<lambda>org. writeAudit (task_audit ''tasks_engine'' action i detail (Some owner) org))"

subsection \<open>Dormant flags\<close>

definition listOpenDormantFlags :: "pg \<Rightarrow> dormant_flag list" where
  "listOpenDormantFlags d = filter (\<lambda>f. df_cleared_at f = None) (t_dormant d)"

definition clearDormantFlag :: "uuid \<Rightarrow> unit op" where
  "clearDormantFlag m =
     bindA (reads w_clock) (\<lambda>now.
     updates (update_pg (\<lambda>d. d\<lparr>t_dormant :=
       update_where (\<lambda>f. df_memory f = m \<and> df_cleared_at f = None) (\<lambda>f. f\<lparr>df_cleared_at := Some now\<rparr>) (t_dormant d)\<rparr>)))"

subsection \<open>Derivation\<close>

definition insert_task :: "task_row \<Rightarrow> uuid option op" where
  "insert_task t =
     bindA (reads (\<lambda>w. task_of_memory (tk_derived_from t) (w_pg w))) (\<lambda>there.
       if there \<noteq> None then ret None
       else thenA (write_tasks (\<lambda>ts. ts @ [t])) (ret (Some (tk_id t))))"

definition title_of :: "memory_row \<Rightarrow> string \<Rightarrow> string" where
  "title_of row other = (let t = js_trim (or_else (m_content row) []) in if t = [] then other else t)"

definition person_of :: "memory_row \<Rightarrow> string option" where
  "person_of row = (case m_subject_entity row of Some s \<Rightarrow> Some s
     | None \<Rightarrow> (case m_entities row of [] \<Rightarrow> None | e # _ \<Rightarrow> Some e))"

definition new_task :: "uuid \<Rightarrow> memory_row \<Rightarrow> bool \<Rightarrow> time \<Rightarrow> task_row" where
  "new_task i row adopted now =
     \<lparr>tk_id = i, tk_owner = m_owner row, tk_scope = m_scope row, tk_derived_from = m_id row,
      tk_title = title_of row ''(untitled commitment)'', tk_primary_person = person_of row,
      tk_entities = m_entities row, tk_condition = conditionOf row, tk_condition_met = False,
      tk_condition_met_by = None, tk_due = m_valid_until row,
      tk_status = (case conditionOf row of None \<Rightarrow> TaskOpen | Some c \<Rightarrow> if c = [] then TaskOpen else TaskBlocked),
      tk_closed_by = None, tk_dormant = False, tk_from_uncertain = (m_status row = Uncertain), tk_adopted = adopted,
      tk_due_reminded_at = None, tk_dormant_reminded_at = None, tk_created_at = now, tk_updated_at = now\<rparr>"

definition deriveTask :: "memory_row \<Rightarrow> principal option \<Rightarrow> nat op" where
  "deriveTask row adoptedBy =
     bindA draw_uuid (\<lambda>i.
     bindA (reads w_clock) (\<lambda>now.
     bindA (insert_task (new_task i row (adoptedBy \<noteq> None) now)) (\<lambda>inserted.
       case inserted of
         None \<Rightarrow> ret 0
       | Some task_id \<Rightarrow>
           let detail = [(''memoryId'', JStr (m_id row)), (''kind'', jopt (\<lambda>k. JStr (kind_text k)) (m_kind row)),
                         (''blocked'', JBool (conditionOf row \<noteq> None))]
           in thenA (case adoptedBy of
                Some p \<Rightarrow> writeAudit (task_audit (''user:'' @ p_user_id p) ''task.adopted'' task_id detail
                             (Some (m_owner row)) (Some (p_org_id p)))
              | None \<Rightarrow> engine_audit ''task.derived'' task_id detail (m_owner row)) (ret 1))))"

definition adoptFromMemory :: "principal \<Rightarrow> uuid \<Rightarrow> task_row op" where
  "adoptFromMemory prin memoryId =
     transaction (
       bindA (reads (\<lambda>w. memory_by_id memoryId (w_pg w))) (\<lambda>found.
         case found of
           None \<Rightarrow> raise (NotFound ''memory'' memoryId)
         | Some row \<Rightarrow>
             if m_owner row \<noteq> p_user_id prin then raise (NotFound ''memory'' memoryId)
             else thenA (deriveTask row (Some prin))
               (bindA (reads (\<lambda>w. task_of_memory memoryId (w_pg w))) (\<lambda>t.
                 case t of Some t \<Rightarrow> ret t | None \<Rightarrow> raise (Failure ''undefined'')))))"

subsection \<open>The conclusion of a task becomes a source\<close>

record engine_env =
  en_locale :: "user_id \<Rightarrow> language"
  en_closure :: "string \<Rightarrow> string option"
  en_condition :: "string \<Rightarrow> string option"

definition same_conclusion :: "uuid \<Rightarrow> conclusion_type \<Rightarrow> uuid option \<Rightarrow> source_row \<Rightarrow> bool" where
  "same_conclusion i ty trigger s \<longleftrightarrow>
     (case src_conclusion s of None \<Rightarrow> False
      | Some c \<Rightarrow> trigger \<noteq> None \<and> cn_task c = Some i \<and> cn_type c = ty \<and> cn_trigger c = trigger)"

definition insert_conclusion :: "user_id \<Rightarrow> conclusion \<Rightarrow> uuid option op" where
  "insert_conclusion owner c =
     bindA draw_uuid (\<lambda>i.
     bindA (reads (\<lambda>w. list_ex (\<lambda>s. case cn_task c of None \<Rightarrow> False
          | Some t \<Rightarrow> same_conclusion t (cn_type c) (cn_trigger c) s) (t_source (w_pg w)))) (\<lambda>there.
       if there then ret None
       else thenA (updates (update_pg (\<lambda>d. d\<lparr>t_source := t_source d @
              [\<lparr>src_type = TaskConclusion, src_id = i, src_owner = owner, src_raw_key = None, src_html_key = None,
                src_attachments = [], src_conclusion = Some c\<rparr>]\<rparr>)))
            (ret (Some i))))"

definition insert_and_queue :: "user_id \<Rightarrow> conclusion \<Rightarrow> uuid option op" where
  "insert_and_queue owner c =
     bindA (insert_conclusion owner c) (\<lambda>inserted.
       case inserted of
         None \<Rightarrow> ret None
       | Some conclusionId \<Rightarrow>
           thenA (withTransactionalEnqueue
             \<lparr>ev_type = ''task.concluded'',
              ev_payload = [(''source_type'', JStr ''task_conclusion''), (''source_id'', JStr conclusionId),
                            (''owner_id'', JStr owner)]\<rparr>
             INGESTION_PIPELINE_JOB_TYPE \<lparr>j_source_type = ''task_conclusion'', j_source_id = conclusionId\<rparr>)
           (ret (Some conclusionId)))"

definition conclusion_text :: "conclusion_type \<Rightarrow> string" where
  "conclusion_text ty = (if ty = Closed then ''closed'' else ''condition_met'')"

definition event_at :: "memory_row \<Rightarrow> time" where
  "event_at row = or_else (m_valid_from row) (m_created_at row)"

definition emitConclusion :: "engine_env \<Rightarrow> task_row \<Rightarrow> conclusion_type \<Rightarrow> memory_row option \<Rightarrow> unit op" where
  "emitConclusion env current ty byFact =
     bindA (reads (\<lambda>w. memory_by_id (tk_derived_from current) (w_pg w))) (\<lambda>deriving.
     bindA (reads w_clock) (\<lambda>now.
     let statement = buildConclusionStatement
           \<lparr>ci_type = ty, ci_title = tk_title current,
            ci_recorded_at = (case deriving of Some m \<Rightarrow> event_at m | None \<Rightarrow> tk_created_at current),
            ci_concluded_at = (case byFact of Some m \<Rightarrow> event_at m | None \<Rightarrow> now),
            ci_trigger = (case byFact of Some m \<Rightarrow> m_content m | None \<Rightarrow> None),
            ci_condition = tk_condition current, ci_locale = en_locale env (tk_owner current)\<rparr>;
         sensitive = ((case deriving of Some m \<Rightarrow> m_sensitive m | None \<Rightarrow> False) \<or>
                      (case byFact of Some m \<Rightarrow> m_sensitive m | None \<Rightarrow> False))
     in bindA (insert_and_queue (tk_owner current)
          \<lparr>cn_task = Some (tk_id current), cn_scope = tk_scope current, cn_sensitive = sensitive, cn_type = ty,
           cn_statement = statement, cn_deriving = map_option m_id deriving, cn_trigger = map_option m_id byFact,
           cn_created_at = now\<rparr>) (\<lambda>inserted.
        case inserted of
          None \<Rightarrow> ret ()
        | Some conclusionId \<Rightarrow>
            engine_audit ''task.concluded'' (tk_id current)
              [(''conclusionId'', JStr conclusionId), (''conclusionType'', JStr (conclusion_text ty)),
               (''derivingMemoryId'', jopt JStr (map_option m_id deriving)),
               (''triggerMemoryId'', jopt JStr (map_option m_id byFact))] (tk_owner current))))"

subsection \<open>Judgments\<close>

text \<open>Both judgments see the task and the fact as text.\<close>

definition day_text :: "time \<Rightarrow> string" where
  "day_text t = take 10 (iso_string t)"

definition buildPairInput :: "task_row \<Rightarrow> memory_row \<Rightarrow> string" where
  "buildPairInput t news =
     join [CHR 0x0A]
       ([''TASK:'', ''title: '' @ tk_title t, ''person: '' @ or_else (tk_primary_person t) ''unknown'',
         ''status: '' @ task_status_text (tk_status t)] @
        (case tk_condition t of None \<Rightarrow> [] | Some c \<Rightarrow> if c = [] then [] else [''waiting on: '' @ c]) @
        (case tk_due t of None \<Rightarrow> [] | Some due \<Rightarrow> [''due: '' @ day_text due]) @
        [[], ''NEW FACT:'', ''claim: '' @ or_else (m_content news) [], ''captured: '' @ day_text (m_created_at news),
         ''entities: '' @ (if m_entities news = [] then ''(none)'' else join '', '' (m_entities news))])"

definition MAX_TASK_CHECKS :: nat where "MAX_TASK_CHECKS = 3"
definition OPEN_TASK_POOL :: nat where "OPEN_TASK_POOL = 200"

definition norm :: "string \<Rightarrow> string" where
  "norm name = to_lower (js_trim name)"

definition fact_names :: "memory_row \<Rightarrow> string set" where
  "fact_names news = norm ` set (m_entities news) \<union>
     (case m_subject_entity news of None \<Rightarrow> {} | Some s \<Rightarrow> if s = [] then {} else {norm s})"

definition concerns :: "memory_row \<Rightarrow> task_row \<Rightarrow> bool" where
  "concerns news t \<longleftrightarrow> tk_derived_from t \<noteq> m_id news \<and>
     (list_ex (\<lambda>e. norm e \<in> fact_names news) (tk_entities t) \<or>
      (case tk_primary_person t of None \<Rightarrow> False | Some p \<Rightarrow> norm p \<in> fact_names news))"

definition candidateTasks :: "memory_row \<Rightarrow> pg \<Rightarrow> task_row list" where
  "candidateTasks news d =
     filter (concerns news)
       (take OPEN_TASK_POOL (sort_key (\<lambda>t. - tk_updated_at t)
          (filter (\<lambda>t. tk_owner t = m_owner news \<and> live t) (t_task d))))"

definition settle :: "engine_env \<Rightarrow> uuid \<Rightarrow> memory_row \<Rightarrow> bool op" where
  "settle env taskId byFact =
     bindA (reads (\<lambda>w. task_by_id taskId (w_pg w))) (\<lambda>found.
       case found of
         None \<Rightarrow> ret False
       | Some current \<Rightarrow>
           if \<not> live current then ret False
           else bindA (reads w_clock) (\<lambda>now.
             thenA (set_task taskId (\<lambda>t. t\<lparr>tk_status := TaskDone, tk_closed_by := Some (m_id byFact),
                      tk_due_reminded_at := None, tk_dormant_reminded_at := None, tk_updated_at := now\<rparr>))
             (thenA (engine_audit ''task.closed'' taskId [(''byMemoryId'', JStr (m_id byFact))] (m_owner byFact))
             (thenA (emitConclusion env current Closed (Some byFact))
             (thenA (clearDormantFlag (tk_derived_from current))
               (ret True))))))"

definition unblock :: "engine_env \<Rightarrow> uuid \<Rightarrow> memory_row \<Rightarrow> bool op" where
  "unblock env taskId byFact =
     bindA (reads (\<lambda>w. task_by_id taskId (w_pg w))) (\<lambda>found.
       case found of
         None \<Rightarrow> ret False
       | Some current \<Rightarrow>
           if tk_status current \<noteq> TaskBlocked \<or> tk_condition_met current then ret False
           else bindA (reads w_clock) (\<lambda>now.
             thenA (set_task taskId (\<lambda>t. t\<lparr>tk_condition_met := True, tk_condition_met_by := Some (m_id byFact),
                      tk_status := TaskOpen, tk_updated_at := now\<rparr>))
             (thenA (engine_audit ''task.condition_met'' taskId [(''byMemoryId'', JStr (m_id byFact))] (m_owner byFact))
             (thenA (emitConclusion env current ConditionMet (Some byFact))
               (ret True)))))"

record judged =
  jg_closed :: nat
  jg_met :: nat

text \<open>A call that fails, or whose answer does not fit the schema, aborts the job.\<close>

definition ask_verdict :: "(string \<Rightarrow> string option) \<Rightarrow> string list \<Rightarrow> string \<Rightarrow> string op" where
  "ask_verdict call verdicts input =
     (case call input of
        None \<Rightarrow> raise (Failure ''model call failed'')
      | Some v \<Rightarrow> if v \<in> set verdicts then ret v else raise (Failure ''model answer does not fit the schema''))"

definition judge_one :: "engine_env \<Rightarrow> memory_row \<Rightarrow> judged \<Rightarrow> task_row \<Rightarrow> judged op" where
  "judge_one env news acc candidate =
     bindA (ask_verdict (en_closure env) [''closes'', ''progresses'', ''unrelated''] (buildPairInput candidate news)) (\<lambda>closure.
       if closure = ''closes''
       then bindA (settle env (tk_id candidate) news) (\<lambda>settled.
              ret (if settled then acc\<lparr>jg_closed := jg_closed acc + 1\<rparr> else acc))
       else if tk_status candidate = TaskBlocked \<and> or_else (tk_condition candidate) [] \<noteq> []
       then bindA (ask_verdict (en_condition env) [''satisfied'', ''not_satisfied'', ''unrelated''] (buildPairInput candidate news)) (\<lambda>condition.
              if condition = ''satisfied''
              then bindA (unblock env (tk_id candidate) news) (\<lambda>met.
                     ret (if met then acc\<lparr>jg_met := jg_met acc + 1\<rparr> else acc))
              else ret acc)
       else ret acc)"

definition judgeFact :: "engine_env \<Rightarrow> pg \<Rightarrow> memory_row \<Rightarrow> judged op" where
  "judgeFact env committed news =
     fold_each (judge_one env news) (take MAX_TASK_CHECKS (candidateTasks news committed)) \<lparr>jg_closed = 0, jg_met = 0\<rparr>"

subsection \<open>Maintenance\<close>

record engine_report =
  er_derived :: nat
  er_repointed :: nat
  er_dismissed :: nat
  er_closed :: nat
  er_met :: nat
  er_dormant :: nat

definition emptyReport :: engine_report where
  "emptyReport = \<lparr>er_derived = 0, er_repointed = 0, er_dismissed = 0, er_closed = 0, er_met = 0, er_dormant = 0\<rparr>"

fun chain_head :: "pg \<Rightarrow> nat \<Rightarrow> memory_row \<Rightarrow> memory_row" where
  "chain_head d 0 r = r"
| "chain_head d (Suc hops) r =
     (case m_superseded_by r of
        None \<Rightarrow> r
      | Some s \<Rightarrow> (case memory_by_id s d of None \<Rightarrow> r | Some q \<Rightarrow> chain_head d hops q))"

definition MAX_HOPS :: nat where "MAX_HOPS = 20"

definition repoint :: "task_row \<Rightarrow> memory_row \<Rightarrow> time \<Rightarrow> task_row \<Rightarrow> task_row" where
  "repoint old h now t =
     t\<lparr>tk_derived_from := m_id h, tk_title := title_of h (tk_title old), tk_entities := m_entities h,
       tk_primary_person := (case person_of h of Some p \<Rightarrow> Some p | None \<Rightarrow> tk_primary_person old),
       tk_due := (case m_valid_until h of Some due \<Rightarrow> Some due | None \<Rightarrow> tk_due old),
       tk_from_uncertain := (m_status h = Uncertain), tk_scope := m_scope h, tk_updated_at := now\<rparr>"

definition converge :: "task_row \<Rightarrow> memory_row \<Rightarrow> time \<Rightarrow> task_row \<Rightarrow> task_row" where
  "converge old h now t =
     t\<lparr>tk_from_uncertain := (if tk_from_uncertain old \<and> m_status h = Active then False else tk_from_uncertain t),
       tk_scope := (if tk_scope old \<noteq> m_scope h then m_scope h else tk_scope t), tk_updated_at := now\<rparr>"

definition in_step :: "task_row \<Rightarrow> memory_row \<Rightarrow> bool" where
  "in_step t h \<longleftrightarrow> \<not> (tk_from_uncertain t \<and> m_status h = Active) \<and> tk_scope t = m_scope h"

definition maintain_one :: "engine_report \<Rightarrow> task_row \<Rightarrow> engine_report op" where
  "maintain_one report t =
     bindA (reads (\<lambda>w. memory_by_id (tk_derived_from t) (w_pg w))) (\<lambda>start.
     case start of
       None \<Rightarrow> ret report
     | Some start \<Rightarrow>
         bindA (reads (\<lambda>w. chain_head (w_pg w) MAX_HOPS start)) (\<lambda>h.
         bindA (reads w_clock) (\<lambda>now.
           if m_id h \<noteq> tk_derived_from t
           then bindA (reads (\<lambda>w. task_of_memory (m_id h) (w_pg w))) (\<lambda>headTask.
             if headTask = None
             then thenA (set_task (tk_id t) (repoint t h now))
                  (thenA (engine_audit ''task.repointed'' (tk_id t)
                            [(''from'', JStr (tk_derived_from t)), (''to'', JStr (m_id h))] (tk_owner t))
                    (ret (report\<lparr>er_repointed := er_repointed report + 1\<rparr>)))
             else thenA (set_task (tk_id t) (\<lambda>t. t\<lparr>tk_status := TaskDismissed, tk_due_reminded_at := None,
                           tk_dormant_reminded_at := None, tk_updated_at := now\<rparr>))
                  (thenA (engine_audit ''task.dismissed'' (tk_id t)
                            [(''cause'', JStr ''superseded_duplicate''), (''head'', JStr (m_id h))] (tk_owner t))
                    (ret (report\<lparr>er_dismissed := er_dismissed report + 1\<rparr>))))
           else if in_step t h then ret report
           else thenA (set_task (tk_id t) (converge t h now)) (ret report))))"

definition sync_dormant :: "uuid set \<Rightarrow> engine_report \<Rightarrow> task_row \<Rightarrow> engine_report op" where
  "sync_dormant flagged report t =
     (if tk_dormant t \<noteq> (tk_derived_from t \<in> flagged)
      then bindA (reads w_clock) (\<lambda>now.
           thenA (set_task (tk_id t) (\<lambda>u. u\<lparr>tk_dormant := (tk_derived_from t \<in> flagged), tk_updated_at := now\<rparr>))
             (ret (report\<lparr>er_dormant := er_dormant report + 1\<rparr>)))
      else ret report)"

definition maintain :: "engine_report \<Rightarrow> user_id list \<Rightarrow> engine_report op" where
  "maintain report owners =
     (if owners = [] then ret report
      else bindA (reads (\<lambda>w. take OPEN_TASK_POOL (filter (\<lambda>t. tk_owner t \<in> set owners \<and> live t) (t_task (w_pg w))))) (\<lambda>pool.
        bindA (fold_each maintain_one pool report) (\<lambda>report.
        bindA (reads (\<lambda>w. df_memory ` set (listOpenDormantFlags (w_pg w)))) (\<lambda>flagged.
          fold_each (sync_dormant flagged) pool report))))"

subsection \<open>Jobs\<close>

definition derive_one :: "engine_report \<Rightarrow> memory_row \<Rightarrow> engine_report op" where
  "derive_one report row =
     (if derivable row then bindA (deriveTask row None) (\<lambda>n. ret (report\<lparr>er_derived := er_derived report + n\<rparr>))
      else ret report)"

definition judge_row :: "engine_env \<Rightarrow> pg \<Rightarrow> engine_report \<Rightarrow> memory_row \<Rightarrow> engine_report op" where
  "judge_row env committed report row =
     (if m_status row \<noteq> Active then ret report
      else bindA (judgeFact env committed row) (\<lambda>j.
        ret (report\<lparr>er_closed := er_closed report + jg_closed j, er_met := er_met report + jg_met j\<rparr>)))"

definition processSource :: "engine_env \<Rightarrow> source_type \<Rightarrow> string \<Rightarrow> engine_report op" where
  "processSource env st i =
     bindA (reads w_pg) (\<lambda>committed.
     let rows = listBySourceSystem st i committed
     in if rows = [] then ret emptyReport
        else bindA (fold_each derive_one rows emptyReport) (\<lambda>report.
             bindA (fold_each (judge_row env committed) rows report) (\<lambda>report.
               maintain report (dedupe (map m_owner rows)))))"

definition backfill :: "engine_report op" where
  "backfill =
     bindA (reads (\<lambda>w. listByKindsSystem DERIVING_KINDS [Active, Uncertain] 2000 (w_pg w))) (\<lambda>rows.
     transaction (
       bindA (fold_each derive_one rows emptyReport) (\<lambda>report.
         maintain report (dedupe (map m_owner rows)))))"

definition REMINDER_DUE_SOON_HORIZON_HOURS :: int where
  "REMINDER_DUE_SOON_HORIZON_HOURS = 24"

record reminder_report =
  rm_due :: nat
  rm_dormant :: nat
  rm_cleared :: nat

definition due_raised :: "time \<Rightarrow> task_row \<Rightarrow> bool" where
  "due_raised now t \<longleftrightarrow> (case tk_due t of None \<Rightarrow> False
     | Some due \<Rightarrow> due \<le> now + REMINDER_DUE_SOON_HORIZON_HOURS * 3600 * 1000) \<and> tk_due_reminded_at t = None"

definition dormant_raised :: "task_row \<Rightarrow> bool" where
  "dormant_raised t \<longleftrightarrow> tk_dormant t \<and> tk_dormant_reminded_at t = None"

definition dormant_cleared :: "task_row \<Rightarrow> bool" where
  "dormant_cleared t \<longleftrightarrow> \<not> tk_dormant t \<and> tk_dormant_reminded_at t \<noteq> None"

definition remind :: "time \<Rightarrow> task_row \<Rightarrow> task_row \<Rightarrow> task_row" where
  "remind now old t =
     t\<lparr>tk_due_reminded_at := (if due_raised now old then Some now else tk_due_reminded_at t),
       tk_dormant_reminded_at := (if dormant_raised old then Some now
                                  else if dormant_cleared old then None else tk_dormant_reminded_at t)\<rparr>"

definition remind_one :: "time \<Rightarrow> reminder_report \<Rightarrow> task_row \<Rightarrow> reminder_report op" where
  "remind_one now report t =
     thenA (when_do (due_raised now t \<or> dormant_raised t \<or> dormant_cleared t) (set_task (tk_id t) (remind now t)))
       (ret \<lparr>rm_due = rm_due report + (if due_raised now t then 1 else 0),
             rm_dormant = rm_dormant report + (if dormant_raised t then 1 else 0),
             rm_cleared = rm_cleared report + (if dormant_cleared t then 1 else 0)\<rparr>)"

definition runReminders :: "reminder_report op" where
  "runReminders =
     bindA (reads w_clock) (\<lambda>now.
     transaction (
       bindA (reads (\<lambda>w. filter live (t_task (w_pg w)))) (\<lambda>rows.
         fold_each (remind_one now) rows \<lparr>rm_due = 0, rm_dormant = 0, rm_cleared = 0\<rparr>)))"

record cleanup_report =
  cl_removed :: nat
  cl_interaction :: nat
  cl_conclusion :: nat

definition starts_with :: "string \<Rightarrow> string \<Rightarrow> bool" where
  "starts_with pre s \<longleftrightarrow> take (length pre) s = pre"

definition user_touched :: "pg \<Rightarrow> uuid set" where
  "user_touched d = a_entity_id ` set (filter (\<lambda>a. a_entity_type a = ''task'' \<and> starts_with ''user:'' (a_actor a)) (t_audit d))"

definition concluded_tasks :: "pg \<Rightarrow> uuid set" where
  "concluded_tasks d = set (List.map_filter (\<lambda>s. case src_conclusion s of None \<Rightarrow> None | Some c \<Rightarrow> cn_task c) (t_source d))"

definition cleanup_one :: "pg \<Rightarrow> cleanup_report \<Rightarrow> task_row \<Rightarrow> cleanup_report op" where
  "cleanup_one d report t =
     (if tk_adopted t then ret report
      else case memory_by_id (tk_derived_from t) d of
        None \<Rightarrow> ret report
      | Some deriving \<Rightarrow>
          if first_person deriving then ret report
          else if tk_id t \<in> user_touched d then ret (report\<lparr>cl_interaction := cl_interaction report + 1\<rparr>)
          else if tk_id t \<in> concluded_tasks d then ret (report\<lparr>cl_conclusion := cl_conclusion report + 1\<rparr>)
          else thenA (write_tasks (delete_where (\<lambda>u. tk_id u = tk_id t)))
              (thenA (engine_audit ''task.removed'' (tk_id t)
                        [(''cause'', JStr ''derivation_rule_migration''), (''memoryId'', JStr (m_id deriving)),
                         (''sourceType'', JStr (source_type_text (m_source_type deriving)))] (tk_owner t))
                (ret (report\<lparr>cl_removed := cl_removed report + 1\<rparr>))))"

definition derivationCleanup :: "cleanup_report op" where
  "derivationCleanup =
     transaction (
       bindA (reads w_pg) (\<lambda>d.
         let empty = \<lparr>cl_removed = 0, cl_interaction = 0, cl_conclusion = 0\<rparr>
         in if t_task d = [] then ret empty
            else bindA (fold_each (cleanup_one d) (t_task d) empty) (\<lambda>report.
                 thenA (writeAudit (task_audit ''tasks_engine'' ''task.derivation_cleanup'' ''derivation-rule-migration''
                          [(''removed'', JInt (int (cl_removed report))),
                           (''sparedByInteraction'', JInt (int (cl_interaction report))),
                           (''sparedByConclusion'', JInt (int (cl_conclusion report)))] None None))
                   (ret report))))"

subsection \<open>What the user does with a task\<close>

definition userOp ::
  "principal \<Rightarrow> uuid \<Rightarrow> task_status list \<Rightarrow> (task_row \<Rightarrow> task_row) \<Rightarrow> (task_row \<Rightarrow> unit op) \<Rightarrow> task_row op" where
  "userOp prin taskId legalFrom change afterTransition =
     transaction (
       bindA (reads (\<lambda>w. task_by_id taskId (w_pg w))) (\<lambda>found.
         case found of
           None \<Rightarrow> raise (NotFound ''task'' taskId)
         | Some current \<Rightarrow>
             if tk_owner current \<noteq> p_user_id prin then raise (NotFound ''task'' taskId)
             else if tk_status current = tk_status (change current) then ret current
             else if tk_status current \<notin> set legalFrom
             then raise (BadRequest (CannotChangeTask (tk_status (change current)) (tk_status current)))
             else bindA (reads w_clock) (\<lambda>now.
               let updated = (change current)\<lparr>tk_due_reminded_at := None, tk_dormant_reminded_at := None, tk_updated_at := now\<rparr>
               in thenA (set_task taskId (\<lambda>_. updated))
                  (thenA (writeAudit (task_audit (''user:'' @ p_user_id prin) (''task.'' @ task_status_text (tk_status updated)) taskId
                            [(''from'', JStr (task_status_text (tk_status current)))] (Some (p_user_id prin)) (Some (p_org_id prin))))
                  (thenA (afterTransition current)
                    (ret updated))))))"

definition reopen :: "principal \<Rightarrow> uuid \<Rightarrow> task_row op" where
  "reopen prin taskId =
     userOp prin taskId [TaskDone, TaskDismissed]
       (\<lambda>t. t\<lparr>tk_status := (if or_else (tk_condition t) [] \<noteq> [] \<and> \<not> tk_condition_met t then TaskBlocked else TaskOpen),
              tk_closed_by := None\<rparr>)
       (\<lambda>_. ret ())"

definition dismiss :: "principal \<Rightarrow> uuid \<Rightarrow> task_row op" where
  "dismiss prin taskId =
     bindA (userOp prin taskId [TaskOpen, TaskBlocked] (\<lambda>t. t\<lparr>tk_status := TaskDismissed\<rparr>) (\<lambda>_. ret ())) (\<lambda>row.
       thenA (clearDormantFlag (tk_derived_from row)) (ret row))"

definition complete :: "engine_env \<Rightarrow> principal \<Rightarrow> uuid \<Rightarrow> task_row op" where
  "complete env prin taskId =
     bindA (userOp prin taskId [TaskOpen, TaskBlocked] (\<lambda>t. t\<lparr>tk_status := TaskDone\<rparr>)
              (\<lambda>current. emitConclusion env current Closed None)) (\<lambda>row.
       thenA (clearDormantFlag (tk_derived_from row)) (ret row))"

subsection \<open>The worker\<close>

definition TASK_DERIVE_JOB_TYPE :: string where
  "TASK_DERIVE_JOB_TYPE = ''tasks.derive''"

definition tasks_handler :: "engine_env \<Rightarrow> job_handler" where
  "tasks_handler env p =
     (case source_type_of_text SOURCE_TYPES (j_source_type p) of
        None \<Rightarrow> raise (Failure ''invalid input value for enum source_type'')
      | Some st \<Rightarrow> thenA (processSource env st (j_source_id p)) (ret None))"

text \<open>The recurring jobs, each behind its single-flight lock.\<close>

definition backfill_job :: "(string \<Rightarrow> bool) \<Rightarrow> engine_report option op" where
  "backfill_job held = runSingleFlight held ''tasks_backfill'' backfill"

definition reminders_job :: "(string \<Rightarrow> bool) \<Rightarrow> reminder_report option op" where
  "reminders_job held = runSingleFlight held ''tasks_reminders'' runReminders"

definition cleanup_job :: "(string \<Rightarrow> bool) \<Rightarrow> cleanup_report option op" where
  "cleanup_job held = runSingleFlight held ''tasks_derivation_cleanup'' derivationCleanup"

end
