(* ===== verification/Task_Views.thy ===== *)
theory Task_Views
  imports Tasks
begin

text \<open>
  The reads of the tasks module: the gate on foreign shared tasks (\<^verbatim>\<open>task-visibility.ts\<close>), the
  list, feed, counts and conclusions of \<^verbatim>\<open>tasks.engine.ts\<close>, the controller's shape of a task
  and the tasks section of the morning digest (\<^verbatim>\<open>tasks-digest.ts\<close>).
\<close>

subsection \<open>Who sees a task\<close>

definition gateForeignTasks :: "principal \<Rightarrow> pg \<Rightarrow> task_row list \<Rightarrow> task_row list" where
  "gateForeignTasks prin d rows =
     (let foreign = filter (\<lambda>t. tk_owner t \<noteq> p_user_id prin) rows;
          visible = set (map m_id (getManyForPrincipal prin True (map tk_derived_from foreign) d))
      in if foreign = [] then rows
         else filter (\<lambda>t. tk_owner t = p_user_id prin \<or> tk_derived_from t \<in> visible) rows)"

record task_filters =
  tf_statuses :: "task_status list option"
  tf_entity :: "string option"
  tf_settled :: bool

definition wanted_statuses :: "task_filters \<Rightarrow> task_status list" where
  "wanted_statuses filters =
     or_else (tf_statuses filters)
       (if tf_settled filters then [TaskOpen, TaskBlocked, TaskDone, TaskDismissed] else [TaskOpen, TaskBlocked])"

definition by_due :: "task_row list \<Rightarrow> task_row list" where
  "by_due rows = nulls_last_asc tk_due (sort_key (\<lambda>t. - tk_updated_at t) rows)"

definition task_candidates :: "principal \<Rightarrow> task_status list \<Rightarrow> pg \<Rightarrow> task_row list" where
  "task_candidates prin statuses d =
     take OPEN_TASK_POOL (by_due (filter (\<lambda>t.
       (tk_owner t = p_user_id prin \<or> tk_scope t = Shared) \<and> tk_status t \<in> set statuses) (t_task d)))"

definition mentions :: "string \<Rightarrow> task_row \<Rightarrow> bool" where
  "mentions wanted t \<longleftrightarrow> list_ex (\<lambda>e. contains wanted (norm e)) (tk_entities t) \<or>
     (case tk_primary_person t of None \<Rightarrow> False | Some p \<Rightarrow> contains wanted (norm p))"

definition listForPrincipal :: "principal \<Rightarrow> task_filters \<Rightarrow> pg \<Rightarrow> task_row list" where
  "listForPrincipal prin filters d =
     (let visible = gateForeignTasks prin d (task_candidates prin (wanted_statuses filters) d)
      in case tf_entity filters of
           None \<Rightarrow> visible
         | Some e \<Rightarrow> if js_trim e = [] then visible else filter (mentions (norm e)) visible)"

subsection \<open>The caller's own workload\<close>

record attention_task =
  at_id :: uuid
  at_title :: string
  at_due :: "time option"
  at_dormant :: bool
  at_status :: task_status
  at_updated_at :: time

definition own_open :: "principal \<Rightarrow> pg \<Rightarrow> task_row list" where
  "own_open prin d = filter (\<lambda>t. tk_owner t = p_user_id prin \<and> live t) (t_task d)"

definition attentionTasksForPrincipal :: "principal \<Rightarrow> pg \<Rightarrow> attention_task list" where
  "attentionTasksForPrincipal prin d =
     map (\<lambda>t. \<lparr>at_id = tk_id t, at_title = tk_title t, at_due = tk_due t, at_dormant = tk_dormant t,
              at_status = tk_status t, at_updated_at = tk_updated_at t\<rparr>)
       (take OPEN_TASK_POOL (by_due (own_open prin d)))"

record status_breakdown =
  sb_open :: nat
  sb_blocked :: nat
  sb_done :: nat
  sb_dismissed :: nat

definition status_count :: "principal \<Rightarrow> task_status \<Rightarrow> pg \<Rightarrow> nat" where
  "status_count prin s d = length (filter (\<lambda>t. tk_owner t = p_user_id prin \<and> tk_status t = s) (t_task d))"

definition statusCountsForPrincipal :: "principal \<Rightarrow> pg \<Rightarrow> status_breakdown" where
  "statusCountsForPrincipal prin d =
     \<lparr>sb_open = status_count prin TaskOpen d, sb_blocked = status_count prin TaskBlocked d,
      sb_done = status_count prin TaskDone d, sb_dismissed = status_count prin TaskDismissed d\<rparr>"

definition countOpenForPrincipal :: "principal \<Rightarrow> pg \<Rightarrow> nat" where
  "countOpenForPrincipal prin d = length (own_open prin d)"

subsection \<open>The conclusions of a task\<close>

record task_conclusion_dto =
  td_id :: uuid
  td_task :: "uuid option"
  td_type :: conclusion_type
  td_statement :: string
  td_deriving :: "uuid option"
  td_trigger :: "uuid option"
  td_memory :: "uuid option"
  td_created_at :: string

definition toConclusionDto :: "uuid \<Rightarrow> conclusion \<Rightarrow> uuid option \<Rightarrow> task_conclusion_dto" where
  "toConclusionDto i c memoryId =
     \<lparr>td_id = i, td_task = cn_task c, td_type = cn_type c, td_statement = cn_statement c,
      td_deriving = cn_deriving c, td_trigger = cn_trigger c, td_memory = memoryId,
      td_created_at = iso_string (cn_created_at c)\<rparr>"

definition resolveConclusion :: "principal \<Rightarrow> pg \<Rightarrow> uuid \<times> conclusion \<Rightarrow> task_conclusion_dto" where
  "resolveConclusion prin d row =
     toConclusionDto (fst row) (snd row)
       (map_option m_id (find (\<lambda>m. m_owner m = p_user_id prin) (listBySourceSystem TaskConclusion (fst row) d)))"

definition conclusion_rows :: "principal \<Rightarrow> pg \<Rightarrow> (uuid \<times> conclusion) list" where
  "conclusion_rows prin d = List.map_filter (\<lambda>s. case src_conclusion s of
     Some c \<Rightarrow> if src_owner s = p_user_id prin then Some (src_id s, c) else None | None \<Rightarrow> None) (t_source d)"

definition listConclusionsForPrincipal :: "principal \<Rightarrow> uuid \<Rightarrow> pg \<Rightarrow> task_conclusion_dto list" where
  "listConclusionsForPrincipal prin taskId d =
     map (resolveConclusion prin d)
       (sort_key (\<lambda>r. - cn_created_at (snd r)) (filter (\<lambda>r. cn_task (snd r) = Some taskId) (conclusion_rows prin d)))"

definition getConclusionForPrincipal :: "principal \<Rightarrow> uuid \<Rightarrow> pg \<Rightarrow> task_conclusion_dto option" where
  "getConclusionForPrincipal prin conclusionId d =
     map_option (resolveConclusion prin d) (find (\<lambda>r. fst r = conclusionId) (conclusion_rows prin d))"

subsection \<open>The controller\<close>

record task_dto =
  to_id :: uuid
  to_title :: string
  to_status :: task_status
  to_primary_person :: "string option"
  to_entities :: "string list"
  to_condition :: "string option"
  to_condition_met :: bool
  to_due :: "string option"
  to_dormant :: bool
  to_from_uncertain :: bool
  to_adopted :: bool
  to_derived_from :: uuid
  to_closed_by :: "uuid option"
  to_created_at :: string
  to_updated_at :: string

definition task_toDto :: "task_row \<Rightarrow> task_dto" where
  "task_toDto t =
     \<lparr>to_id = tk_id t, to_title = tk_title t, to_status = tk_status t, to_primary_person = tk_primary_person t,
      to_entities = tk_entities t, to_condition = tk_condition t, to_condition_met = tk_condition_met t,
      to_due = map_option iso_string (tk_due t), to_dormant = tk_dormant t, to_from_uncertain = tk_from_uncertain t,
      to_adopted = tk_adopted t, to_derived_from = tk_derived_from t, to_closed_by = tk_closed_by t,
      to_created_at = iso_string (tk_created_at t), to_updated_at = iso_string (tk_updated_at t)\<rparr>"

definition tasks_list :: "principal \<Rightarrow> task_status option \<Rightarrow> string option \<Rightarrow> bool \<Rightarrow> pg \<Rightarrow> task_dto list" where
  "tasks_list prin status entity includeSettled d =
     map task_toDto (listForPrincipal prin
       \<lparr>tf_statuses = map_option (\<lambda>s. [s]) status, tf_entity = entity, tf_settled = includeSettled\<rparr> d)"

subsection \<open>The tasks section of the digest\<close>

record digest_line =
  dl_text :: string
  dl_href :: string
  dl_section :: string

definition task_line :: "string \<Rightarrow> digest_line" where
  "task_line s = \<lparr>dl_text = s, dl_href = ''/tasks'', dl_section = ''tasks''\<rparr>"

definition label :: "task_row \<Rightarrow> string" where
  "label t = (let title = js_trim (tk_title t)
     in if 60 < length title then take 57 title @ ellipsis else title)"

definition MS_DAY :: int where
  "MS_DAY = 86400000"

text \<open>\<^verbatim>\<open>Math.round\<close> of a quotient: the nearest integer, halves upward.\<close>

definition round_div :: "int \<Rightarrow> int \<Rightarrow> int" where
  "round_div a b = (2 * a + b) div (2 * b)"

definition dueLine :: "time \<Rightarrow> time \<Rightarrow> bool \<Rightarrow> task_row \<Rightarrow> digest_line" where
  "dueLine due now hr t =
     (let days = round_div (due - now) MS_DAY; n = nat_digits (nat \<bar>days\<bar>)
      in if days < 0
         then task_line (if hr
           then ''Kasni '' @ (if days = -1 then ''1 dan'' else n @ '' dana'') @ '': '' @ label t
           else ''Overdue by '' @ (if days = -1 then ''1 day'' else n @ '' days'') @ '': '' @ label t)
         else if days = 0
         then task_line (if hr then ''Rok danas: '' @ label t else ''Due today: '' @ label t)
         else task_line (if hr
           then ''Rok '' @ (if days = 1 then ''sutra'' else ''za '' @ n @ '' dana'') @ '': '' @ label t
           else ''Due '' @ (if days = 1 then ''tomorrow'' else ''in '' @ n @ '' days'') @ '': '' @ label t))"

fun once_each :: "uuid list \<Rightarrow> (uuid \<times> 'a) list \<Rightarrow> 'a list" where
  "once_each seen [] = []"
| "once_each seen ((i, x) # xs) = (if i \<in> set seen then once_each seen xs else x # once_each (i # seen) xs)"

definition MAX_TASK_LINES :: nat where
  "MAX_TASK_LINES = 3"

definition due_tasks :: "task_row list \<Rightarrow> task_row list" where
  "due_tasks visible = sort_key (\<lambda>t. the (tk_due t))
     (filter (\<lambda>t. tk_due_reminded_at t \<noteq> None \<and> tk_due t \<noteq> None) visible)"

definition unblocked_tasks :: "time option \<Rightarrow> task_row list \<Rightarrow> task_row list" where
  "unblocked_tasks scopeFrom visible =
     (case scopeFrom of None \<Rightarrow> []
      | Some since \<Rightarrow> filter (\<lambda>t. tk_status t = TaskOpen \<and> tk_condition_met t \<and>
          tk_condition_met_by t \<noteq> None \<and> since \<le> tk_updated_at t) visible)"

definition dormant_tasks :: "task_row list \<Rightarrow> task_row list" where
  "dormant_tasks visible = filter (\<lambda>t. tk_dormant_reminded_at t \<noteq> None) visible"

definition ordered_lines :: "task_row list \<Rightarrow> time option \<Rightarrow> time \<Rightarrow> bool \<Rightarrow> digest_line list" where
  "ordered_lines visible scopeFrom now hr =
     once_each []
       (map (\<lambda>t. (tk_id t, dueLine (the (tk_due t)) now hr t)) (due_tasks visible) @
        map (\<lambda>t. (tk_id t, task_line ((if hr then ''Odblokirano: '' else ''Now unblocked: '') @ label t)))
          (unblocked_tasks scopeFrom visible) @
        map (\<lambda>t. (tk_id t, task_line ((if hr then ''Utihnulo: '' else ''Gone quiet: '') @ label t)))
          (dormant_tasks visible))"

definition taskLines :: "principal \<Rightarrow> time option \<Rightarrow> bool \<Rightarrow> time \<Rightarrow> pg \<Rightarrow> digest_line list" where
  "taskLines prin scopeFrom hr now d =
     (let visible = gateForeignTasks prin d (task_candidates prin [TaskOpen, TaskBlocked] d);
          ordered = ordered_lines visible scopeFrom now hr;
          more = length ordered - (MAX_TASK_LINES - 1)
      in if length ordered \<le> MAX_TASK_LINES then ordered
         else take (MAX_TASK_LINES - 1) ordered @
           [task_line (if hr then ellipsis @ ''i jo'' @ [CHR 0xC5, CHR 0xA1] @ '' '' @ nat_digits more @ '' zadataka''
                       else ellipsis @ ''and '' @ nat_digits more @ '' more tasks'')])"

end
