(* ===== verification/Task_Laws.thy ===== *)
theory Task_Laws
  imports Task_Views Approval_Laws
begin

text \<open>
  What the tasks engine guarantees. The table stays well formed under every job, user call and
  erasure; only first-person memories derive; reads show nothing the caller may not see.
\<close>

subsection \<open>Well-formed tasks\<close>

definition waits :: "task_row \<Rightarrow> bool" where
  "waits t \<longleftrightarrow> or_else (tk_condition t) [] \<noteq> []"

definition task_wf :: "task_row \<Rightarrow> bool" where
  "task_wf t \<longleftrightarrow>
     (tk_status t = TaskOpen \<longrightarrow> \<not> waits t \<or> tk_condition_met t) \<and>
     (tk_status t = TaskBlocked \<longrightarrow> waits t \<and> \<not> tk_condition_met t) \<and>
     (tk_condition_met t \<longrightarrow> waits t) \<and> (\<not> tk_condition_met t \<longrightarrow> tk_condition_met_by t = None) \<and>
     (\<not> live t \<longrightarrow> tk_due_reminded_at t = None \<and> tk_dormant_reminded_at t = None) \<and>
     (live t \<longrightarrow> tk_closed_by t = None)"

definition tasks_ok :: "world \<Rightarrow> bool" where
  "tasks_ok w \<longleftrightarrow> distinct (map tk_id (t_task (w_pg w))) \<and> distinct (map tk_derived_from (t_task (w_pg w))) \<and>
     list_all (task_refs_ok (w_pg w)) (t_task (w_pg w)) \<and> list_all task_wf (t_task (w_pg w))"

lemma task_refs_cong: "memory_ids d = memory_ids d' \<Longrightarrow> task_refs_ok d = task_refs_ok d'"
  by (rule ext) (simp add: task_refs_ok_def split: option.split)

lemma tasks_ok_same:
  "tasks_ok w \<Longrightarrow> t_task (w_pg w') = t_task (w_pg w) \<Longrightarrow> memory_ids (w_pg w') = memory_ids (w_pg w) \<Longrightarrow> tasks_ok w'"
  using task_refs_cong [of "w_pg w'" "w_pg w"] by (simp add: tasks_ok_def)

text \<open>
  What a transaction of the engine may do beside: memories, relations, chats, files, receipts
  and approvals stay, the audit log only grows, sources and queued jobs only get more, and
  every new source is a conclusion whose ingestion is queued.
\<close>

definition ingestion_queued :: "pg \<Rightarrow> source_row \<Rightarrow> bool" where
  "ingestion_queued d s \<longleftrightarrow> src_type s = TaskConclusion \<and> src_conclusion s \<noteq> None \<and>
     list_ex (\<lambda>q. j_type q = INGESTION_PIPELINE_JOB_TYPE \<and>
       j_payload q = \<lparr>j_source_type = ''task_conclusion'', j_source_id = src_id s\<rparr>) (t_jobs d)"

definition engine_scope :: "pg \<Rightarrow> pg \<Rightarrow> bool" where
  "engine_scope d d' \<longleftrightarrow>
     t_memory d' = t_memory d \<and> t_relation d' = t_relation d \<and> t_chat d' = t_chat d \<and> t_file d' = t_file d \<and>
     t_receipt d' = t_receipt d \<and> t_approval d' = t_approval d \<and>
     (\<exists>new. t_audit d' = t_audit d @ new) \<and> (\<exists>new. t_jobs d' = t_jobs d @ new) \<and>
     (\<exists>new. t_source d' = t_source d @ new \<and> list_all (ingestion_queued d') new)"

definition engine_move :: "world \<Rightarrow> world \<Rightarrow> bool" where
  "engine_move w w' \<longleftrightarrow> ids_forward w w' \<and> engine_scope (w_pg w) (w_pg w')"

lemma engine_scope_refl [simp]: "engine_scope d d"
  by (simp add: engine_scope_def)

lemma engine_scope_trans:
  assumes "engine_scope d e" and "engine_scope e f"
  shows "engine_scope d f"
proof -
  obtain js where js: "t_jobs f = t_jobs e @ js" using assms(2) by (auto simp: engine_scope_def)
  have "ingestion_queued e s \<Longrightarrow> ingestion_queued f s" for s
    using js by (auto simp: ingestion_queued_def)
  then show ?thesis
    using assms by (auto simp: engine_scope_def list_all_iff)
qed

interpretation tsk: pg_evolution tasks_ok engine_move
  by unfold_locales
    (auto simp: tasks_ok_def engine_move_def ids_forward_def outside_pg_def intro: engine_scope_trans)

abbreviation tends :: "'a op \<Rightarrow> bool" where
  "tends m \<equiv> keeps tasks_ok engine_move m"

abbreviation tends_from :: "'a op \<Rightarrow> world \<Rightarrow> bool" where
  "tends_from m w \<equiv> keeps_from tasks_ok engine_move m w"

lemma tends_frame:
  assumes "\<And>w r w'. m w = (r, w') \<Longrightarrow> w_uuids w' = w_uuids w \<and> w_drawn w \<le> w_drawn w' \<and>
      t_task (w_pg w') = t_task (w_pg w) \<and> engine_scope (w_pg w) (w_pg w')"
  shows "tends m"
proof (rule keeps_fromI)
  fix w
  have "memory_ids d' = memory_ids d" if "engine_scope d d'" for d d'
    using that by (simp add: engine_scope_def memory_ids_def)
  then show "tends_from m w"
    using assms [of w] tasks_ok_same [of w]
    by (cases "m w") (simp add: keeps_from_def wp_def engine_move_def ids_forward_def)
qed

lemma tends_update:
  assumes "\<And>d. t_task (f d) = t_task d" and "\<And>d. engine_scope d (f d)"
  shows "tends (updates (update_pg f))"
  by (rule tends_frame) (auto simp: updates_def assms)

lemma tends_writeAudit: "tends (writeAudit e)"
  by (rule tends_frame) (auto simp: writeAudit_def updates_def engine_scope_def)

lemma tends_consume: "tends (consumeIdempotencyKey k)"
  by (rule tends_frame) (auto simp: consumeIdempotencyKey_def engine_scope_def split: if_splits)

lemma tends_dead_letter: "tends (insert_dead_letter row)"
  unfolding insert_dead_letter_def by (intro tsk.keeps_transaction tends_update) (simp_all add: engine_scope_def)

interpretation tsk: delivery_contract tasks_ok engine_move
  by unfold_locales (rule tends_consume tends_dead_letter)+

lemma tends_clear_flag: "tends (clearDormantFlag m)"
  unfolding clearDormantFlag_def by (intro tsk.control tends_update) (simp_all add: engine_scope_def)

lemmas tend_ops = tsk.control tsk.outside_ops tsk.keeps_transaction tends_writeAudit tends_clear_flag

lemma tends_engine_audit: "tends (engine_audit action i detail owner)"
  unfolding engine_audit_def by (intro tend_ops)

text \<open>Writes of the table: the constraints are checked, the shape of the rows is the caller's part.\<close>

lemma from_write_tasks:
  assumes "tasks_ok w \<Longrightarrow> list_all task_wf (f (t_task (w_pg w)))"
  shows "tends_from (write_tasks f) w"
proof -
  have refs: "task_refs_ok (d\<lparr>t_task := ts\<rparr>) = task_refs_ok d" for d ts
    by (rule task_refs_cong) (simp add: memory_ids_def)
  show ?thesis
    using assms
    by (simp add: keeps_from_def wp_def write_tasks_def Let_def tasks_ok_def engine_move_def engine_scope_def
        ids_forward_def refs)
qed

lemma from_set_task:
  assumes "\<And>t. t \<in> set (t_task (w_pg w)) \<Longrightarrow> tk_id t = i \<Longrightarrow> task_wf t \<Longrightarrow> task_wf (f t)"
  shows "tends_from (set_task i f) w"
  unfolding set_task_def
  by (rule from_write_tasks) (use assms in \<open>auto simp: tasks_ok_def list_all_iff update_where_def\<close>)

lemma tends_set_task: "(\<And>t. task_wf t \<Longrightarrow> task_wf (f t)) \<Longrightarrow> tends (set_task i f)"
  by (rule keeps_fromI, rule from_set_task) simp

lemma task_by_id_Some: "tasks_ok w \<Longrightarrow> task_by_id i (w_pg w) = Some t \<longleftrightarrow> t \<in> set (t_task (w_pg w)) \<and> tk_id t = i"
  using find_key_unique [of tk_id "t_task (w_pg w)" t]
  by (auto simp: tasks_ok_def task_by_id_def find_Some_iff)

lemma found_wf: "tasks_ok w \<Longrightarrow> task_by_id i (w_pg w) = Some t \<Longrightarrow> task_wf t"
  by (auto simp: task_by_id_Some tasks_ok_def list_all_iff)

lemma wf_unblocked:
  "task_wf t \<Longrightarrow> tk_status t = TaskBlocked \<Longrightarrow>
     task_wf (t\<lparr>tk_condition_met := True, tk_condition_met_by := Some m, tk_status := TaskOpen, tk_updated_at := now\<rparr>)"
  by (simp add: task_wf_def waits_def live_def)

subsection \<open>Every operation of the engine keeps the contract\<close>

lemma new_task_wf: "task_wf (new_task i row adopted now)"
  by (auto simp: task_wf_def new_task_def waits_def live_def or_else_def split: option.splits)

lemma tends_deriveTask: "tends (deriveTask row adoptedBy)"
proof -
  have "tends (insert_task (new_task i row adopted now))" for i adopted now
  proof -
    have "tends (write_tasks (\<lambda>ts. ts @ [new_task i row adopted now]))"
      by (rule keeps_fromI, rule from_write_tasks) (simp add: tasks_ok_def new_task_wf)
    then show ?thesis unfolding insert_task_def by (intro tend_ops)
  qed
  then show ?thesis
    unfolding deriveTask_def Let_def by (auto split: option.splits intro!: tend_ops tends_engine_audit)
qed

lemma tends_conclusion: "tends (insert_and_queue owner c)"
proof (rule tends_frame)
  fix w r w'
  assume "insert_and_queue owner c w = (r, w')"
  then show "w_uuids w' = w_uuids w \<and> w_drawn w \<le> w_drawn w' \<and>
      t_task (w_pg w') = t_task (w_pg w) \<and> engine_scope (w_pg w) (w_pg w')"
    by (auto simp: insert_and_queue_def insert_conclusion_def withTransactionalEnqueue_def act_defs draw_uuid_def
        engine_scope_def ingestion_queued_def split: if_splits)
qed

lemma tends_emitConclusion: "tends (emitConclusion env current ty byFact)"
  unfolding emitConclusion_def Let_def
  by (auto split: option.splits intro!: tend_ops tends_engine_audit tends_conclusion)

lemma tends_settle: "tends (settle env i news)"
proof -
  have "tends (set_task i (\<lambda>t. t\<lparr>tk_status := TaskDone, tk_closed_by := Some (m_id news),
      tk_due_reminded_at := None, tk_dormant_reminded_at := None, tk_updated_at := now\<rparr>))" for now
    by (rule tends_set_task) (auto simp: task_wf_def waits_def live_def)
  then show ?thesis
    unfolding settle_def by (auto split: option.splits intro!: tend_ops tends_engine_audit tends_emitConclusion)
qed

lemma tends_unblock: "tends (unblock env i news)"
proof (rule keeps_fromI)
  fix w
  show "tends_from (unblock env i news) w"
  proof (cases "task_by_id i (w_pg w)")
    case None
    then show ?thesis by (simp add: unblock_def tsk.from_ret)
  next
    case (Some current)
    have "tends_from (set_task i (\<lambda>t. t\<lparr>tk_condition_met := True, tk_condition_met_by := Some (m_id news),
        tk_status := TaskOpen, tk_updated_at := now\<rparr>)) w" if "tk_status current = TaskBlocked" for now
    proof (cases "tasks_ok w")
      case True
      then show ?thesis
        using that Some by (intro from_set_task) (metis task_by_id_Some option.inject wf_unblocked)
    qed (simp add: keeps_from_def)
    then show ?thesis
      unfolding unblock_def
      by (auto simp: Some intro!: tsk.from_ret tsk.from_then keepsD [OF tends_engine_audit] keepsD [OF tends_emitConclusion])
  qed
qed

lemma tends_judgeFact: "tends (judgeFact env committed news)"
proof -
  have "tends (ask_verdict call verdicts input)" for call verdicts input
    unfolding ask_verdict_def by (auto split: option.splits intro!: tend_ops)
  then have "tends (judge_one env news acc candidate)" for acc candidate
    unfolding judge_one_def by (intro tend_ops tends_settle tends_unblock)
  then show ?thesis unfolding judgeFact_def by (intro tend_ops)
qed

lemma wf_maintained:
  assumes "task_wf t"
  shows "task_wf (repoint old h now t)" and "task_wf (converge old h now t)"
    and "task_wf (t\<lparr>tk_dormant := b, tk_updated_at := now\<rparr>)"
    and "task_wf (t\<lparr>tk_status := TaskDismissed, tk_due_reminded_at := None, tk_dormant_reminded_at := None, tk_updated_at := now\<rparr>)"
  using assms by (auto simp: task_wf_def waits_def live_def repoint_def converge_def)

lemma tends_maintain: "tends (maintain report owners)"
proof -
  have "tends (maintain_one report t)" for report t
    unfolding maintain_one_def
    by (auto split: option.splits intro!: tend_ops tends_engine_audit tends_set_task wf_maintained)
  moreover have "tends (sync_dormant flagged report t)" for flagged report t
    unfolding sync_dormant_def by (intro tend_ops tends_set_task wf_maintained)
  ultimately show ?thesis unfolding maintain_def by (intro tend_ops)
qed

lemma tends_derive_one: "tends (derive_one report row)"
  unfolding derive_one_def by (intro tend_ops tends_deriveTask)

lemma tends_processSource: "tends (processSource env st i)"
proof -
  have "tends (judge_row env d report row)" for d report row
    unfolding judge_row_def by (intro tend_ops tends_judgeFact)
  then show ?thesis
    unfolding processSource_def Let_def by (intro tend_ops tends_derive_one tends_maintain)
qed

lemma tends_backfill: "tends backfill"
  unfolding backfill_def by (intro tend_ops tends_derive_one tends_maintain)

lemma tends_adopt: "tends (adoptFromMemory prin i)"
proof -
  have "tends (deriveTask row (Some prin))" for row by (rule tends_deriveTask)
  then show ?thesis
    unfolding adoptFromMemory_def by (auto split: option.splits intro!: tend_ops)
qed

lemma tends_cleanup: "tends derivationCleanup"
proof -
  have "tends (write_tasks (delete_where P))" for P
    by (rule keeps_fromI, rule from_write_tasks) (auto simp: tasks_ok_def delete_where_def list_all_iff)
  then have "tends (cleanup_one d report t)" for d report t
    unfolding cleanup_one_def by (auto split: option.splits intro!: tend_ops tends_engine_audit)
  then show ?thesis unfolding derivationCleanup_def Let_def by (intro tend_ops)
qed

lemma tends_userOp:
  assumes "\<And>t now. task_wf t \<Longrightarrow> tk_status t \<noteq> tk_status (change t) \<Longrightarrow>
      task_wf ((change t)\<lparr>tk_due_reminded_at := None, tk_dormant_reminded_at := None, tk_updated_at := now\<rparr>)"
    and "\<And>t. tends (after t)"
  shows "tends (userOp prin i legal change after)"
proof -
  have "tends_from (bindA (reads w_clock) (\<lambda>now. let updated = (change t)\<lparr>tk_due_reminded_at := None, tk_dormant_reminded_at := None, tk_updated_at := now\<rparr>
      in thenA (set_task i (\<lambda>_. updated)) (thenA (writeAudit (e updated)) (thenA (after t) (ret updated))))) w"
    if "task_by_id i (w_pg w) = Some t" "tk_status t \<noteq> tk_status (change t)" for e t and w :: world
  proof (cases "tasks_ok w")
    case True
    then have "task_wf t" using that by (rule_tac found_wf)
    then show ?thesis
      unfolding keeps_from_reads Let_def using that assms
      by (intro tsk.from_then from_set_task keepsD [OF tends_writeAudit] keepsD [OF assms(2)] tsk.from_ret) simp
  qed (simp add: keeps_from_def)
  then show ?thesis
    unfolding userOp_def
    by (intro tsk.keeps_transaction keeps_fromI)
      (auto split: option.splits intro!: tsk.from_raise tsk.from_ret simp: Let_def)
qed

lemma tends_reopen: "tends (reopen prin i)"
  unfolding reopen_def by (rule tends_userOp) (auto simp: task_wf_def waits_def live_def intro: tend_ops)

lemma tends_dismiss: "tends (dismiss prin i)"
  unfolding dismiss_def
  by (intro tend_ops tends_userOp) (auto simp: task_wf_def waits_def live_def)

lemma tends_complete: "tends (complete env prin i)"
  unfolding complete_def
  by (intro tend_ops tends_userOp tends_emitConclusion) (auto simp: task_wf_def waits_def live_def)

subsection \<open>Reminders\<close>

lemma remind_idle: "\<not> (due_raised now t \<or> dormant_raised t \<or> dormant_cleared t) \<Longrightarrow> remind now t t = t"
  by (simp add: remind_def)

lemma remind_frame [simp]:
  "tk_id (remind now old t) = tk_id t" "tk_derived_from (remind now old t) = tk_derived_from t"
  "live (remind now old t) = live t" "tk_status (remind now old t) = tk_status t"
  "task_refs_ok d (remind now old t) = task_refs_ok d t"
  by (simp_all add: remind_def live_def task_refs_ok_def)

lemma wf_remind: "task_wf t \<Longrightarrow> live t \<Longrightarrow> task_wf (remind now t t)"
  by (auto simp: task_wf_def remind_def waits_def live_def)

definition reminded :: "time \<Rightarrow> task_row list \<Rightarrow> task_row list \<Rightarrow> task_row list" where
  "reminded now rows = map (\<lambda>t. if t \<in> set rows then remind now t t else t)"

definition reminder_count :: "time \<Rightarrow> task_row list \<Rightarrow> reminder_report" where
  "reminder_count now rows =
     \<lparr>rm_due = length (filter (due_raised now) rows), rm_dormant = length (filter dormant_raised rows),
      rm_cleared = length (filter dormant_cleared rows)\<rparr>"

lemma remind_one_step:
  assumes ok: "tasks_ok w" and t: "t \<in> set (t_task (w_pg w))" "live t"
  shows "\<exists>n w'. remind_one now acc t w = (Inr n, w') \<and> w' = update_pg (\<lambda>d. d\<lparr>t_task := reminded now [t] (t_task d)\<rparr>) w \<and>
     tasks_ok w' \<and> n = \<lparr>rm_due = rm_due acc + (if due_raised now t then 1 else 0),
       rm_dormant = rm_dormant acc + (if dormant_raised t then 1 else 0),
       rm_cleared = rm_cleared acc + (if dormant_cleared t then 1 else 0)\<rparr>"
proof -
  let ?ts = "t_task (w_pg w)" and ?w = "update_pg (\<lambda>d. d\<lparr>t_task := reminded now [t] (t_task d)\<rparr>) w"
  have ds: "distinct (map tk_id ?ts)" using ok by (simp add: tasks_ok_def)
  have upd: "update_where (\<lambda>u. tk_id u = tk_id t) (remind now t) ?ts = reminded now [t] ?ts"
    unfolding update_where_def reminded_def
    by (rule map_cong [OF refl]) (use ds t(1) in \<open>auto dest: distinct_key_eq\<close>)
  have keys: "map tk_id (reminded now [t] ts) = map tk_id ts" "map tk_derived_from (reminded now [t] ts) = map tk_derived_from ts" for ts
    by (simp_all add: reminded_def)
  have refs: "list_all (task_refs_ok (w_pg w)) (reminded now [t] ?ts)"
    using ok by (auto simp: tasks_ok_def list_all_iff reminded_def)
  have refs_w: "task_refs_ok (w_pg ?w) = task_refs_ok (w_pg w)"
    by (rule task_refs_cong) (simp add: memory_ids_def)
  have ok': "tasks_ok ?w"
    using ok t(2) refs unfolding tasks_ok_def refs_w
    by (simp add: keys) (auto simp: list_all_iff reminded_def wf_remind)
  have written: "set_task (tk_id t) (remind now t) w = (Inr (), ?w)"
    using ok refs by (simp add: set_task_def write_tasks_def upd keys tasks_ok_def)
  have idle: "?w = w" if "remind now t t = t"
  proof -
    have "reminded now [t] ?ts = ?ts" using that by (auto simp: reminded_def intro: map_idI)
    then show ?thesis by (simp add: update_pg_def)
  qed
  have "when_do (due_raised now t \<or> dormant_raised t \<or> dormant_cleared t) (set_task (tk_id t) (remind now t)) w = (Inr (), ?w)"
  proof (cases "due_raised now t \<or> dormant_raised t \<or> dormant_cleared t")
    case False
    then show ?thesis using idle [OF remind_idle [OF False]] by (simp only: when_do_def ret_def if_False)
  qed (simp only: when_do_def written if_True)
  then show ?thesis using ok' by (simp only: remind_one_def thenA_def bindA_def ret_def) simp
qed

lemma reminded_split:
  assumes "distinct (map tk_id ts)" and "t \<in> set ts" and "set rows \<subseteq> set ts" and "t \<notin> set rows"
  shows "reminded now rows (reminded now [t] ts) = reminded now (t # rows) ts"
proof -
  have "remind now t t \<notin> set rows"
  proof
    assume r: "remind now t t \<in> set rows"
    then have "remind now t t = t" using assms(1-3) distinct_key_eq [of tk_id ts "remind now t t" t] by auto
    with r assms(4) show False by simp
  qed
  then show ?thesis by (auto simp: reminded_def)
qed

lemma remind_fold:
  assumes "tasks_ok w" and "distinct rows" and "set rows \<subseteq> set (t_task (w_pg w))" and "list_all live rows"
  shows "\<exists>n. fold_each (remind_one now) rows acc w =
      (Inr n, update_pg (\<lambda>d. d\<lparr>t_task := reminded now rows (t_task d)\<rparr>) w) \<and>
    n = \<lparr>rm_due = rm_due acc + rm_due (reminder_count now rows), rm_dormant = rm_dormant acc + rm_dormant (reminder_count now rows),
      rm_cleared = rm_cleared acc + rm_cleared (reminder_count now rows)\<rparr> \<and>
    tasks_ok (update_pg (\<lambda>d. d\<lparr>t_task := reminded now rows (t_task d)\<rparr>) w)"
  using assms
proof (induction rows arbitrary: w acc)
  case Nil
  have "reminded now [] (t_task (w_pg w)) = t_task (w_pg w)" by (simp add: reminded_def)
  then show ?case using Nil(1) by (simp add: ret_def update_pg_def reminder_count_def)
next
  case (Cons t rows)
  let ?w = "update_pg (\<lambda>d. d\<lparr>t_task := reminded now [t] (t_task d)\<rparr>) w"
  have ds: "distinct (map tk_id (t_task (w_pg w)))" using Cons.prems(1) by (simp add: tasks_ok_def)
  obtain n where step: "remind_one now acc t w = (Inr n, ?w)" "tasks_ok ?w"
    and n: "n = \<lparr>rm_due = rm_due acc + (if due_raised now t then 1 else 0),
       rm_dormant = rm_dormant acc + (if dormant_raised t then 1 else 0),
       rm_cleared = rm_cleared acc + (if dormant_cleared t then 1 else 0)\<rparr>"
    using remind_one_step [of w t now acc] Cons.prems by auto
  have "set rows \<subseteq> set (t_task (w_pg ?w))"
    using Cons.prems by (force simp: reminded_def)
  then obtain m where m: "fold_each (remind_one now) rows n ?w =
      (Inr m, update_pg (\<lambda>d. d\<lparr>t_task := reminded now rows (t_task d)\<rparr>) ?w)"
      "tasks_ok (update_pg (\<lambda>d. d\<lparr>t_task := reminded now rows (t_task d)\<rparr>) ?w)"
    "m = \<lparr>rm_due = rm_due n + rm_due (reminder_count now rows), rm_dormant = rm_dormant n + rm_dormant (reminder_count now rows),
      rm_cleared = rm_cleared n + rm_cleared (reminder_count now rows)\<rparr>"
    using Cons.IH [OF step(2), of n] Cons.prems by auto
  have "update_pg (\<lambda>d. d\<lparr>t_task := reminded now rows (t_task d)\<rparr>) ?w =
      update_pg (\<lambda>d. d\<lparr>t_task := reminded now (t # rows) (t_task d)\<rparr>) w"
    using reminded_split [OF ds, of t rows now] Cons.prems by (simp add: update_pg_def)
  with step m n show ?case by (simp add: bindA_def reminder_count_def)
qed

text \<open>The reminders pass, row by row.\<close>

lemma runReminders_Inr:
  assumes ok: "tasks_ok w" and run: "runReminders w = (Inr n, w')"
  shows "t_task (w_pg w') = map (\<lambda>t. if live t then remind (w_clock w) t t else t) (t_task (w_pg w)) \<and>
    n = reminder_count (w_clock w) (filter live (t_task (w_pg w))) \<and>
    w_pg w' = (w_pg w)\<lparr>t_task := t_task (w_pg w')\<rparr> \<and> w_clock w' = w_clock w \<and> tasks_ok w'"
proof -
  let ?now = "w_clock w" and ?rows = "filter live (t_task (w_pg w))"
  have rows: "distinct ?rows" "set ?rows \<subseteq> set (t_task (w_pg w))" "list_all live ?rows"
    using ok by (auto simp: tasks_ok_def distinct_map list_all_iff)
  obtain m where fold: "fold_each (remind_one ?now) ?rows \<lparr>rm_due = 0, rm_dormant = 0, rm_cleared = 0\<rparr> w =
      (Inr m, update_pg (\<lambda>d. d\<lparr>t_task := reminded ?now ?rows (t_task d)\<rparr>) w)"
      "m = reminder_count ?now ?rows" "tasks_ok (update_pg (\<lambda>d. d\<lparr>t_task := reminded ?now ?rows (t_task d)\<rparr>) w)"
    using remind_fold [OF ok rows, of ?now "\<lparr>rm_due = 0, rm_dormant = 0, rm_cleared = 0\<rparr>"] by (auto simp: reminder_count_def)
  have all: "reminded ?now ?rows (t_task (w_pg w)) = map (\<lambda>t. if live t then remind ?now t t else t) (t_task (w_pg w))"
    by (simp add: reminded_def)
  show ?thesis
    using run fold all
    by (auto simp: runReminders_def transaction_def tasks_ok_def split: fault.splits)
qed

end
