(* ===== verification/Task_Safety.thy ===== *)
theory Task_Safety
  imports Task_Laws
begin

text \<open>
  Histories of the task table under the engine, its jobs, the users and the deletion saga, and
  the properties of the module.
\<close>

subsection \<open>Erasures keep the table well formed\<close>

interpretation era: pg_evolution tasks_ok ids_forward
  by unfold_locales (auto simp: tasks_ok_def ids_forward_def outside_pg_def)

abbreviation spares :: "'a op \<Rightarrow> bool" where
  "spares m \<equiv> keeps tasks_ok ids_forward m"

lemma spares_tends: "tends m \<Longrightarrow> spares m"
  by (auto simp: keeps_def keeps_from_def wp_def engine_move_def split: prod.splits)

lemma spares_frame:
  assumes "\<And>w r w'. m w = (r, w') \<Longrightarrow> w_uuids w' = w_uuids w \<and> w_drawn w \<le> w_drawn w' \<and>
      t_task (w_pg w') = t_task (w_pg w) \<and> memory_ids (w_pg w') = memory_ids (w_pg w)"
  shows "spares m"
proof (rule keeps_fromI)
  fix w
  show "keeps_from tasks_ok ids_forward m w"
    using assms [of w] tasks_ok_same [of w] by (cases "m w") (simp add: keeps_from_def wp_def ids_forward_def)
qed

lemma spares_update:
  "(\<And>d. t_task (f d) = t_task d \<and> t_memory (f d) = t_memory d) \<Longrightarrow> spares (updates (update_pg f))"
  by (rule spares_frame) (auto simp: updates_def memory_ids_def)

lemma spares_write_memory:
  assumes "\<And>rows. map m_id (f rows) = map m_id rows"
  shows "spares (write_memory f)"
proof (rule spares_frame)
  fix w r w'
  assume "write_memory f w = (r, w')"
  then show "w_uuids w' = w_uuids w \<and> w_drawn w \<le> w_drawn w' \<and>
      t_task (w_pg w') = t_task (w_pg w) \<and> memory_ids (w_pg w') = memory_ids (w_pg w)"
    using arg_cong [OF assms [of "t_memory (w_pg w)"], of set] unfolding memory_ids_def set_map [symmetric]
    by (clarsimp simp: write_memory_def Let_def simp del: set_map split: if_splits)
qed

lemma spares_update_memory: "(\<And>q. m_id (f q) = m_id q) \<Longrightarrow> spares (update_memory i f)"
  unfolding update_memory_def by (rule spares_write_memory) (rule map_update_where_key)

lemma spares_enqueue: "spares (withTransactionalEnqueue ev j p)"
  unfolding withTransactionalEnqueue_def by (rule spares_update) simp

lemmas spare_ops = era.control era.outside_ops era.keeps_transaction spares_enqueue
  spares_tends [OF tends_writeAudit] spares_tends [OF tends_consume]

lemma spares_lift: "spares (liftContradictionsBeforeDeletion ids org)"
proof -
  have "spares (restoreFromContradiction row prior act actor org)" for row prior act actor org
    unfolding restoreFromContradiction_def by (intro spare_ops spares_update_memory) simp_all
  moreover have "spares (updates (update_pg (\<lambda>d. d\<lparr>t_relation := f (t_relation d)\<rparr>)))" for f
    by (rule spares_update) simp
  ultimately have "spares (lift_one ids org n q)" for n q
    unfolding lift_one_def Let_def select_memory_def
    by (auto split: option.splits prod.splits intro!: spare_ops)
  then show ?thesis unfolding liftContradictionsBeforeDeletion_def by (intro spare_ops)
qed

lemma chat_cascade_task: "t_task (snd (chat_cascade ids d)) = t_task d"
proof (induction ids d rule: chat_cascade.induct)
  case (1 ids d)
  then show ?case
    by (subst chat_cascade.simps) (auto simp: redact_answers_def Let_def split: prod.splits)
qed

lemma tasks_ok_fewer:
  fixes w :: world
  assumes "tasks_ok w" and "t_task (w_pg w') = delete_where P (t_task (w_pg w))"
    and "memory_ids (w_pg w') = memory_ids (w_pg w)"
  shows "tasks_ok w'"
  using assms task_refs_cong [OF assms(3)]
  by (auto simp: tasks_ok_def delete_where_def list_all_iff intro!: distinct_map_filter)

lemma spares_cascade:
  assumes "c \<in> set DERIVED_CASCADES"
  shows "spares (run_cascade st i ids totals c)"
proof -
  have mem: "spares (\<lambda>w. let (n, d) = dc_memories c ids (w_pg w) in (Inr n, update_pg (\<lambda>_. d) w))"
  proof (rule keeps_fromI)
    fix w :: world
    let ?d = "snd (dc_memories c ids (w_pg w))"
    have "memory_ids ?d = memory_ids (w_pg w)"
      using cascade_elsewhere(1) [OF assms] by (simp add: memory_ids_def)
    moreover have "t_task ?d = t_task (w_pg w) \<or> (\<exists>P. t_task ?d = delete_where P (t_task (w_pg w)))"
      using assms chat_cascade_task
      by (auto simp: DERIVED_CASCADES_def TasksCascade_def ChatAnswerCascade_def ReplyDraftCascade_def tasks_cascade_def Let_def)
        blast
    ultimately have "tasks_ok (update_pg (\<lambda>_. ?d) w)" if "tasks_ok w"
      using that tasks_ok_same [of w "update_pg (\<lambda>_. ?d) w"] tasks_ok_fewer [of w "update_pg (\<lambda>_. ?d) w"] by auto
    then show "keeps_from tasks_ok ids_forward (\<lambda>w. let (n, d) = dc_memories c ids (w_pg w) in (Inr n, update_pg (\<lambda>_. d) w)) w"
      by (auto simp: keeps_from_def wp_def Let_def ids_forward_def split: prod.splits)
  qed
  have src: "spares (\<lambda>w. let (n, d) = f s i (w_pg w) in (Inr n, update_pg (\<lambda>_. d) w))" if "dc_source c = Some f" for f s
    by (rule spares_frame)
      (use assms that in \<open>auto simp: DERIVED_CASCADES_def TasksCascade_def ChatAnswerCascade_def ReplyDraftCascade_def
        reply_draft_cascade_def memory_ids_def Let_def split: if_splits prod.splits\<close>)
  show ?thesis
    unfolding run_cascade_def Let_def
    by (rule era.keeps_bind [OF mem [unfolded Let_def]])
      (auto split: option.splits intro!: era.control src [unfolded Let_def])
qed

text \<open>The foreign keys: deleted memories take their tasks along and are forgotten by the others.\<close>

lemma wf_forget: "task_wf t \<Longrightarrow> task_wf (forget_in_task ids t)"
  by (auto simp: task_wf_def forget_in_task_def waits_def live_def without_def)

lemma refs_forget:
  "memory_ids d' = memory_ids d - set ids \<Longrightarrow> task_refs_ok d t \<Longrightarrow> tk_derived_from t \<notin> set ids \<Longrightarrow>
     task_refs_ok d' (forget_in_task ids t)"
  by (auto simp: task_refs_ok_def forget_in_task_def without_def split: option.splits)

lemma spares_delete_memories: "spares (delete_memories ids)"
proof (rule keeps_fromI)
  fix w :: world
  let ?gone = "delete_where (\<lambda>r. m_id r \<in> set ids) (t_memory (w_pg w))"
  have "tasks_ok (update_pg (cascade_relations ids) (update_pg (\<lambda>d. d\<lparr>t_memory := ?gone\<rparr>) w))" (is "tasks_ok ?w")
    if ok: "tasks_ok w"
  proof -
    have ids: "memory_ids (w_pg ?w) = memory_ids (w_pg w) - set ids"
      by (auto simp: memory_ids_def delete_where_def)
    have tasks: "t_task (w_pg ?w) = map (forget_in_task ids) (delete_where (\<lambda>t. tk_derived_from t \<in> set ids) (t_task (w_pg w)))"
      by simp
    have keys: "map tk_id (map (forget_in_task ids) ts) = map tk_id ts"
      "map tk_derived_from (map (forget_in_task ids) ts) = map tk_derived_from ts" for ts
      by (simp_all add: forget_in_task_def)
    have "list_all (task_refs_ok (w_pg ?w)) (t_task (w_pg ?w))"
      using ok refs_forget [OF ids] unfolding tasks by (auto simp: tasks_ok_def list_all_iff delete_where_def)
    moreover have "list_all task_wf (t_task (w_pg ?w))"
      using ok unfolding tasks by (auto simp: tasks_ok_def list_all_iff delete_where_def intro: wf_forget)
    moreover have "distinct (map tk_id (t_task (w_pg ?w)))" "distinct (map tk_derived_from (t_task (w_pg ?w)))"
      using ok unfolding tasks keys by (simp_all add: tasks_ok_def delete_where_def distinct_map_filter)
    ultimately show ?thesis by (simp only: tasks_ok_def simp_thms)
  qed
  then show "keeps_from tasks_ok ids_forward (delete_memories ids) w"
    by (auto simp: keeps_from_def wp_def delete_memories_def thenA_def bindA_def write_memory_def Let_def updates_def
        ids_forward_def)
qed

lemma spares_delete_rows: "spares (delete_rows ids)"
proof -
  let ?hit = "\<lambda>r. (case m_superseded_by r of None \<Rightarrow> False | Some s \<Rightarrow> s \<in> set ids) \<and> m_id r \<notin> set ids"
  have step: "spares (bindA (reads (\<lambda>v. map m_id (filter ?hit (t_memory (w_pg v))))) (\<lambda>nulled. thenA (write_memory (update_where ?hit
      (\<lambda>r. r\<lparr>m_superseded_by := None, m_updated_at := now\<rparr>))) (ret nulled)))" for now
    by (intro era.control spares_write_memory map_update_where_key) simp
  have "spares (null_pointers ids)"
  proof (rule keeps_fromI)
    fix w :: world
    show "keeps_from tasks_ok ids_forward (null_pointers ids) w"
      using keepsD [OF step [of "w_clock w"], of w] by (simp only: keeps_from_def wp_def null_pointers_def Let_def)
  qed
  then show ?thesis unfolding delete_rows_def by (intro era.control spares_delete_memories)
qed

lemma spares_delete_file_row: "spares (delete_file_row key)"
  unfolding delete_file_row_def by (rule spares_update) simp

lemma spares_remove_source: "bound_adapter r \<Longrightarrow> spares (remove_source st i r keys)"
proof -
  assume r: "bound_adapter r"
  have "spares (updates (update_pg (port_delete a i)))" if "rs_adapter r = Some a" for a
    using r that
    by (intro spares_update) (auto simp: bound_adapter_def SOURCE_DELETIONS_def NotesSourceDeletion_def ChatSourceDeletion_def
        EmailSourceDeletion_def TaskConclusionSourceDeletion_def WebSourceDeletion_def row_delete_def chat_delete_def)
  then show ?thesis
    unfolding remove_source_def Let_def by (auto split: option.splits intro!: era.control spares_delete_file_row)
qed

lemma spares_finish: "spares (finish_request prin st i counts n ing)"
proof -
  have "spares (\<lambda>w. if j \<in> r_id ` set (t_receipt (w_pg w)) then (Inl UniqueViolation, w)
      else (Inr j, update_pg (\<lambda>d. d\<lparr>t_receipt := t_receipt d @ [q]\<rparr>) w))" for j q
    by (rule spares_frame) (auto simp: memory_ids_def split: if_splits)
  then show ?thesis unfolding finish_request_def insert_receipt_def by (intro spare_ops)
qed

lemma spares_pending: "spares (cancelPending in_flight st i b)"
  unfolding cancelPending_def Let_def by (intro spare_ops)

lemma spares_file: "spares (cascadeFileSubSource in_flight prin acc key)"
  unfolding cascadeFileSubSource_def
  by (auto split: option.splits intro!: era.control spares_pending spares_delete_file_row)

interpretation era: erasure_contract tasks_ok ids_forward
  by unfold_locales (rule spares_lift spares_cascade spares_delete_rows spares_remove_source spares_finish
    spares_pending spares_file; assumption?)+

subsection \<open>Histories\<close>

text \<open>
  What the engine itself does: deliveries of its job, the recurring passes, adoption and the
  three user operations.
\<close>

inductive engine_step :: "(err \<Rightarrow> string) \<Rightarrow> engine_env \<Rightarrow> world \<Rightarrow> world \<Rightarrow> bool"
  for describe :: "err \<Rightarrow> string" and env :: engine_env where
  deliver: "idempotentTask describe TASK_DERIVE_JOB_TYPE (tasks_handler env) p attempts maxAttempts w = (r, w') \<Longrightarrow>
    engine_step describe env w w'"
| backfill: "backfill_job held w = (b, w') \<Longrightarrow> engine_step describe env w w'"
| reminders: "reminders_job held w = (n, w') \<Longrightarrow> engine_step describe env w w'"
| cleanup: "cleanup_job held w = (c, w') \<Longrightarrow> engine_step describe env w w'"
| adopt: "adoptFromMemory prin i w = (t, w') \<Longrightarrow> engine_step describe env w w'"
| user_reopens: "reopen prin i w = (t, w') \<Longrightarrow> engine_step describe env w w'"
| user_dismisses: "dismiss prin i w = (t, w') \<Longrightarrow> engine_step describe env w w'"
| user_completes: "complete env prin i w = (t, w') \<Longrightarrow> engine_step describe env w w'"

text \<open>Around it: erasures, and whatever leaves the tasks alone and deletes no memory.\<close>

inductive task_step :: "(err \<Rightarrow> string) \<Rightarrow> engine_env \<Rightarrow> world \<Rightarrow> world \<Rightarrow> bool"
  for describe :: "err \<Rightarrow> string" and env :: engine_env where
  engine: "engine_step describe env w w' \<Longrightarrow> task_step describe env w w'"
| erase: "requestSourceDeletion in_flight prin raw i w = (u, w') \<Longrightarrow> task_step describe env w w'"
| elsewhere: "t_task (w_pg w') = t_task (w_pg w) \<Longrightarrow> memory_ids (w_pg w) \<subseteq> memory_ids (w_pg w') \<Longrightarrow>
    task_step describe env w w'"

lemma tends_reminders: "tends runReminders"
proof (rule keeps_fromI)
  fix w :: world
  obtain r w' where run: "runReminders w = (r, w')" by fastforce
  have "tasks_ok w \<longrightarrow> tasks_ok w' \<and> engine_move w w'"
  proof
    assume ok: "tasks_ok w"
    have rows: "distinct (filter live (t_task (w_pg w)))" "set (filter live (t_task (w_pg w))) \<subseteq> set (t_task (w_pg w))"
        "list_all live (filter live (t_task (w_pg w)))"
      using ok by (auto simp: tasks_ok_def distinct_map list_all_iff)
    from remind_fold [OF ok rows, of "w_clock w" "\<lparr>rm_due = 0, rm_dormant = 0, rm_cleared = 0\<rparr>"] ok run
    show "tasks_ok w' \<and> engine_move w w'"
      by (auto simp: runReminders_def transaction_def tasks_ok_def engine_move_def ids_forward_def engine_scope_def
          split: fault.splits)
  qed
  then show "tends_from runReminders w" using run by (simp add: keeps_from_def wp_def)
qed

lemma tends_single_flight: "tends m \<Longrightarrow> tends (runSingleFlight held name m)"
proof (rule keeps_fromI)
  fix w :: world
  assume m: "tends m"
  have body: "tends (if held name then ret None else bindA m (\<lambda>result. ret (Some result)))"
    by (intro tend_ops m)
  obtain r v where run: "(if held name then ret None else bindA m (\<lambda>result. ret (Some result))) w = (r, v)" by fastforce
  have "tasks_ok v \<Longrightarrow> tasks_ok (pop_fault v) \<and> engine_move v (pop_fault v)"
    by (rule tsk.outside) (simp_all add: outside_pg_def)
  then show "tends_from (runSingleFlight held name m) w"
    using keeps_run [OF body _ run] run tsk.move_trans [of w v "pop_fault v"]
    by (auto simp: keeps_from_def wp_def runSingleFlight_def lock_transaction_def split: sum.splits)
qed

lemma tends_tasks_job:
  "tends (idempotentTask describe jobType (tasks_handler env) p attempts maxAttempts)"
proof (rule tsk.keeps_delivery)
  show "tends (tasks_handler env q)" for q
    unfolding tasks_handler_def by (auto split: option.splits intro!: tend_ops tends_processSource)
qed (auto simp: tasks_handler_def ret_def raise_def elim!: thenA_InrE split: option.splits)

lemma engine_step_keeps:
  assumes "engine_step describe env w w'" and "tasks_ok w"
  shows "tasks_ok w' \<and> engine_move w w'"
  using assms(1)
proof cases
  case (deliver p attempts maxAttempts r)
  then show ?thesis using keeps_run [OF tends_tasks_job assms(2)] by blast
next
  case (backfill held b)
  then show ?thesis
    using keeps_run [OF tends_single_flight [OF tends_backfill] assms(2)] by (simp add: backfill_job_def)
next
  case (reminders held n)
  then show ?thesis
    using keeps_run [OF tends_single_flight [OF tends_reminders] assms(2)] by (simp add: reminders_job_def)
next
  case (cleanup held c)
  then show ?thesis
    using keeps_run [OF tends_single_flight [OF tends_cleanup] assms(2)] by (simp add: cleanup_job_def)
next
  case (adopt prin i t)
  then show ?thesis using keeps_run [OF tends_adopt assms(2)] by blast
next
  case (user_reopens prin i t)
  then show ?thesis using keeps_run [OF tends_reopen assms(2)] by blast
next
  case (user_dismisses prin i t)
  then show ?thesis using keeps_run [OF tends_dismiss assms(2)] by blast
next
  case (user_completes prin i t)
  then show ?thesis using keeps_run [OF tends_complete assms(2)] by blast
qed

lemma task_step_keeps:
  assumes "task_step describe env w w'" and "tasks_ok w"
  shows "tasks_ok w'"
  using assms(1)
proof cases
  case engine
  then show ?thesis using engine_step_keeps assms(2) by blast
next
  case (erase in_flight prin raw i u)
  then show ?thesis using keeps_run [OF era.keeps_requestSourceDeletion assms(2)] by blast
next
  case elsewhere
  have "task_refs_ok (w_pg w) t \<Longrightarrow> task_refs_ok (w_pg w') t" for t
    using elsewhere(2) by (auto simp: task_refs_ok_def split: option.splits)
  then show ?thesis using assms(2) elsewhere(1) by (auto simp: tasks_ok_def list_all_iff)
qed

text \<open>
  C27. Starting from no tasks, after any history of task jobs, recurring passes, adoptions,
  user operations and source deletions, ids are unique, every memory carries at most one task,
  every task and every memory it names exist, a task is blocked exactly while it waits for an
  unmet condition, and a settled one carries no reminder.
\<close>

theorem task_table_sound:
  assumes "(task_step describe env)\<^sup>*\<^sup>* w w'" and "t_task (w_pg w) = []"
  shows "tasks_ok w'"
  using assms
proof (induction rule: rtranclp_induct)
  case base
  then show ?case by (simp add: tasks_ok_def)
next
  case (step v w')
  then show ?case using task_step_keeps by blast
qed

text \<open>
  C28. No history of the tasks module changes a memory, relation, chat, file, receipt or
  approval; the audit log only grows, and every source it adds is a conclusion whose ingestion
  was queued with it.
\<close>

theorem engine_confined:
  assumes "(engine_step describe env)\<^sup>*\<^sup>* w w'" and "tasks_ok w"
  shows "engine_scope (w_pg w) (w_pg w')"
proof -
  have "tasks_ok w' \<and> engine_move w w'"
    using assms
  proof (induction rule: rtranclp_induct)
    case (step v w')
    then show ?case using engine_step_keeps [of describe env v w'] tsk.move_trans [of w v w'] by blast
  qed (simp add: tsk.move_refl)
  then show ?thesis by (simp add: engine_move_def)
qed

text \<open>
  C29. A listed task has one of the requested statuses and belongs to the caller, or is shared
  and derives from a memory the caller may read.
\<close>

theorem task_list_gated:
  assumes "t \<in> set (listForPrincipal prin filters d)"
  shows "t \<in> set (t_task d) \<and> tk_status t \<in> set (wanted_statuses filters) \<and>
    (tk_owner t = p_user_id prin \<or>
     (tk_scope t = Shared \<and> (\<exists>m \<in> set (t_memory d). m_id m = tk_derived_from t \<and> visibleTo prin True m)))"
proof -
  have by_due: "set (by_due rows) = set rows" for rows
    by (auto simp: by_due_def nulls_last_asc_def)
  have "t \<in> set (gateForeignTasks prin d (task_candidates prin (wanted_statuses filters) d))"
    using assms by (auto simp: listForPrincipal_def Let_def split: option.splits if_splits)
  then have "t \<in> set (task_candidates prin (wanted_statuses filters) d)"
    and gate: "tk_owner t = p_user_id prin \<or> (\<exists>m \<in> set (t_memory d). m_id m = tk_derived_from t \<and> visibleTo prin True m)"
    by (auto simp: gateForeignTasks_def getManyForPrincipal_def Let_def filter_empty_conv split: if_splits)
  then show ?thesis
    unfolding task_candidates_def by (auto dest!: in_set_takeD simp: by_due)
qed

text \<open>
  A reminders pass stamps exactly the open tasks that are due within the horizon or
  dormant and not yet reminded of, counts them, and a second pass at the same time raises and
  changes nothing.
\<close>

theorem reminders_once:
  assumes "tasks_ok w" and "runReminders w = (Inr a, w1)" and "runReminders w1 = (Inr b, w2)"
  shows "t_task (w_pg w1) = map (\<lambda>t. if live t then remind (w_clock w) t t else t) (t_task (w_pg w)) \<and>
    a = reminder_count (w_clock w) (filter live (t_task (w_pg w))) \<and>
    b = \<lparr>rm_due = 0, rm_dormant = 0, rm_cleared = 0\<rparr> \<and> w_pg w2 = w_pg w1"
proof -
  let ?f = "\<lambda>t. if live t then remind (w_clock w) t t else t" and ?ts = "t_task (w_pg w)"
  note one = runReminders_Inr [OF assms(1,2)]
  then have two: "t_task (w_pg w2) = map (\<lambda>t. if live t then remind (w_clock w) t t else t) (map ?f ?ts)"
      "b = reminder_count (w_clock w) (filter live (map ?f ?ts))" "w_pg w2 = (w_pg w1)\<lparr>t_task := t_task (w_pg w2)\<rparr>"
    using runReminders_Inr [OF _ assms(3)] by auto
  have idle: "\<not> due_raised (w_clock w) (remind (w_clock w) t t)" "\<not> dormant_raised (remind (w_clock w) t t)"
      "\<not> dormant_cleared (remind (w_clock w) t t)" for t
    by (auto simp: due_raised_def dormant_raised_def dormant_cleared_def remind_def)
  have "map (\<lambda>t. if live t then remind (w_clock w) t t else t) (map ?f ?ts) = map ?f ?ts"
    using idle by (auto simp: remind_idle)
  moreover have "filter (due_raised (w_clock w)) (filter live (map ?f ?ts)) = []"
      "filter dormant_raised (filter live (map ?f ?ts)) = []" "filter dormant_cleared (filter live (map ?f ?ts)) = []"
    using idle by (auto simp: filter_empty_conv split: if_splits)
  ultimately show ?thesis using one two by (simp add: reminder_count_def)
qed

subsection \<open>What the reads do not promise\<close>

text \<open>
  The cap of the candidate read counts shared tasks of everybody, before the gate: two hundred
  shared tasks of another organisation empty the caller's own list.
\<close>

lemma foreign_tasks_crowd_out:
  assumes "length foreign = 200" and "\<forall>u \<in> set foreign. tk_owner u \<noteq> p_user_id prin \<and> tk_scope u = Shared \<and>
      tk_status u = TaskOpen \<and> tk_due u = Some 0"
    and "tk_due t = None" and "t_task d = t # foreign" and "t_memory d = []"
  shows "listForPrincipal prin \<lparr>tf_statuses = None, tf_entity = None, tf_settled = False\<rparr> d = []"
proof -
  let ?p = "\<lambda>t. (tk_owner t = p_user_id prin \<or> tk_scope t = Shared) \<and> tk_status t \<in> set [TaskOpen, TaskBlocked]"
  let ?rows = "filter ?p (t # foreign)" and ?k = "\<lambda>t. - tk_updated_at t"
  have all: "filter ?p foreign = foreign" using assms(2) by (simp add: filter_id_conv)
  have "filter (\<lambda>u. tk_due u \<noteq> None) (sort_key ?k ?rows) = sort_key ?k (filter (\<lambda>u. tk_due u \<noteq> None) ?rows)"
    by (simp add: filter_sort)
  also have "filter (\<lambda>u. tk_due u \<noteq> None) ?rows = foreign"
    using assms(2,3) all by (simp add: filter_id_conv)
  finally have dated: "filter (\<lambda>u. tk_due u \<noteq> None) (sort_key ?k ?rows) = sort_key ?k foreign" .
  have len: "length (sort_key (\<lambda>x. the (tk_due x)) (sort_key ?k foreign)) = 200" using assms(1) by simp
  have "task_candidates prin [TaskOpen, TaskBlocked] d = sort_key (\<lambda>x. the (tk_due x)) (sort_key ?k foreign)"
    unfolding task_candidates_def assms(4) by_due_def nulls_last_asc_def dated using len
    by (simp add: OPEN_TASK_POOL_def)
  moreover from this have "\<forall>u \<in> set (task_candidates prin [TaskOpen, TaskBlocked] d). tk_owner u \<noteq> p_user_id prin"
    using assms(2) by simp
  ultimately have "gateForeignTasks prin d (task_candidates prin [TaskOpen, TaskBlocked] d) = []"
    using assms(5) by (auto simp: gateForeignTasks_def getManyForPrincipal_def Let_def filter_empty_conv)
  then show ?thesis by (simp add: listForPrincipal_def wanted_statuses_def or_else_def)
qed

text \<open>A task whose due date passed eleven hours ago still reads as due today.\<close>

lemma overdue_reads_due_today:
  "dl_text (dueLine due (due + 11 * 3600 * 1000) False t) = ''Due today: '' @ label t"
  by (simp add: dueLine_def round_div_def MS_DAY_def Let_def task_line_def)

subsection \<open>Instances\<close>

definition demo_task :: "nat \<Rightarrow> nat \<Rightarrow> task_status \<Rightarrow> time option \<Rightarrow> task_row" where
  "demo_task n m st due =
     \<lparr>tk_id = ''t'' @ replicate n (CHR ''i''), tk_owner = ''ann'', tk_scope = Private, tk_derived_from = sample_id m,
      tk_title = ''call Bob'', tk_primary_person = Some ''Bob'', tk_entities = [''Bob''], tk_condition = None,
      tk_condition_met = False, tk_condition_met_by = None, tk_due = due, tk_status = st, tk_closed_by = None,
      tk_dormant = False, tk_from_uncertain = False, tk_adopted = False, tk_due_reminded_at = None,
      tk_dormant_reminded_at = None, tk_created_at = 10, tk_updated_at = 10\<rparr>"

definition demo_tasks :: world where
  "demo_tasks = update_pg (\<lambda>d. d\<lparr>t_task := [demo_task 0 4 TaskOpen (Some 50), demo_task 1 1 TaskDismissed None]\<rparr>) sample_world"

lemma demo_tasks_ok: "tasks_ok demo_tasks"
  by (simp add: tasks_ok_def demo_tasks_def demo_task_def task_wf_def waits_def live_def or_else_def task_refs_ok_def
      sample_world_def sample_pg_def sample_rows_def memory_ids_def)

text \<open>
  Maintenance dismisses an open task when the head of its chain carries a task of its own,
  whatever the state of that one: here it was dismissed, and no open task is left.
\<close>

lemma obligation_vanishes:
  "map tk_status (t_task (w_pg demo_tasks)) = [TaskOpen, TaskDismissed] \<and>
   map tk_status (t_task (w_pg (snd (maintain emptyReport [''ann''] demo_tasks)))) = [TaskDismissed, TaskDismissed]"
  by code_simp

definition demo_env :: engine_env where
  "demo_env = \<lparr>en_locale = (\<lambda>_. English), en_closure = (\<lambda>_. None), en_condition = (\<lambda>_. None)\<rparr>"

theorem task_table_sound_witness:
  "tasks_ok (snd (adoptFromMemory sample_principal (sample_id 0) sample_world)) \<and>
   map tk_derived_from (t_task (w_pg (snd (adoptFromMemory sample_principal (sample_id 0) sample_world)))) = [sample_id 0]"
proof
  let ?w = "snd (adoptFromMemory sample_principal (sample_id 0) sample_world)"
  have "engine_step (\<lambda>_. []) demo_env sample_world ?w"
    by (rule engine_step.adopt [of sample_principal "sample_id 0" _ "fst (adoptFromMemory sample_principal (sample_id 0) sample_world)"]) simp
  then have "(task_step (\<lambda>_. []) demo_env)\<^sup>*\<^sup>* sample_world ?w" by (intro r_into_rtranclp task_step.engine)
  then show "tasks_ok ?w" by (rule task_table_sound) (simp add: sample_world_def sample_pg_def)
  show "map tk_derived_from (t_task (w_pg ?w)) = [sample_id 0]" by code_simp
qed

theorem engine_confined_witness:
  "engine_scope (w_pg demo_tasks) (w_pg (snd (complete demo_env sample_principal ''t'' demo_tasks))) \<and>
   map tk_status (t_task (w_pg (snd (complete demo_env sample_principal ''t'' demo_tasks)))) = [TaskDone, TaskDismissed]"
proof
  let ?w = "snd (complete demo_env sample_principal ''t'' demo_tasks)"
  have "engine_step (\<lambda>_. []) demo_env demo_tasks ?w"
    by (rule engine_step.user_completes [of _ sample_principal "''t''" _ "fst (complete demo_env sample_principal ''t'' demo_tasks)"]) simp
  then show "engine_scope (w_pg demo_tasks) (w_pg ?w)"
    by (intro engine_confined [of "\<lambda>_. []" demo_env] r_into_rtranclp demo_tasks_ok)
  show "map tk_status (t_task (w_pg ?w)) = [TaskDone, TaskDismissed]" by code_simp
qed

theorem task_list_gated_witness:
  "tk_owner (demo_task 0 4 TaskOpen (Some 50)) = ''ann'' \<and>
   demo_task 0 4 TaskOpen (Some 50) \<in> set (t_task (w_pg demo_tasks))"
proof -
  have "demo_task 0 4 TaskOpen (Some 50) \<in> set (listForPrincipal sample_principal
      \<lparr>tf_statuses = None, tf_entity = None, tf_settled = False\<rparr> (w_pg demo_tasks))"
    by code_simp
  from task_list_gated [OF this] show ?thesis by (simp add: demo_task_def sample_principal_def)
qed

theorem reminders_once_witness:
  "map tk_due_reminded_at (t_task (w_pg (snd (runReminders demo_tasks)))) = [Some 100, None] \<and>
   fst (runReminders (snd (runReminders demo_tasks))) = Inr \<lparr>rm_due = 0, rm_dormant = 0, rm_cleared = 0\<rparr>"
proof -
  have "isl (fst (runReminders demo_tasks)) = False" "isl (fst (runReminders (snd (runReminders demo_tasks)))) = False"
    by code_simp+
  then obtain a b where run: "runReminders demo_tasks = (Inr a, snd (runReminders demo_tasks))"
      "runReminders (snd (runReminders demo_tasks)) = (Inr b, snd (runReminders (snd (runReminders demo_tasks))))"
    by (metis isl_def prod.collapse sum.exhaust_sel)
  have "map tk_due_reminded_at (t_task (w_pg (snd (runReminders demo_tasks)))) = [Some 100, None]" by code_simp
  then show ?thesis using reminders_once [OF demo_tasks_ok run] run(2) by (metis fst_conv)
qed

end
