(* ===== verification/Chunks.thy ===== *)
theory Chunks
  imports Prelude
begin

text \<open>
  Stage 2 of the pipeline, \<^verbatim>\<open>ingestion/pipeline/chunk.ts\<close>: a long text is cut into overlapping
  chunks. The functions work with the default sizes, the only ones the pipeline uses.
\<close>

definition CHUNK_MAX_CHARS :: nat where
  "CHUNK_MAX_CHARS = 6000"

definition CHUNK_OVERLAP_CHARS :: nat where
  "CHUNK_OVERLAP_CHARS = 500"

text \<open>One more than the index of the last line break or blank of a window, 0 when it has none.\<close>

definition break_point :: "string \<Rightarrow> nat" where
  "break_point window = length (dropWhile (\<lambda>c. c \<notin> {CHR 0x0A, CHR '' ''}) (rev window))"

definition chunk_end :: "string \<Rightarrow> nat \<Rightarrow> nat" where
  "chunk_end body start =
     (let stop = min (start + CHUNK_MAX_CHARS) (length body);
          b = break_point (take (stop - start) (drop start body))
      in if stop < length body \<and> CHUNK_MAX_CHARS < 2 * (b - 1) then start + (b - 1) else stop)"

lemma break_point_le: "break_point s \<le> length s"
  unfolding break_point_def by (metis length_dropWhile_le length_rev)

lemma chunk_end_bounds:
  assumes "start < length body"
  shows "start < chunk_end body start" and "chunk_end body start \<le> start + CHUNK_MAX_CHARS"
    and "chunk_end body start \<le> length body"
    and "chunk_end body start < length body \<Longrightarrow> start + 3000 < chunk_end body start"
proof -
  let ?stop = "min (start + CHUNK_MAX_CHARS) (length body)"
  have b: "break_point (take (?stop - start) (drop start body)) \<le> ?stop - start"
    using break_point_le [of "take (?stop - start) (drop start body)"] by (simp add: CHUNK_MAX_CHARS_def)
  show "start < chunk_end body start" "chunk_end body start \<le> start + CHUNK_MAX_CHARS"
      "chunk_end body start \<le> length body"
      "chunk_end body start < length body \<Longrightarrow> start + 3000 < chunk_end body start"
    using assms b by (auto simp: chunk_end_def Let_def CHUNK_MAX_CHARS_def split: if_splits)
qed

text \<open>The spans of the chunks; every round moves on by at least 2500 characters.\<close>

function chunk_spans :: "string \<Rightarrow> nat \<Rightarrow> (nat \<times> nat) list" where
  "chunk_spans body start =
     (if length body \<le> start then []
      else let stop = chunk_end body start
           in (start, stop) # (if length body \<le> stop then [] else chunk_spans body (stop - CHUNK_OVERLAP_CHARS)))"
  by pat_completeness auto
termination
proof (relation "measure (\<lambda>(body, start). length body - start)", simp)
  fix body :: string and start stop :: nat
  assume "\<not> length body \<le> start" "stop = chunk_end body start" "\<not> length body \<le> stop"
  then show "((body, stop - CHUNK_OVERLAP_CHARS), (body, start)) \<in> measure (\<lambda>(body, start). length body - start)"
    using chunk_end_bounds(4) [of start body] by (simp add: CHUNK_OVERLAP_CHARS_def)
qed

declare chunk_spans.simps [simp del]

record chunk =
  ch_text :: string
  ch_index :: nat

definition chunkContent :: "string \<Rightarrow> chunk list" where
  "chunkContent content =
     (let body = js_trim content
      in if body = [] then []
         else if length body \<le> CHUNK_MAX_CHARS then [\<lparr>ch_text = body, ch_index = 0\<rparr>]
         else map (\<lambda>(i, (start, stop)). \<lparr>ch_text = take (stop - start) (drop start body), ch_index = i\<rparr>)
                (enumerate 0 (chunk_spans body 0)))"

subsection \<open>Nothing falls between two chunks\<close>

lemma chunk_spans_bounds:
  "(s, e) \<in> set (chunk_spans body start) \<Longrightarrow> s < e \<and> e \<le> s + CHUNK_MAX_CHARS \<and> e \<le> length body"
proof (induction body start rule: chunk_spans.induct)
  case (1 body start)
  show ?case
    using 1 chunk_end_bounds [of start body]
    by (subst (asm) chunk_spans.simps) (auto simp: Let_def split: if_splits)
qed

lemma chunk_spans_cover:
  "start \<le> i \<Longrightarrow> i + n \<le> length body \<Longrightarrow> 0 < n \<Longrightarrow> n \<le> Suc CHUNK_OVERLAP_CHARS \<Longrightarrow>
     \<exists>(s, e) \<in> set (chunk_spans body start). s \<le> i \<and> i + n \<le> e"
proof (induction body start rule: chunk_spans.induct)
  case (1 body start)
  let ?e = "chunk_end body start"
  have start: "\<not> length body \<le> start" using 1(2-4) by simp
  show ?case
  proof (cases "i + n \<le> ?e")
    case True
    then show ?thesis using start 1(2) by (subst chunk_spans.simps) (auto simp: Let_def)
  next
    case False
    then have more: "\<not> length body \<le> ?e" and next_start: "?e - CHUNK_OVERLAP_CHARS \<le> i" using 1(3,5) by auto
    from 1(1) [OF start refl more next_start] 1(3-5)
    show ?thesis using start more by (subst chunk_spans.simps) (auto simp: Let_def)
  qed
qed

lemma length_chunk_spans: "start \<le> length body \<Longrightarrow> 2500 * length (chunk_spans body start) \<le> length body - start + 2500"
proof (induction body start rule: chunk_spans.induct)
  case (1 body start)
  show ?case
  proof (cases "start < length body")
    case True
    note b = chunk_end_bounds [OF True]
    show ?thesis
    proof (cases "length body \<le> chunk_end body start")
      case True
      then show ?thesis using \<open>start < length body\<close> by (subst chunk_spans.simps) (simp add: Let_def)
    next
      case False
      then have "2500 * length (chunk_spans body (chunk_end body start - CHUNK_OVERLAP_CHARS)) \<le>
          length body - (chunk_end body start - CHUNK_OVERLAP_CHARS) + 2500"
        using 1(1) True b(3) by simp
      then show ?thesis
        using False True b(4) by (subst chunk_spans.simps) (simp add: Let_def CHUNK_OVERLAP_CHARS_def)
    qed
  qed (subst chunk_spans.simps, simp)
qed

lemma chunk_texts:
  "js_trim content \<noteq> [] \<Longrightarrow> \<not> length (js_trim content) \<le> CHUNK_MAX_CHARS \<Longrightarrow>
     map ch_text (chunkContent content) =
       map (\<lambda>(start, stop). take (stop - start) (drop start (js_trim content))) (chunk_spans (js_trim content) 0)"
  by (rule nth_equalityI) (auto simp: chunkContent_def Let_def nth_enumerate_eq split: prod.splits)

lemma span_covers:
  "s \<le> i \<Longrightarrow> i + n \<le> e \<Longrightarrow> e \<le> length t \<Longrightarrow>
     take n (drop (i - s) (take (e - s) (drop s t))) = take n (drop i t) \<and>
     i - s + n \<le> length (take (e - s) (drop s t))"
  by (auto simp: drop_take min_def)

text \<open>
  C33. Every passage of at most 501 characters of the trimmed text lies whole in some chunk,
  every chunk has between 1 and 6000 characters, and there is at most one chunk per 2500
  characters and one more.
\<close>

theorem chunks_cover:
  assumes "0 < n" and "n \<le> 501" and "i + n \<le> length (js_trim content)"
  shows "(\<exists>c \<in> set (chunkContent content). \<exists>k. k + n \<le> length (ch_text c) \<and>
       take n (drop k (ch_text c)) = take n (drop i (js_trim content))) \<and>
     list_all (\<lambda>c. 0 < length (ch_text c) \<and> length (ch_text c) \<le> 6000) (chunkContent content) \<and>
     2500 * length (chunkContent content) \<le> length (js_trim content) + 2500"
proof (cases "length (js_trim content) \<le> CHUNK_MAX_CHARS")
  case True
  then show ?thesis using assms by (auto simp: chunkContent_def Let_def CHUNK_MAX_CHARS_def)
next
  case False
  let ?t = "js_trim content" let ?spans = "chunk_spans ?t 0"
  have ne: "?t \<noteq> []" using assms by auto
  note texts = chunk_texts [OF ne False]
  obtain s e where se: "(s, e) \<in> set ?spans" "s \<le> i" "i + n \<le> e"
    using chunk_spans_cover [of 0 i n ?t] assms by (auto simp: CHUNK_OVERLAP_CHARS_def)
  have "take (e - s) (drop s ?t) \<in> set (map ch_text (chunkContent content))"
    unfolding texts using se(1) by force
  then obtain c where c: "c \<in> set (chunkContent content)" "ch_text c = take (e - s) (drop s ?t)"
    by auto
  have "e \<le> length ?t" using chunk_spans_bounds [OF se(1)] by simp
  then have covered: "\<exists>c \<in> set (chunkContent content). \<exists>k. k + n \<le> length (ch_text c) \<and>
       take n (drop k (ch_text c)) = take n (drop i ?t)"
    using span_covers [OF se(2,3)] c by (intro bexI [of _ c] exI [of _ "i - s"]) auto
  have "list_all (\<lambda>x. 0 < length x \<and> length x \<le> 6000) (map ch_text (chunkContent content))"
    unfolding texts by (auto simp: list_all_iff CHUNK_MAX_CHARS_def dest!: chunk_spans_bounds)
  then have sizes: "list_all (\<lambda>c. 0 < length (ch_text c) \<and> length (ch_text c) \<le> 6000) (chunkContent content)"
    by (simp add: list_all_iff)
  have "length (chunkContent content) = length ?spans"
    using arg_cong [OF texts, of length] by simp
  then show ?thesis using covered sizes length_chunk_spans [of 0 ?t] by simp
qed

theorem chunks_cover_witness:
  "\<exists>c \<in> set (chunkContent (replicate 9000 (CHR ''x''))). \<exists>k. k + 501 \<le> length (ch_text c) \<and>
     take 501 (drop k (ch_text c)) = replicate 501 (CHR ''x'')"
proof -
  have trim: "js_trim (replicate 9000 (CHR ''x'')) = replicate 9000 (CHR ''x'')"
    by (simp add: js_trim_def js_space_def)
  have "(\<exists>c \<in> set (chunkContent (replicate 9000 (CHR ''x''))). \<exists>k. k + 501 \<le> length (ch_text c) \<and>
     take 501 (drop k (ch_text c)) = take 501 (drop 5700 (js_trim (replicate 9000 (CHR ''x'')))))"
    using chunks_cover [of 501 5700 "replicate 9000 (CHR ''x'')"] by (simp add: trim)
  then show ?thesis by (simp add: trim)
qed

end
