(* ===== verification/Temporal_Resolver.thy ===== *)
theory Temporal_Resolver
  imports Memory_Reads Receipt_Chain
begin

text \<open>
  Resolution of relative dates, \<^verbatim>\<open>ingestion/domain/temporal-resolver.ts\<close>: the expressions the
  extractor copies from a source are resolved by code against the source's timestamp. The
  calendar day of an instant in the instance's time zone and the absolute-date parser
  \<^verbatim>\<open>chrono-node\<close> are arguments. The regular expressions are matchers that scan for the leftmost
  match with their word boundaries; a \<^verbatim>\<open>Date\<close> outside its range is the value \<open>Invalid\<close>.
\<close>

subsection \<open>Dates\<close>

datatype date = Invalid | At time

definition day_ms :: int where
  "day_ms = 86400000"

definition time_clip :: "int \<Rightarrow> date" where
  "time_clip t = (if \<bar>t\<bar> \<le> 8640000000000000 then At t else Invalid)"

definition weekday :: "int \<Rightarrow> int" where
  "weekday day = (day + 4) mod 7"

definition days_of_civil :: "int \<Rightarrow> int \<Rightarrow> int \<Rightarrow> int" where
  "days_of_civil y m d =
     (let y' = (if m \<le> 2 then y - 1 else y); yoe = y' mod 400; mp = (m + 9) mod 12;
          doy = (153 * mp + 2) div 5 + d - 1
      in y' div 400 * 146097 + yoe * 365 + yoe div 4 - yoe div 100 + doy - 719468)"

text \<open>A count is a number, or what an inherited property of the word table turns into.\<close>

datatype count = Count int | NotNumeric

fun negated :: "count \<Rightarrow> count" where
  "negated (Count n) = Count (- n)"
| "negated NotNumeric = NotNumeric"

fun times_seven :: "count \<Rightarrow> count" where
  "times_seven (Count n) = Count (n * 7)"
| "times_seven NotNumeric = NotNumeric"

fun addUtcDays :: "int \<Rightarrow> count \<Rightarrow> date" where
  "addUtcDays base (Count n) = time_clip ((base + n) * day_ms)"
| "addUtcDays base NotNumeric = Invalid"

fun addUtcMonths :: "int \<Rightarrow> count \<Rightarrow> date" where
  "addUtcMonths base (Count n) =
     (case civil_of_days base of (y, m, d) \<Rightarrow>
        time_clip ((days_of_civil (y + (m - 1 + n) div 12) ((m - 1 + n) mod 12 + 1) 1 + d - 1) * day_ms))"
| "addUtcMonths base NotNumeric = Invalid"

definition nextWeekday :: "int \<Rightarrow> int \<Rightarrow> date" where
  "nextWeekday base dow =
     (let delta = (dow - weekday base + 7) mod 7 in addUtcDays base (Count (if delta = 0 then 7 else delta)))"

definition prevWeekday :: "int \<Rightarrow> int \<Rightarrow> date" where
  "prevWeekday base dow =
     (let delta = (weekday base - dow + 7) mod 7 in addUtcDays base (Count (- (if delta = 0 then 7 else delta))))"

subsection \<open>Words\<close>

definition in_range :: "nat \<Rightarrow> nat \<Rightarrow> char \<Rightarrow> bool" where
  "in_range lo hi c \<longleftrightarrow> lo \<le> of_char c \<and> of_char c \<le> hi"

definition small_letter :: "char \<Rightarrow> bool" where
  "small_letter c = in_range 97 122 c"

definition word_char :: "char \<Rightarrow> bool" where
  "word_char c \<longleftrightarrow> small_letter c \<or> in_range 65 90 c \<or> is_digit c \<or> c = CHR ''_''"

definition at_boundary :: "bool \<Rightarrow> string \<Rightarrow> bool" where
  "at_boundary prev s \<longleftrightarrow> prev \<noteq> (case s of [] \<Rightarrow> False | c # _ \<Rightarrow> word_char c)"

text \<open>The leftmost position at which a matcher succeeds; it is told whether a word character precedes.\<close>

fun scan :: "(bool \<Rightarrow> string \<Rightarrow> 'a option) \<Rightarrow> bool \<Rightarrow> string \<Rightarrow> 'a option" where
  "scan f prev [] = f prev []"
| "scan f prev (c # cs) = (case f prev (c # cs) of Some x \<Rightarrow> Some x | None \<Rightarrow> scan f (word_char c) cs)"

definition lit :: "string \<Rightarrow> string \<Rightarrow> string option" where
  "lit p s = (if take (length p) s = p then Some (drop (length p) s) else None)"

definition blanks :: "string \<Rightarrow> string" where
  "blanks s = dropWhile js_space s"

definition some_blanks :: "string \<Rightarrow> string option" where
  "some_blanks s = (case s of [] \<Rightarrow> None | c # cs \<Rightarrow> if js_space c then Some (blanks cs) else None)"

text \<open>A word that ends at a boundary.\<close>

definition whole :: "string \<Rightarrow> string \<Rightarrow> string option" where
  "whole p s = (case lit p s of None \<Rightarrow> None | Some rest \<Rightarrow> if at_boundary True rest then Some rest else None)"

definition has_word :: "string list \<Rightarrow> string \<Rightarrow> bool" where
  "has_word ws text \<longleftrightarrow> scan (\<lambda>prev s. if at_boundary prev s then first_some (map (\<lambda>w. whole w s) ws) else None) False text \<noteq> None"

definition NUMBER_WORDS :: "(string \<times> int) list" where
  "NUMBER_WORDS = [(''a'', 1), (''an'', 1), (''one'', 1), (''two'', 2), (''three'', 3), (''four'', 4), (''five'', 5),
     (''six'', 6), (''seven'', 7), (''eight'', 8), (''nine'', 9), (''ten'', 10), (''eleven'', 11), (''twelve'', 12)]"

text \<open>Of the properties an object inherits, \<^verbatim>\<open>constructor\<close> is the one spelt with small letters.\<close>

definition parseCount :: "string \<Rightarrow> count option" where
  "parseCount token =
     (if token \<noteq> [] \<and> list_all is_digit token then Some (Count (int (digits_value token)))
      else if token = ''constructor'' then Some NotNumeric
      else map_option Count (map_of NUMBER_WORDS token))"

definition token :: "string \<Rightarrow> (string \<times> string) option" where
  "token s =
     (let letters = takeWhile small_letter s; digits = takeWhile is_digit s
      in if letters \<noteq> [] then Some (letters, drop (length letters) s)
         else if digits \<noteq> [] then Some (digits, drop (length digits) s) else None)"

datatype time_unit = DayUnit | WeekUnit | MonthUnit

definition UNITS :: "(string \<times> time_unit) list" where
  "UNITS = [(''day'', DayUnit), (''days'', DayUnit), (''week'', WeekUnit), (''weeks'', WeekUnit),
     (''month'', MonthUnit), (''months'', MonthUnit)]"

definition bind_opt :: "'a option \<Rightarrow> ('a \<Rightarrow> 'b option) \<Rightarrow> 'b option" where
  "bind_opt = Option.bind"

subsection \<open>The patterns\<close>

definition ago_at :: "bool \<Rightarrow> string \<Rightarrow> (string \<times> time_unit) option" where
  "ago_at prev s =
     (if \<not> at_boundary prev s then None
      else bind_opt (token s) (\<lambda>(tok, s1).
           bind_opt (some_blanks s1) (\<lambda>s2.
           first_some (map (\<lambda>(name, u).
             bind_opt (lit name s2) (\<lambda>s3. bind_opt (some_blanks s3) (\<lambda>s4. bind_opt (whole ''ago'' s4) (\<lambda>_. Some (tok, u))))) UNITS))))"

definition in_at :: "bool \<Rightarrow> string \<Rightarrow> (string \<times> time_unit) option" where
  "in_at prev s =
     (if \<not> at_boundary prev s then None
      else bind_opt (lit ''in'' s) (\<lambda>s0.
           bind_opt (some_blanks s0) (\<lambda>s1.
           bind_opt (token s1) (\<lambda>(tok, s2).
           bind_opt (some_blanks s2) (\<lambda>s3.
           first_some (map (\<lambda>(name, u). bind_opt (whole name s3) (\<lambda>_. Some (tok, u))) UNITS))))))"

definition WEEKDAYS :: "(string \<times> int) list" where
  "WEEKDAYS = [(''sunday'', 0), (''monday'', 1), (''tuesday'', 2), (''wednesday'', 3), (''thursday'', 4),
     (''friday'', 5), (''saturday'', 6)]"

definition LEADS :: "string list" where
  "LEADS = [''last'', ''past'', ''previous'', ''by'', ''before'', ''on'', ''this'', ''next'', ''coming'', ''the'']"

definition day_name_at :: "string \<Rightarrow> int option" where
  "day_name_at s = first_some (map (\<lambda>(name, dow). bind_opt (whole name (blanks s)) (\<lambda>_. Some dow)) WEEKDAYS)"

definition weekday_at :: "bool \<Rightarrow> string \<Rightarrow> (string option \<times> int) option" where
  "weekday_at prev s =
     (if \<not> at_boundary prev s then None
      else first_some
        (map (\<lambda>lead. bind_opt (lit lead s) (\<lambda>rest. bind_opt (day_name_at rest) (\<lambda>dow. Some (Some lead, dow)))) LEADS @
         [bind_opt (day_name_at s) (\<lambda>dow. Some (None, dow))]))"

subsection \<open>Resolution\<close>

type_synonym chrono_parser = "string \<Rightarrow> time \<Rightarrow> bool \<Rightarrow> (int option \<times> int option \<times> int option) option"

definition chronoResolve :: "chrono_parser \<Rightarrow> string \<Rightarrow> int \<Rightarrow> bool \<Rightarrow> date option" where
  "chronoResolve chrono raw base forward =
     (case chrono raw (base * day_ms) forward of
        Some (Some year, Some month, Some day) \<Rightarrow>
          Some (time_clip (days_of_civil (if 0 \<le> year \<and> year \<le> 99 then 1900 + year else year) month day * day_ms))
      | _ \<Rightarrow> None)"

fun shifted :: "int \<Rightarrow> count \<Rightarrow> time_unit \<Rightarrow> date" where
  "shifted base n DayUnit = addUtcDays base n"
| "shifted base n WeekUnit = addUtcDays base (times_seven n)"
| "shifted base n MonthUnit = addUtcMonths base n"

definition ago_rule :: "int \<Rightarrow> string \<Rightarrow> date option" where
  "ago_rule base text =
     bind_opt (scan ago_at False text) (\<lambda>(tok, u). map_option (\<lambda>n. shifted base (negated n) u) (parseCount tok))"

definition in_rule :: "int \<Rightarrow> string \<Rightarrow> date option" where
  "in_rule base text =
     bind_opt (scan in_at False text) (\<lambda>(tok, u). map_option (\<lambda>n. shifted base n u) (parseCount tok))"

definition weekday_rule :: "int \<Rightarrow> string \<Rightarrow> date option" where
  "weekday_rule base text =
     map_option (\<lambda>(lead, dow). if lead \<in> {Some ''last'', Some ''past'', Some ''previous''}
        then prevWeekday base dow else nextWeekday base dow) (scan weekday_at False text)"

definition resolveExpression :: "(time \<Rightarrow> int) \<Rightarrow> chrono_parser \<Rightarrow> string \<Rightarrow> time \<Rightarrow> date option" where
  "resolveExpression local_day chrono raw anchor =
     (let text = to_lower (js_trim raw); base = local_day anchor
      in if text = [] then None
         else if has_word [''today''] text then Some (At (base * day_ms))
         else if has_word [''tomorrow''] text then Some (addUtcDays base (Count 1))
         else if has_word [''yesterday''] text then Some (addUtcDays base (Count (- 1)))
         else case ago_rule base text of Some d \<Rightarrow> Some d | None \<Rightarrow>
              case in_rule base text of Some d \<Rightarrow> Some d | None \<Rightarrow>
              case weekday_rule base text of Some d \<Rightarrow> Some d | None \<Rightarrow>
              chronoResolve chrono raw base (\<not> has_word [''ago'', ''last'', ''past'', ''previous''] text))"

datatype temporal_kind = ValidFrom | ValidUntil | Point

record resolved_interval =
  ri_from :: "date option"
  ri_until :: "date option"
  ri_unresolved :: "string list"

definition resolve_one :: "(time \<Rightarrow> int) \<Rightarrow> chrono_parser \<Rightarrow> time \<Rightarrow> resolved_interval \<Rightarrow> string \<times> temporal_kind \<Rightarrow> resolved_interval" where
  "resolve_one local_day chrono anchor out expr =
     (case resolveExpression local_day chrono (fst expr) anchor of
        None \<Rightarrow> out\<lparr>ri_unresolved := ri_unresolved out @ [fst expr]\<rparr>
      | Some d \<Rightarrow> if snd expr = ValidUntil then out\<lparr>ri_until := Some d\<rparr> else out\<lparr>ri_from := Some d\<rparr>)"

definition resolveTemporalExpressions ::
  "(time \<Rightarrow> int) \<Rightarrow> chrono_parser \<Rightarrow> (string \<times> temporal_kind) list \<Rightarrow> time \<Rightarrow> resolved_interval" where
  "resolveTemporalExpressions local_day chrono exprs anchor =
     foldl (resolve_one local_day chrono anchor) \<lparr>ri_from = None, ri_until = None, ri_unresolved = []\<rparr> exprs"

end
