(* ===== verification/Temporal_Laws.thy ===== *)
theory Temporal_Laws
  imports Temporal_Resolver
begin

text \<open>
  What the resolution of relative dates promises: a weekday is the nearest one strictly in the
  stated direction, every expression is either resolved into the interval or listed as
  unresolved, and what goes wrong at the ends of the calendar.
\<close>

subsection \<open>Weekdays\<close>

lemma day_shift_range:
  "\<bar>base\<bar> \<le> 99999992 \<Longrightarrow> \<bar>n\<bar> \<le> 7 \<Longrightarrow> addUtcDays base (Count n) = At ((base + n) * day_ms)"
  by (simp add: time_clip_def day_ms_def)

lemma weekday_add: "weekday (a + n mod 7) = (weekday a + n) mod 7"
proof -
  have "weekday (a + n mod 7) = ((a + 4) + n mod 7) mod 7" by (simp only: weekday_def ac_simps)
  then show ?thesis by (simp only: mod_add_right_eq mod_add_left_eq weekday_def)
qed

lemma weekday_diff: "weekday (a - n mod 7) = (weekday a - n) mod 7"
proof -
  have "weekday (a - n mod 7) = ((a + 4) - n mod 7) mod 7" by (simp add: weekday_def algebra_simps)
  then show ?thesis by (simp only: mod_diff_right_eq mod_diff_left_eq weekday_def)
qed

lemma weekday_week [simp]: "weekday (a + 7) = weekday a" "weekday (a - 7) = weekday a"
  using weekday_add [of a 0] mod_add_self2 [of "a + 4" 7] mod_add_self2 [of "a - 3" 7]
  by (simp_all add: weekday_def add.commute add.left_commute)

lemma weekday_ahead:
  fixes base dow :: int
  assumes "0 \<le> dow" "dow < 7" and n: "n = (if (dow - weekday base + 7) mod 7 = 0 then 7 else (dow - weekday base + 7) mod 7)"
  shows "0 < n \<and> n \<le> 7 \<and> weekday (base + n) = dow"
proof -
  define d where "d = (dow - weekday base + 7) mod 7"
  have "weekday (base + d) = dow"
    using assms(1,2) weekday_add [of base "dow - weekday base + 7"] by (simp add: d_def)
  moreover have "0 \<le> d" "d < 7" by (simp_all add: d_def)
  moreover have "n = (if d = 0 then 7 else d)" by (simp only: n d_def)
  ultimately show ?thesis by (auto split: if_splits)
qed

lemma weekday_behind:
  fixes base dow :: int
  assumes "0 \<le> dow" "dow < 7" and n: "n = (if (weekday base - dow + 7) mod 7 = 0 then 7 else (weekday base - dow + 7) mod 7)"
  shows "0 < n \<and> n \<le> 7 \<and> weekday (base - n) = dow"
proof -
  define d where "d = (weekday base - dow + 7) mod 7"
  have "weekday (base - d) = (dow - 7) mod 7"
    using weekday_diff [of base "weekday base - dow + 7"] by (simp add: d_def)
  then have "weekday (base - d) = dow" using assms(1,2) by simp
  moreover have "0 \<le> d" "d < 7" by (simp_all add: d_def)
  moreover have "n = (if d = 0 then 7 else d)" by (simp only: n d_def)
  ultimately show ?thesis by (auto split: if_splits)
qed

text \<open>No day of that name lies strictly between, so the resolved day is the nearest one.\<close>

lemma weekday_once: "weekday a = weekday b \<Longrightarrow> \<bar>a - b\<bar> < 7 \<Longrightarrow> a = b"
  unfolding weekday_def by presburger

text \<open>
  A weekday name resolves to the nearest day of that name strictly after the base day, or
  strictly before it, never the base day itself.
\<close>

theorem weekday_nearest:
  assumes "0 \<le> dow" and "dow < 7" and "\<bar>base\<bar> \<le> 99999992"
  shows "(\<exists>t. nextWeekday base dow = At (t * day_ms) \<and> base < t \<and> t \<le> base + 7 \<and> weekday t = dow \<and>
       {s. base < s \<and> s < t \<and> weekday s = dow} = {}) \<and>
     (\<exists>t. prevWeekday base dow = At (t * day_ms) \<and> t < base \<and> base - 7 \<le> t \<and> weekday t = dow \<and>
       {s. t < s \<and> s < base \<and> weekday s = dow} = {})"
proof -
  define n where "n = (if (dow - weekday base + 7) mod 7 = 0 then 7 else (dow - weekday base + 7) mod 7)"
  define p where "p = (if (weekday base - dow + 7) mod 7 = 0 then 7 else (weekday base - dow + 7) mod 7)"
  have n: "0 < n" "n \<le> 7" "weekday (base + n) = dow" using weekday_ahead [OF assms(1,2) n_def] by auto
  have p: "0 < p" "p \<le> 7" "weekday (base - p) = dow" using weekday_behind [OF assms(1,2) p_def] by auto
  have "nextWeekday base dow = addUtcDays base (Count n)" "prevWeekday base dow = addUtcDays base (Count (- p))"
    by (simp_all only: nextWeekday_def prevWeekday_def Let_def n_def p_def)
  then have "nextWeekday base dow = At ((base + n) * day_ms)" "prevWeekday base dow = At ((base - p) * day_ms)"
    using day_shift_range [OF assms(3), of n] day_shift_range [OF assms(3), of "- p"] n p by simp_all
  moreover have "{s. base < s \<and> s < base + n \<and> weekday s = dow} = {}"
    using weekday_once [of _ "base + n"] n by fastforce
  moreover have "{s. base - p < s \<and> s < base \<and> weekday s = dow} = {}"
    using weekday_once [of _ "base - p"] p by fastforce
  ultimately show ?thesis using n p by (intro conjI exI [of _ "base + n"] exI [of _ "base - p"]) auto
qed

theorem weekday_nearest_witness:
  "\<exists>t. nextWeekday 20467 5 = At (t * day_ms) \<and> 20467 < t \<and> t \<le> 20474 \<and> weekday t = 5"
  using weekday_nearest [of 5 20467] by auto

subsection \<open>Every expression is accounted for\<close>

definition resolved_as ::
  "(time \<Rightarrow> int) \<Rightarrow> chrono_parser \<Rightarrow> time \<Rightarrow> (temporal_kind \<Rightarrow> bool) \<Rightarrow> (string \<times> temporal_kind) list \<Rightarrow> date list" where
  "resolved_as local_day chrono anchor P exprs =
     List.map_filter (\<lambda>e. if P (snd e) then resolveExpression local_day chrono (fst e) anchor else None) exprs"

definition last_of :: "'a list \<Rightarrow> 'a option" where
  "last_of xs = (if xs = [] then None else Some (last xs))"

lemma last_of_snoc [simp]: "last_of (xs @ [x]) = Some x"
  by (simp add: last_of_def)

lemma temporal_accounts:
  "resolveTemporalExpressions local_day chrono exprs anchor =
     \<lparr>ri_from = last_of (resolved_as local_day chrono anchor (\<lambda>k. k \<noteq> ValidUntil) exprs),
      ri_until = last_of (resolved_as local_day chrono anchor (\<lambda>k. k = ValidUntil) exprs),
      ri_unresolved = map fst (filter (\<lambda>e. resolveExpression local_day chrono (fst e) anchor = None) exprs)\<rparr>"
proof (induction exprs rule: rev_induct)
  case Nil
  then show ?case
    by (simp add: resolveTemporalExpressions_def resolved_as_def last_of_def List.map_filter_def)
next
  case (snoc e exprs)
  then show ?case
    by (auto simp: resolveTemporalExpressions_def resolve_one_def resolved_as_def List.map_filter_def split: option.split)
qed

subsection \<open>At the ends of the calendar\<close>

text \<open>31 January 2026 and one month on: the day overflows into March.\<close>

lemma month_overflows:
  "civil_of_days 20484 = (2026, 1, 31) \<and> addUtcMonths 20484 (Count 1) = At (20515 * day_ms) \<and>
   civil_of_days 20515 = (2026, 3, 3)"
  by (intro conjI) code_simp+

text \<open>A count that leaves the range of dates, or names an inherited property, gives an invalid date.\<close>

lemmas matching = scan.simps in_at_def ago_at_def at_boundary_def word_char_def small_letter_def in_range_def
  is_digit_def lit_def some_blanks_def blanks_def whole_def token_def bind_opt_def UNITS_def js_space_def
  Let_def has_word_def

lemma far_count_invalid:
  "resolveExpression local_day chrono ''in 999999999999 days'' anchor = Some (addUtcDays (local_day anchor) (Count 999999999999))"
  "resolveExpression local_day chrono ''in constructor days'' anchor = Some Invalid"
proof -
  have t: "to_lower (js_trim ''in 999999999999 days'') = ''in 999999999999 days''"
    "to_lower (js_trim ''in constructor days'') = ''in constructor days''" by code_simp+
  have none: "\<not> has_word [''today''] ''in 999999999999 days''" "\<not> has_word [''tomorrow''] ''in 999999999999 days''"
    "\<not> has_word [''yesterday''] ''in 999999999999 days''" "scan ago_at False ''in 999999999999 days'' = None"
    "\<not> has_word [''today''] ''in constructor days''" "\<not> has_word [''tomorrow''] ''in constructor days''"
    "\<not> has_word [''yesterday''] ''in constructor days''" "scan ago_at False ''in constructor days'' = None"
    by (simp_all add: matching)
  have some: "scan in_at False ''in 999999999999 days'' = Some (''999999999999'', DayUnit)"
    "scan in_at False ''in constructor days'' = Some (''constructor'', DayUnit)"
    by (simp_all add: matching)
  have counts: "parseCount ''999999999999'' = Some (Count 999999999999)" "parseCount ''constructor'' = Some NotNumeric"
    by (simp_all add: parseCount_def is_digit_def digits_value_def)
  show "resolveExpression local_day chrono ''in 999999999999 days'' anchor =
      Some (addUtcDays (local_day anchor) (Count 999999999999))"
    "resolveExpression local_day chrono ''in constructor days'' anchor = Some Invalid"
    by (simp_all add: resolveExpression_def Let_def t none some counts ago_rule_def in_rule_def bind_opt_def
        del: scan.simps)
qed

lemma far_day_invalid: "0 \<le> base \<Longrightarrow> addUtcDays base (Count 999999999999) = Invalid"
  by (simp add: time_clip_def day_ms_def)

end
