(* ===== verification/Web_Fetch.thy ===== *)
theory Web_Fetch
  imports Temporal_Resolver Source_Ports "HOL-Library.Word"
begin

text \<open>
  The page fetcher of the research connector, \<^verbatim>\<open>connectors/web-fetch.ts\<close>: the address checks
  against server-side request forgery, the robots rules, the redirect loop and the outcome of
  a fetch. Parsing of URLs, name resolution, the network and the text extractors are
  arguments; what the fetcher contacts is recorded in order.
\<close>

subsection \<open>IP addresses as text\<close>

fun split_at :: "char \<Rightarrow> string \<Rightarrow> string list" where
  "split_at sep [] = [[]]"
| "split_at sep (c # cs) =
     (if c = sep then [] # split_at sep cs
      else case split_at sep cs of [] \<Rightarrow> [[c]] | p # ps \<Rightarrow> (c # p) # ps)"

definition digits :: "string \<Rightarrow> bool" where
  "digits s \<longleftrightarrow> s \<noteq> [] \<and> list_all is_digit s"

text \<open>\<^verbatim>\<open>net.isIP\<close>: decimal bytes without leading zeros; groups of hexadecimal digits.\<close>

definition v4_segment :: "string \<Rightarrow> bool" where
  "v4_segment s \<longleftrightarrow> digits s \<and> length s \<le> 3 \<and> digits_value s \<le> 255 \<and> (hd s = CHR ''0'' \<longrightarrow> length s = 1)"

definition is_v4 :: "string \<Rightarrow> bool" where
  "is_v4 s \<longleftrightarrow> length (split_at (CHR ''.'') s) = 4 \<and> list_all v4_segment (split_at (CHR ''.'') s)"

definition hex_digit_char :: "char \<Rightarrow> bool" where
  "hex_digit_char c \<longleftrightarrow> is_digit c \<or> in_range 97 102 c \<or> in_range 65 70 c"

definition v6_segment :: "string \<Rightarrow> bool" where
  "v6_segment s \<longleftrightarrow> 1 \<le> length s \<and> length s \<le> 4 \<and> list_all hex_digit_char s"

text \<open>The groups a part of the address stands for; a dotted quad counts as two.\<close>

definition v6_groups :: "bool \<Rightarrow> string \<Rightarrow> nat option" where
  "v6_groups dotted_end s =
     (if s = [] then Some 0
      else let gs = split_at (CHR '':'') s
           in if list_all v6_segment gs then Some (length gs)
              else if dotted_end \<and> list_all v6_segment (butlast gs) \<and> is_v4 (last gs) then Some (length gs + 1)
              else None)"

fun split_double_colon :: "string \<Rightarrow> (string \<times> string) option" where
  "split_double_colon (c # d # cs) =
     (if c = CHR '':'' \<and> d = CHR '':'' then Some ([], cs)
      else map_option (\<lambda>(l, r). (c # l, r)) (split_double_colon (d # cs)))"
| "split_double_colon _ = None"

definition zone_char :: "char \<Rightarrow> bool" where
  "zone_char c \<longleftrightarrow> is_digit c \<or> small_letter c \<or> in_range 65 90 c \<or> c \<in> set ''-.:''"

definition is_v6 :: "string \<Rightarrow> bool" where
  "is_v6 s =
     (let addr = takeWhile (\<lambda>c. c \<noteq> CHR ''%'') s; zone = dropWhile (\<lambda>c. c \<noteq> CHR ''%'') s
      in (zone = [] \<or> (2 \<le> length zone \<and> list_all zone_char (tl zone))) \<and>
         (case split_double_colon addr of
            None \<Rightarrow> v6_groups True addr = Some 8
          | Some (l, r) \<Rightarrow>
              (case (v6_groups False l, v6_groups True r) of
                 (Some m, Some n) \<Rightarrow> m + n \<le> 7 | _ \<Rightarrow> False)))"

definition isIP :: "string \<Rightarrow> nat" where
  "isIP s = (if is_v4 s then 4 else if is_v6 s then 6 else 0)"

subsection \<open>Addresses the fetcher refuses\<close>

definition private_bytes :: "nat \<Rightarrow> nat \<Rightarrow> bool" where
  "private_bytes a b \<longleftrightarrow> a = 0 \<or> a = 10 \<or> a = 127 \<or> (a = 100 \<and> 64 \<le> b \<and> b \<le> 127) \<or> (a = 169 \<and> b = 254) \<or>
     (a = 172 \<and> 16 \<le> b \<and> b \<le> 31) \<or> (a = 192 \<and> b = 168) \<or> (a = 192 \<and> b = 0) \<or>
     (a = 198 \<and> (b = 18 \<or> b = 19)) \<or> 224 \<le> a"

text \<open>Called on dotted decimals only; a part that is no decimal number is refused.\<close>

definition isPrivateV4 :: "string \<Rightarrow> bool" where
  "isPrivateV4 s =
     (let parts = split_at (CHR ''.'') s
      in if length parts \<noteq> 4 \<or> \<not> list_all (\<lambda>p. digits p \<and> digits_value p \<le> 255) parts then True
         else private_bytes (digits_value (parts ! 0)) (digits_value (parts ! 1)))"

text \<open>\<^verbatim>\<open>^::(?:ffff:)?(\d+\.\d+\.\d+\.\d+)$\<close>\<close>

definition dotted :: "string \<Rightarrow> bool" where
  "dotted s \<longleftrightarrow> length (split_at (CHR ''.'') s) = 4 \<and> list_all digits (split_at (CHR ''.'') s)"

definition mapped_v4 :: "string \<Rightarrow> string option" where
  "mapped_v4 s =
     (case lit ''::ffff:'' s of
        Some r \<Rightarrow> if dotted r then Some r else None
      | None \<Rightarrow> (case lit ''::'' s of Some r \<Rightarrow> if dotted r then Some r else None | None \<Rightarrow> None))"

definition starts :: "string \<Rightarrow> string \<Rightarrow> bool" where
  "starts s p \<longleftrightarrow> lit p s \<noteq> None"

definition isPrivateV6 :: "string \<Rightarrow> bool" where
  "isPrivateV6 s =
     (let lower = to_lower s
      in case mapped_v4 lower of
           Some v4 \<Rightarrow> isPrivateV4 v4
         | None \<Rightarrow> lower = ''::'' \<or> lower = ''::1'' \<or>
             list_ex (starts lower) [''fe8'', ''fe9'', ''fea'', ''feb'', ''fc'', ''fd'', ''ff''])"

definition isPrivateAddress :: "string \<Rightarrow> bool" where
  "isPrivateAddress s = (if isIP s = 4 then isPrivateV4 s else if isIP s = 6 then isPrivateV6 s else True)"

subsection \<open>Robots rules\<close>

record robots_rule =
  rr_allow :: bool
  rr_prefix :: string

record robots_group =
  rg_agents :: "string list"
  rg_rules :: "robots_rule list"

text \<open>Groups are kept newest first while reading, with whether the last line named an agent.\<close>

fun strip_comment :: "string \<Rightarrow> string" where
  "strip_comment [] = []"
| "strip_comment (c # cs) = (if c = CHR ''#'' \<and> CHR 0x0D \<notin> set cs then [] else c # strip_comment cs)"

definition robots_line :: "robots_group list \<times> bool \<Rightarrow> string \<Rightarrow> robots_group list \<times> bool" where
  "robots_line st raw =
     (let line = js_trim (strip_comment raw);
          field = to_lower (js_trim (takeWhile (\<lambda>c. c \<noteq> CHR '':'') line));
          value = js_trim (tl (dropWhile (\<lambda>c. c \<noteq> CHR '':'') line))
      in if line = [] \<or> CHR '':'' \<notin> set line then st
         else if field = ''user-agent''
         then (case st of
                 (g # gs, True) \<Rightarrow> (g\<lparr>rg_agents := rg_agents g @ [to_lower value]\<rparr> # gs, True)
               | (gs, _) \<Rightarrow> (\<lparr>rg_agents = [to_lower value], rg_rules = []\<rparr> # gs, True))
         else if field = ''allow'' \<or> field = ''disallow''
         then (case st of
                 (g # gs, _) \<Rightarrow> (g\<lparr>rg_rules := rg_rules g @ [\<lparr>rr_allow = (field = ''allow''), rr_prefix = value\<rparr>]\<rparr> # gs, False)
               | ([], _) \<Rightarrow> ([], False))
         else (fst st, False))"

definition strip_cr :: "string \<Rightarrow> string" where
  "strip_cr s = (if s \<noteq> [] \<and> last s = CHR 0x0D then butlast s else s)"

definition text_lines :: "string \<Rightarrow> string list" where
  "text_lines s = (let ls = split_at (CHR 0x0A) s in map strip_cr (butlast ls) @ [last ls])"

definition robots_groups :: "string \<Rightarrow> robots_group list" where
  "robots_groups txt = rev (fst (foldl robots_line ([], False) (text_lines txt)))"

definition ROBOTS_TOKEN :: string where
  "ROBOTS_TOKEN = ''cogetoresearch''"

definition applicable_rules :: "robots_group list \<Rightarrow> robots_rule list" where
  "applicable_rules groups =
     (let named = filter (\<lambda>g. list_ex (contains ROBOTS_TOKEN) (rg_agents g)) groups
      in concat (map rg_rules (if named \<noteq> [] then named else filter (\<lambda>g. ''*'' \<in> set (rg_agents g)) groups)))"

fun best_rule :: "string \<Rightarrow> robots_rule option \<Rightarrow> robots_rule list \<Rightarrow> robots_rule option" where
  "best_rule path winner [] = winner"
| "best_rule path winner (r # rs) =
     best_rule path
       (if rr_prefix r = [] \<or> \<not> starts path (rr_prefix r) then winner
        else case winner of
          None \<Rightarrow> Some r
        | Some w \<Rightarrow> if length (rr_prefix w) < length (rr_prefix r) then Some r else winner) rs"

definition robotsAllows :: "string \<Rightarrow> string \<Rightarrow> bool" where
  "robotsAllows txt path =
     (case best_rule path None (applicable_rules (robots_groups txt)) of None \<Rightarrow> True | Some r \<Rightarrow> rr_allow r)"

subsection \<open>The outside world\<close>

record url =
  u_href :: string
  u_protocol :: string
  u_hostname :: string
  u_origin :: string
  u_pathname :: string
  u_search :: string

text \<open>A response: no chunks stand for a missing body, \<open>hr_breaks\<close> for a stream that fails.\<close>

record http_response =
  hr_status :: nat
  hr_location :: "string option"
  hr_content_type :: "string option"
  hr_chunks :: "string list"
  hr_breaks :: bool
  hr_url :: string

record web_env =
  we_parse :: "string \<Rightarrow> url option"
  we_relative :: "string \<Rightarrow> url \<Rightarrow> url option"
  we_addresses :: "string \<Rightarrow> string list option"
  we_fetch :: "string \<Rightarrow> http_response option"
  we_utf8 :: "string \<Rightarrow> string"
  we_decode :: "string \<Rightarrow> string option"
  we_pdf :: "string \<Rightarrow> nat \<Rightarrow> string option"
  we_html :: "string \<Rightarrow> string option \<times> string"
  we_max_bytes :: nat
  we_max_text_chars :: nat
  we_now :: time

datatype contact = PageRequest url | RobotsRequest string

text \<open>The requests sent, in order, and the robots files of this service instance.\<close>

record fetch_state =
  fs_contacts :: "contact list"
  fs_robots :: "string \<rightharpoonup> string option"

type_synonym 'a fetching = "(fetch_state, unit, 'a) act"

subsection \<open>The gate\<close>

definition strip_brackets :: "string \<Rightarrow> string" where
  "strip_brackets s =
     (let t = (case s of [] \<Rightarrow> [] | c # cs \<Rightarrow> if c = CHR ''['' then cs else s)
      in if t \<noteq> [] \<and> last t = CHR '']'' then butlast t else t)"

definition ends_with :: "string \<Rightarrow> string \<Rightarrow> bool" where
  "ends_with s p \<longleftrightarrow> length p \<le> length s \<and> drop (length s - length p) s = p"

definition refusalFor :: "web_env \<Rightarrow> url \<Rightarrow> string option" where
  "refusalFor env u =
     (if u_protocol u \<noteq> ''http:'' \<and> u_protocol u \<noteq> ''https:''
      then Some (''scheme '' @ [CHR 0x27] @ u_protocol u @ [CHR 0x27] @ '' is not allowed (http/https only)'')
      else let hostname = strip_brackets (u_hostname u) in
      if to_lower hostname = ''localhost'' \<or> ends_with (to_lower hostname) ''.localhost''
      then Some ''localhost is not fetchable''
      else if isIP hostname \<noteq> 0
      then (if isPrivateAddress hostname
            then Some (''address '' @ hostname @ '' is private/loopback/link-local'') else None)
      else case we_addresses env hostname of
        None \<Rightarrow> Some (''could not resolve '' @ hostname)
      | Some addresses \<Rightarrow>
          if addresses = [] then Some (''could not resolve '' @ hostname)
          else if list_ex isPrivateAddress addresses then Some (hostname @ '' resolves to a private address'') else None)"

subsection \<open>Reading responses\<close>

datatype read_result = ReadAll string | TooLarge | ReadFailed

fun read_chunks :: "nat \<Rightarrow> string \<Rightarrow> string list \<Rightarrow> bool \<Rightarrow> read_result" where
  "read_chunks maxBytes got [] breaks = (if breaks then ReadFailed else ReadAll got)"
| "read_chunks maxBytes got (c # cs) breaks =
     (if maxBytes < length got + length c then TooLarge else read_chunks maxBytes (got @ c) cs breaks)"

definition readCapped :: "http_response \<Rightarrow> nat \<Rightarrow> read_result" where
  "readCapped r maxBytes = read_chunks maxBytes [] (hr_chunks r) (hr_breaks r)"

definition response_ok :: "http_response \<Rightarrow> bool" where
  "response_ok r \<longleftrightarrow> 200 \<le> hr_status r \<and> hr_status r < 300"

definition redirect_target :: "http_response \<Rightarrow> string option" where
  "redirect_target r =
     (if hr_status r < 300 \<or> 400 \<le> hr_status r then None
      else case hr_location r of Some l \<Rightarrow> if l = [] then None else Some l | None \<Rightarrow> None)"

definition contact :: "contact \<Rightarrow> unit fetching" where
  "contact c = updates (\<lambda>s. s\<lparr>fs_contacts := fs_contacts s @ [c]\<rparr>)"

datatype hop_result = Answer http_response | RefusedHop string | NoAnswer

definition MAX_REDIRECTS :: nat where
  "MAX_REDIRECTS = 5"

text \<open>The hops still allowed count down; after the last one the loop throws.\<close>

fun follow_hops :: "web_env \<Rightarrow> nat \<Rightarrow> url \<Rightarrow> hop_result fetching" where
  "follow_hops env 0 current = ret NoAnswer"
| "follow_hops env (Suc hops) current =
     thenA (contact (PageRequest current))
     (case we_fetch env (u_href current) of
        None \<Rightarrow> ret NoAnswer
      | Some response \<Rightarrow>
          (case redirect_target response of
             None \<Rightarrow> ret (Answer response)
           | Some location \<Rightarrow>
               (case we_relative env location current of
                  None \<Rightarrow> ret NoAnswer
                | Some next_url \<Rightarrow>
                    (case refusalFor env next_url of
                       Some refusal \<Rightarrow> ret (RefusedHop (''redirect to a refused address: '' @ refusal))
                     | None \<Rightarrow> follow_hops env hops next_url))))"

definition followRedirects :: "web_env \<Rightarrow> url \<Rightarrow> hop_result fetching" where
  "followRedirects env start = follow_hops env (Suc MAX_REDIRECTS) start"

text \<open>
  The platform's own redirect handling, which the robots request leaves on: up to twenty
  further requests to wherever the answers point.
\<close>

definition platform_redirect :: "web_env \<Rightarrow> string \<Rightarrow> http_response \<Rightarrow> url option option" where
  "platform_redirect env address response =
     (if hr_status response \<notin> set [301, 302, 303, 307, 308] then None
      else map_option (\<lambda>location. Option.bind (we_parse env address) (we_relative env location)) (hr_location response))"

fun platform_fetch :: "web_env \<Rightarrow> nat \<Rightarrow> string \<Rightarrow> http_response option fetching" where
  "platform_fetch env 0 address = ret None"
| "platform_fetch env (Suc hops) address =
     thenA (contact (RobotsRequest address))
     (case we_fetch env address of
        None \<Rightarrow> ret None
      | Some response \<Rightarrow>
          (case platform_redirect env address response of
             None \<Rightarrow> ret (Some response)
           | Some None \<Rightarrow> ret None
           | Some (Some next_url) \<Rightarrow> platform_fetch env hops (u_href next_url)))"

definition ROBOTS_MAX_BYTES :: nat where
  "ROBOTS_MAX_BYTES = 128 * 1024"

definition robots_body :: "web_env \<Rightarrow> http_response option \<Rightarrow> string option" where
  "robots_body env answer =
     (case answer of
        None \<Rightarrow> None
      | Some r \<Rightarrow>
          if response_ok r
          then (case readCapped r ROBOTS_MAX_BYTES of ReadAll b \<Rightarrow> Some (we_utf8 env b) | _ \<Rightarrow> None)
          else None)"

definition robotsFor :: "web_env \<Rightarrow> string \<Rightarrow> string option fetching" where
  "robotsFor env origin =
     bindA (reads (\<lambda>s. fs_robots s origin)) (\<lambda>cached.
     case cached of
       Some body \<Rightarrow> ret body
     | None \<Rightarrow>
         bindA (platform_fetch env 21 (origin @ ''/robots.txt'')) (\<lambda>answer.
         let body = robots_body env answer in
         thenA (updates (\<lambda>s. s\<lparr>fs_robots := (fs_robots s)(origin \<mapsto> body)\<rparr>)) (ret body)))"

subsection \<open>A page\<close>

datatype page_type = Html | Pdf

record fetched_page =
  fp_requested :: string
  fp_final :: string
  fp_title :: "string option"
  fp_text :: string
  fp_type :: page_type
  fp_fetched_at :: time
  fp_raw_html :: "string option"

datatype skip_reason =
  RefusedAddress | BlockedByRobots | UnsupportedType | PageTooLarge | Unreachable | HttpError | EmptyPage

datatype fetch_outcome = Fetched fetched_page | SkippedPage string skip_reason string

definition content_type :: "http_response \<Rightarrow> string" where
  "content_type r = to_lower (js_trim (takeWhile (\<lambda>c. c \<noteq> CHR '';'') (or_else (hr_content_type r) [])))"

definition pdfTitleFromUrl :: "web_env \<Rightarrow> string \<Rightarrow> string option" where
  "pdfTitleFromUrl env address =
     (case we_parse env address of
        None \<Rightarrow> None
      | Some u \<Rightarrow>
          (let segments = filter (\<lambda>s. s \<noteq> []) (split_at (CHR ''/'') (u_pathname u))
           in case we_decode env (if segments = [] then [] else last segments) of
                Some t \<Rightarrow> if t = [] then None else Some t
              | None \<Rightarrow> None))"

definition pdf_outcome :: "web_env \<Rightarrow> string \<Rightarrow> string \<Rightarrow> string \<Rightarrow> fetch_outcome" where
  "pdf_outcome env requestedUrl finalUrl body =
     (case we_pdf env body (we_max_text_chars env) of
        None \<Rightarrow> SkippedPage requestedUrl EmptyPage ''the PDF could not be parsed''
      | Some txt \<Rightarrow>
          if js_trim txt = [] then SkippedPage requestedUrl EmptyPage ''the PDF contained no extractable text''
          else Fetched \<lparr>fp_requested = requestedUrl, fp_final = finalUrl, fp_title = pdfTitleFromUrl env finalUrl,
                 fp_text = txt, fp_type = Pdf, fp_fetched_at = we_now env, fp_raw_html = None\<rparr>)"

definition html_outcome :: "web_env \<Rightarrow> string \<Rightarrow> string \<Rightarrow> string \<Rightarrow> fetch_outcome" where
  "html_outcome env requestedUrl finalUrl body =
     (let rawHtml = we_utf8 env body; (title, readable) = we_html env rawHtml;
          txt = take (we_max_text_chars env) readable
      in if js_trim txt = [] then SkippedPage requestedUrl EmptyPage ''no readable content found on the page''
         else Fetched \<lparr>fp_requested = requestedUrl, fp_final = finalUrl, fp_title = title,
                fp_text = txt, fp_type = Html, fp_fetched_at = we_now env, fp_raw_html = Some rawHtml\<rparr>)"

definition outcome_of :: "web_env \<Rightarrow> string \<Rightarrow> url \<Rightarrow> http_response \<Rightarrow> fetch_outcome" where
  "outcome_of env requestedUrl u response =
     (if \<not> response_ok response then SkippedPage requestedUrl HttpError (''the server answered '' @ nat_digits (hr_status response))
      else let finalUrl = (if hr_url response = [] then u_href u else hr_url response);
               contentType = content_type response;
               isHtml = (contentType = ''text/html'' \<or> contentType = ''application/xhtml+xml'');
               isPdf = (contentType = ''application/pdf'')
      in if \<not> isHtml \<and> \<not> isPdf
         then SkippedPage requestedUrl UnsupportedType
                (''unsupported content type '' @ [CHR 0x27] @ (if contentType = [] then ''unknown'' else contentType) @ [CHR 0x27])
         else case readCapped response (we_max_bytes env) of
           TooLarge \<Rightarrow> SkippedPage requestedUrl PageTooLarge (''page exceeds the '' @ nat_digits (we_max_bytes env) @ ''-byte cap'')
         | ReadFailed \<Rightarrow> SkippedPage requestedUrl Unreachable ''the response body could not be read''
         | ReadAll body \<Rightarrow> if isPdf then pdf_outcome env requestedUrl finalUrl body
                          else html_outcome env requestedUrl finalUrl body)"

definition fetchPage :: "web_env \<Rightarrow> string \<Rightarrow> fetch_outcome fetching" where
  "fetchPage env requestedUrl =
     (case we_parse env requestedUrl of
        None \<Rightarrow> ret (SkippedPage requestedUrl RefusedAddress ''not a valid URL'')
      | Some u \<Rightarrow>
          (case refusalFor env u of
             Some refusal \<Rightarrow> ret (SkippedPage requestedUrl RefusedAddress refusal)
           | None \<Rightarrow>
               bindA (robotsFor env (u_origin u)) (\<lambda>robots.
               if (case robots of None \<Rightarrow> False | Some txt \<Rightarrow> \<not> robotsAllows txt (u_pathname u @ u_search u))
               then ret (SkippedPage requestedUrl BlockedByRobots (''robots.txt disallows '' @ u_pathname u))
               else bindA (followRedirects env u) (\<lambda>hop.
                    case hop of
                      RefusedHop message \<Rightarrow> ret (SkippedPage requestedUrl RefusedAddress message)
                    | NoAnswer \<Rightarrow>
                        ret (SkippedPage requestedUrl Unreachable ''could not fetch the page (network error or timeout)'')
                    | Answer response \<Rightarrow> ret (outcome_of env requestedUrl u response)))))"

end
