(* ===== verification/Web_Laws.thy ===== *)
theory Web_Laws
  imports Web_Fetch
begin

text \<open>
  What the page fetcher promises: the checks on decimal addresses are the reserved blocks of
  the address space, every page request of a run went to a target outside blocks and ranges that
  are stated here by their numeric values, and the robots rule applied is the longest one that
  matches.
\<close>

subsection \<open>Addresses as 32-bit words\<close>

definition v4_text :: "8 word \<Rightarrow> 8 word \<Rightarrow> 8 word \<Rightarrow> 8 word \<Rightarrow> string" where
  "v4_text a b c d = join ''.'' (map (\<lambda>x. nat_digits (unat x)) [a, b, c, d])"

definition v4_word :: "8 word \<Rightarrow> 8 word \<Rightarrow> 8 word \<Rightarrow> 8 word \<Rightarrow> 32 word" where
  "v4_word a b c d = push_bit 24 (ucast a) + push_bit 16 (ucast b) + push_bit 8 (ucast c) + ucast d"

definition in_block :: "32 word \<Rightarrow> 32 word \<times> nat \<Rightarrow> bool" where
  "in_block w block = (case block of (base, prefix) \<Rightarrow> drop_bit (32 - prefix) w = drop_bit (32 - prefix) base)"

definition REFUSED_BLOCKS :: "(32 word \<times> nat) list" where
  "REFUSED_BLOCKS =
     [(v4_word 0 0 0 0, 8), (v4_word 10 0 0 0, 8), (v4_word 127 0 0 0, 8), (v4_word 100 64 0 0, 10),
      (v4_word 169 254 0 0, 16), (v4_word 172 16 0 0, 12), (v4_word 192 168 0 0, 16), (v4_word 192 0 0 0, 16),
      (v4_word 198 18 0 0, 15), (v4_word 224 0 0 0, 3)]"

lemma split_at_none: "sep \<notin> set s \<Longrightarrow> split_at sep s = [s]"
  by (induction s) auto

lemma split_at_append: "sep \<notin> set s \<Longrightarrow> split_at sep (s @ sep # t) = s # split_at sep t"
  by (induction s) auto

lemma digits_no_dot: "CHR ''.'' \<notin> set (nat_digits n)"
  using nat_digits_props [of n] by (auto simp: is_digit_def)

lemma digits_nat: "digits (nat_digits n)"
  using nat_digits_props [of n] by (auto simp: digits_def list_all_iff)

lemma split_v4: "split_at (CHR ''.'') (v4_text a b c d) = map (\<lambda>x. nat_digits (unat x)) [a, b, c, d]"
  by (simp add: v4_text_def split_at_append split_at_none digits_no_dot)

lemma byte_bound: "unat (x :: 8 word) < 256"
  using unsigned_less [of x, where 'a = nat] by simp

lemma isPrivateV4_text: "isPrivateV4 (v4_text a b c d) = private_bytes (unat a) (unat b)"
proof -
  have "unat x \<le> 255" for x :: "8 word" using byte_bound [of x] by simp
  then show ?thesis
    by (simp add: isPrivateV4_def split_v4 Let_def digits_nat nat_digits_props)
qed

lemma unat_v4_word: "unat (v4_word a b c d) = unat a * 16777216 + unat b * 65536 + unat c * 256 + unat d"
proof -
  note lt = byte_bound
  have u: "unat (push_bit n (ucast x :: 32 word)) = unat x * 2 ^ n" if "n \<le> 24" for n and x :: "8 word"
  proof -
    have "unat x * 2 ^ n \<le> 255 * 2 ^ n" using lt [of x] by (intro mult_right_mono) auto
    also have "\<dots> \<le> 255 * 2 ^ 24" using that by (intro mult_left_mono power_increasing) auto
    finally have "unat x * 2 ^ n < 2 ^ 32" by simp
    then show ?thesis
      using lt [of x] by (simp add: unsigned_push_bit_eq unsigned_ucast_eq take_bit_eq_mod push_bit_eq_mult [where ?'a = nat])
  qed
  have "unat (ucast d :: 32 word) = unat d"
    using lt [of d] by (simp add: unsigned_ucast_eq take_bit_eq_mod)
  then show ?thesis
    using lt [of a] lt [of b] lt [of c] lt [of d]
    by (simp add: v4_word_def unat_word_ariths u)
qed

lemma in_block_div:
  "in_block w (base, prefix) \<longleftrightarrow> unat w div 2 ^ (32 - prefix) = unat base div 2 ^ (32 - prefix)"
  by (simp only: in_block_def prod.case word_unat_eq_iff unat_drop_bit_eq) (simp add: drop_bit_eq_div)

lemma div_eq_iff_nat: "0 < k \<Longrightarrow> (x :: nat) div k = q \<longleftrightarrow> q * k \<le> x \<and> x < Suc q * k"
proof -
  assume "0 < k"
  then have "q \<le> x div k \<longleftrightarrow> q * k \<le> x" "x div k < Suc q \<longleftrightarrow> x < Suc q * k"
    by (simp_all add: less_eq_div_iff_mult_less_eq div_less_iff_less_mult)
  then show ?thesis by auto
qed

lemma first_bytes:
  fixes a b r :: nat
  assumes "b < 256" "r < 65536"
  shows "(a * 16777216 + b * 65536 + r) div (65536 * k) = (a * 256 + b) div k"
proof -
  have "(a * 16777216 + b * 65536 + r) div 65536 = a * 256 + b"
    using assms by (simp add: div_eq_iff_nat)
  then show ?thesis by (simp add: div_mult2_eq)
qed

lemma high_byte: "b < 256 \<Longrightarrow> ((a :: nat) * 256 + b) div 256 = a"
  by (simp add: div_eq_iff_nat)

text \<open>A block shorter than 16 bits fixes the first byte and bounds the second one.\<close>

lemma second_byte:
  fixes a b :: nat
  assumes "b < 256" "k * l = 256"
  shows "(a * 256 + b) div k = n \<longleftrightarrow> a = n div l \<and> n * k \<le> n div l * 256 + b \<and> n div l * 256 + b < Suc n * k"
proof -
  have k: "0 < k" using assms(2) by (cases k) auto
  have "a = n div l" if "(a * 256 + b) div k = n"
    using high_byte [OF assms(1), of a] that assms(2) by (metis div_mult2_eq)
  then show ?thesis using div_eq_iff_nat [OF k, of "a * 256 + b" n] by auto
qed

lemma block10: "b < 256 \<Longrightarrow> ((a :: nat) * 256 + b) div 64 = 401 \<longleftrightarrow> a = 100 \<and> 64 \<le> b \<and> b \<le> 127"
  by (subst second_byte [of b 64 4]) auto

lemma block12: "b < 256 \<Longrightarrow> ((a :: nat) * 256 + b) div 16 = 2753 \<longleftrightarrow> a = 172 \<and> 16 \<le> b \<and> b \<le> 31"
  by (subst second_byte [of b 16 16]) auto

lemma block15: "b < 256 \<Longrightarrow> ((a :: nat) * 256 + b) div 2 = 25353 \<longleftrightarrow> a = 198 \<and> (b = 18 \<or> b = 19)"
  by (subst second_byte [of b 2 128]) auto

lemma block16: "b < 256 \<Longrightarrow> ((a :: nat) * 256 + b) div 1 = n \<longleftrightarrow> a = n div 256 \<and> b = n mod 256"
  by auto

lemma block3: "b < 256 \<Longrightarrow> (a :: nat) < 256 \<Longrightarrow> (a * 256 + b) div 8192 = 7 \<longleftrightarrow> 224 \<le> a"
  by (simp add: div_eq_iff_nat) linarith

lemma nat_digits_short:
  assumes "n < 1000"
  shows "nat_digits n = (if n < 10 then [digit_char n]
     else if n < 100 then [digit_char (n div 10), digit_char (n mod 10)]
     else [digit_char (n div 100), digit_char (n div 10 mod 10), digit_char (n mod 10)])"
proof -
  have "n div 10 < 10 \<longleftrightarrow> n < 100" "n div 10 div 10 = n div 100" "n div 100 < 10"
    using assms by (simp_all add: div_less_iff_less_mult div_mult2_eq [symmetric])
  then show ?thesis
    by (simp add: nat_digits.simps [of n] nat_digits.simps [of "n div 10"] nat_digits.simps [of "n div 100"])
qed

lemma digit_char_zero: "n < 10 \<Longrightarrow> digit_char n = CHR ''0'' \<Longrightarrow> n = 0"
proof -
  assume "n < 10" "digit_char n = CHR ''0''"
  then have "(of_char (digit_char n) :: nat) = 48" by simp
  with digit_char_code [OF \<open>n < 10\<close>] show ?thesis by simp
qed

lemma short_digits:
  "n < 256 \<Longrightarrow> length (nat_digits n) \<le> 3 \<and> (hd (nat_digits n) = CHR ''0'' \<longrightarrow> length (nat_digits n) = 1)"
  using digit_char_zero [of "n div 10"] digit_char_zero [of "n div 100"]
  by (auto simp: nat_digits_short div_less_iff_less_mult)

lemma isIP_v4: "isIP (v4_text a b c d) = 4"
proof -
  have "v4_segment (nat_digits (unat x))" for x :: "8 word"
  proof -
    let ?n = "unat x"
    have d: "digits (nat_digits ?n)" "digits_value (nat_digits ?n) = ?n"
      using digits_nat nat_digits_props by auto
    have "length (nat_digits ?n) \<le> 3 \<and> (hd (nat_digits ?n) = CHR ''0'' \<longrightarrow> length (nat_digits ?n) = 1)"
      using byte_bound [of x] by (rule short_digits)
    then show ?thesis using byte_bound [of x] d by (simp add: v4_segment_def)
  qed
  then show ?thesis by (simp add: isIP_def is_v4_def split_v4)
qed

lemma in_blocks:
  fixes a b c d :: "8 word" and n :: nat
  shows "in_block (v4_word a b c d) (v4_word a' b' 0 0, 8) \<longleftrightarrow> unat a = unat a'"
    and "in_block (v4_word a b c d) (v4_word a' b' 0 0, 16) \<longleftrightarrow> unat a = unat a' \<and> unat b = unat b'"
    and "in_block (v4_word a b c d) (v4_word 100 64 0 0, 10) \<longleftrightarrow> unat a = 100 \<and> 64 \<le> unat b \<and> unat b \<le> 127"
    and "in_block (v4_word a b c d) (v4_word 172 16 0 0, 12) \<longleftrightarrow> unat a = 172 \<and> 16 \<le> unat b \<and> unat b \<le> 31"
    and "in_block (v4_word a b c d) (v4_word 198 18 0 0, 15) \<longleftrightarrow> unat a = 198 \<and> (unat b = 18 \<or> unat b = 19)"
    and "in_block (v4_word a b c d) (v4_word 224 0 0 0, 3) \<longleftrightarrow> 224 \<le> unat a"
proof -
  have N: "unat (v4_word p q r s) div (65536 * k) = (unat p * 256 + unat q) div k"
    for p q r s :: "8 word" and k
    using first_bytes [of "unat q" "unat r * 256 + unat s" "unat p" k] byte_bound [of q] byte_bound [of r] byte_bound [of s]
    by (simp add: unat_v4_word add.assoc)
  note sizes = byte_bound [of a] byte_bound [of b]
  show "in_block (v4_word a b c d) (v4_word a' b' 0 0, 8) \<longleftrightarrow> unat a = unat a'"
    using N [of _ _ _ _ 256] high_byte sizes byte_bound [of b'] by (simp add: in_block_div)
  show "in_block (v4_word a b c d) (v4_word a' b' 0 0, 16) \<longleftrightarrow> unat a = unat a' \<and> unat b = unat b'"
    using N [of _ _ _ _ 1] block16 [of "unat b" "unat a"] sizes byte_bound [of b'] by (simp add: in_block_div)
  show "in_block (v4_word a b c d) (v4_word 100 64 0 0, 10) \<longleftrightarrow> unat a = 100 \<and> 64 \<le> unat b \<and> unat b \<le> 127"
    using N [of _ _ _ _ 64] block10 sizes by (simp add: in_block_div)
  show "in_block (v4_word a b c d) (v4_word 172 16 0 0, 12) \<longleftrightarrow> unat a = 172 \<and> 16 \<le> unat b \<and> unat b \<le> 31"
    using N [of _ _ _ _ 16] block12 sizes by (simp add: in_block_div)
  show "in_block (v4_word a b c d) (v4_word 198 18 0 0, 15) \<longleftrightarrow> unat a = 198 \<and> (unat b = 18 \<or> unat b = 19)"
    using N [of _ _ _ _ 2] block15 sizes by (simp add: in_block_div)
  show "in_block (v4_word a b c d) (v4_word 224 0 0 0, 3) \<longleftrightarrow> 224 \<le> unat a"
    using N [of _ _ _ _ 8192] block3 sizes by (simp add: in_block_div)
qed

text \<open>
  On dotted decimal addresses the byte comparisons of the address check are membership of
  the 32-bit address in ten prefix blocks.
\<close>

theorem v4_blocks:
  "isPrivateAddress (v4_text a b c d) \<longleftrightarrow> list_ex (in_block (v4_word a b c d)) REFUSED_BLOCKS"
  by (auto simp: isPrivateAddress_def isIP_v4 isPrivateV4_text private_bytes_def REFUSED_BLOCKS_def in_blocks)

subsection \<open>Every hop passes the gate\<close>

text \<open>
  The specification, on values rather than text: an IPv4 address lies in one of the blocks; an
  IPv6 address is unspecified or loopback, or its first group puts it in the link-local,
  unique-local or multicast range, or it carries a blocked IPv4 address as a dotted quad.
\<close>

definition blocked_v4 :: "string \<Rightarrow> bool" where
  "blocked_v4 s \<longleftrightarrow> (\<exists>a b c d. s = v4_text a b c d \<and> list_ex (in_block (v4_word a b c d)) REFUSED_BLOCKS)"

definition hex_value :: "char \<Rightarrow> nat" where
  "hex_value c = (let n = (of_char c :: nat) in if n \<le> 57 then n - 48 else if n \<le> 70 then n - 55 else n - 87)"

definition group_value :: "string \<Rightarrow> nat" where
  "group_value s = foldl (\<lambda>n c. 16 * n + hex_value c) 0 s"

definition first_group :: "string \<Rightarrow> string" where
  "first_group s = takeWhile (\<lambda>c. c \<noteq> CHR '':'') s"

definition blocked_v6 :: "string \<Rightarrow> bool" where
  "blocked_v6 s \<longleftrightarrow> s = ''::'' \<or> s = ''::1'' \<or>
     (\<exists>q. (to_lower s = ''::ffff:'' @ q \<or> s = ''::'' @ q) \<and> blocked_v4 q) \<or>
     (v6_segment (first_group s) \<and>
      (let g = group_value (first_group s) in
       0xFE80 \<le> g \<and> g \<le> 0xFEBF \<or> 0xFC00 \<le> g \<and> g \<le> 0xFDFF \<or> 0xFF00 \<le> g))"

definition blocked :: "string \<Rightarrow> bool" where
  "blocked s \<longleftrightarrow> blocked_v4 s \<or> isIP s = 6 \<and> blocked_v6 s"

definition safe_target :: "web_env \<Rightarrow> url \<Rightarrow> bool" where
  "safe_target env u \<longleftrightarrow>
     (u_protocol u = ''http:'' \<or> u_protocol u = ''https:'') \<and>
     (let host = strip_brackets (u_hostname u) in
      to_lower host \<noteq> ''localhost'' \<and> \<not> ends_with (to_lower host) ''.localhost'' \<and> \<not> blocked host \<and>
      (isIP host \<noteq> 0 \<or> (\<exists>addresses. we_addresses env host = Some addresses \<and> addresses \<noteq> [] \<and>
         (\<forall>x \<in> set addresses. isIP x \<noteq> 0 \<and> \<not> blocked x))))"

lemma blocked_v4_text: "blocked_v4 q \<Longrightarrow> \<exists>a b c d. q = v4_text a b c d \<and> private_bytes (unat a) (unat b)"
  by (auto simp: blocked_v4_def REFUSED_BLOCKS_def in_blocks private_bytes_def)

lemma blocked_v4_private: "blocked_v4 s \<Longrightarrow> isPrivateAddress s"
  using blocked_v4_text [of s] by (auto simp: isPrivateAddress_def isIP_v4 isPrivateV4_text)

text \<open>A hexadecimal digit in lower case, by its value.\<close>

lemma lower_hex:
  assumes "hex_digit_char c"
  shows "hex_value c < 16" and "(of_char (lower_char c) :: nat) = (if hex_value c < 10 then 48 + hex_value c else 87 + hex_value c)"
proof -
  have c: "48 \<le> n \<and> n \<le> 57 \<or> 97 \<le> n \<and> n \<le> 102 \<or> 65 \<le> n \<and> n \<le> 70" if "n = (of_char c :: nat)" for n
    using assms that by (auto simp: hex_digit_char_def is_digit_def in_range_def)
  show "hex_value c < 16" using c [OF refl] by (auto simp: hex_value_def Let_def)
  show "(of_char (lower_char c) :: nat) = (if hex_value c < 10 then 48 + hex_value c else 87 + hex_value c)"
    using c [OF refl] by (auto simp: hex_value_def lower_char_def Let_def)
qed

lemma lower_digit:
  assumes "hex_digit_char c"
  shows "hex_value c = 15 \<Longrightarrow> lower_char c = CHR ''f''" "hex_value c = 14 \<Longrightarrow> lower_char c = CHR ''e''"
    "hex_value c = 13 \<Longrightarrow> lower_char c = CHR ''d''" "hex_value c = 12 \<Longrightarrow> lower_char c = CHR ''c''"
    "hex_value c = 11 \<Longrightarrow> lower_char c = CHR ''b''" "hex_value c = 10 \<Longrightarrow> lower_char c = CHR ''a''"
    "hex_value c = 9 \<Longrightarrow> lower_char c = CHR ''9''" "hex_value c = 8 \<Longrightarrow> lower_char c = CHR ''8''"
proof -
  have eq: "lower_char c = d" if "(of_char (lower_char c) :: nat) = of_char d" for d
    using that by (metis char_of_char)
  show "hex_value c = 15 \<Longrightarrow> lower_char c = CHR ''f''" "hex_value c = 14 \<Longrightarrow> lower_char c = CHR ''e''"
    "hex_value c = 13 \<Longrightarrow> lower_char c = CHR ''d''" "hex_value c = 12 \<Longrightarrow> lower_char c = CHR ''c''"
    "hex_value c = 11 \<Longrightarrow> lower_char c = CHR ''b''" "hex_value c = 10 \<Longrightarrow> lower_char c = CHR ''a''"
    "hex_value c = 9 \<Longrightarrow> lower_char c = CHR ''9''" "hex_value c = 8 \<Longrightarrow> lower_char c = CHR ''8''"
    by (rule eq; simp add: lower_hex(2) [OF assms])+
qed

lemma group_bound: "list_all hex_digit_char s \<Longrightarrow> group_value s < 16 ^ length s"
proof (induction s rule: rev_induct)
  case (snoc c s)
  then show ?case using lower_hex(1) [of c] by (simp add: group_value_def)
qed (simp add: group_value_def)

text \<open>The first four characters of an address in one of the three ranges.\<close>

lemma high_group:
  assumes seg: "v6_segment g" and range: "0xFE80 \<le> group_value g \<and> group_value g \<le> 0xFEBF \<or>
      0xFC00 \<le> group_value g \<and> group_value g \<le> 0xFDFF \<or> 0xFF00 \<le> group_value g"
  shows "list_ex (starts (to_lower (g @ t))) [''fe8'', ''fe9'', ''fea'', ''feb'', ''fc'', ''fd'', ''ff'']"
proof -
  have len: "length g \<le> 4" and hex: "list_all hex_digit_char g" using seg by (simp_all add: v6_segment_def)
  have "length g = 4"
  proof (rule ccontr)
    assume "length g \<noteq> 4"
    then have "(16 :: nat) ^ length g \<le> 16 ^ 3" using len by (intro power_increasing) auto
    with group_bound [OF hex] range show False by simp
  qed
  then obtain a b c d where g: "g = [a, b, c, d]" by (auto simp: length_Suc_conv eval_nat_numeral)
  with hex have h: "hex_digit_char a" "hex_digit_char b" "hex_digit_char c" "hex_digit_char d" by simp_all
  have v: "group_value g = 4096 * hex_value a + 256 * hex_value b + 16 * hex_value c + hex_value d"
    by (simp add: g group_value_def)
  note lt = lower_hex(1) [OF h(1)] lower_hex(1) [OF h(2)] lower_hex(1) [OF h(3)] lower_hex(1) [OF h(4)]
  from range have "0xFC00 \<le> group_value g" by auto
  with v lt have a: "hex_value a = 15" by linarith
  from range have "hex_value b = 14 \<and> hex_value c \<in> {8, 9, 10, 11} \<or> hex_value b \<in> {12, 13, 15}"
  proof (elim disjE conjE)
    assume r: "0xFE80 \<le> group_value g" "group_value g \<le> 0xFEBF"
    then have "hex_value b = 14" using v lt a by linarith
    moreover from this have "8 \<le> hex_value c \<and> hex_value c \<le> 11" using v lt a r by linarith
    ultimately show ?thesis by auto
  next
    assume r: "0xFC00 \<le> group_value g" "group_value g \<le> 0xFDFF"
    then have "12 \<le> hex_value b \<and> hex_value b \<le> 13" using v lt a by linarith
    then show ?thesis by auto
  next
    assume "0xFF00 \<le> group_value g"
    then have "hex_value b = 15" using v lt a by linarith
    then show ?thesis by auto
  qed
  then show ?thesis
    using lower_digit [OF h(1)] lower_digit [OF h(2)] lower_digit [OF h(3)] a
    by (auto simp: g to_lower_def starts_def lit_def)
qed

lemma to_lower_append: "to_lower (s @ t) = to_lower s @ to_lower t"
  by (simp add: to_lower_def)

lemma v4_chars: "x \<in> set (v4_text a b c d) \<Longrightarrow> is_digit x \<or> x = CHR ''.''"
  using nat_digits_props by (auto simp: v4_text_def)

lemma lower_v4: "to_lower (v4_text a b c d) = v4_text a b c d"
proof -
  have "lower_char x = x" if "x \<in> set (v4_text a b c d)" for x
    using v4_chars [OF that] by (auto simp: is_digit_def lower_char_def Let_def)
  then show ?thesis by (simp add: to_lower_def map_idI)
qed

lemma dotted_v4: "dotted (v4_text a b c d)"
  by (simp add: dotted_def split_v4 digits_nat)

lemma v4_starts: "take (Suc n) (v4_text a b c d) \<noteq> CHR ''f'' # xs"
proof
  assume "take (Suc n) (v4_text a b c d) = CHR ''f'' # xs"
  then have "CHR ''f'' \<in> set (v4_text a b c d)" by (metis in_set_takeD list.set_intros(1))
  then show False using v4_chars [of "CHR ''f''"] by (auto simp: is_digit_def)
qed

lemma blocked_v6_private:
  assumes "blocked_v6 s"
  shows "isPrivateV6 s"
  using assms unfolding blocked_v6_def
proof (elim disjE exE conjE)
  assume "s = ''::''"
  moreover have "isPrivateV6 ''::''" by code_simp
  ultimately show ?thesis by simp
next
  assume "s = ''::1''"
  moreover have "isPrivateV6 ''::1''" by code_simp
  ultimately show ?thesis by simp
next
  fix q
  assume s: "to_lower s = ''::ffff:'' @ q" and "blocked_v4 q"
  then obtain a b c d where q: "q = v4_text a b c d" "private_bytes (unat a) (unat b)" using blocked_v4_text by blast
  have "mapped_v4 (to_lower s) = Some q" by (simp add: s mapped_v4_def lit_def q(1) dotted_v4)
  then show ?thesis using q by (simp add: isPrivateV6_def Let_def isPrivateV4_text)
next
  fix q
  assume s: "s = ''::'' @ q" and "blocked_v4 q"
  then obtain a b c d where q: "q = v4_text a b c d" "private_bytes (unat a) (unat b)" using blocked_v4_text by blast
  have "to_lower s = ''::'' @ q" by (simp only: s to_lower_append q(1) lower_v4) (simp add: to_lower_def lower_char_def)
  moreover have "mapped_v4 (''::'' @ q) = Some q"
    using v4_starts [of "Suc (Suc (Suc (Suc 0)))" a b c d "''fff:''"] by (simp add: mapped_v4_def lit_def q(1) dotted_v4)
  ultimately show ?thesis using q by (simp add: isPrivateV6_def Let_def isPrivateV4_text)
next
  assume seg: "v6_segment (first_group s)"
    and range: "let g = group_value (first_group s) in
      0xFE80 \<le> g \<and> g \<le> 0xFEBF \<or> 0xFC00 \<le> g \<and> g \<le> 0xFDFF \<or> 0xFF00 \<le> g"
  have s: "s = first_group s @ dropWhile (\<lambda>c. c \<noteq> CHR '':'') s" by (simp add: first_group_def)
  have ex: "list_ex (starts (to_lower s)) [''fe8'', ''fe9'', ''fea'', ''feb'', ''fc'', ''fd'', ''ff'']"
    by (subst s) (rule high_group [OF seg range [unfolded Let_def]])
  then obtain cs where "to_lower s = CHR ''f'' # cs" by (cases "to_lower s") (auto simp: starts_def lit_def split: if_splits)
  then have "mapped_v4 (to_lower s) = None" by (simp add: mapped_v4_def lit_def)
  with ex show ?thesis by (simp add: isPrivateV6_def Let_def)
qed

lemma blocked_private: "blocked s \<Longrightarrow> isPrivateAddress s"
  using blocked_v4_private blocked_v6_private by (auto simp: blocked_def isPrivateAddress_def)

lemma private_not_ip: "isIP s = 0 \<Longrightarrow> isPrivateAddress s"
  by (simp add: isPrivateAddress_def)

lemma refusalFor_None:
  assumes "refusalFor env u = None"
  shows "safe_target env u"
proof -
  let ?host = "strip_brackets (u_hostname u)"
  have proto: "u_protocol u = ''http:'' \<or> u_protocol u = ''https:''"
    and host: "to_lower ?host \<noteq> ''localhost''" "\<not> ends_with (to_lower ?host) ''.localhost''"
    and literal: "isIP ?host \<noteq> 0 \<Longrightarrow> \<not> isPrivateAddress ?host"
    and name: "isIP ?host = 0 \<Longrightarrow> \<exists>addresses. we_addresses env ?host = Some addresses \<and> addresses \<noteq> [] \<and>
        \<not> list_ex isPrivateAddress addresses"
    using assms by (auto simp: refusalFor_def Let_def split: if_splits option.splits)
  have "\<not> blocked ?host"
  proof (cases "isIP ?host = 0")
    case True
    then show ?thesis by (auto simp: blocked_def blocked_v4_def isIP_v4)
  next
    case False
    with literal blocked_private show ?thesis by blast
  qed
  moreover have "isIP ?host \<noteq> 0 \<or> (\<exists>addresses. we_addresses env ?host = Some addresses \<and> addresses \<noteq> [] \<and>
      (\<forall>x \<in> set addresses. isIP x \<noteq> 0 \<and> \<not> blocked x))"
    using name blocked_private private_not_ip by (fastforce simp: list_ex_iff)
  ultimately show ?thesis using proto host by (simp add: safe_target_def Let_def)
qed

lemma follow_hops_gated:
  "safe_target env u \<Longrightarrow> follow_hops env n u s = (r, s') \<Longrightarrow>
     \<exists>us. s' = s\<lparr>fs_contacts := fs_contacts s @ map PageRequest us\<rparr> \<and> length us \<le> n \<and> list_all (safe_target env) us"
proof (induction n arbitrary: u s)
  case 0
  then show ?case by (intro exI [of _ "[]"]) (auto simp: act_defs)
next
  case (Suc n)
  let ?s = "s\<lparr>fs_contacts := fs_contacts s @ [PageRequest u]\<rparr>"
  show ?case
  proof (cases "s' = ?s")
    case True
    then show ?thesis using Suc.prems(1) by (intro exI [of _ "[u]"]) auto
  next
    case False
    then obtain v where v: "refusalFor env v = None" "follow_hops env n v ?s = (r, s')"
      using Suc.prems(2) by (auto simp: contact_def act_defs split: option.splits)
    from Suc.IH [OF refusalFor_None [OF v(1)] v(2)] obtain us where
      "s' = ?s\<lparr>fs_contacts := fs_contacts ?s @ map PageRequest us\<rparr>" "length us \<le> n" "list_all (safe_target env) us"
      by blast
    then show ?thesis using Suc.prems(1) by (intro exI [of _ "u # us"]) auto
  qed
qed

lemma platform_fetch_contacts:
  "platform_fetch env n address s = (r, s') \<Longrightarrow>
     \<exists>rs x. r = Inr x \<and> s' = s\<lparr>fs_contacts := fs_contacts s @ map RobotsRequest rs\<rparr> \<and> length rs \<le> n"
proof (induction n arbitrary: address s)
  case 0
  then show ?case by (intro exI [of _ "[]"]) (auto simp: act_defs)
next
  case (Suc n)
  let ?s = "s\<lparr>fs_contacts := fs_contacts s @ [RobotsRequest address]\<rparr>"
  have "(\<exists>x. r = Inr x \<and> s' = ?s) \<or> (\<exists>v :: url. platform_fetch env n (u_href v) ?s = (r, s'))"
    using Suc.prems by (auto simp: contact_def act_defs split: option.splits)
  then show ?case
  proof (elim disjE exE conjE)
    fix x assume "r = Inr x" "s' = ?s"
    then show ?thesis by (intro exI [of _ "[address]"]) auto
  next
    fix v :: url assume "platform_fetch env n (u_href v) ?s = (r, s')"
    from Suc.IH [OF this] obtain rs x where "r = Inr x"
      "s' = ?s\<lparr>fs_contacts := fs_contacts ?s @ map RobotsRequest rs\<rparr>" "length rs \<le> n" by blast
    then show ?thesis by (intro exI [of _ "address # rs"]) auto
  qed
qed

lemma robotsFor_run:
  "\<exists>rs body s'. robotsFor env origin s = (Inr body, s') \<and> length rs \<le> 21 \<and>
     fs_contacts s' = fs_contacts s @ map RobotsRequest rs \<and> fs_robots s' origin = Some body"
proof (cases "fs_robots s origin")
  case (Some body)
  then show ?thesis by (intro exI [of _ "[]"] exI [of _ body] exI [of _ s]) (auto simp: robotsFor_def act_defs)
next
  case None
  obtain x t where f: "platform_fetch env 21 (origin @ ''/robots.txt'') s = (x, t)" by fastforce
  from platform_fetch_contacts [OF f] obtain rs answer where
    "x = Inr answer" "t = s\<lparr>fs_contacts := fs_contacts s @ map RobotsRequest rs\<rparr>" "length rs \<le> 21" by blast
  with None f show ?thesis
    by (intro exI [of _ rs]) (auto simp: robotsFor_def act_defs Let_def)
qed

text \<open>
  C32. Every page request of a fetch, redirects included, goes to an http or https URL whose
  host is not localhost, is outside the listed private, loopback, link-local, shared,
  documentation, benchmark, multicast and reserved ranges when it is an address, and is a name
  with only addresses outside them otherwise; there are at most six of them, and none when the
  robots file of the requested origin disallows the path. IPv6 ranges are unspecified,
  loopback, fe80::/10, fc00::/7, ff00::/8 and addresses that embed a refused IPv4 address in
  dotted form; the hexadecimal form is not recognised by the code and not covered, nor are
  redirects of the robots request (both reported as findings).
\<close>

theorem page_hops_gated:
  "\<exists>rs us. fs_contacts (snd (fetchPage env requested s)) =
       fs_contacts s @ map RobotsRequest rs @ map PageRequest us \<and>
     length rs \<le> 21 \<and> length us \<le> 6 \<and> list_all (safe_target env) us \<and>
     (us = [] \<or> (\<exists>u robots. we_parse env requested = Some u \<and>
        fs_robots (snd (fetchPage env requested s)) (u_origin u) = Some robots \<and>
        (case robots of None \<Rightarrow> True | Some txt \<Rightarrow> robotsAllows txt (u_pathname u @ u_search u))))"
proof (cases "\<exists>u. we_parse env requested = Some u \<and> refusalFor env u = None")
  case False
  then have "snd (fetchPage env requested s) = s"
    by (auto simp: fetchPage_def ret_def split: option.splits)
  then show ?thesis by (intro exI [of _ "[]"]) auto
next
  case True
  then obtain u where u: "we_parse env requested = Some u" "refusalFor env u = None" by blast
  obtain rs robots t where robots: "robotsFor env (u_origin u) s = (Inr robots, t)" "length rs \<le> 21"
    "fs_contacts t = fs_contacts s @ map RobotsRequest rs" "fs_robots t (u_origin u) = Some robots"
    using robotsFor_run by blast
  show ?thesis
  proof (cases "case robots of None \<Rightarrow> False | Some txt \<Rightarrow> \<not> robotsAllows txt (u_pathname u @ u_search u)")
    case True
    then have "snd (fetchPage env requested s) = t"
      using u robots(1) by (simp add: fetchPage_def bindA_def ret_def)
    then show ?thesis using robots by (intro exI [of _ rs] exI [of _ "[]"]) auto
  next
    case False
    obtain r t' where hops: "followRedirects env u t = (r, t')" by fastforce
    then obtain us where us: "t' = t\<lparr>fs_contacts := fs_contacts t @ map PageRequest us\<rparr>"
        "length us \<le> 6" "list_all (safe_target env) us"
      using follow_hops_gated [OF refusalFor_None [OF u(2)], of "Suc MAX_REDIRECTS" t r t']
      by (auto simp: followRedirects_def MAX_REDIRECTS_def)
    have "snd (fetchPage env requested s) = t'"
      using u robots(1) False hops
      by (cases r) (auto simp: fetchPage_def bindA_def ret_def split: hop_result.split)
    then show ?thesis using robots us False u(1)
      by (intro exI [of _ rs] exI [of _ us]) (auto split: option.splits)
  qed
qed

subsection \<open>The longest matching rule\<close>

definition matching :: "string \<Rightarrow> robots_rule \<Rightarrow> bool" where
  "matching path r \<longleftrightarrow> rr_prefix r \<noteq> [] \<and> starts path (rr_prefix r)"

lemma best_rule_longest:
  "(best_rule path w rs = None \<longleftrightarrow> w = None \<and> filter (matching path) rs = []) \<and>
   (\<forall>b. best_rule path w rs = Some b \<longrightarrow>
      (w = Some b \<or> b \<in> set (filter (matching path) rs)) \<and>
      (\<forall>r \<in> set (filter (matching path) rs). length (rr_prefix r) \<le> length (rr_prefix b)) \<and>
      (\<forall>v. w = Some v \<longrightarrow> length (rr_prefix v) \<le> length (rr_prefix b)))"
proof (induction rs arbitrary: w)
  case Nil
  then show ?case by simp
next
  case (Cons r rs)
  show ?case
  proof (cases "matching path r")
    case False
    then have eqs: "best_rule path w (r # rs) = best_rule path w rs"
        "filter (matching path) (r # rs) = filter (matching path) rs"
      by (auto simp: matching_def)
    show ?thesis unfolding eqs by (rule Cons.IH)
  next
    case True
    let ?w = "case w of None \<Rightarrow> Some r | Some v \<Rightarrow> if length (rr_prefix v) < length (rr_prefix r) then Some r else w"
    have "best_rule path w (r # rs) = best_rule path ?w rs" using True by (simp add: matching_def)
    then show ?thesis using True Cons.IH [of ?w]
      by (auto split: option.splits if_splits)
  qed
qed

lemma robots_longest:
  "case best_rule path None (applicable_rules (robots_groups txt)) of
     None \<Rightarrow> filter (matching path) (applicable_rules (robots_groups txt)) = [] \<and> robotsAllows txt path
   | Some b \<Rightarrow> b \<in> set (filter (matching path) (applicable_rules (robots_groups txt))) \<and>
       list_all (\<lambda>r. length (rr_prefix r) \<le> length (rr_prefix b))
         (filter (matching path) (applicable_rules (robots_groups txt))) \<and>
       robotsAllows txt path = rr_allow b"
  using best_rule_longest [of path None "applicable_rules (robots_groups txt)"]
  by (auto simp: robotsAllows_def list_all_iff split: option.split)

subsection \<open>What the checks miss\<close>

text \<open>
  The URL parser writes an IPv4-mapped address in hexadecimal groups. That form of the loopback
  address passes the gate, its dotted form does not.
\<close>

lemma mapped_loopback_passes:
  "u_protocol u = ''http:'' \<Longrightarrow> u_hostname u = ''[::ffff:7f00:1]'' \<Longrightarrow> refusalFor env u = None"
proof -
  have "strip_brackets ''[::ffff:7f00:1]'' = ''::ffff:7f00:1''" by code_simp
  moreover have "isIP ''::ffff:7f00:1'' = 6" by code_simp
  moreover have "\<not> isPrivateAddress ''::ffff:7f00:1''" by code_simp
  moreover have "to_lower ''::ffff:7f00:1'' \<noteq> ''localhost'' \<and> \<not> ends_with (to_lower ''::ffff:7f00:1'') ''.localhost''"
    by code_simp
  ultimately show "u_protocol u = ''http:'' \<Longrightarrow> u_hostname u = ''[::ffff:7f00:1]'' \<Longrightarrow> refusalFor env u = None"
    by (simp add: refusalFor_def Let_def)
qed

lemma mapped_loopback_dotted: "isPrivateAddress ''::ffff:127.0.0.1''"
  by code_simp

definition sample_site :: "string \<Rightarrow> string \<Rightarrow> url" where
  "sample_site host path =
     \<lparr>u_href = ''http://'' @ host @ path, u_protocol = ''http:'', u_hostname = host,
      u_origin = ''http://'' @ host, u_pathname = path, u_search = []\<rparr>"

definition answer_with :: "nat \<Rightarrow> string option \<Rightarrow> string \<Rightarrow> http_response" where
  "answer_with status location body =
     \<lparr>hr_status = status, hr_location = location, hr_content_type = Some ''text/html'', hr_chunks = [body],
      hr_breaks = False, hr_url = []\<rparr>"

text \<open>A public site whose page redirects to a disallowed path, and one whose robots file redirects inside.\<close>

definition sample_env :: "http_response \<Rightarrow> web_env" where
  "sample_env robots =
     \<lparr>we_parse = (\<lambda>s. Some (sample_site ''93.184.216.34'' (drop 20 s))),
      we_relative = (\<lambda>location base. Some (sample_site (if starts location ''/'' then u_hostname base else ''127.0.0.1'')
         (if starts location ''/'' then location else ''/admin''))),
      we_addresses = (\<lambda>_. None),
      we_fetch = (\<lambda>address.
         if address = ''http://93.184.216.34/robots.txt'' then Some robots
         else if address = ''http://93.184.216.34/a'' then Some (answer_with 302 (Some ''/secret'') [])
         else Some (answer_with 200 None ''page'')),
      we_utf8 = id, we_decode = Some, we_pdf = (\<lambda>_ _. None), we_html = (\<lambda>body. (None, body)),
      we_max_bytes = 10, we_max_text_chars = 10, we_now = 0\<rparr>"

definition no_contacts :: fetch_state where
  "no_contacts = \<lparr>fs_contacts = [], fs_robots = Map.empty\<rparr>"

definition secret_robots :: string where
  "secret_robots = ''User-agent: *'' @ [CHR 0x0A] @ ''Disallow: /secret''"

lemma sample_gate:
  "refusalFor env (sample_site ''93.184.216.34'' path) = None"
  "refusalFor env (sample_site ''127.0.0.1'' path) = Some ''address 127.0.0.1 is private/loopback/link-local''"
proof -
  have "isIP ''93.184.216.34'' = 4" "isIP ''127.0.0.1'' = 4" by code_simp+
  moreover have "\<not> isPrivateAddress ''93.184.216.34''" "isPrivateAddress ''127.0.0.1''" by code_simp+
  moreover have "strip_brackets ''93.184.216.34'' = ''93.184.216.34''" "strip_brackets ''127.0.0.1'' = ''127.0.0.1''"
    by code_simp+
  moreover have "to_lower ''93.184.216.34'' = ''93.184.216.34''" "to_lower ''127.0.0.1'' = ''127.0.0.1''" by code_simp+
  ultimately show "refusalFor env (sample_site ''93.184.216.34'' path) = None"
    "refusalFor env (sample_site ''127.0.0.1'' path) = Some ''address 127.0.0.1 is private/loopback/link-local''"
    by (simp_all add: refusalFor_def sample_site_def ends_with_def)
qed

lemma redirect_ignores_robots:
  "followRedirects (sample_env robots) (sample_site ''93.184.216.34'' ''/a'') s =
     (Inr (Answer (answer_with 200 None ''page'')),
      s\<lparr>fs_contacts := fs_contacts s @ [PageRequest (sample_site ''93.184.216.34'' ''/a''),
        PageRequest (sample_site ''93.184.216.34'' ''/secret'')]\<rparr>)"
  using sample_gate(1) [of "sample_env robots" "''/secret''"]
  by (simp add: followRedirects_def MAX_REDIRECTS_def eval_nat_numeral contact_def act_defs sample_env_def
      redirect_target_def answer_with_def starts_def lit_def sample_site_def)

lemma secret_disallowed: "\<not> robotsAllows secret_robots ''/secret''"
  by code_simp

lemma robots_request_leaves:
  "fs_contacts (snd (robotsFor (sample_env (answer_with 302 (Some ''http://127.0.0.1/admin'') []))
       ''http://93.184.216.34'' no_contacts)) =
     [RobotsRequest ''http://93.184.216.34/robots.txt'', RobotsRequest ''http://127.0.0.1/admin'']"
  by (simp add: robotsFor_def no_contacts_def eval_nat_numeral contact_def act_defs sample_env_def Let_def
      platform_redirect_def answer_with_def starts_def lit_def sample_site_def)

text \<open>The second block of 192/8 is wider than the comment beside it says.\<close>

lemma block_wider_than_noted: "isPrivateAddress ''192.0.66.2''"
  by code_simp

end
