(* ===== verification/Reconcile_Stage.thy ===== *)
theory Reconcile_Stage
  imports Tasks Reconciliation_Laws
begin

text \<open>
  Stage 6 of the pipeline, \<^verbatim>\<open>ingestion/pipeline/reconcile.stage.ts\<close> with its thresholds
  (\<^verbatim>\<open>reconcile-config.ts\<close>) and candidate rules (\<^verbatim>\<open>domain/reconcile-candidates.ts\<close>): new facts are
  compared with what the owner already has, the model judges a few pairs, and the memory
  module carries the verdicts out. The verdicts, the vector index and the similarity of names
  are arguments; similarities are rationals. Reads outside the transaction see the tables as
  they were when it began.
\<close>

subsection \<open>Thresholds\<close>

definition DEDUP_SIMILARITY :: rat where "DEDUP_SIMILARITY = 93 / 100"
definition CONTRADICTION_BAND_LOW :: rat where "CONTRADICTION_BAND_LOW = 8 / 10"
definition ENTITY_OVERLAP_MIN :: rat where "ENTITY_OVERLAP_MIN = 8 / 10"
definition CANDIDATE_TOP_K :: nat where "CANDIDATE_TOP_K = 8"
definition MAX_CHECKS_PER_FACT :: nat where "MAX_CHECKS_PER_FACT = 3"

definition DEDUP_CANDIDATE_STATUSES :: "memory_status list" where
  "DEDUP_CANDIDATE_STATUSES = [Active, UserApproved, Uncertain]"

definition CONTRADICTION_CANDIDATE_STATUSES :: "memory_status list" where
  "CONTRADICTION_CANDIDATE_STATUSES = [Active, UserApproved]"

definition CONTRADICTION_KINDS :: "fact_kind list" where
  "CONTRADICTION_KINDS = [FactKind, Decision, Preference, Commitment]"

definition normalizeEntity :: "string \<Rightarrow> string" where
  "normalizeEntity name = to_lower (js_trim name)"

definition entityOverlap :: "string list \<Rightarrow> string list \<Rightarrow> rat" where
  "entityOverlap a b =
     (let A = set (map normalizeEntity a); B = set (map normalizeEntity b)
      in if A = {} \<or> B = {} then 0
         else of_nat (card (A \<inter> B)) / of_nat (min (card A) (card B)))"

subsection \<open>Candidate rules\<close>

definition dedupBySimilarity :: "rat option \<Rightarrow> bool" where
  "dedupBySimilarity similarity = (case similarity of None \<Rightarrow> False | Some s \<Rightarrow> DEDUP_SIMILARITY \<le> s)"

definition dedupByEntities :: "memory_row \<Rightarrow> memory_row \<Rightarrow> bool" where
  "dedupByEntities a b =
     (m_kind a \<noteq> None \<and> m_kind a = m_kind b \<and> ENTITY_OVERLAP_MIN \<le> entityOverlap (m_entities a) (m_entities b))"

definition isDedupCandidate :: "rat option \<Rightarrow> memory_row \<Rightarrow> memory_row \<Rightarrow> bool" where
  "isDedupCandidate similarity a b \<longleftrightarrow> dedupBySimilarity similarity \<or> dedupByEntities a b"

definition contradiction_kind :: "memory_row \<Rightarrow> bool" where
  "contradiction_kind r = (case m_kind r of None \<Rightarrow> False | Some k \<Rightarrow> k \<in> set CONTRADICTION_KINDS)"

definition isContradictionCandidate :: "rat option \<Rightarrow> memory_row \<Rightarrow> memory_row \<Rightarrow> bool \<Rightarrow> bool" where
  "isContradictionCandidate similarity a b judgedDistinct =
     (case similarity of
        None \<Rightarrow> False
      | Some s \<Rightarrow>
          if s < CONTRADICTION_BAND_LOW then False
          else if DEDUP_SIMILARITY \<le> s \<and> \<not> judgedDistinct then False
          else case (m_subject_entity a, m_subject_entity b) of
            (Some x, Some y) \<Rightarrow> x \<noteq> [] \<and> y \<noteq> [] \<and> normalizeEntity x = normalizeEntity y \<and>
              contradiction_kind a \<and> contradiction_kind b
          | _ \<Rightarrow> False)"

subsection \<open>The judge\<close>

datatype dedup_word = SameFact | Distinct | Related
datatype contradiction_word = Contradicts | Compatible | Supersedes
datatype direction = AOverB | BOverA

record dedup_verdict =
  dv_verdict :: dedup_word
  dv_reason :: string
  dv_merged_content :: "string option"

record contradiction_verdict =
  cv_verdict :: contradiction_word
  cv_direction :: "direction option"
  cv_reason :: string

text \<open>The two gateway calls; no answer stands for a failed call or one that does not fit the schema.\<close>

record judge =
  jd_dedup :: "string \<Rightarrow> dedup_verdict option"
  jd_contradiction :: "string \<Rightarrow> contradiction_verdict option"

record fact_view =
  fv_content :: string
  fv_kind :: "fact_kind option"
  fv_entities :: "string list"
  fv_subject :: "string option"
  fv_captured_at :: time
  fv_valid_from :: "time option"
  fv_valid_until :: "time option"
  fv_span :: "string option"

definition fact_block :: "string \<Rightarrow> fact_view \<Rightarrow> string" where
  "fact_block name f =
     join [CHR 0x0A]
       ([name @ '':'', ''claim: '' @ fv_content f,
         ''kind: '' @ (case fv_kind f of None \<Rightarrow> ''unknown'' | Some k \<Rightarrow> kind_text k),
         ''subject: '' @ or_else (fv_subject f) ''unknown'',
         ''entities: '' @ (if fv_entities f = [] then ''(none)'' else join '', '' (fv_entities f)),
         ''captured: '' @ iso_string (fv_captured_at f)] @
        (if fv_valid_from f = None \<and> fv_valid_until f = None then []
         else [''holds: '' @ (case fv_valid_from f of None \<Rightarrow> ''unknown'' | Some t \<Rightarrow> iso_string t) @ '' -> '' @
               (case fv_valid_until f of None \<Rightarrow> ''open'' | Some t \<Rightarrow> iso_string t)]) @
        (case fv_span f of None \<Rightarrow> [] | Some s \<Rightarrow> if s = [] then [] else [''source passage: '' @ s]))"

definition judge_input :: "fact_view \<Rightarrow> fact_view \<Rightarrow> string" where
  "judge_input a b = join [CHR 0x0A] [fact_block ''FACT A'' a, [], fact_block ''FACT B'' b]"

definition judgeDedup :: "judge \<Rightarrow> fact_view \<Rightarrow> fact_view \<Rightarrow> dedup_verdict op" where
  "judgeDedup J a b = (case jd_dedup J (judge_input a b) of None \<Rightarrow> raise (Failure ''model call failed'') | Some v \<Rightarrow> ret v)"

definition judgeContradiction :: "judge \<Rightarrow> fact_view \<Rightarrow> fact_view \<Rightarrow> contradiction_verdict op" where
  "judgeContradiction J a b =
     (case jd_contradiction J (judge_input a b) of None \<Rightarrow> raise (Failure ''model call failed'') | Some v \<Rightarrow> ret v)"

subsection \<open>Candidates of a fact\<close>

definition ownerPrincipal :: "user_id \<Rightarrow> principal" where
  "ownerPrincipal owner = \<lparr>p_user_id = owner, p_org_id = []\<rparr>"

record candidate =
  cd_row :: memory_row
  cd_similarity :: "rat option"

text \<open>What the stage searches with: the vector index and the trigram similarity of names.\<close>

record search_env =
  se_vectors :: qdrant_search
  se_similar :: "string \<Rightarrow> string \<Rightarrow> bool"
  se_similarity :: "string \<Rightarrow> string \<Rightarrow> rat"

text \<open>A JavaScript map keeps the place of the first insertion and the value of the last.\<close>

fun map_set :: "memory_row list \<Rightarrow> memory_row \<Rightarrow> memory_row list" where
  "map_set [] r = [r]"
| "map_set (q # qs) r = (if m_id q = m_id r then r # qs else q # map_set qs r)"

definition eligible :: "memory_row \<Rightarrow> memory_row \<Rightarrow> bool" where
  "eligible fact' r \<longleftrightarrow> m_id r \<noteq> m_id fact' \<and>
     \<not> (m_source_type r = m_source_type fact' \<and> m_source_id r = m_source_id fact') \<and>
     m_owner r = m_owner fact' \<and> m_scope r = m_scope fact' \<and>
     m_status r \<in> set (DEDUP_CANDIDATE_STATUSES @ CONTRADICTION_CANDIDATE_STATUSES)"

definition candidates_of ::
  "search_env \<Rightarrow> pg \<Rightarrow> memory_row \<Rightarrow> memory_search_hit list \<Rightarrow> candidate list" where
  "candidates_of env d fact' hits =
     (let prin = ownerPrincipal (m_owner fact'); inc = m_sensitive fact';
          scores = fold (\<lambda>h m. m(h_memory_id h \<mapsto> h_score h)) hits Map.empty;
          rows = getManyForPrincipal prin inc (map h_memory_id hits) d;
          entityRows = (if m_entities fact' \<noteq> [] \<and> m_kind fact' \<noteq> None
            then map sm_memory (entitySearch (se_similar env) (se_similarity env) prin (m_entities fact') inc
                   (no_filters\<lparr>ff_scope := Some (m_scope fact')\<rparr>) CANDIDATE_TOP_K d)
            else [])
      in sort_key (\<lambda>c. - or_else (cd_similarity c) (- 1))
           (map (\<lambda>r. \<lparr>cd_row = r, cd_similarity = scores (m_id r)\<rparr>)
              (filter (eligible fact') (foldl map_set [] (rows @ entityRows)))))"

definition gatherCandidates :: "search_env \<Rightarrow> pg \<Rightarrow> memory_row \<Rightarrow> rat list \<Rightarrow> candidate list op" where
  "gatherCandidates env d fact' embedding =
     bindA (vectorSearch (se_vectors env) (ownerPrincipal (m_owner fact')) embedding
              \<lparr>so_include_sensitive = m_sensitive fact', so_top_k = CANDIDATE_TOP_K,
                so_scope = Some (m_scope fact'), so_owner_only = True,
                so_statuses = dedupe (DEDUP_CANDIDATE_STATUSES @ CONTRADICTION_CANDIDATE_STATUSES)\<rparr>)
       (\<lambda>hits. ret (candidates_of env d fact' hits))"

text \<open>The cited passages; of several records of one memory the last one counts.\<close>

definition loadSpans :: "uuid list \<Rightarrow> (uuid \<rightharpoonup> string option) op" where
  "loadSpans ids = reads (\<lambda>w. fold (\<lambda>v m. m(vr_memory v \<mapsto> vr_span v))
     (filter (\<lambda>v. vr_memory v \<in> set ids) (t_verification (w_pg w))) Map.empty)"

definition toView :: "(uuid \<rightharpoonup> string option) \<Rightarrow> memory_row \<Rightarrow> fact_view" where
  "toView spans r =
     \<lparr>fv_content = or_else (m_content r) [], fv_kind = m_kind r, fv_entities = m_entities r,
      fv_subject = m_subject_entity r, fv_captured_at = m_created_at r, fv_valid_from = m_valid_from r,
      fv_valid_until = m_valid_until r, fv_span = or_else (spans (m_id r)) None\<rparr>"

subsection \<open>The run\<close>

record action_record =
  ar_fact :: uuid
  ar_candidate :: uuid
  ar_result :: pair_action_result

record reconcile_summary =
  rs_considered :: nat
  rs_dedup_checks :: nat
  rs_contradiction_checks :: nat
  rs_merged :: nat
  rs_enriched :: nat
  rs_contradictions :: nat
  rs_superseded :: nat
  rs_actions :: "action_record list"

definition empty_summary :: reconcile_summary where
  "empty_summary = \<lparr>rs_considered = 0, rs_dedup_checks = 0, rs_contradiction_checks = 0, rs_merged = 0,
     rs_enriched = 0, rs_contradictions = 0, rs_superseded = 0, rs_actions = []\<rparr>"

fun is_skipped :: "pair_action_result \<Rightarrow> bool" where
  "is_skipped (Skipped _) = True"
| "is_skipped _ = False"

fun is_merged :: "pair_action_result \<Rightarrow> bool" where
  "is_merged (Merged _ _ _) = True"
| "is_merged _ = False"

fun is_enriched :: "pair_action_result \<Rightarrow> bool" where
  "is_enriched (Merged _ _ e) = e"
| "is_enriched _ = False"

fun is_created :: "pair_action_result \<Rightarrow> bool" where
  "is_created (ContradictionCreated _) = True"
| "is_created _ = False"

fun is_superseded :: "pair_action_result \<Rightarrow> bool" where
  "is_superseded (Superseded _ _) = True"
| "is_superseded _ = False"

definition record_action :: "uuid \<Rightarrow> uuid \<Rightarrow> pair_action_result \<Rightarrow> reconcile_summary \<Rightarrow> reconcile_summary" where
  "record_action f c result s =
     (if is_skipped result then s
      else s\<lparr>rs_actions := rs_actions s @ [\<lparr>ar_fact = f, ar_candidate = c, ar_result = result\<rparr>]\<rparr>)"

text \<open>Whether the fact was settled, what was judged distinct, and the summary so far.\<close>

fun dedup_loop ::
  "judge \<Rightarrow> (memory_row \<Rightarrow> fact_view) \<Rightarrow> memory_row \<Rightarrow> candidate list \<Rightarrow> uuid list \<Rightarrow> reconcile_summary \<Rightarrow>
     (bool \<times> uuid list \<times> reconcile_summary) op" where
  "dedup_loop J view fact' [] distinct' s = ret (False, distinct', s)"
| "dedup_loop J view fact' (c # cs) distinct' s =
     bindA (judgeDedup J (view fact') (view (cd_row c))) (\<lambda>v.
     let s1 = s\<lparr>rs_dedup_checks := rs_dedup_checks s + 1\<rparr> in
     if dv_verdict v \<noteq> SameFact
     then dedup_loop J view fact' cs
            (if dv_verdict v = Distinct then m_id (cd_row c) # distinct' else distinct') s1
     else bindA (mergeSameFact (m_id fact') (m_id (cd_row c)) (dv_merged_content v)) (\<lambda>result.
          let s2 = record_action (m_id fact') (m_id (cd_row c)) result s1 in
          if is_merged result
          then ret (True, distinct', s2\<lparr>rs_merged := rs_merged s2 + 1,
                 rs_enriched := rs_enriched s2 + (if is_enriched result then 1 else 0)\<rparr>)
          else dedup_loop J view fact' cs distinct' s2))"

definition try_supersession ::
  "contradiction_verdict \<Rightarrow> memory_row \<Rightarrow> memory_row \<Rightarrow> pair_action_result option op" where
  "try_supersession v fact' other =
     (case (cv_verdict v, cv_direction v) of
        (Supersedes, Some dir) \<Rightarrow>
          let (winner, loser) = (if dir = AOverB then (fact', other) else (other, fact'))
          in if supersessionUnambiguous (asParty winner) (asParty loser)
             then bindA (applySupersession (m_id winner) (m_id loser)) (\<lambda>result. ret (Some result))
             else ret None
      | _ \<Rightarrow> ret None)"

definition raise_contradiction ::
  "contradiction_verdict \<Rightarrow> memory_row \<Rightarrow> memory_row \<Rightarrow> reconcile_summary \<Rightarrow> reconcile_summary op" where
  "raise_contradiction v fact' other s =
     bindA (createContradiction (m_id fact') (m_id other) (cv_reason v)) (\<lambda>result.
     ret (record_action (m_id fact') (m_id other) result
       (if is_created result then s\<lparr>rs_contradictions := rs_contradictions s + 1\<rparr> else s)))"

definition settle_pair ::
  "contradiction_verdict \<Rightarrow> memory_row \<Rightarrow> memory_row \<Rightarrow> reconcile_summary \<Rightarrow> reconcile_summary op" where
  "settle_pair v fact' other s =
     bindA (try_supersession v fact' other) (\<lambda>attempt.
     case attempt of
       Some result \<Rightarrow>
         if is_skipped result then raise_contradiction v fact' other s
         else ret (record_action (m_id fact') (m_id other) result
                (if is_superseded result then s\<lparr>rs_superseded := rs_superseded s + 1\<rparr> else s))
     | None \<Rightarrow> raise_contradiction v fact' other s)"

fun contradiction_loop ::
  "judge \<Rightarrow> (memory_row \<Rightarrow> fact_view) \<Rightarrow> memory_row \<Rightarrow> candidate list \<Rightarrow> reconcile_summary \<Rightarrow>
     reconcile_summary op" where
  "contradiction_loop J view fact' [] s = ret s"
| "contradiction_loop J view fact' (c # cs) s =
     bindA (judgeContradiction J (view fact') (view (cd_row c))) (\<lambda>v.
     let s1 = s\<lparr>rs_contradiction_checks := rs_contradiction_checks s + 1\<rparr> in
     if cv_verdict v = Compatible then contradiction_loop J view fact' cs s1
     else settle_pair v fact' (cd_row c) s1)"

definition dedup_candidates :: "memory_row \<Rightarrow> candidate list \<Rightarrow> candidate list" where
  "dedup_candidates fact' cs = take MAX_CHECKS_PER_FACT (filter (\<lambda>c.
     m_status (cd_row c) \<in> set DEDUP_CANDIDATE_STATUSES \<and>
     isDedupCandidate (cd_similarity c) fact' (cd_row c)) cs)"

definition contradiction_candidates :: "memory_row \<Rightarrow> uuid list \<Rightarrow> candidate list \<Rightarrow> candidate list" where
  "contradiction_candidates fact' distinct' cs = take MAX_CHECKS_PER_FACT (filter (\<lambda>c.
     m_status (cd_row c) \<in> set CONTRADICTION_CANDIDATE_STATUSES \<and>
     isContradictionCandidate (cd_similarity c) fact' (cd_row c) (m_id (cd_row c) \<in> set distinct')) cs)"

definition contradiction_capable :: "memory_row \<Rightarrow> bool" where
  "contradiction_capable fact' \<longleftrightarrow> m_status fact' = Active \<and> contradiction_kind fact' \<and>
     (case m_subject_entity fact' of None \<Rightarrow> False | Some s \<Rightarrow> s \<noteq> [])"

definition reconcile_fact ::
  "search_env \<Rightarrow> judge \<Rightarrow> pg \<Rightarrow> reconcile_summary \<Rightarrow> memory_row \<times> rat list \<Rightarrow> reconcile_summary op" where
  "reconcile_fact env J d s item =
     (let fact' = fst item in
      if m_status fact' \<noteq> Active \<and> m_status fact' \<noteq> Uncertain then ret s
      else let s1 = s\<lparr>rs_considered := rs_considered s + 1\<rparr> in
           bindA (gatherCandidates env d fact' (snd item)) (\<lambda>candidates.
           if candidates = [] then ret s1
           else bindA (loadSpans (m_id fact' # map (m_id \<circ> cd_row) candidates)) (\<lambda>spans.
                bindA (dedup_loop J (toView spans) fact' (dedup_candidates fact' candidates) [] s1)
                  (\<lambda>(settled, distinct', s2).
                if settled \<or> \<not> contradiction_capable fact' then ret s2
                else contradiction_loop J (toView spans) fact'
                       (contradiction_candidates fact' distinct' candidates) s2))))"

text \<open>The tables \<open>d\<close> are those other connections see: the state before the transaction.\<close>

definition reconcile ::
  "search_env \<Rightarrow> judge \<Rightarrow> pg \<Rightarrow> (memory_row \<times> rat list) list \<Rightarrow> reconcile_summary op" where
  "reconcile env J d items = fold_each (reconcile_fact env J d) items empty_summary"

end
