(* ===== verification/Stage_Laws.thy ===== *)
theory Stage_Laws
  imports Reconcile_Stage
begin

text \<open>
  What a reconciliation run promises: its model calls and actions are bounded, the memory
  invariant holds after it, and it never reaches a row of another owner or scope.
\<close>

subsection \<open>Results of the acting half\<close>

definition returns :: "('a \<Rightarrow> bool) \<Rightarrow> 'a op \<Rightarrow> bool" where
  "returns P m \<longleftrightarrow> (\<forall>w a w'. m w = (Inr a, w') \<longrightarrow> P a)"

lemma returns_ret: "P a \<Longrightarrow> returns P (ret a)"
  by (simp add: returns_def ret_def)

lemma returns_raise: "returns P (raise e)"
  by (simp add: returns_def raise_def)

lemma returns_bind_if: "returns Q m \<Longrightarrow> (\<And>a. Q a \<Longrightarrow> returns P (f a)) \<Longrightarrow> returns P (bindA m f)"
  unfolding returns_def by (blast elim: bindA_InrE)

lemma returns_bind: "(\<And>a. returns P (f a)) \<Longrightarrow> returns P (bindA m f)"
  unfolding returns_def by (blast elim: bindA_InrE)

lemma returns_then: "returns P n \<Longrightarrow> returns P (thenA m n)"
  unfolding thenA_def by (rule returns_bind)

lemma returns_mono: "returns Q m \<Longrightarrow> (\<And>a. Q a \<Longrightarrow> P a) \<Longrightarrow> returns P m"
  unfolding returns_def by blast

lemmas returning = returns_ret returns_bind returns_then returns_raise

lemma merge_result: "returns (\<lambda>r. is_merged r \<or> is_skipped r) (mergeSameFact x y c)"
  unfolding mergeSameFact_def merge_into_def finish_merge_def Let_def
  by (rule returns_bind) (auto intro!: returning split: merge_decision.split)

lemma supersession_result: "returns (\<lambda>r. is_superseded r \<or> is_skipped r) (applySupersession x y)"
  unfolding applySupersession_def Let_def
  by (rule returns_bind) (auto intro!: returning)

lemma contradiction_result: "returns (\<lambda>r. is_created r \<or> is_skipped r) (createContradiction x y reason)"
  unfolding createContradiction_def Let_def
  by (rule returns_bind) (auto intro!: returning split: option.split)

subsection \<open>The counters\<close>

text \<open>What one fact may add to the summary: checks per family and at most one action.\<close>

definition grows :: "nat \<Rightarrow> nat \<Rightarrow> nat \<Rightarrow> reconcile_summary \<Rightarrow> reconcile_summary \<Rightarrow> bool" where
  "grows d c n s s' \<longleftrightarrow>
     rs_considered s' = rs_considered s \<and>
     rs_dedup_checks s' \<le> rs_dedup_checks s + d \<and>
     rs_contradiction_checks s' \<le> rs_contradiction_checks s + c \<and>
     length (rs_actions s') \<le> length (rs_actions s) + n \<and>
     length (rs_actions s') + (rs_merged s + rs_contradictions s + rs_superseded s) =
       length (rs_actions s) + (rs_merged s' + rs_contradictions s' + rs_superseded s') \<and>
     rs_enriched s' + rs_merged s \<le> rs_enriched s + rs_merged s'"

lemma grows_refl: "grows d c n s s"
  by (simp add: grows_def)

lemma grows_trans: "grows d c n s t \<Longrightarrow> grows d' c' n' t u \<Longrightarrow> grows (d + d') (c + c') (n + n') s u"
  by (auto simp: grows_def)

lemma record_action_sel [simp]:
  "rs_considered (record_action f c r s) = rs_considered s"
  "rs_dedup_checks (record_action f c r s) = rs_dedup_checks s"
  "rs_contradiction_checks (record_action f c r s) = rs_contradiction_checks s"
  "rs_merged (record_action f c r s) = rs_merged s"
  "rs_enriched (record_action f c r s) = rs_enriched s"
  "rs_contradictions (record_action f c r s) = rs_contradictions s"
  "rs_superseded (record_action f c r s) = rs_superseded s"
  "length (rs_actions (record_action f c r s)) = length (rs_actions s) + (if is_skipped r then 0 else 1)"
  by (simp_all add: record_action_def)

lemma result_kinds:
  "is_merged r \<Longrightarrow> \<not> is_skipped r" "is_superseded r \<Longrightarrow> \<not> is_skipped r" "is_created r \<Longrightarrow> \<not> is_skipped r"
  by (cases r; simp)+

lemma grows_merged:
  "is_merged r \<Longrightarrow> s2 = record_action f c r (s\<lparr>rs_dedup_checks := rs_dedup_checks s + 1\<rparr>) \<Longrightarrow>
     grows (Suc d) 0 1 s (s2\<lparr>rs_merged := rs_merged s2 + 1, rs_enriched := rs_enriched s2 + (if is_enriched r then 1 else 0)\<rparr>)"
  by (simp add: grows_def result_kinds)

lemma grows_check:
  "grows d 0 n (s\<lparr>rs_dedup_checks := Suc (rs_dedup_checks s)\<rparr>) s' \<Longrightarrow> grows (Suc d) 0 n s s'"
  "is_skipped r \<Longrightarrow> grows d 0 n (record_action f c r (s\<lparr>rs_dedup_checks := Suc (rs_dedup_checks s)\<rparr>)) s' \<Longrightarrow>
     grows (Suc d) 0 n s s'"
  by (auto simp: grows_def)

lemma dedup_loop_grows:
  "returns (\<lambda>(settled, distinct', s'). grows (length cs) 0 (if settled then 1 else 0) s s')
     (dedup_loop J view fact' cs dj s)"
proof (induction cs arbitrary: dj s)
  case Nil
  then show ?case by (auto intro!: returning simp: grows_refl)
next
  case (Cons c cs)
  let ?s = "s\<lparr>rs_dedup_checks := rs_dedup_checks s + 1\<rparr>"
  let ?P = "\<lambda>(settled, distinct', s'). grows (length (c # cs)) 0 (if settled then 1 else 0) s s'"
  have skip: "returns ?P (dedup_loop J view fact' cs dj' ?s)" for dj'
    using Cons.IH by (rule returns_mono) (auto intro: grows_check)
  have skipped: "returns ?P (dedup_loop J view fact' cs dj (record_action i j r ?s))" if "is_skipped r" for i j r
    using Cons.IH by (rule returns_mono) (use that in \<open>auto intro: grows_check\<close>)
  have "returns ?P
      (bindA (mergeSameFact (m_id fact') (m_id (cd_row c)) content) (\<lambda>result.
         let s2 = record_action (m_id fact') (m_id (cd_row c)) result ?s in
         if is_merged result
         then ret (True, dj, s2\<lparr>rs_merged := rs_merged s2 + 1,
                rs_enriched := rs_enriched s2 + (if is_enriched result then 1 else 0)\<rparr>)
         else dedup_loop J view fact' cs dj s2))" for content
  proof (rule returns_bind_if [OF merge_result], unfold Let_def, split if_split, intro conjI impI)
    fix r assume "is_merged r"
    then show "returns ?P (ret (True, dj, (record_action (m_id fact') (m_id (cd_row c)) r ?s)
        \<lparr>rs_merged := rs_merged (record_action (m_id fact') (m_id (cd_row c)) r ?s) + 1,
         rs_enriched := rs_enriched (record_action (m_id fact') (m_id (cd_row c)) r ?s) +
           (if is_enriched r then 1 else 0)\<rparr>))"
      using grows_merged [OF _ refl] by (intro returns_ret) simp
  qed (use skipped in auto)
  with skip show ?case
    by (auto simp: Let_def intro!: returns_bind)
qed

lemma grows_step:
  "is_superseded r \<Longrightarrow> grows 0 0 1 s (record_action f c r (s\<lparr>rs_superseded := Suc (rs_superseded s)\<rparr>))"
  by (simp add: grows_def result_kinds)

lemma raise_contradiction_grows:
  "returns (\<lambda>s'. grows 0 0 1 s s') (raise_contradiction v fact' other s)"
  unfolding raise_contradiction_def
  by (rule returns_bind_if [OF contradiction_result]) (auto simp: result_kinds grows_def intro!: returns_ret)

lemma try_supersession_result:
  "returns (\<lambda>a. case a of None \<Rightarrow> True | Some r \<Rightarrow> is_superseded r \<or> is_skipped r) (try_supersession v fact' other)"
  unfolding try_supersession_def Let_def
  by (auto simp: returns_ret intro!: returns_bind_if [OF supersession_result] returns_ret
      split: contradiction_word.split option.split)

lemma settle_pair_grows: "returns (\<lambda>s'. grows 0 0 1 s s') (settle_pair v fact' other s)"
  unfolding settle_pair_def
  by (rule returns_bind_if [OF try_supersession_result])
    (auto simp: grows_step [simplified] intro!: returns_ret raise_contradiction_grows [simplified]
      split: option.splits)

lemma contradiction_loop_grows:
  "returns (\<lambda>s'. grows 0 (length cs) 1 s s') (contradiction_loop J view fact' cs s)"
proof (induction cs arbitrary: s)
  case Nil
  then show ?case by (auto intro!: returning simp: grows_refl)
next
  case (Cons c cs)
  let ?s = "s\<lparr>rs_contradiction_checks := rs_contradiction_checks s + 1\<rparr>"
  have one: "grows 0 1 0 s ?s" by (simp add: grows_def)
  have lift: "returns (\<lambda>s'. grows 0 k 1 ?s s') m \<Longrightarrow> k \<le> length cs \<Longrightarrow> returns (\<lambda>s'. grows 0 (length (c # cs)) 1 s s') m"
    for m :: "reconcile_summary op" and k
    by (erule returns_mono) (auto simp: grows_def)
  show ?case
    using lift [OF Cons.IH] lift [OF settle_pair_grows]
    by (auto simp: Let_def intro!: returns_bind lift)
qed


lemma reconcile_fact_grows:
  "returns (\<lambda>s'. \<exists>k \<le> (1::nat). rs_considered s' = rs_considered s + k \<and>
       grows (3 * k) (3 * k) k (s\<lparr>rs_considered := rs_considered s + k\<rparr>) s') (reconcile_fact env J d s item)"
proof (cases "m_status (fst item) \<noteq> Active \<and> m_status (fst item) \<noteq> Uncertain")
  case True
  then show ?thesis
    by (auto simp: reconcile_fact_def Let_def grows_refl intro!: returns_ret exI [of _ 0])
next
  case False
  let ?s = "s\<lparr>rs_considered := rs_considered s + 1\<rparr>"
  let ?P = "\<lambda>s'. rs_considered s' = rs_considered s + 1 \<and> grows 3 3 1 ?s s'"
  have dedup: "returns (\<lambda>(settled, distinct', s'). grows 3 0 (if settled then 1 else 0) ?s s')
      (dedup_loop J view (fst item) (dedup_candidates (fst item) cs) [] ?s)" for view cs
    by (rule returns_mono [OF dedup_loop_grows])
      (auto simp: grows_def dedup_candidates_def MAX_CHECKS_PER_FACT_def)
  have contra: "returns (\<lambda>s'. grows 0 3 1 s2 s')
      (contradiction_loop J view (fst item) (contradiction_candidates (fst item) dj cs) s2)" for view cs dj s2
    by (rule returns_mono [OF contradiction_loop_grows])
      (auto simp: grows_def contradiction_candidates_def MAX_CHECKS_PER_FACT_def)
  have "returns ?P (reconcile_fact env J d s item)"
    unfolding reconcile_fact_def Let_def if_not_P [OF False]
  proof (intro returns_bind, split if_split, intro conjI impI)
    show "returns ?P (ret ?s)" by (intro returns_ret) (simp add: grows_def)
  next
    fix cs
    show "returns ?P (bindA (loadSpans (m_id (fst item) # map (m_id \<circ> cd_row) cs)) (\<lambda>spans.
        bindA (dedup_loop J (toView spans) (fst item) (dedup_candidates (fst item) cs) [] ?s)
          (\<lambda>(settled, distinct', s2).
             if settled \<or> \<not> contradiction_capable (fst item) then ret s2
             else contradiction_loop J (toView spans) (fst item)
                    (contradiction_candidates (fst item) distinct' cs) s2)))"
    proof (rule returns_bind, rule returns_bind_if [OF dedup])
      fix spans and a :: "bool \<times> uuid list \<times> reconcile_summary"
      assume a: "case a of (settled, distinct', s') \<Rightarrow> grows 3 0 (if settled then 1 else 0) ?s s'"
      obtain settled dj s2 where [simp]: "a = (settled, dj, s2)" by (cases a) auto
      have "returns ?P (ret s2)" using a by (intro returns_ret) (auto simp: grows_def split: if_splits)
      moreover have "returns ?P (contradiction_loop J (toView spans) (fst item)
          (contradiction_candidates (fst item) dj cs) s2)" if "\<not> settled"
        by (rule returns_mono [OF contra]) (use a that in \<open>auto simp: grows_def\<close>)
      ultimately show "returns ?P (case a of (settled, distinct', s2) \<Rightarrow>
          if settled \<or> \<not> contradiction_capable (fst item) then ret s2
          else contradiction_loop J (toView spans) (fst item)
                 (contradiction_candidates (fst item) distinct' cs) s2)"
        by auto
    qed
  qed
  then show ?thesis by (rule returns_mono) (auto intro!: exI [of _ 1])
qed

definition within_limits :: "nat \<Rightarrow> reconcile_summary \<Rightarrow> bool" where
  "within_limits n s \<longleftrightarrow> rs_considered s \<le> n \<and> rs_dedup_checks s \<le> 3 * rs_considered s \<and>
     rs_contradiction_checks s \<le> 3 * rs_considered s \<and> length (rs_actions s) \<le> rs_considered s \<and>
     length (rs_actions s) = rs_merged s + rs_contradictions s + rs_superseded s \<and> rs_enriched s \<le> rs_merged s"

lemma fold_within_limits:
  "within_limits n s \<Longrightarrow> returns (within_limits (n + length items)) (fold_each (reconcile_fact env J d) items s)"
proof (induction items arbitrary: n s)
  case Nil
  then show ?case by (simp add: returns_ret)
next
  case (Cons item items)
  have "returns (within_limits (Suc n)) (reconcile_fact env J d s item)"
    by (rule returns_mono [OF reconcile_fact_grows])
      (use Cons.prems in \<open>auto simp: within_limits_def grows_def\<close>)
  then show ?case
    using Cons.IH [of "Suc n"] by (auto intro: returns_bind_if)
qed

text \<open>
  C31. A reconciliation run that succeeds made at most three model checks per family and took
  at most one recorded action for each fact it considered, and its counters add up to the
  recorded actions.
\<close>

theorem reconcile_bounded:
  "case fst (reconcile env J d items w) of
     Inl _ \<Rightarrow> True
   | Inr s \<Rightarrow> rs_considered s \<le> length items \<and> rs_dedup_checks s \<le> 3 * rs_considered s \<and>
       rs_contradiction_checks s \<le> 3 * rs_considered s \<and> length (rs_actions s) \<le> rs_considered s \<and>
       length (rs_actions s) = rs_merged s + rs_contradictions s + rs_superseded s \<and> rs_enriched s \<le> rs_merged s"
proof -
  have "within_limits 0 empty_summary" by (simp add: within_limits_def empty_summary_def)
  then have "returns (within_limits (length items)) (reconcile env J d items)"
    using fold_within_limits [of 0 empty_summary items env J d] by (simp add: reconcile_def)
  then show ?thesis
    by (auto simp: returns_def within_limits_def split: sum.split) (metis prod.collapse)+
qed

subsection \<open>The invariant of the memory tables\<close>

lemma keeps_vectorSearch: "mem_keeps (vectorSearch search prin e opts)"
  unfolding vectorSearch_def by (intro mem.control mem.outside_ops mem.keeps_external) simp

lemma keeps_gather: "mem_keeps (gatherCandidates env d fact' e)"
  unfolding gatherCandidates_def by (intro mem.control keeps_vectorSearch)

lemma keeps_judge: "mem_keeps (judgeDedup J a b)" "mem_keeps (judgeContradiction J a b)"
  unfolding judgeDedup_def judgeContradiction_def by (auto intro!: mem.control split: option.split)

lemma keeps_dedup_loop: "mem_keeps (dedup_loop J view fact' cs dj s)"
  by (induction cs arbitrary: dj s)
    (auto simp: Let_def intro!: mem.control keeps_judge keeps_mergeSameFact)

lemma keeps_settle_pair: "mem_keeps (settle_pair v fact' other s)"
  unfolding settle_pair_def try_supersession_def raise_contradiction_def Let_def
  by (auto intro!: mem.control keeps_applySupersession keeps_createContradiction
      split: option.split contradiction_word.split)

lemma keeps_contradiction_loop: "mem_keeps (contradiction_loop J view fact' cs s)"
  by (induction cs arbitrary: s) (auto simp: Let_def intro!: mem.control keeps_judge keeps_settle_pair)

lemma keeps_reconcile_fact: "mem_keeps (reconcile_fact env J d s item)"
  unfolding reconcile_fact_def Let_def loadSpans_def
  by (auto intro!: mem.control keeps_gather keeps_dedup_loop keeps_contradiction_loop split: prod.split)

lemma keeps_reconcile: "mem_keeps (reconcile env J d items)"
  unfolding reconcile_def by (intro mem.keeps_fold_in keeps_reconcile_fact)

subsection \<open>Rows out of reach\<close>

lemma pick_in: "pick i pair \<in> {fst pair, snd pair}"
  by (simp add: pick_def)

lemma lockPair_ids:
  "lockPair a b w = (Inr pair, w') \<Longrightarrow> w' = w \<and> m_id (fst pair) \<in> {a, b} \<and> m_id (snd pair) \<in> {a, b}"
proof -
  assume run: "lockPair a b w = (Inr pair, w')"
  let ?sel = "sort_key m_id (filter (\<lambda>r. m_id r = a \<or> m_id r = b) (t_memory (w_pg w)))"
  obtain x y where xy: "?sel = [x, y]" "pair = (x, y)" "w' = w"
    using run by (auto simp: lockPair_def act_defs split: if_splits list.splits)
  have "set ?sel = {r \<in> set (t_memory (w_pg w)). m_id r = a \<or> m_id r = b}" by auto
  then show ?thesis using xy by auto
qed

lemma pins_paired:
  assumes "\<And>pair. m_id (pick a pair) \<noteq> i \<Longrightarrow> m_id (pick b pair) \<noteq> i \<Longrightarrow> pins i r (f pair)" and "a \<noteq> i" "b \<noteq> i"
  shows "pins i r (bindA (lockPair a b) f)"
proof (intro keeps_fromI pin.from_bind)
  fix w
  show "keeps_from (pinned i r) ids_forward (lockPair a b) w"
    by (rule pin.from_outside)
      (auto simp: lockPair_def act_defs outside_pg_def split: if_splits list.splits)
  fix pair w'
  assume "lockPair a b w = (Inr pair, w')"
  then have "m_id (fst pair) \<in> {a, b}" "m_id (snd pair) \<in> {a, b}" using lockPair_ids by blast+
  then have "m_id (pick a pair) \<noteq> i" "m_id (pick b pair) \<noteq> i"
    using assms(2,3) pick_in [of a pair] pick_in [of b pair] by auto
  then show "keeps_from (pinned i r) ids_forward (f pair) w'"
    by (intro keepsD assms(1))
qed

lemma pins_mergeSameFact: "x \<noteq> i \<Longrightarrow> y \<noteq> i \<Longrightarrow> pins i r (mergeSameFact x y c)"
  unfolding mergeSameFact_def Let_def
  by (rule pins_paired) (auto intro!: pin.control pins_merge_into split: merge_decision.split)

lemma pins_applySupersession: "x \<noteq> i \<Longrightarrow> y \<noteq> i \<Longrightarrow> pins i r (applySupersession x y)"
  unfolding applySupersession_def Let_def
  by (rule pins_paired) (auto intro!: pin.control pins_closeAndPoint)

lemma pins_insert_relation: "pins i r (insert_relation q)"
  by (auto simp: keeps_def keeps_from_def wp_def insert_relation_def Let_def pinned_def ids_forward_def memory_by_id_def)

lemma pins_mark_contradicted: "m_id row \<noteq> i \<Longrightarrow> pins i r (mark_contradicted row)"
  unfolding mark_contradicted_def by (intro pin.control pins_transitionInTx)

lemma pins_createContradiction: "x \<noteq> i \<Longrightarrow> y \<noteq> i \<Longrightarrow> pins i r (createContradiction x y reason)"
  unfolding createContradiction_def Let_def each_def
  by (rule pins_paired)
    (auto intro!: pin_ops pin.keeps_fold_in pins_insert_relation pins_mark_contradicted split: option.split)

lemma pins_judge: "pins i r (judgeDedup J a b)" "pins i r (judgeContradiction J a b)"
  unfolding judgeDedup_def judgeContradiction_def by (auto intro!: pin.control split: option.split)

lemma pins_dedup_loop:
  "m_id fact' \<noteq> i \<Longrightarrow> \<forall>c \<in> set cs. m_id (cd_row c) \<noteq> i \<Longrightarrow> pins i r (dedup_loop J view fact' cs dj s)"
  by (induction cs arbitrary: dj s) (auto simp: Let_def intro!: pin.control pins_judge pins_mergeSameFact)

lemma pins_settle_pair: "m_id fact' \<noteq> i \<Longrightarrow> m_id other \<noteq> i \<Longrightarrow> pins i r (settle_pair v fact' other s)"
  unfolding settle_pair_def try_supersession_def raise_contradiction_def Let_def
  by (auto intro!: pin.control pins_applySupersession pins_createContradiction
      split: option.split contradiction_word.split)

lemma pins_contradiction_loop:
  "m_id fact' \<noteq> i \<Longrightarrow> \<forall>c \<in> set cs. m_id (cd_row c) \<noteq> i \<Longrightarrow> pins i r (contradiction_loop J view fact' cs s)"
  by (induction cs arbitrary: s) (auto simp: Let_def intro!: pin.control pins_judge pins_settle_pair)

lemma set_map_set: "set (foldl map_set qs rs) \<subseteq> set qs \<union> set rs"
proof (induction rs arbitrary: qs)
  case (Cons r rs)
  have "set (map_set qs r) \<subseteq> insert r (set qs)" by (induction qs) auto
  then show ?case using Cons.IH [of "map_set qs r"] by auto
qed simp

text \<open>A candidate is a stored row of the fact's owner and scope.\<close>

lemma candidates_stored:
  "c \<in> set (candidates_of env d fact' hits) \<Longrightarrow>
     cd_row c \<in> set (t_memory d) \<and> m_owner (cd_row c) = m_owner fact' \<and> m_scope (cd_row c) = m_scope fact'"
proof -
  assume c: "c \<in> set (candidates_of env d fact' hits)"
  define rows where "rows = getManyForPrincipal (ownerPrincipal (m_owner fact')) (m_sensitive fact')
      (map h_memory_id hits) d @
    (if m_entities fact' \<noteq> [] \<and> m_kind fact' \<noteq> None
     then map sm_memory (entitySearch (se_similar env) (se_similarity env) (ownerPrincipal (m_owner fact'))
            (m_entities fact') (m_sensitive fact') (no_filters\<lparr>ff_scope := Some (m_scope fact')\<rparr>) CANDIDATE_TOP_K d)
     else [])"
  from c have "cd_row c \<in> set (foldl map_set [] rows)" "eligible fact' (cd_row c)"
    unfolding candidates_of_def Let_def rows_def by auto
  moreover have "set rows \<subseteq> set (t_memory d)"
    by (auto simp: rows_def getManyForPrincipal_def entitySearch_def best_first_def Let_def
        dest!: in_set_takeD split: if_splits)
  ultimately show ?thesis using set_map_set [of "[]" rows] by (auto simp: eligible_def)
qed

lemma bindA_assoc: "bindA (bindA m f) g = bindA m (\<lambda>x. bindA (f x) g)"
  by (rule ext) (auto simp: bindA_def split: sum.split prod.split)

lemma pins_reconcile_fact:
  assumes "rows_ok (t_memory d)" and "memory_by_id i d = Some q"
    and "m_id (fst item) \<noteq> i" and "m_owner q \<noteq> m_owner (fst item) \<or> m_scope q \<noteq> m_scope (fst item)"
  shows "pins i r (reconcile_fact env J d s item)"
proof -
  have far: "m_id (cd_row c) \<noteq> i" if "c \<in> set (candidates_of env d (fst item) hits)" for c hits
  proof
    assume "m_id (cd_row c) = i"
    then have "memory_by_id i d = Some (cd_row c)"
      using candidates_stored [OF that] memory_by_id_in [OF assms(1), of "cd_row c"] by simp
    then show False using assms(2,4) candidates_stored [OF that] by auto
  qed
  have gather: "pins i r (vectorSearch search prin e opts)" for search prin e opts
    unfolding vectorSearch_def by (intro pin.control pin.outside_ops pin.keeps_external) simp
  show ?thesis
    unfolding reconcile_fact_def Let_def gatherCandidates_def loadSpans_def
    by (auto simp: dedup_candidates_def contradiction_candidates_def assms(3) assms(3) [symmetric] bindA_assoc ret_bind far far [symmetric]
        intro!: pin.control gather pins_dedup_loop pins_contradiction_loop dest!: in_set_takeD split: prod.split)
qed

text \<open>
  C30. A reconciliation run leaves every memory of another owner, or of another scope, than
  the facts it is given exactly as it was, whatever the vector index returns and whatever the
  model answers.
\<close>

theorem reconcile_confined:
  assumes "memory_safe w" and "memory_by_id i (w_pg w) = Some r"
    and "\<forall>item \<in> set items. m_id (fst item) \<noteq> i \<and> (m_owner (fst item) \<noteq> m_owner r \<or> m_scope (fst item) \<noteq> m_scope r)"
  shows "memory_by_id i (w_pg (snd (reconcile env J (w_pg w) items w))) = Some r"
proof -
  have "pins i r (reconcile env J (w_pg w) items)"
    unfolding reconcile_def
    by (intro pin.keeps_fold_in pins_reconcile_fact [where q = r]) (use assms in \<open>auto simp: memory_safe_def\<close>)
  then show ?thesis using run_pinned [OF _ assms(2)] by (metis prod.collapse)
qed

definition sample_search :: search_env where
  "sample_search = \<lparr>se_vectors = (\<lambda>_ _ _ _. []), se_similar = (=), se_similarity = (\<lambda>_ _. 1)\<rparr>"

definition sample_judge :: judge where
  "sample_judge =
     \<lparr>jd_dedup = (\<lambda>_. Some \<lparr>dv_verdict = SameFact, dv_reason = [], dv_merged_content = None\<rparr>),
      jd_contradiction = (\<lambda>_. None)\<rparr>"

theorem reconcile_confined_witness:
  "memory_by_id (sample_id 2) (w_pg (snd (reconcile sample_search sample_judge (w_pg sample_world)
     [((sample_row 0 Active 10 None)\<lparr>m_owner := ''bob''\<rparr>, [1])] sample_world))) =
   Some (sample_row 2 UserApproved 30 None)"
proof -
  have "memory_by_id (sample_id 2) (w_pg sample_world) = Some (sample_row 2 UserApproved 30 None)"
    by (simp add: sample_world_def sample_pg_def sample_rows_def memory_by_id_def)
  from reconcile_confined [OF sample_safe this, of "[((sample_row 0 Active 10 None)\<lparr>m_owner := ''bob''\<rparr>, [1])]"]
  show ?thesis by simp
qed

subsection \<open>A status read too early\<close>

text \<open>
  The run takes the statuses of its candidates from before the transaction. When one fact has
  just contradicted an approved memory, a later fact of the same batch may still be merged
  with it, and the memory the user approved is closed.
\<close>

definition stale_world :: world where
  "stale_world = sample_world\<lparr>w_pg := sample_pg\<lparr>t_memory :=
     [sample_row 0 Active 10 None, sample_row 1 Active 50 None, sample_row 2 UserApproved 30 None]\<rparr>\<rparr>"

lemma approved_memory_closed:
  "map m_status (t_memory (w_pg (snd (thenA (createContradiction (sample_id 0) (sample_id 2) [])
     (mergeSameFact (sample_id 1) (sample_id 2) None) stale_world)))) = [Contradicted, Active, Replaced]"
  by code_simp

end
