(* ===== verification/Ingest.thy ===== *)
theory Ingest
  imports Stage_Laws Chunks Temporal_Resolver
begin

text \<open>
  The ingestion pipeline, \<^verbatim>\<open>ingestion/pipeline/pipeline.service.ts\<close> with its stages: a source is
  loaded by its connector's reader, cut into chunks, facts are extracted and verified by the
  model, embedded and stored with their verdicts, and reconciled with what the owner has. The
  model, the absolute-date parsers and the text columns of the connectors are arguments.
\<close>

subsection \<open>What the model returns\<close>

record candidate_fact =
  cf_claim :: string
  cf_kind :: fact_kind
  cf_people :: "string list"
  cf_organizations :: "string list"
  cf_projects :: "string list"
  cf_condition :: "string option"
  cf_valid_from :: "string option"
  cf_valid_until :: "string option"
  cf_anchors_resolved :: bool
  cf_expressions :: "(string \<times> temporal_kind) list"
  cf_hedged :: bool
  cf_hedge_phrase :: "string option"
  cf_subject_entity :: "string option"
  cf_source_span :: string

definition MAX_FACTS_PER_CHUNK :: nat where
  "MAX_FACTS_PER_CHUNK = 200"

definition candidate_fact_ok :: "candidate_fact \<Rightarrow> bool" where
  "candidate_fact_ok f \<longleftrightarrow> cf_claim f \<noteq> [] \<and> cf_source_span f \<noteq> [] \<and> list_all (\<lambda>e. fst e \<noteq> []) (cf_expressions f)"

definition extraction_output_ok :: "candidate_fact list \<Rightarrow> bool" where
  "extraction_output_ok fs \<longleftrightarrow> list_all candidate_fact_ok fs \<and> length fs \<le> MAX_FACTS_PER_CHUNK"

datatype verification_verdict = Supported | Partial | Unsupported

fun verdict_text :: "verification_verdict \<Rightarrow> string" where
  "verdict_text Supported = ''supported''"
| "verdict_text Partial = ''partial''"
| "verdict_text Unsupported = ''unsupported''"

record verified_fact =
  vf_fact :: candidate_fact
  vf_verdict :: verification_verdict
  vf_reason :: string

text \<open>No answer stands for a failed call; the time zone is inside \<open>ie_local_day\<close>.\<close>

record ingest_env =
  ie_extract :: "string \<Rightarrow> candidate_fact list option"
  ie_verify :: "string \<Rightarrow> (verification_verdict \<times> string) option"
  ie_embed :: "string list \<Rightarrow> rat list list option"
  ie_embedding_model :: string
  ie_local_day :: "time \<Rightarrow> int"
  ie_chrono :: chrono_parser
  ie_parse_date :: "string \<Rightarrow> time option"
  ie_search :: search_env
  ie_judge :: judge

subsection \<open>Sources\<close>

record source_item =
  si_type :: source_type
  si_id :: string
  si_owner :: user_id
  si_content :: string
  si_created_at :: time
  si_scope :: "memory_scope option"
  si_sensitive :: "bool option"
  si_authored :: "bool option"
  si_staging_key :: "string option"

record source_reader =
  sr_type :: source_type
  sr_load :: "string \<Rightarrow> source_item option op"
  sr_exists :: "string \<Rightarrow> bool op"

text \<open>The readers of the connectors whose source is one row.\<close>

definition row_exists :: "source_type \<Rightarrow> string \<Rightarrow> bool op" where
  "row_exists st i = reads (\<lambda>w. list_ex (source_at st i) (t_source (w_pg w)))"

definition load_row :: "source_type \<Rightarrow> (source_row \<Rightarrow> source_item) \<Rightarrow> string \<Rightarrow> source_item option op" where
  "load_row st item i = reads (\<lambda>w. map_option item (find (source_at st i) (t_source (w_pg w))))"

record note_columns =
  nc_content :: string
  nc_scope :: memory_scope
  nc_created_at :: time

definition NotesSourceReader :: "(string \<Rightarrow> note_columns) \<Rightarrow> source_reader" where
  "NotesSourceReader note =
     \<lparr>sr_type = UserNote,
      sr_load = load_row UserNote (\<lambda>row. let n = note (src_id row) in
        \<lparr>si_type = UserNote, si_id = src_id row, si_owner = src_owner row, si_content = nc_content n,
         si_created_at = nc_created_at n, si_scope = Some (nc_scope n), si_sensitive = None, si_authored = None,
         si_staging_key = None\<rparr>),
      sr_exists = row_exists UserNote\<rparr>"

record page_columns =
  pc_title :: "string option"
  pc_text :: string
  pc_scope :: memory_scope
  pc_sensitive :: bool
  pc_fetched_at :: time

definition WebSourceReader :: "(string \<Rightarrow> page_columns) \<Rightarrow> source_reader" where
  "WebSourceReader page =
     \<lparr>sr_type = Web,
      sr_load = load_row Web (\<lambda>row. let p = page (src_id row) in
        \<lparr>si_type = Web, si_id = src_id row, si_owner = src_owner row,
         si_content = (case pc_title p of None \<Rightarrow> pc_text p
           | Some t \<Rightarrow> if t = [] then pc_text p else t @ [CHR 0x0A, CHR 0x0A] @ pc_text p),
         si_created_at = pc_fetched_at p, si_scope = Some (pc_scope p), si_sensitive = Some (pc_sensitive p),
         si_authored = None, si_staging_key = None\<rparr>),
      sr_exists = row_exists Web\<rparr>"

text \<open>A conclusion carries its own columns; its reader needs no argument.\<close>

definition conclusion_item :: "source_row \<Rightarrow> source_item option" where
  "conclusion_item row =
     map_option (\<lambda>c. \<lparr>si_type = TaskConclusion, si_id = src_id row, si_owner = src_owner row,
        si_content = cn_statement c, si_created_at = cn_created_at c, si_scope = Some (cn_scope c),
        si_sensitive = Some (cn_sensitive c), si_authored = None, si_staging_key = None\<rparr>) (src_conclusion row)"

definition TaskConclusionSourceReader :: source_reader where
  "TaskConclusionSourceReader =
     \<lparr>sr_type = TaskConclusion,
      sr_load = (\<lambda>i. reads (\<lambda>w. Option.bind (find (source_at TaskConclusion i) (t_source (w_pg w))) conclusion_item)),
      sr_exists = row_exists TaskConclusion\<rparr>"

subsection \<open>Extraction\<close>

definition buildExtractionInput :: "source_item \<Rightarrow> chunk \<Rightarrow> string" where
  "buildExtractionInput source c =
     join [CHR 0x0A]
       [''REFERENCE TIME (when the source was written): '' @ iso_string (si_created_at source),
        ''SOURCE TYPE: '' @ source_type_text (si_type source), [], ''SOURCE CONTENT:'', ch_text c]"

definition METADATA_LABELS :: "string list" where
  "METADATA_LABELS = [''REFERENCE TIME'', ''SOURCE TYPE'', ''SOURCE CONTENT'']"

definition carriesMetadataLabel :: "candidate_fact \<Rightarrow> bool" where
  "carriesMetadataLabel f =
     list_ex (\<lambda>field. list_ex (\<lambda>l. contains l field) METADATA_LABELS)
       [cf_claim f, cf_source_span f, or_else (cf_subject_entity f) []]"

definition extract_chunk :: "ingest_env \<Rightarrow> source_item \<Rightarrow> candidate_fact list \<Rightarrow> chunk \<Rightarrow> candidate_fact list op" where
  "extract_chunk env source facts c =
     (case ie_extract env (buildExtractionInput source c) of
        None \<Rightarrow> raise (Failure ''model call failed'')
      | Some output \<Rightarrow>
          if extraction_output_ok output
          then ret (facts @ filter (\<lambda>f. \<not> carriesMetadataLabel f) output)
          else raise (Failure ''model output does not fit the schema''))"

definition extract_run :: "ingest_env \<Rightarrow> source_item \<Rightarrow> chunk list \<Rightarrow> candidate_fact list op" where
  "extract_run env source chunks = fold_each (extract_chunk env source) chunks []"

subsection \<open>Verification\<close>

definition CONTEXT_WINDOW_CHARS :: nat where
  "CONTEXT_WINDOW_CHARS = 240"

fun index_of :: "string \<Rightarrow> string \<Rightarrow> nat option" where
  "index_of pat [] = (if pat = [] then Some 0 else None)"
| "index_of pat (c # cs) = (if take (length pat) (c # cs) = pat then Some 0 else map_option Suc (index_of pat cs))"

definition home_chunk :: "string \<Rightarrow> chunk list \<Rightarrow> chunk option" where
  "home_chunk passage chunks =
     (case find (\<lambda>c. contains passage (ch_text c)) chunks of
        Some c \<Rightarrow> Some c
      | None \<Rightarrow> (case chunks of [] \<Rightarrow> None | c # _ \<Rightarrow> Some c))"

definition verification_context :: "string \<Rightarrow> chunk list \<Rightarrow> string" where
  "verification_context passage chunks =
     (case home_chunk passage chunks of
        None \<Rightarrow> passage
      | Some home \<Rightarrow>
          (case index_of passage (ch_text home) of
             None \<Rightarrow> ch_text home
           | Some at' \<Rightarrow>
               let start = at' - CONTEXT_WINDOW_CHARS;
                   stop = min (length (ch_text home)) (at' + length passage + CONTEXT_WINDOW_CHARS)
               in take (stop - start) (drop start (ch_text home))))"

definition buildVerificationInput :: "candidate_fact \<Rightarrow> chunk list \<Rightarrow> string" where
  "buildVerificationInput f chunks =
     join [CHR 0x0A]
       [''CLAIM UNDER REVIEW:'', cf_claim f, [], ''CITED PASSAGE:'', cf_source_span f, [],
        ''SURROUNDING SOURCE TEXT:'', verification_context (cf_source_span f) chunks]"

definition verify_fact :: "ingest_env \<Rightarrow> chunk list \<Rightarrow> verified_fact list \<Rightarrow> candidate_fact \<Rightarrow> verified_fact list op" where
  "verify_fact env chunks verified f =
     (case ie_verify env (buildVerificationInput f chunks) of
        None \<Rightarrow> raise (Failure ''model call failed'')
      | Some (verdict, reason) \<Rightarrow>
          if reason = [] then raise (Failure ''model output does not fit the schema'')
          else ret (verified @ [\<lparr>vf_fact = f, vf_verdict = verdict, vf_reason = reason\<rparr>]))"

definition verify_run :: "ingest_env \<Rightarrow> chunk list \<Rightarrow> candidate_fact list \<Rightarrow> verified_fact list op" where
  "verify_run env chunks facts = fold_each (verify_fact env chunks) facts []"

subsection \<open>Embedding and storing\<close>

definition flattenEntities :: "candidate_fact \<Rightarrow> string list" where
  "flattenEntities f =
     dedupe (filter (\<lambda>n. n \<noteq> []) (map js_trim (cf_people f @ cf_organizations f @ cf_projects f)))"

definition parse_legacy :: "ingest_env \<Rightarrow> string option \<Rightarrow> date option" where
  "parse_legacy env v =
     (case v of None \<Rightarrow> None | Some s \<Rightarrow> if s = [] then None else map_option At (ie_parse_date env s))"

definition resolveFactTemporal :: "ingest_env \<Rightarrow> candidate_fact \<Rightarrow> time \<Rightarrow> resolved_interval" where
  "resolveFactTemporal env f anchor =
     (if cf_expressions f \<noteq> []
      then resolveTemporalExpressions (ie_local_day env) (ie_chrono env) (cf_expressions f) anchor
      else \<lparr>ri_from = parse_legacy env (cf_valid_from f), ri_until = parse_legacy env (cf_valid_until f),
             ri_unresolved = []\<rparr>)"

text \<open>Writing an invalid date to a timestamp column throws.\<close>

fun timestamp_of :: "date option \<Rightarrow> time option op" where
  "timestamp_of None = ret None"
| "timestamp_of (Some (At t)) = ret (Some t)"
| "timestamp_of (Some Invalid) = raise (Failure ''Invalid time value'')"

definition admission_status :: "verified_fact \<Rightarrow> initial_status" where
  "admission_status v =
     (if \<not> cf_hedged (vf_fact v) \<and> vf_verdict v = Supported then InitActive else InitUncertain)"

record admitted_memory =
  am_status :: initial_status
  am_row :: memory_row
  am_embedding :: "rat list"

definition fact_row :: "ingest_env \<Rightarrow> source_item \<Rightarrow> verified_fact \<Rightarrow> time option \<Rightarrow> time option \<Rightarrow> string list \<Rightarrow> new_fact" where
  "fact_row env source v validFrom validUntil unresolved =
     (let f = vf_fact v in
      \<lparr>nf_content = cf_claim f, nf_scope = or_else (si_scope source) Private, nf_source_type = si_type source,
       nf_source_id = si_id source, nf_entities = Some (flattenEntities f), nf_subject_entity = cf_subject_entity f,
       nf_kind = Some (cf_kind f), nf_authored_by_user = si_authored source,
       nf_temporal_unresolved = Some unresolved, nf_sensitive = Some (or_else (si_sensitive source) False),
       nf_valid_from = validFrom, nf_valid_until = validUntil, nf_initial_status = Some (admission_status v),
       nf_embedding_model = Some (ie_embedding_model env)\<rparr>)"

definition insert_verification :: "verification_row \<Rightarrow> unit op" where
  "insert_verification v = updates (update_pg (\<lambda>d. d\<lparr>t_verification := t_verification d @ [v]\<rparr>))"

definition admit_fact ::
  "ingest_env \<Rightarrow> source_item \<Rightarrow> admitted_memory list \<Rightarrow> verified_fact \<times> rat list \<Rightarrow> admitted_memory list op" where
  "admit_fact env source admitted item =
     (let v = fst item; f = vf_fact v; interval = resolveFactTemporal env f (si_created_at source) in
      bindA (timestamp_of (ri_from interval)) (\<lambda>validFrom.
      bindA (timestamp_of (ri_until interval)) (\<lambda>validUntil.
      bindA (admitExtractedFact (si_owner source)
               (fact_row env source v validFrom validUntil (ri_unresolved interval))) (\<lambda>row.
      thenA (insert_verification
               \<lparr>vr_memory = m_id row, vr_verdict = verdict_text (vf_verdict v), vr_reason = vf_reason v,
                 vr_span = Some (cf_source_span f),
                 vr_hedge = (if cf_hedged f then cf_hedge_phrase f else None)\<rparr>)
        (ret (admitted @ [\<lparr>am_status = admission_status v, am_row = row, am_embedding = snd item\<rparr>]))))))"

text \<open>With fewer embeddings than facts the missing ones are undefined; the length check refuses them.\<close>

definition pair_embeddings :: "verified_fact list \<Rightarrow> rat list list \<Rightarrow> (verified_fact \<times> rat list) list" where
  "pair_embeddings verified embeddings =
     zip verified (embeddings @ replicate (length verified - length embeddings) [])"

definition embed_store :: "ingest_env \<Rightarrow> source_item \<Rightarrow> verified_fact list \<Rightarrow> admitted_memory list op" where
  "embed_store env source verified =
     (if verified = [] then ret []
      else case ie_embed env (map (\<lambda>v. cf_claim (vf_fact v)) verified) of
        None \<Rightarrow> raise (Failure ''model call failed'')
      | Some embeddings \<Rightarrow>
          bindA (fold_each (admit_fact env source) (pair_embeddings verified embeddings) []) (\<lambda>admitted.
          thenA (upsertVectors (map am_row admitted) embeddings) (ret admitted)))"

subsection \<open>The pipeline\<close>

record parse_caps =
  pc_max_text_chars :: nat
  pc_max_chunks :: nat
  pc_max_facts :: nat

definition DEFAULT_PARSE_CAPS :: parse_caps where
  "DEFAULT_PARSE_CAPS = \<lparr>pc_max_text_chars = 1000000, pc_max_chunks = 200, pc_max_facts = 100\<rparr>"

datatype skip_cause = SourceMissing | SourceDeleted

record pipeline_summary =
  ps_chunks :: nat
  ps_extracted :: nat
  ps_supported :: nat
  ps_partial :: nat
  ps_unsupported :: nat
  ps_active :: nat
  ps_uncertain :: nat
  ps_embedded :: nat
  ps_reconcile :: reconcile_summary
  ps_skipped :: "skip_cause option"

definition blank_summary :: pipeline_summary where
  "blank_summary = \<lparr>ps_chunks = 0, ps_extracted = 0, ps_supported = 0, ps_partial = 0, ps_unsupported = 0,
     ps_active = 0, ps_uncertain = 0, ps_embedded = 0, ps_reconcile = empty_summary, ps_skipped = None\<rparr>"

definition count_if :: "('a \<Rightarrow> bool) \<Rightarrow> 'a list \<Rightarrow> nat" where
  "count_if P xs = length (filter P xs)"

definition ref_json :: "job_payload \<Rightarrow> (string \<times> json) list" where
  "ref_json p = [(''source_type'', JStr (j_source_type p)), (''source_id'', JStr (j_source_id p))]"

definition FILE_DISCARD_CLEANUP_JOB_TYPE :: string where
  "FILE_DISCARD_CLEANUP_JOB_TYPE = ''file.discard_cleanup''"

definition abort_admission :: "job_payload \<Rightarrow> source_item \<Rightarrow> nat \<Rightarrow> unit op" where
  "abort_admission p source verified =
     writeAudit \<lparr>a_actor = ''ingestion_pipeline'', a_action = ''ingestion.admission_aborted'',
       a_entity_type = ''source'', a_entity_id = j_source_type p @ ''/'' @ j_source_id p,
       a_detail = JObj (ref_json p @ [(''verified'', JInt (int verified)), (''cause'', JStr ''source_deleted_mid_flight'')]),
       a_org_id = None, a_owner_id = Some (si_owner source)\<rparr>"

definition enqueue_followers :: "job_payload \<Rightarrow> source_item \<Rightarrow> admitted_memory list \<Rightarrow> unit op" where
  "enqueue_followers p source admitted =
     thenA (when_do (admitted \<noteq> []) (withTransactionalEnqueue
              \<lparr>ev_type = ''source.processed'', ev_payload = ref_json p\<rparr> TASK_DERIVE_JOB_TYPE p))
       (case si_staging_key source of
          None \<Rightarrow> ret ()
        | Some key \<Rightarrow>
            when_do (key \<noteq> []) (withTransactionalEnqueue
              \<lparr>ev_type = ''source.discard_original'', ev_payload = ref_json p\<rparr> FILE_DISCARD_CLEANUP_JOB_TYPE
              \<lparr>j_source_type = source_type_text (si_type source), j_source_id = key\<rparr>))"

text \<open>The writing half, from the admitted facts on. \<open>d\<close> are the tables before the transaction.\<close>

definition store_and_reconcile ::
  "ingest_env \<Rightarrow> pg \<Rightarrow> job_payload \<Rightarrow> source_item \<Rightarrow> verified_fact list \<Rightarrow> pipeline_summary \<Rightarrow> pipeline_summary op" where
  "store_and_reconcile env d p source verified s =
     bindA (embed_store env source verified) (\<lambda>admitted.
     bindA (reconcile (ie_search env) (ie_judge env) d (map (\<lambda>a. (am_row a, am_embedding a)) admitted)) (\<lambda>rs.
     thenA (enqueue_followers p source admitted)
       (ret (s\<lparr>ps_active := count_if (\<lambda>a. am_status a = InitActive) admitted,
               ps_uncertain := count_if (\<lambda>a. am_status a = InitUncertain) admitted,
               ps_embedded := length admitted, ps_reconcile := rs\<rparr>))))"

definition has_staging :: "source_item \<Rightarrow> bool" where
  "has_staging source = (case si_staging_key source of None \<Rightarrow> False | Some k \<Rightarrow> k \<noteq> [])"

definition admit_source ::
  "ingest_env \<Rightarrow> pg \<Rightarrow> source_reader \<Rightarrow> job_payload \<Rightarrow> source_item \<Rightarrow> verified_fact list \<Rightarrow> pipeline_summary \<Rightarrow>
     pipeline_summary op" where
  "admit_source env d reader p source verified s =
     bindA (if verified \<noteq> [] \<and> \<not> has_staging source then sr_exists reader (j_source_id p) else ret True) (\<lambda>still.
     if \<not> still
     then thenA (abort_admission p source (length verified)) (ret (s\<lparr>ps_skipped := Some SourceDeleted\<rparr>))
     else store_and_reconcile env d p source verified s)"

definition pipeline_run ::
  "ingest_env \<Rightarrow> parse_caps \<Rightarrow> source_reader list \<Rightarrow> pg \<Rightarrow> job_payload \<Rightarrow> pipeline_summary op" where
  "pipeline_run env caps readers d p =
     (case find (\<lambda>r. source_type_text (sr_type r) = j_source_type p) readers of
        None \<Rightarrow> raise (Failure ''no source reader registered'')
      | Some reader \<Rightarrow>
          bindA (sr_load reader (j_source_id p)) (\<lambda>loaded.
          case loaded of
            None \<Rightarrow> ret (blank_summary\<lparr>ps_skipped := Some SourceMissing\<rparr>)
          | Some source \<Rightarrow>
              let chunks = take (pc_max_chunks caps) (chunkContent (take (pc_max_text_chars caps) (si_content source))) in
              bindA (extract_run env source chunks) (\<lambda>all_facts.
              let facts = take (pc_max_facts caps) all_facts in
              bindA (verify_run env chunks facts) (\<lambda>verified.
              admit_source env d reader p source verified
                (blank_summary\<lparr>ps_chunks := length chunks, ps_extracted := length facts,
                   ps_supported := count_if (\<lambda>v. vf_verdict v = Supported) verified,
                   ps_partial := count_if (\<lambda>v. vf_verdict v = Partial) verified,
                   ps_unsupported := count_if (\<lambda>v. vf_verdict v = Unsupported) verified\<rparr>)))))"

text \<open>The worker's handler; nothing runs after the commit.\<close>

definition ingestion_handler :: "ingest_env \<Rightarrow> parse_caps \<Rightarrow> source_reader list \<Rightarrow> job_handler" where
  "ingestion_handler env caps readers p =
     bindA (reads w_pg) (\<lambda>d. thenA (pipeline_run env caps readers d p) (ret None))"

end
