(* ===== verification/Email_Text.thy ===== *)
theory Email_Text
  imports Ingest
begin

text \<open>
  What of an e-mail body is extracted, \<^verbatim>\<open>ingestion/pipeline/email-preprocess.ts\<close>: the innermost
  forwarded message if there is one, without quoted history and without the signature, and the
  headers a forwarded block names. The regular expressions are matchers on the lower-case text;
  none of them needs to backtrack, because what follows each repetition cannot be repeated. The
  letters U+0111 and U+0160 of the Croatian literals are written as their two UTF-8 bytes.
\<close>

subsection \<open>Lines\<close>

definition newline :: char where
  "newline = CHR 0x0A"

fun lines_of :: "string \<Rightarrow> string list" where
  "lines_of [] = [[]]"
| "lines_of (c # cs) =
     (if c = newline then [] # lines_of cs
      else case lines_of cs of [] \<Rightarrow> [[c]] | l # ls \<Rightarrow> (c # l) # ls)"

definition join_lines :: "string list \<Rightarrow> string" where
  "join_lines ls = join [newline] ls"

text \<open>A carriage return before a newline goes; any other becomes a newline.\<close>

fun drop_cr :: "string \<Rightarrow> string" where
  "drop_cr [] = []"
| "drop_cr (c # cs) = (if c = CHR 0x0D \<and> take 1 cs = [newline] then drop_cr cs else c # drop_cr cs)"

definition normalize_newlines :: "string \<Rightarrow> string" where
  "normalize_newlines s = map (\<lambda>c. if c = CHR 0x0D then newline else c) (drop_cr s)"

definition blank_line :: "string \<Rightarrow> bool" where
  "blank_line l \<longleftrightarrow> js_trim l = []"

subsection \<open>Matchers\<close>

definition low :: "string \<Rightarrow> string" where
  "low s = to_lower s"

definition after_lit :: "string \<Rightarrow> string \<Rightarrow> string option" where
  "after_lit p s = lit (to_lower p) s"

definition dashes :: "nat \<Rightarrow> string \<Rightarrow> string option" where
  "dashes n s =
     (let run = takeWhile (\<lambda>c. c = CHR ''-'') s
      in if n \<le> length run then Some (drop (length run) s) else None)"

text \<open>\<^verbatim>\<open>-{n,}\s*title\s*-{n,}\<close>\<close>

definition ruled :: "nat \<Rightarrow> string \<Rightarrow> string \<Rightarrow> string option" where
  "ruled n title s =
     Option.bind (dashes n s) (\<lambda>s. Option.bind (after_lit title (blanks s)) (\<lambda>s. dashes n (blanks s)))"

definition tabs_and_blanks :: "string \<Rightarrow> string" where
  "tabs_and_blanks s = dropWhile (\<lambda>c. c = CHR 0x20 \<or> c = CHR 0x09) s"

definition first_of :: "string list \<Rightarrow> string \<Rightarrow> string option" where
  "first_of ps s = first_some (map (\<lambda>p. after_lit p s) ps)"

definition named_header :: "string list \<Rightarrow> string \<Rightarrow> bool" where
  "named_header names l =
     list_ex (\<lambda>n. after_lit (n @ '':'') (blanks (low l)) \<noteq> None) names"

text \<open>\<open>forwarded_message\<close> with d-stroke in either case.\<close>

definition FORWARD_MARKERS :: "(string \<Rightarrow> string option) list" where
  "FORWARD_MARKERS =
     [\<lambda>s. ruled 1 ''Forwarded message'' (tabs_and_blanks s),
      \<lambda>s. after_lit ''Begin forwarded message:'' (tabs_and_blanks s),
      \<lambda>s. first_some
        [ruled 1 (''Proslije'' @ [CHR 0xC4, CHR 0x91] @ ''ena poruka'') (tabs_and_blanks s),
         ruled 1 (''Proslije'' @ [CHR 0xC4, CHR 0x90] @ ''ena poruka'') (tabs_and_blanks s)]]"

text \<open>A pattern that is an opening word, anything, and an ending that starts at a word boundary.\<close>

definition opened :: "string \<Rightarrow> (string \<Rightarrow> bool) \<Rightarrow> string \<Rightarrow> bool" where
  "opened p ending s =
     (case Option.bind (after_lit p s) (\<lambda>rest. if at_boundary True rest then Some rest else None) of
        None \<Rightarrow> False
      | Some rest \<Rightarrow> scan (\<lambda>prev t. if at_boundary prev t \<and> ending t then Some () else None) True rest \<noteq> None)"

definition only_blanks_after :: "string \<Rightarrow> string \<Rightarrow> bool" where
  "only_blanks_after p t = (case after_lit p t of None \<Rightarrow> False | Some rest \<Rightarrow> blanks rest = [])"

definition je_napisao_la :: "string \<Rightarrow> bool" where
  "je_napisao_la t =
     (case Option.bind (after_lit ''je'' t) some_blanks of None \<Rightarrow> False | Some rest \<Rightarrow> only_blanks_after ''napisao/la:'' rest)"

definition REPLY_ATTRIBUTION :: "string \<Rightarrow> bool" where
  "REPLY_ATTRIBUTION l \<longleftrightarrow>
     (let s = blanks (low l) in
      opened ''On'' (only_blanks_after ''wrote:'') s \<or>
      ruled 2 ''Original Message'' s \<noteq> None \<or>
      opened ''Dana'' (\<lambda>t. first_of [''napisao'', ''napisala'', ''je napisao'', ''je napisala''] t \<noteq> None) s \<or>
      scan (\<lambda>prev t. if at_boundary prev t \<and> je_napisao_la t then Some () else None) False (low l) \<noteq> None \<or>
      opened ''El'' (\<lambda>t. after_lit (''escribi'' @ [CHR 0xF3] @ '':'') t \<noteq> None) s \<or>
      opened ''Am'' (\<lambda>t. after_lit ''schrieb'' t \<noteq> None) s)"

definition s_caron_alje :: "string list" where
  "s_caron_alje = [[CHR 0xC5, CHR 0xA0] @ ''alje'', [CHR 0xC5, CHR 0xA1] @ ''alje'']"

definition FORWARD_HEADER_LINE :: "string \<Rightarrow> bool" where
  "FORWARD_HEADER_LINE l =
     named_header ([''From'', ''Sent'', ''Date'', ''To'', ''Cc'', ''Bcc'', ''Subject'', ''Reply-To'', ''Od''] @
       s_caron_alje @ [''Poslano'', ''Za'', ''Predmet'', ''Datum'']) l"

definition DEVICE_SIGNOFF :: "string \<Rightarrow> bool" where
  "DEVICE_SIGNOFF l =
     list_ex (\<lambda>p. case after_lit p (blanks (low l)) of None \<Rightarrow> False | Some rest \<Rightarrow> at_boundary True rest)
       [''Sent from my'', ''Poslano s'', ''Get Outlook for'']"

definition quoted_line :: "string \<Rightarrow> bool" where
  "quoted_line l = (case blanks l of [] \<Rightarrow> False | c # _ \<Rightarrow> c = CHR ''>'')"

subsection \<open>Isolation\<close>

text \<open>
  The matches of one global multi-line expression, as start position and rest of the text:
  the search goes on behind a match, \<open>ahead\<close> characters from here.
\<close>

fun marker_hits :: "(string \<Rightarrow> string option) \<Rightarrow> nat \<Rightarrow> bool \<Rightarrow> nat \<Rightarrow> string \<Rightarrow> (nat \<times> nat) list" where
  "marker_hits m pos bol ahead [] = []"
| "marker_hits m pos bol (Suc ahead) (c # cs) = marker_hits m (pos + 1) (c = newline) ahead cs"
| "marker_hits m pos bol 0 (c # cs) =
     (case (if bol then m (low (c # cs)) else None) of
        None \<Rightarrow> marker_hits m (pos + 1) (c = newline) 0 cs
      | Some rest \<Rightarrow>
          (pos, pos + (length (c # cs) - length rest))
            # marker_hits m (pos + 1) (c = newline) (length cs - length rest) cs)"

definition later_hit :: "(nat \<times> nat) option \<Rightarrow> nat \<times> nat \<Rightarrow> (nat \<times> nat) option" where
  "later_hit best h = (case best of None \<Rightarrow> Some h | Some b \<Rightarrow> if fst b \<le> fst h then Some h else Some b)"

definition last_marker :: "string \<Rightarrow> (nat \<times> nat) option" where
  "last_marker s = foldl later_hit None (concat (map (\<lambda>m. marker_hits m 0 True 0 s) FORWARD_MARKERS))"

definition stripForwardHeaderStanza :: "string \<Rightarrow> string" where
  "stripForwardHeaderStanza body =
     (let ls = dropWhile blank_line (lines_of body);
          rest = dropWhile FORWARD_HEADER_LINE ls
      in join_lines (if length rest < length ls then dropWhile blank_line rest else rest))"

definition extractInnermostForward :: "string \<Rightarrow> string option" where
  "extractInnermostForward s = map_option (\<lambda>h. stripForwardHeaderStanza (drop (snd h) s)) (last_marker s)"

definition stripQuotedReply :: "string \<Rightarrow> string" where
  "stripQuotedReply s =
     join_lines (filter (\<lambda>l. \<not> quoted_line l) (takeWhile (\<lambda>l. \<not> REPLY_ATTRIBUTION l) (lines_of s)))"

definition signature_line :: "string \<Rightarrow> bool" where
  "signature_line l \<longleftrightarrow> l = ''-- '' \<or> js_trim l = ''--''"

definition stripSignature :: "string \<Rightarrow> string" where
  "stripSignature s =
     join_lines (rev (dropWhile (\<lambda>l. blank_line l \<or> DEVICE_SIGNOFF l)
       (rev (takeWhile (\<lambda>l. \<not> signature_line l) (lines_of s)))))"

record isolated_content =
  ic_content :: string
  ic_forwarded :: bool
  ic_quoted_fallback :: bool

fun or_text :: "string \<Rightarrow> string \<Rightarrow> string" where
  "or_text [] t = t"
| "or_text (c # cs) t = c # cs"

definition isolateEmailContentDetailed :: "string option \<Rightarrow> isolated_content" where
  "isolateEmailContentDetailed body =
     (case body of
        None \<Rightarrow> \<lparr>ic_content = [], ic_forwarded = False, ic_quoted_fallback = False\<rparr>
      | Some [] \<Rightarrow> \<lparr>ic_content = [], ic_forwarded = False, ic_quoted_fallback = False\<rparr>
      | Some (c # cs) \<Rightarrow>
          let normalized = normalize_newlines (c # cs);
              inner = extractInnermostForward normalized;
              deQuoted = stripQuotedReply (or_else inner normalized);
              isolated = js_trim (stripSignature deQuoted)
          in \<lparr>ic_content = or_text isolated (or_text (js_trim deQuoted) (js_trim normalized)),
               ic_forwarded = (inner \<noteq> None),
               ic_quoted_fallback = (isolated = [] \<and> (js_trim deQuoted \<noteq> [] \<or> js_trim normalized \<noteq> []))\<rparr>)"

definition isolateEmailContent :: "string option \<Rightarrow> string" where
  "isolateEmailContent body = ic_content (isolateEmailContentDetailed body)"

subsection \<open>Headers of a forwarded block\<close>

record forwarded_headers =
  fh_from :: "string option"
  fh_to :: "string option"
  fh_cc :: "string option"
  fh_subject :: "string option"
  fh_date :: "string option"
  fh_message_id :: "string option"

datatype header_key = FromKey | ToKey | CcKey | SubjectKey | DateKey | MessageIdKey

definition canonicalHeaderKey :: "string \<Rightarrow> header_key option" where
  "canonicalHeaderKey raw =
     (let k = to_lower (js_trim raw) in
      if k \<in> set ([''from'', ''od'', ''salje''] @ map to_lower s_caron_alje) then Some FromKey
      else if k = ''to'' \<or> k = ''za'' then Some ToKey
      else if k = ''cc'' then Some CcKey
      else if k = ''subject'' \<or> k = ''predmet'' then Some SubjectKey
      else if k = ''date'' \<or> k = ''sent'' \<or> k = ''datum'' \<or> k = ''poslano'' then Some DateKey
      else if k = ''message-id'' then Some MessageIdKey else None)"

definition ascii_letter :: "char \<Rightarrow> bool" where
  "ascii_letter c \<longleftrightarrow> small_letter c \<or> in_range 65 90 c"

definition header_name :: "string \<Rightarrow> string" where
  "header_name s =
     (if lit (hd s_caron_alje) s \<noteq> None then hd s_caron_alje
      else case s of [] \<Rightarrow> [] | c # cs \<Rightarrow>
        if ascii_letter c then c # takeWhile (\<lambda>x. ascii_letter x \<or> x = CHR ''-'') cs else [])"

definition HEADER_LINE_RE :: "string \<Rightarrow> (string \<times> string) option" where
  "HEADER_LINE_RE l =
     (let s = blanks l; name = header_name s
      in if name = [] then None
         else map_option (\<lambda>rest. (name, blanks rest)) (lit '':'' (drop (length name) s)))"

definition header_at :: "header_key \<Rightarrow> forwarded_headers \<Rightarrow> string option" where
  "header_at k h = (case k of FromKey \<Rightarrow> fh_from h | ToKey \<Rightarrow> fh_to h | CcKey \<Rightarrow> fh_cc h
     | SubjectKey \<Rightarrow> fh_subject h | DateKey \<Rightarrow> fh_date h | MessageIdKey \<Rightarrow> fh_message_id h)"

definition set_header :: "header_key \<Rightarrow> string \<Rightarrow> forwarded_headers \<Rightarrow> forwarded_headers" where
  "set_header k v h = (case k of FromKey \<Rightarrow> h\<lparr>fh_from := Some v\<rparr> | ToKey \<Rightarrow> h\<lparr>fh_to := Some v\<rparr>
     | CcKey \<Rightarrow> h\<lparr>fh_cc := Some v\<rparr> | SubjectKey \<Rightarrow> h\<lparr>fh_subject := Some v\<rparr>
     | DateKey \<Rightarrow> h\<lparr>fh_date := Some v\<rparr> | MessageIdKey \<Rightarrow> h\<lparr>fh_message_id := Some v\<rparr>)"

definition take_header :: "string \<times> string \<Rightarrow> forwarded_headers \<Rightarrow> forwarded_headers" where
  "take_header nv h =
     (let v = js_trim (snd nv) in
      case canonicalHeaderKey (fst nv) of
        None \<Rightarrow> h
      | Some k \<Rightarrow> if header_at k h = None \<and> v \<noteq> [] then set_header k v h else h)"

fun header_stanza :: "string list \<Rightarrow> forwarded_headers \<Rightarrow> forwarded_headers" where
  "header_stanza [] h = h"
| "header_stanza (l # ls) h =
     (case HEADER_LINE_RE l of None \<Rightarrow> h | Some nv \<Rightarrow> header_stanza ls (take_header nv h))"

fun stanza_follows :: "string list \<Rightarrow> bool" where
  "stanza_follows [] = False"
| "stanza_follows (l # ls) =
     (if blank_line l then stanza_follows ls
      else if named_header [''To'', ''Cc'', ''Subject'', ''Sent'', ''Date'', ''Za'', ''Predmet'', ''Datum'', ''Poslano''] l then True
      else if HEADER_LINE_RE l = None then False
      else stanza_follows ls)"

definition looksLikeHeaderStanza :: "string list \<Rightarrow> bool" where
  "looksLikeHeaderStanza following = stanza_follows (take 4 following)"

definition forward_marker_line :: "string \<Rightarrow> bool" where
  "forward_marker_line l \<longleftrightarrow>
     list_ex (\<lambda>m. m (low l) \<noteq> None) FORWARD_MARKERS \<or> ruled 2 ''Original Message'' (blanks (low l)) \<noteq> None"

definition names_sender :: "string \<Rightarrow> bool" where
  "names_sender l =
     list_ex (\<lambda>p. case after_lit p (blanks (low l)) of None \<Rightarrow> False | Some rest \<Rightarrow> blanks rest \<noteq> [])
       [''From:'', ''Od:'']"

fun after_marker :: "string list \<Rightarrow> string list option" where
  "after_marker [] = None"
| "after_marker (l # ls) = (if forward_marker_line l then Some ls else after_marker ls)"

fun bare_stanza :: "string list \<Rightarrow> string list option" where
  "bare_stanza [] = None"
| "bare_stanza (l # ls) =
     (if names_sender l \<and> looksLikeHeaderStanza ls then Some (l # ls) else bare_stanza ls)"

definition no_headers :: forwarded_headers where
  "no_headers = \<lparr>fh_from = None, fh_to = None, fh_cc = None, fh_subject = None, fh_date = None, fh_message_id = None\<rparr>"

definition parseForwardedHeaders :: "string option \<Rightarrow> forwarded_headers option" where
  "parseForwardedHeaders body =
     (case body of
        None \<Rightarrow> None
      | Some [] \<Rightarrow> None
      | Some (c # cs) \<Rightarrow>
          let ls = lines_of (normalize_newlines (c # cs)) in
          (case first_some [after_marker ls, bare_stanza ls] of
             None \<Rightarrow> None
           | Some start \<Rightarrow>
               let h = header_stanza (dropWhile blank_line start) no_headers
               in if fh_from h \<noteq> None \<or> fh_subject h \<noteq> None then Some h else None))"

subsection \<open>The e-mail reader\<close>

record email_columns =
  ec_subject :: "string option"
  ec_text :: "string option"
  ec_calendar :: "string option"
  ec_authored_by_owner :: "bool option"
  ec_sent_at :: "time option"
  ec_received_at :: time
  ec_scope :: memory_scope
  ec_sensitive :: bool

definition email_authored :: "email_columns \<Rightarrow> isolated_content \<Rightarrow> bool option" where
  "email_authored e ic =
     map_option (\<lambda>own. own \<and> \<not> ic_forwarded ic \<and> \<not> ic_quoted_fallback ic) (ec_authored_by_owner e)"

definition email_content :: "email_columns \<Rightarrow> isolated_content \<Rightarrow> string" where
  "email_content e ic =
     join [newline, newline]
       (filter (\<lambda>p. p \<noteq> []) [js_trim (or_else (ec_subject e) []), ic_content ic, js_trim (or_else (ec_calendar e) [])])"

definition email_item :: "source_row \<Rightarrow> email_columns \<Rightarrow> source_item" where
  "email_item row e =
     (let ic = isolateEmailContentDetailed (ec_text e) in
      \<lparr>si_type = Email, si_id = src_id row, si_owner = src_owner row, si_content = email_content e ic,
       si_created_at = or_else (ec_sent_at e) (ec_received_at e), si_scope = Some (ec_scope e),
       si_sensitive = Some (ec_sensitive e), si_authored = email_authored e ic, si_staging_key = None\<rparr>)"

definition EmailSourceReader :: "(string \<Rightarrow> email_columns) \<Rightarrow> source_reader" where
  "EmailSourceReader email =
     \<lparr>sr_type = Email, sr_load = load_row Email (\<lambda>row. email_item row (email (src_id row))),
      sr_exists = row_exists Email\<rparr>"

end
