(* ===== verification/Email_Laws.thy ===== *)
theory Email_Laws
  imports Email_Text
begin

text \<open>What the isolation of e-mail text promises, and where it and the header parser disagree.\<close>

subsection \<open>Lines\<close>

lemma lines_of_not_Nil [simp]: "lines_of s \<noteq> []"
  by (induction s) (auto split: list.split)

lemma join_lines_push: "join_lines ((c # l) # ls) = c # join_lines (l # ls)"
  by (cases ls) (simp_all add: join_lines_def)

lemma join_lines_of [simp]: "join_lines (lines_of s) = s"
proof (induction s)
  case Nil
  show ?case by (simp add: join_lines_def)
next
  case (Cons c s)
  obtain l ls where split: "lines_of s = l # ls" by (meson lines_of_not_Nil neq_Nil_conv)
  with Cons.IH have "join_lines (l # ls) = s" by simp
  then show ?case by (auto simp: split join_lines_push) (simp add: join_lines_def)
qed

lemma lines_have_no_newline: "l \<in> set (lines_of s) \<Longrightarrow> newline \<notin> set l"
  by (induction s arbitrary: l) (auto split: if_splits list.splits)

lemma lines_of_plain: "newline \<notin> set l \<Longrightarrow> lines_of l = [l]"
  by (induction l) auto

lemma lines_of_append: "newline \<notin> set l \<Longrightarrow> lines_of (l @ newline # s) = l # lines_of s"
  by (induction l) auto

lemma lines_of_join: "ls \<noteq> [] \<Longrightarrow> \<forall>l \<in> set ls. newline \<notin> set l \<Longrightarrow> lines_of (join_lines ls) = ls"
proof (induction ls rule: induct_list012)
  case (3 a b ls)
  then show ?case using lines_of_append [of a "join_lines (b # ls)"] by (simp add: join_lines_def)
qed (auto simp: join_lines_def lines_of_plain)

lemma set_join_lines: "set (join_lines ls) \<subseteq> insert newline (\<Union> (set ` set ls))"
  by (induction ls rule: induct_list012) (auto simp: join_lines_def)


lemma set_lines_of: "l \<in> set (lines_of s) \<Longrightarrow> set l \<subseteq> set s"
  by (induction s arbitrary: l) (fastforce split: if_splits list.splits)+

lemma space_join: "\<forall>l \<in> set ls. list_all js_space l \<Longrightarrow> list_all js_space (join_lines ls)"
  using set_join_lines [of ls] by (fastforce simp: list_all_iff newline_def js_space_def)

lemma space_lines: "list_all js_space s \<Longrightarrow> l \<in> set (lines_of s) \<Longrightarrow> list_all js_space l"
  using set_lines_of by (fastforce simp: list_all_iff)

lemma js_trim_blank: "js_trim s = [] \<longleftrightarrow> list_all js_space s"
  by (simp add: js_trim_eq_Nil list_all_iff)

text \<open>Each step keeps white space white space.\<close>

lemma space_sublines:
  "list_all js_space s \<Longrightarrow> set ls \<subseteq> set (lines_of s) \<Longrightarrow> list_all js_space (join_lines ls)"
  by (rule space_join) (use space_lines in blast)

lemma space_stripQuotedReply: "list_all js_space s \<Longrightarrow> list_all js_space (stripQuotedReply s)"
  unfolding stripQuotedReply_def by (erule space_sublines) (auto dest: set_takeWhileD)

lemma space_stripSignature: "list_all js_space s \<Longrightarrow> list_all js_space (stripSignature s)"
  unfolding stripSignature_def by (erule space_sublines) (auto dest!: set_dropWhileD set_takeWhileD)

lemma space_stanza: "list_all js_space s \<Longrightarrow> list_all js_space (stripForwardHeaderStanza s)"
  unfolding stripForwardHeaderStanza_def Let_def
  by (erule space_sublines) (auto dest!: set_dropWhileD)

lemma space_forward:
  "list_all js_space s \<Longrightarrow> extractInnermostForward s = Some t \<Longrightarrow> list_all js_space t"
proof -
  assume s: "list_all js_space s" and t: "extractInnermostForward s = Some t"
  then obtain h where "t = stripForwardHeaderStanza (drop (snd h) s)"
    by (auto simp: extractInnermostForward_def)
  moreover have "list_all js_space (drop (snd h) s)"
    using s by (meson in_set_dropD list_all_iff)
  ultimately show ?thesis by (simp add: space_stanza)
qed

lemma drop_cr_space: "list_all js_space (drop_cr s) \<longleftrightarrow> list_all js_space s"
proof (induction s)
  case (Cons c s)
  have "js_space (CHR 0x0D)" by (simp add: js_space_def)
  then show ?case using Cons.IH by auto
qed simp

lemma normalize_space: "list_all js_space (normalize_newlines s) \<longleftrightarrow> list_all js_space s"
proof -
  have "js_space (if c = CHR 0x0D then newline else c) \<longleftrightarrow> js_space c" for c
    by (simp add: js_space_def newline_def)
  then have "list_all js_space (normalize_newlines s) \<longleftrightarrow> list_all js_space (drop_cr s)"
    by (simp add: normalize_newlines_def list.pred_map comp_def del: if_image_distrib)
  then show ?thesis by (simp add: drop_cr_space)
qed

lemma or_text_Nil: "or_text s t = [] \<longleftrightarrow> s = [] \<and> t = []"
  by (cases s) simp_all

subsection \<open>Isolation\<close>

text \<open>
  C38. The content isolated from an e-mail body is empty exactly when the body is empty or
  white space.
\<close>

theorem isolation_never_empties:
  "isolateEmailContent (Some t) = [] \<longleftrightarrow> list_all js_space t"
proof (cases t)
  case (Cons c cs)
  define n where "n = normalize_newlines t"
  define b where "b = or_else (extractInnermostForward n) n"
  have b: "list_all js_space b" if "list_all js_space n"
    using that space_forward [OF that] unfolding b_def
    by (cases "extractInnermostForward n") (simp_all add: or_else_def)
  have "isolateEmailContent (Some t) =
      or_text (js_trim (stripSignature (stripQuotedReply b))) (or_text (js_trim (stripQuotedReply b)) (js_trim n))"
    by (simp add: isolateEmailContent_def isolateEmailContentDetailed_def Let_def Cons b_def n_def)
  also have "\<dots> = [] \<longleftrightarrow> list_all js_space n"
    using b by (auto simp: or_text_Nil js_trim_blank space_stripSignature space_stripQuotedReply)
  finally show ?thesis by (simp add: n_def normalize_space)
qed (simp add: isolateEmailContent_def isolateEmailContentDetailed_def)

text \<open>
  A body cut by hand: what stands above the first attribution line, without quoted lines; of that
  what stands above the first signature delimiter; of that what is left when blank and sign-off
  lines go from the end.
\<close>

definition cut_body :: "string list \<Rightarrow> string list \<Rightarrow> bool" where
  "cut_body ls own \<longleftrightarrow> (\<exists>above history trail signature.
     ls = above @ history \<and> (\<forall>l \<in> set above. \<not> REPLY_ATTRIBUTION l) \<and>
     (history = [] \<or> REPLY_ATTRIBUTION (hd history)) \<and>
     filter (\<lambda>l. \<not> quoted_line l) above = own @ trail @ signature \<and>
     (\<forall>l \<in> set (own @ trail). \<not> signature_line l) \<and> (signature = [] \<or> signature_line (hd signature)) \<and>
     (\<forall>l \<in> set trail. blank_line l \<or> DEVICE_SIGNOFF l) \<and>
     (own = [] \<or> \<not> blank_line (last own) \<and> \<not> DEVICE_SIGNOFF (last own)))"

definition kept_lines :: "string list \<Rightarrow> string list" where
  "kept_lines ls = filter (\<lambda>l. \<not> quoted_line l) (takeWhile (\<lambda>l. \<not> REPLY_ATTRIBUTION l) ls)"

definition unsigned_lines :: "string list \<Rightarrow> string list" where
  "unsigned_lines ls = rev (dropWhile (\<lambda>l. blank_line l \<or> DEVICE_SIGNOFF l) (rev (takeWhile (\<lambda>l. \<not> signature_line l) ls)))"

lemma hd_dropWhile_not: "dropWhile P xs = [] \<or> \<not> P (hd (dropWhile P xs))"
  using hd_dropWhile [of P xs] by blast

lemma unsigned_split:
  "\<exists>trail signature. ls = unsigned_lines ls @ trail @ signature \<and>
     (\<forall>l \<in> set (unsigned_lines ls @ trail). \<not> signature_line l) \<and> (signature = [] \<or> signature_line (hd signature)) \<and>
     (\<forall>l \<in> set trail. blank_line l \<or> DEVICE_SIGNOFF l) \<and>
     (unsigned_lines ls = [] \<or> \<not> blank_line (last (unsigned_lines ls)) \<and> \<not> DEVICE_SIGNOFF (last (unsigned_lines ls)))"
proof -
  let ?P = "\<lambda>l. blank_line l \<or> DEVICE_SIGNOFF l"
  let ?t = "takeWhile (\<lambda>l. \<not> signature_line l) ls"
  let ?trail = "rev (takeWhile ?P (rev ?t))"
  have t: "?t = unsigned_lines ls @ ?trail"
    by (metis rev_append rev_rev_ident takeWhile_dropWhile_id unsigned_lines_def)
  have "ls = unsigned_lines ls @ ?trail @ dropWhile (\<lambda>l. \<not> signature_line l) ls"
    by (metis append_assoc t takeWhile_dropWhile_id)
  moreover have "\<forall>l \<in> set (unsigned_lines ls @ ?trail). \<not> signature_line l"
    unfolding t [symmetric] by (blast dest: set_takeWhileD)
  moreover have "\<forall>l \<in> set ?trail. ?P l" by (auto dest: set_takeWhileD)
  moreover have "unsigned_lines ls = [] \<or> \<not> ?P (last (unsigned_lines ls))"
    using hd_dropWhile_not [of ?P "rev ?t"] by (simp add: unsigned_lines_def last_rev)
  ultimately show ?thesis using hd_dropWhile_not [of "\<lambda>l. \<not> signature_line l" ls] by blast
qed

lemma cut_kept: "cut_body ls (unsigned_lines (kept_lines ls))"
proof -
  let ?above = "takeWhile (\<lambda>l. \<not> REPLY_ATTRIBUTION l) ls" and ?history = "dropWhile (\<lambda>l. \<not> REPLY_ATTRIBUTION l) ls"
  have "ls = ?above @ ?history" by simp
  moreover have "\<forall>l \<in> set ?above. \<not> REPLY_ATTRIBUTION l" by (blast dest: set_takeWhileD)
  moreover have "?history = [] \<or> REPLY_ATTRIBUTION (hd ?history)"
    using hd_dropWhile_not [of "\<lambda>l. \<not> REPLY_ATTRIBUTION l" ls] by blast
  moreover have "filter (\<lambda>l. \<not> quoted_line l) ?above = kept_lines ls" by (simp add: kept_lines_def)
  moreover obtain trail signature where "kept_lines ls = unsigned_lines (kept_lines ls) @ trail @ signature"
      "\<forall>l \<in> set (unsigned_lines (kept_lines ls) @ trail). \<not> signature_line l" "signature = [] \<or> signature_line (hd signature)"
      "\<forall>l \<in> set trail. blank_line l \<or> DEVICE_SIGNOFF l"
      "unsigned_lines (kept_lines ls) = [] \<or> \<not> blank_line (last (unsigned_lines (kept_lines ls))) \<and>
         \<not> DEVICE_SIGNOFF (last (unsigned_lines (kept_lines ls)))"
    using unsigned_split [of "kept_lines ls"] by blast
  ultimately show ?thesis
    unfolding cut_body_def
    by (intro exI [of _ ?above] exI [of _ ?history] exI [of _ trail] exI [of _ signature] conjI) (simp only:)+
qed

lemma stripped_lines:
  "stripSignature (stripQuotedReply s) = join_lines (unsigned_lines (kept_lines (lines_of s)))"
proof (cases "kept_lines (lines_of s) = []")
  case True
  then have "stripQuotedReply s = []" by (simp add: stripQuotedReply_def kept_lines_def join_lines_def)
  then show ?thesis
    by (simp add: True unsigned_lines_def stripSignature_def signature_line_def blank_line_def join_lines_def)
next
  case False
  then have "lines_of (stripQuotedReply s) = kept_lines (lines_of s)"
    unfolding stripQuotedReply_def kept_lines_def
    by (intro lines_of_join) (auto dest!: set_takeWhileD lines_have_no_newline)
  then show ?thesis by (simp add: stripSignature_def unsigned_lines_def)
qed

text \<open>
  C37. Unless the fallback is reported, what is extracted of an e-mail is, trimmed, exactly
  the part of the message, or of its innermost forward, that stands above the first line
  introducing quoted history, without quoted lines, up to the first signature delimiter and
  without blank and device sign-off lines at its end.
\<close>

theorem extracted_lines_are_new:
  assumes "\<not> ic_quoted_fallback (isolateEmailContentDetailed (Some t))"
  shows "\<exists>own. isolateEmailContent (Some t) = js_trim (join_lines own) \<and>
    cut_body (lines_of (or_else (extractInnermostForward (normalize_newlines t)) (normalize_newlines t))) own"
proof -
  let ?b = "or_else (extractInnermostForward (normalize_newlines t)) (normalize_newlines t)"
  let ?own = "unsigned_lines (kept_lines (lines_of ?b))"
  have "isolateEmailContent (Some t) = js_trim (join_lines ?own)"
  proof (cases t)
    case Nil
    have "list_all js_space ?b"
      using space_forward [of "[]"] by (cases "extractInnermostForward []") (auto simp: Nil normalize_newlines_def or_else_def)
    then have "list_all js_space (join_lines ?own)"
      unfolding stripped_lines [symmetric] by (intro space_stripSignature space_stripQuotedReply)
    then have "js_trim (join_lines ?own) = []" by (simp only: js_trim_blank)
    then show ?thesis by (simp add: isolateEmailContent_def isolateEmailContentDetailed_def Nil)
  next
    case (Cons c cs)
    with assms stripped_lines [of ?b] show ?thesis
      by (cases "js_trim (join_lines ?own)")
        (auto simp: isolateEmailContent_def isolateEmailContentDetailed_def Let_def)
  qed
  then show ?thesis using cut_kept by blast
qed

text \<open>A new line above a quoted one.\<close>

definition reply_sample :: string where
  "reply_sample = ''y'' @ newline # ''>n''"

theorem extracted_lines_are_new_witness:
  "\<exists>own. isolateEmailContent (Some reply_sample) = js_trim (join_lines own) \<and>
     cut_body (lines_of (or_else (extractInnermostForward (normalize_newlines reply_sample)) (normalize_newlines reply_sample))) own"
proof -
  have "\<not> ic_quoted_fallback (isolateEmailContentDetailed (Some reply_sample))" by code_simp
  from extracted_lines_are_new [OF this] show ?thesis .
qed

lemma reply_sample_cut: "isolateEmailContent (Some reply_sample) = ''y''"
  by code_simp

subsection \<open>Two readings of a forward\<close>

definition bare_forward :: string where
  "bare_forward = ''Od:B'' @ [newline] @ ''Za:M''"

text \<open>
  A forward with only a header stanza: the header parser names another sender, the isolation
  reports the sender's own words.
\<close>

lemma bare_forward_sender: "map_option fh_from (parseForwardedHeaders (Some bare_forward)) = Some (Some ''B'')"
  by code_simp

lemma bare_forward_counts_as_own:
  "isolateEmailContentDetailed (Some bare_forward) =
     \<lparr>ic_content = bare_forward, ic_forwarded = False, ic_quoted_fallback = False\<rparr>"
  by code_simp

end
