(* ===== verification/Approval_Refinement.thy ===== *)
theory Approval_Refinement
  imports Approval_Laws
begin

text \<open>
  The contract of the approvals module in the large: a state machine on the statuses alone, and
  a forward simulation. Every single step of an instance, whatever operation it is and whatever
  faults it meets, is one step of that machine.
\<close>

subsection \<open>The machine the approvals refine\<close>

text \<open>
  An approval is a status under an id. A request adds a pending one, a decision approves or rejects
  one that is pending, an expiry pass expires pending ones, an execution performs one that is
  approved. Nothing else happens to it, and none disappears.
\<close>

inductive lifecycle :: "(uuid \<rightharpoonup> approval_status) \<Rightarrow> (uuid \<rightharpoonup> approval_status) \<Rightarrow> bool" where
  idle: "lifecycle m m"
| request: "m i = None \<Longrightarrow> lifecycle m (m(i \<mapsto> PendingApproval))"
| decided: "m i = Some PendingApproval \<Longrightarrow> s \<in> {Approved, Rejected} \<Longrightarrow> lifecycle m (m(i \<mapsto> s))"
| lapse: "\<forall>i \<in> I. m i = Some PendingApproval \<Longrightarrow> lifecycle m (\<lambda>i. if i \<in> I then Some Expired else m i)"
| perform: "m i = Some Approved \<Longrightarrow> lifecycle m (m(i \<mapsto> Executed))"

definition statuses :: "world \<Rightarrow> uuid \<rightharpoonup> approval_status" where
  "statuses w i = map_option ap_status (approval_by_id i (w_pg w))"

definition row_status :: "approval_row list \<Rightarrow> uuid \<rightharpoonup> approval_status" where
  "row_status A i = map_option ap_status (find (\<lambda>a. ap_id a = i) A)"

lemma statuses_rows: "statuses w = row_status (t_approval (w_pg w))"
  by (rule ext) (simp add: statuses_def row_status_def approval_by_id_def)

lemma row_status_append:
  "ap_id row \<notin> ap_id ` set A \<Longrightarrow> row_status (A @ [row]) = (row_status A)(ap_id row \<mapsto> ap_status row)"
proof (rule ext)
  fix i
  assume "ap_id row \<notin> ap_id ` set A"
  then show "row_status (A @ [row]) i = ((row_status A)(ap_id row \<mapsto> ap_status row)) i"
    by (induction A) (auto simp: row_status_def)
qed

lemma row_status_update:
  assumes "\<And>a. a \<in> set A \<Longrightarrow> P (ap_id a) \<Longrightarrow> ap_id (f a) = ap_id a \<and> ap_status (f a) = s"
  shows "row_status (update_where (\<lambda>a. P (ap_id a)) f A) =
    (\<lambda>i. if P i \<and> row_status A i \<noteq> None then Some s else row_status A i)"
proof (rule ext)
  fix i
  show "row_status (update_where (\<lambda>a. P (ap_id a)) f A) i =
      (if P i \<and> row_status A i \<noteq> None then Some s else row_status A i)"
    using assms by (induction A) (auto simp: row_status_def)
qed

subsection \<open>One operation, one step\<close>

text \<open>An action that, started from the statuses \<open>m\<close>, ends one step of the machine further.\<close>

definition once :: "(uuid \<rightharpoonup> approval_status) \<Rightarrow> 'a op \<Rightarrow> world \<Rightarrow> bool" where
  "once m act w \<longleftrightarrow> (statuses w = m \<longrightarrow> wp act (\<lambda>_ w'. lifecycle m (statuses w')) w)"

lemma leaves_run: "(\<And>A. leaves_approvals A act) \<Longrightarrow> act w = (r, w') \<Longrightarrow> t_approval (w_pg w') = t_approval (w_pg w)"
  using keeps_run [of "approvals_are (t_approval (w_pg w))" ids_forward act w r w'] by (simp add: approvals_are_def)

lemma once_leaves: "(\<And>A. leaves_approvals A act) \<Longrightarrow> once m act w"
  using leaves_run [of act w] by (cases "act w") (auto simp: once_def wp_def statuses_rows intro: lifecycle.idle)

lemma once_after:
  assumes "\<And>A. leaves_approvals A act"
    and "\<And>a v. act w = (Inr a, v) \<Longrightarrow> t_approval (w_pg v) = t_approval (w_pg w) \<Longrightarrow> once m (f a) v"
  shows "once m (bindA act f) w"
proof (cases "act w")
  case (Pair r v)
  then have same: "t_approval (w_pg v) = t_approval (w_pg w)" using leaves_run [OF assms(1)] by blast
  show ?thesis
    using Pair same assms(2) [of _ v]
    by (cases r) (auto simp: once_def wp_def bindA_def statuses_rows intro: lifecycle.idle)
qed

lemma once_before:
  assumes "once m act w" and "\<And>a A. leaves_approvals A (f a)"
  shows "once m (bindA act f) w"
proof (cases "act w")
  case (Pair r v)
  show ?thesis
  proof (cases r)
    case (Inl e)
    with Pair assms(1) show ?thesis by (simp add: once_def wp_def bindA_def)
  next
    case (Inr a)
    then show ?thesis
      using Pair assms(1) leaves_run [OF assms(2), of a v]
      by (cases "f a v") (auto simp: once_def wp_def bindA_def statuses_rows)
  qed
qed

lemma once_then_before: "once m act w \<Longrightarrow> (\<And>A. leaves_approvals A next_act) \<Longrightarrow> once m (thenA act next_act) w"
  unfolding thenA_def by (rule once_before)

lemma once_then_after:
  "(\<And>A. leaves_approvals A act) \<Longrightarrow>
     (\<And>a v. act w = (Inr a, v) \<Longrightarrow> t_approval (w_pg v) = t_approval (w_pg w) \<Longrightarrow> once m next_act v) \<Longrightarrow>
     once m (thenA act next_act) w"
  unfolding thenA_def by (rule once_after)

lemma once_reads: "once m (f (g w)) w \<Longrightarrow> once m (bindA (reads g) f) w"
  by (simp add: once_def wp_def)

lemma once_transaction: "once m act w \<Longrightarrow> once m (transaction act) w"
  by (cases "act w")
    (auto simp: once_def wp_def transaction_def statuses_rows split: sum.splits fault.splits intro: lifecycle.idle)

subsection \<open>The operations\<close>

lemma once_insert:
  assumes "ap_status row = PendingApproval"
  shows "once m (insert_approval row) w"
proof (cases "ap_id row \<in> ap_id ` set (t_approval (w_pg w))")
  case True
  then show ?thesis by (auto simp: once_def wp_def insert_approval_def intro: lifecycle.idle)
next
  case False
  then have "row_status (t_approval (w_pg w)) (ap_id row) = None"
    by (simp add: row_status_def find_None_iff) (metis image_eqI)
  then show ?thesis
    using lifecycle.request [of "row_status (t_approval (w_pg w))" "ap_id row"] False assms
    by (auto simp: once_def wp_def insert_approval_def statuses_rows row_status_append)
qed

lemma once_create: "once m (approval_create is_uuid prin ty raw) w"
proof -
  have auth: "leaves_approvals A (authorize_create def prin payload)"
    if "def \<in> {buildBulkOutdateAction is_uuid, buildEmailReplyDraftAction}" for A def payload
  proof -
    have "leaves_approvals A (bulk_authorize prin p)" for p
      by (cases p) (auto intro!: apr_ops simp: Let_def)
    then show ?thesis
      using that unfolding authorize_create_def
      by (auto simp: buildBulkOutdateAction_def buildEmailReplyDraftAction_def intro!: apr_ops)
  qed
  have submit: "once m (submit_approval prin ty def payload) v"
    if "def \<in> {buildBulkOutdateAction is_uuid, buildEmailReplyDraftAction}" for def payload v
    unfolding submit_approval_def Let_def
    by (intro once_reads once_transaction once_after [OF apr.outside_ops(1)] once_then_before once_insert)
      (use that in \<open>auto simp: buildBulkOutdateAction_def buildEmailReplyDraftAction_def intro!: apr_ops\<close>)
  have dto: "leaves_approvals A (toDto is_uuid row u None)" for A row u
    unfolding toDto_def Let_def by (intro apr.control apr_registry)
  show ?thesis
    unfolding approval_create_def
    by (rule once_after [OF apr_registry(1)], drule registry_get_Inr)
      (intro once_after [OF apr_registry(2)] once_then_after [OF auth] once_before submit dto; simp)
qed

text \<open>A decision on the row under its id.\<close>

lemma once_update:
  assumes "\<And>a. a \<in> set (t_approval (w_pg w)) \<Longrightarrow> ap_id a = i \<Longrightarrow> ap_id (f a) = i \<and> ap_status (f a) = s"
    and "\<And>t. row_status (t_approval (w_pg w)) i = Some t \<Longrightarrow> lifecycle m (m(i \<mapsto> s))"
  shows "once m (update_approval i f) w"
proof -
  let ?A = "t_approval (w_pg w)"
  have "row_status (update_where (\<lambda>a. ap_id a = i) f ?A) =
      (\<lambda>j. if j = i \<and> row_status ?A j \<noteq> None then Some s else row_status ?A j)"
    using row_status_update [of ?A "\<lambda>j. j = i" f s] assms(1) by simp
  also have "\<dots> = (if row_status ?A i = None then row_status ?A else (row_status ?A)(i \<mapsto> s))"
    by (auto simp: fun_eq_iff)
  finally show ?thesis
    using assms(2) by (auto simp: once_def wp_simps update_approval_def statuses_rows intro: lifecycle.idle)
qed

lemma once_decide: "once m (decide is_uuid prin i decision) w"
proof -
  have lock: "leaves_approvals A (lockForOrg prin i)" for A
    unfolding lockForOrg_def by (auto split: option.splits intro!: apr_ops)
  have check: "leaves_approvals A (case c of Some x \<Rightarrow> raise (Unprocessable x) | None \<Rightarrow> ret ())" for A c
    by (auto split: option.splits intro!: apr_ops)
  have upd: "once m (update_approval i (\<lambda>a. a\<lparr>ap_status := decided_status decision, ap_decided_by := u, ap_decided_at := n\<rparr>)) v"
    if "approval_by_id i (w_pg w) = Some current" "t_approval (w_pg v) = t_approval (w_pg w)"
      "checkApprovalTransition (ap_status current) (decided_status decision) = None" and m: "statuses w = m" for current v u n
  proof (rule once_update)
    have "m i = Some (ap_status current)" using that(1) m by (auto simp: statuses_def)
    moreover have "ap_status current = PendingApproval \<and> decided_status decision \<in> {Approved, Rejected}"
      using that(3) by (cases "ap_status current"; cases decision) (auto simp: checkApprovalTransition_def decided_status_def)
    ultimately show "lifecycle m (m(i \<mapsto> decided_status decision))" by (auto intro: lifecycle.decided)
  qed simp
  show ?thesis
  proof (cases "statuses w = m")
    case m: True
    show ?thesis
      unfolding decide_def Let_def
    proof (rule once_after [OF lock], drule lockForOrg_Inr, rule once_after [OF apr_registry(1)],
        rule once_then_after [OF apr.keeps_raise_if], drule raise_if_Inr, rule once_then_after [OF check], goal_cases)
      case (1 current v def v' x y z t)
      then have "checkApprovalTransition (ap_status current) (decided_status decision) = None"
        by (auto simp: ret_def raise_def split: option.splits)
      with 1 m show ?case
        by (intro once_reads once_then_before upd) (auto intro!: apr_ops)
    qed
  qed (simp add: once_def)
qed

lemma once_confirm: "once m (approval_confirm is_uuid prin i decision) w"
proof -
  have dto: "leaves_approvals A (toDto is_uuid row u None)" for A row u
    unfolding toDto_def Let_def by (intro apr.control apr_registry)
  show ?thesis
    unfolding approval_confirm_def by (intro once_before once_transaction once_decide dto)
qed

lemma once_expire:
  assumes "approvals_ok w"
  shows "once m expireStale w"
proof -
  let ?A = "t_approval (w_pg w)"
  let ?stale = "filter (is_stale (w_clock w)) ?A"
  let ?I = "set (map ap_id ?stale)"
  have rows: "row_status ?A i = Some PendingApproval" if "i \<in> ?I" for i
  proof -
    from that obtain b where "b \<in> set ?A" "is_stale (w_clock w) b" "ap_id b = i" by auto
    moreover from this have "approval_by_id i (w_pg w) = Some b" using approval_by_id_Some [OF assms] by blast
    ultimately show ?thesis by (simp add: row_status_def approval_by_id_def is_stale_def)
  qed
  have "row_status (update_where (\<lambda>a. ap_id a \<in> ?I) (\<lambda>a. a\<lparr>ap_status := Expired\<rparr>) ?A) =
      (\<lambda>i. if i \<in> ?I \<and> row_status ?A i \<noteq> None then Some Expired else row_status ?A i)"
    by (rule row_status_update [of ?A "\<lambda>i. i \<in> ?I"]) simp
  also have "\<dots> = (\<lambda>i. if i \<in> ?I then Some Expired else row_status ?A i)"
    using rows by (auto simp: fun_eq_iff simp del: set_map)
  finally have changed: "row_status (update_where (\<lambda>a. ap_id a \<in> ?I) (\<lambda>a. a\<lparr>ap_status := Expired\<rparr>) ?A) =
      (\<lambda>i. if i \<in> ?I then Some Expired else row_status ?A i)" .
  have lapsed: "lifecycle (row_status ?A) (\<lambda>i. if i \<in> ?I then Some Expired else row_status ?A i)"
    by (rule lifecycle.lapse) (use rows in blast)
  have "once m (updates (update_pg (\<lambda>d. d\<lparr>t_approval :=
      update_where (\<lambda>a. ap_id a \<in> ?I) (\<lambda>a. a\<lparr>ap_status := Expired\<rparr>) (t_approval d)\<rparr>))) w"
    unfolding once_def wp_simps statuses_rows
    by (rule impI, simp only: world_update_pg changed) (use lapsed changed in \<open>simp del: set_map\<close>)
  then have "once m (thenA (updates (update_pg (\<lambda>d. d\<lparr>t_approval :=
      update_where (\<lambda>a. ap_id a \<in> ?I) (\<lambda>a. a\<lparr>ap_status := Expired\<rparr>) (t_approval d)\<rparr>)))
      (thenA (each (\<lambda>r. writeAudit (e r)) ?stale) (ret (length ?stale)))) w" for e
    by (rule once_then_before) (intro apr_ops)
  then show ?thesis
    unfolding expireStale_def Let_def
    by (intro once_transaction once_reads) (auto intro: once_leaves apr_ops)
qed

lemma once_execute: "once m (approval_execute is_uuid i) w"
proof (cases "statuses w = m \<and> (\<exists>row. approval_by_id i (w_pg w) = Some row \<and> ap_status row = Approved)")
  case True
  then obtain row where row: "approval_by_id i (w_pg w) = Some row" "ap_status row = Approved" by blast
  then have i: "ap_id row = i" by (auto simp: approval_by_id_def find_Some_iff)
  have "m i = Some Approved" using True row by (auto simp: statuses_def)
  then have step: "lifecycle m (m(i \<mapsto> Executed))" by (rule lifecycle.perform)
  have "once m (perform_action row def payload) v"
    if "def \<in> {buildBulkOutdateAction is_uuid, buildEmailReplyDraftAction}" for def payload v
    unfolding perform_action_def Let_def i
    by (intro once_after [OF apr_ad_execute [OF that]] once_reads once_then_before once_update [where s = Executed] apr_ops)
      (simp_all, rule step)
  then have "once m (bindA (registry_get is_uuid (ap_action_type row)) (\<lambda>def.
      case ad_schema def (ap_payload row) of
        None \<Rightarrow> raise (Failure ''approval has an invalid stored payload'')
      | Some payload \<Rightarrow> perform_action row def payload)) w"
    by (intro once_after [OF apr_registry(1)], drule_tac registry_get_Inr)
      (auto split: option.splits intro: once_leaves apr_ops)
  then show ?thesis by (simp add: approval_execute_def row once_def wp_def)
next
  case False
  then show ?thesis
    by (auto simp: once_def wp_def approval_execute_def ret_def raise_def split: option.splits intro: lifecycle.idle)
qed

lemma once_delivery:
  "once m (idempotentTask describe jobType (approval_handler is_uuid) p attempts maxAttempts) w"
proof -
  have handler: "once m (approval_handler is_uuid p) v" for v
    unfolding approval_handler_def by (intro once_before once_execute apr_ops)
  have claim: "once m (claim_and_run jobType (approval_handler is_uuid) p) w"
    unfolding claim_and_run_def
    by (intro once_transaction once_after [OF apr_consume]) (auto intro: handler once_leaves apr_ops)
  obtain r w' where run: "idempotentTask describe jobType (approval_handler is_uuid) p attempts maxAttempts w = (r, w')"
    by fastforce
  have claimed: "statuses w = m \<Longrightarrow> lifecycle m (statuses v)"
    if "claim_and_run jobType (approval_handler is_uuid) p w = (out, v)" for out v
    using claim that by (simp add: once_def wp_def)
  have "statuses w = m \<Longrightarrow> lifecycle m (statuses w')"
    using run
  proof (cases rule: task_cases)
    case (committed out v)
    have "t_approval (w_pg w') = t_approval (w_pg v)"
    proof (cases out)
      case (Some after')
      obtain u u' where "approval_handler is_uuid p u = (Inr (Some after'), u')"
        using committed(1) unfolding Some
        by (auto simp: claim_and_run_def transaction_def bindA_def ret_def
          split: prod.splits sum.splits fault.splits if_splits)
      then obtain b u1 where "approval_execute is_uuid (j_source_id p) u = (Inr (b, Some after'), u1)"
        by (auto simp: approval_handler_def ret_def elim!: bindA_InrE)
      then obtain ids where "after' = syncStatusPayloads ids Outdated" using approval_execute_after by blast
      then show ?thesis
        using leaves_run [OF apr_sync, of ids Outdated v "fst (after' v)" "snd (after' v)"] committed(3) Some by simp
    qed (use committed in simp)
    then show "statuses w = m \<Longrightarrow> ?thesis" using claimed [OF committed(1)] by (simp add: statuses_rows)
  next
    case (last e v)
    then have "t_approval (w_pg w') = t_approval (w_pg v)"
      using park_outcome [OF last(3)] by (auto simp: parked_def)
    then show "statuses w = m \<Longrightarrow> ?thesis" using claimed [OF last(1)] by (simp add: statuses_rows)
  next
    case (retry e)
    then show "statuses w = m \<Longrightarrow> ?thesis" using claimed by simp
  qed (auto intro: lifecycle.idle)
  with run show ?thesis by (simp add: once_def wp_def)
qed

text \<open>A deletion redacts drafts in place; no status changes.\<close>

definition status_is :: "(uuid \<rightharpoonup> approval_status) \<Rightarrow> world \<Rightarrow> bool" where
  "status_is m w \<longleftrightarrow> statuses w = m"

interpretation still: pg_evolution "status_is m" ids_forward for m
  by unfold_locales (auto simp: status_is_def statuses_rows ids_forward_def outside_pg_def)

lemma still_leaves: "(\<And>A. leaves_approvals A act) \<Longrightarrow> keeps (status_is m) ids_forward act"
proof (rule keeps_fromI)
  fix w
  assume "\<And>A. leaves_approvals A act"
  from this [of "t_approval (w_pg w)"] show "keeps_from (status_is m) ids_forward act w"
    by (cases "act w") (auto simp: keeps_def keeps_from_def wp_def approvals_are_def status_is_def statuses_rows)
qed

lemma still_cascade:
  assumes "c \<in> set DERIVED_CASCADES"
  shows "keeps (status_is m) ids_forward (run_cascade st i ids totals c)"
proof -
  have run: "keeps (status_is m) ids_forward (\<lambda>w. let (n, d) = g (w_pg w) in (Inr n, update_pg (\<lambda>_. d) w))"
    if "\<And>d. row_status (t_approval (snd (g d))) = row_status (t_approval d)" for g :: "pg \<Rightarrow> nat \<times> pg"
  proof (rule keeps_fromI)
    fix w
    show "keeps_from (status_is m) ids_forward (\<lambda>w. let (n, d) = g (w_pg w) in (Inr n, update_pg (\<lambda>_. d) w)) w"
      using that [of "w_pg w"]
      by (cases "g (w_pg w)") (simp add: keeps_from_def wp_def status_is_def statuses_rows ids_forward_def)
  qed
  have mem: "keeps (status_is m) ids_forward (\<lambda>w. let (n, d) = dc_memories c ids (w_pg w) in (Inr n, update_pg (\<lambda>_. d) w))"
    using assms chat_cascade_approvals
    by (intro run) (auto simp: DERIVED_CASCADES_def TasksCascade_def ChatAnswerCascade_def ReplyDraftCascade_def tasks_cascade_def Let_def)
  have "row_status (update_where (draft_of i) redact_draft A) = row_status A" for A
    by (rule ext, induction A) (auto simp: row_status_def redact_draft_def)
  then have src: "keeps (status_is m) ids_forward (\<lambda>w. let (n, d) = f s i (w_pg w) in (Inr n, update_pg (\<lambda>_. d) w))"
    if "dc_source c = Some f" for f s
    using assms that
    by (intro run) (auto simp: DERIVED_CASCADES_def TasksCascade_def ChatAnswerCascade_def ReplyDraftCascade_def reply_draft_cascade_def)
  show ?thesis
    unfolding run_cascade_def Let_def
    by (rule still.keeps_bind [OF mem [unfolded Let_def]])
      (auto split: option.splits intro!: still.control src [unfolded Let_def])
qed

interpretation still: erasure_contract "status_is m" ids_forward for m
  by unfold_locales (rule still_leaves [OF apr_lift] still_cascade still_leaves [OF apr_delete_rows]
    still_leaves [OF apr_remove_source] still_leaves [OF apr_finish] still_leaves [OF apr_cancelPending]
    still_leaves [OF apr_cascadeFile]; assumption?)+

lemma once_erase: "once m (requestSourceDeletion in_flight prin raw i) w"
  using still.keeps_requestSourceDeletion [of m in_flight prin raw i]
  by (auto simp: once_def keeps_def keeps_from_def wp_def status_is_def intro: lifecycle.idle split: prod.splits)

subsection \<open>The simulation\<close>

lemma onceD: "once (statuses w) act w \<Longrightarrow> act w = (r, w') \<Longrightarrow> lifecycle (statuses w) (statuses w')"
  by (simp add: once_def wp_def)

text \<open>
  C39. From no approvals, after any history of requests, decisions, expiry passes, deliveries
  of the execution job and source deletions with any faults, every single further one is one
  step of the abstract approval machine on the statuses: nothing, one new approval that is
  pending, one pending approval approved or rejected, a set of pending ones expired, or one
  approved approval executed.
\<close>

theorem approvals_refine_lifecycle:
  assumes "t_approval (w_pg w0) = []" and "(approval_step is_uuid describe)\<^sup>*\<^sup>* w0 w"
    and "approval_step is_uuid describe w w'"
  shows "lifecycle (statuses w) (statuses w')"
  using assms(3)
proof cases
  case (expire r)
  have "approvals_ok w0" using assms(1) by (simp add: approvals_ok_def)
  then have "approvals_ok w" using approval_steps_keep [OF assms(2)] by simp
  then show ?thesis using onceD [OF once_expire expire] by simp
next
  case (environment now faults)
  then have "statuses w' = statuses w" by (simp add: statuses_rows)
  then show ?thesis by (simp add: lifecycle.idle)
qed (auto dest: onceD [OF once_create] onceD [OF once_confirm] onceD [OF once_delivery] onceD [OF once_erase])

theorem approvals_refine_lifecycle_witness:
  "lifecycle [sample_id 5 \<mapsto> PendingApproval] [sample_id 5 \<mapsto> Approved]"
proof -
  have "approval_step (\<lambda>_. True) (\<lambda>_. []) demo_created demo_approved"
    unfolding demo_approved_def by (rule approval_step.confirm [OF surjective_pairing])
  moreover have "(approval_step (\<lambda>_. True) (\<lambda>_. []))\<^sup>*\<^sup>* sample_world demo_created"
    unfolding demo_created_def by (intro r_into_rtranclp approval_step.create [OF surjective_pairing])
  moreover have "statuses demo_approved = [sample_id 5 \<mapsto> Approved]"
    by (rule ext) (simp add: statuses_def approval_by_id_def demo_approved_rows demo_row_def)
  moreover have "statuses demo_created = [sample_id 5 \<mapsto> PendingApproval]"
    by (rule ext) (simp add: statuses_def approval_by_id_def demo_created_rows demo_row_def)
  moreover have "t_approval (w_pg sample_world) = []" by (simp add: sample_world_def sample_pg_def)
  ultimately show ?thesis using approvals_refine_lifecycle [of sample_world "\<lambda>_. True" "\<lambda>_. []" demo_created demo_approved] by simp
qed

end
