(* ===== verification/Erasure_History.thy ===== *)
theory Erasure_History
  imports Job_Queue
begin

text \<open>
  Erasures over the history of an instance: requests and deliveries of the worker job, in any
  order and with any faults, beside everything that leaves the receipts and the executed
  deletion keys alone. A recorded key always stands for a confirmed receipt.
\<close>

subsection \<open>The ledger: receipts and executed deletion keys\<close>

definition deletion_keys :: "world \<Rightarrow> job_key set" where
  "deletion_keys w = {k \<in> set (t_job_execution (w_pg w)). k_job_type k = DELETION_JOB_TYPE}"

definition ledger_is :: "receipt_row list \<times> job_key set \<Rightarrow> world \<Rightarrow> bool" where
  "ledger_is x w \<longleftrightarrow> t_receipt (w_pg w) = fst x \<and> deletion_keys w = snd x"

interpretation led: pg_evolution "ledger_is x" ids_forward for x
  by unfold_locales (auto simp: ledger_is_def deletion_keys_def ids_forward_def outside_pg_def)

abbreviation ledgers :: "receipt_row list \<times> job_key set \<Rightarrow> 'a op \<Rightarrow> bool" where
  "ledgers x m \<equiv> keeps (ledger_is x) ids_forward m"

lemma led_update_pg:
  "(\<And>d. t_receipt (f d) = t_receipt d \<and> t_job_execution (f d) = t_job_execution d) \<Longrightarrow> ledgers x (updates (update_pg f))"
  by (auto simp: keeps_def keeps_from_def wp_simps ledger_is_def deletion_keys_def ids_forward_def)

lemma led_writeAudit: "ledgers x (writeAudit e)"
  by (auto simp: writeAudit_def keeps_def keeps_from_def wp_simps ledger_is_def deletion_keys_def ids_forward_def)

lemma led_enqueue: "ledgers x (withTransactionalEnqueue ev job payload)"
  unfolding withTransactionalEnqueue_def by (rule led_update_pg) simp

lemma led_write_memory: "ledgers x (write_memory f)"
  by (auto simp: keeps_def keeps_from_def wp_def write_memory_def Let_def ledger_is_def deletion_keys_def ids_forward_def)

lemmas led_ops = led.control led.outside_ops led.keeps_transaction led_writeAudit led_enqueue led_write_memory

lemma led_delete_rows: "ledgers x (delete_rows ids)"
proof -
  have "ledgers x (null_pointers ids)"
    by (auto simp: keeps_def keeps_from_def wp_def null_pointers_def write_memory_def Let_def act_defs
        ledger_is_def deletion_keys_def ids_forward_def split: if_splits)
  moreover have "ledgers x (updates (update_pg (cascade_relations ids)))"
    by (rule led_update_pg) (simp add: cascade_relations_def Let_def)
  ultimately show ?thesis unfolding delete_rows_def delete_memories_def by (intro led_ops)
qed

lemma led_lift: "ledgers x (liftContradictionsBeforeDeletion ids org)"
proof -
  have "ledgers x (restoreFromContradiction row prior act actor org)" for row prior act actor org
    unfolding restoreFromContradiction_def update_memory_def by (intro led_ops)
  then have "ledgers x (lift_one ids org n q)" for n q
    unfolding lift_one_def Let_def select_memory_def by (auto split: option.splits prod.splits intro!: led_ops)
  then show ?thesis unfolding liftContradictionsBeforeDeletion_def by (intro led_ops)
qed

lemma led_cancelPending: "ledgers x (cancelPending in_flight st i b)"
proof -
  have other: "k_job_type (pipeline_key st i) \<noteq> DELETION_JOB_TYPE"
    by (simp add: pipeline_key_def INGESTION_PIPELINE_JOB_TYPE_def DELETION_JOB_TYPE_def)
  have "ledgers x (consumeIdempotencyKey (pipeline_key st i))"
  proof (rule keeps_fromI)
    fix w
    have "{k. (k = pipeline_key st i \<or> k \<in> K) \<and> k_job_type k = DELETION_JOB_TYPE} = {k \<in> K. k_job_type k = DELETION_JOB_TYPE}" for K
      using other by auto
    then show "keeps_from (ledger_is x) ids_forward (consumeIdempotencyKey (pipeline_key st i)) w"
      by (simp add: keeps_from_def wp_def consumeIdempotencyKey_def ledger_is_def deletion_keys_def ids_forward_def)
  qed
  then show ?thesis unfolding cancelPending_def Let_def by (intro led_ops)
qed

lemma led_delete_file_row: "ledgers x (delete_file_row key)"
  unfolding delete_file_row_def by (rule led_update_pg) simp

lemma led_cascadeFile: "ledgers x (cascadeFileSubSource in_flight prin acc key)"
  unfolding cascadeFileSubSource_def
  by (auto split: option.splits intro!: led_ops led_cancelPending led_delete_file_row)

lemma led_remove_source: "bound_adapter r \<Longrightarrow> ledgers x (remove_source st i r keys)"
proof -
  assume r: "bound_adapter r"
  have "ledgers x (updates (update_pg (port_delete a i)))" if "rs_adapter r = Some a" for a
    using r that port_delete_elsewhere [of a]
    by (intro led_update_pg) (auto simp: bound_adapter_def same_elsewhere_def)
  then show ?thesis
    unfolding remove_source_def Let_def by (auto split: option.splits intro!: led_ops led_delete_file_row)
qed

lemma chat_cascade_ledger:
  "t_receipt (snd (chat_cascade ids d)) = t_receipt d \<and> t_job_execution (snd (chat_cascade ids d)) = t_job_execution d"
proof (induction ids d rule: chat_cascade.induct)
  case (1 ids d)
  then show ?case
    by (subst (1 2) chat_cascade.simps) (auto simp: redact_answers_def Let_def split: prod.splits)
qed

lemma led_cascade:
  assumes "c \<in> set DERIVED_CASCADES"
  shows "ledgers x (run_cascade st i ids totals c)"
proof -
  have run: "ledgers x (\<lambda>w. let (n, d) = g (w_pg w) in (Inr n, update_pg (\<lambda>_. d) w))"
    if "\<And>d. t_receipt (snd (g d)) = t_receipt d \<and> t_job_execution (snd (g d)) = t_job_execution d" for g :: "pg \<Rightarrow> nat \<times> pg"
  proof (rule keeps_fromI)
    fix w
    show "keeps_from (ledger_is x) ids_forward (\<lambda>w. let (n, d) = g (w_pg w) in (Inr n, update_pg (\<lambda>_. d) w)) w"
      using that [of "w_pg w"]
      by (cases "g (w_pg w)") (simp add: keeps_from_def wp_def ledger_is_def deletion_keys_def ids_forward_def)
  qed
  have mem: "ledgers x (\<lambda>w. let (n, d) = dc_memories c ids (w_pg w) in (Inr n, update_pg (\<lambda>_. d) w))"
    using assms chat_cascade_ledger
    by (intro run) (auto simp: DERIVED_CASCADES_def TasksCascade_def ChatAnswerCascade_def ReplyDraftCascade_def tasks_cascade_def Let_def)
  have src: "ledgers x (\<lambda>w. let (n, d) = f s i (w_pg w) in (Inr n, update_pg (\<lambda>_. d) w))" if "dc_source c = Some f" for f s
    using assms that
    by (intro run) (auto simp: DERIVED_CASCADES_def TasksCascade_def ChatAnswerCascade_def ReplyDraftCascade_def reply_draft_cascade_def)
  show ?thesis
    unfolding run_cascade_def Let_def
    by (rule led.keeps_bind [OF mem [unfolded Let_def]])
      (auto split: option.splits intro!: led.control src [unfolded Let_def])
qed

subsection \<open>A recorded key stands for a confirmed receipt\<close>

definition confirmed_in :: "world \<Rightarrow> uuid \<Rightarrow> bool" where
  "confirmed_in w i \<longleftrightarrow> (\<exists>r \<in> set (t_receipt (w_pg w)). r_id r = i \<and> r_status r = Confirmed)"

definition settled :: "world \<Rightarrow> bool" where
  "settled w \<longleftrightarrow> distinct (map r_id (t_receipt (w_pg w))) \<and> (\<forall>k \<in> deletion_keys w. confirmed_in w (k_source_id k))"

interpretation sett: pg_evolution settled ids_forward
  by unfold_locales (auto simp: settled_def deletion_keys_def confirmed_in_def ids_forward_def outside_pg_def)

lemma settled_ledger: "(\<And>x. ledgers x m) \<Longrightarrow> keeps settled ids_forward m"
proof (rule keeps_fromI)
  fix w
  assume "\<And>x. ledgers x m"
  from this [of "(t_receipt (w_pg w), deletion_keys w)"] show "keeps_from settled ids_forward m w"
    by (cases "m w") (auto simp: keeps_def keeps_from_def wp_def ledger_is_def settled_def confirmed_in_def)
qed

lemma settled_finish: "keeps settled ids_forward (finish_request prin st i counts n ing)"
proof -
  have "keeps settled ids_forward (\<lambda>w. if j \<in> r_id ` set (t_receipt (w_pg w)) then (Inl UniqueViolation, w)
      else (Inr j, update_pg (\<lambda>d. d\<lparr>t_receipt := t_receipt d @ [receipt_pending j st i counts]\<rparr>) w))" for j
    by (auto simp: keeps_def keeps_from_def wp_def settled_def confirmed_in_def deletion_keys_def ids_forward_def receipt_pending_def)
  then show ?thesis
    unfolding finish_request_def insert_receipt_def
    by (intro sett.control sett.outside_ops settled_ledger [OF led_enqueue] settled_ledger [OF led_writeAudit])
qed

interpretation sett: erasure_contract settled ids_forward
  by unfold_locales (rule settled_ledger [OF led_lift] settled_ledger [OF led_cascade] settled_ledger [OF led_delete_rows]
    settled_ledger [OF led_remove_source] settled_finish settled_ledger [OF led_cancelPending]
    settled_ledger [OF led_cascadeFile]; assumption?)+

subsection \<open>Deliveries\<close>

lemma execute_ledger:
  assumes run: "execute sha sign i w = (Inr res, w')" and ids: "distinct (map r_id (t_receipt (w_pg w)))"
  shows "deletion_keys w' = deletion_keys w \<and> distinct (map r_id (t_receipt (w_pg w'))) \<and> confirmed_in w' i \<and>
    (\<forall>j. confirmed_in w j \<longrightarrow> confirmed_in w' j)"
proof -
  have keys: "t_job_execution (w_pg w') = t_job_execution (w_pg w)"
    using run
    by (auto simp: execute_def confirm_row_def writeAudit_def updates_def ret_def raise_def reads_def Let_def
        elim!: thenA_InrE bindA_InrE dest!: deletePoints_Inr delete_objects_Inr chainTip_Inr split: option.splits if_splits)
  from execute_Inr [OF run ids] obtain r where r: "find (\<lambda>q. r_id q = i) (t_receipt (w_pg w)) = Some r"
      "r_status r = Confirmed \<and> w' = w \<or> (\<exists>prev. t_receipt (w_pg w') =
        update_where (\<lambda>q. r_id q = i) (\<lambda>_. sealed sha sign prev (w_clock w) r) (t_receipt (w_pg w)))"
    by (auto split: if_splits)
  then have mem: "r \<in> set (t_receipt (w_pg w))" "r_id r = i" by (auto simp: find_Some_iff)
  from r(2) show ?thesis
  proof
    assume "r_status r = Confirmed \<and> w' = w"
    then show ?thesis using mem ids by (auto simp: confirmed_in_def)
  next
    assume "\<exists>prev. t_receipt (w_pg w') =
        update_where (\<lambda>q. r_id q = i) (\<lambda>_. sealed sha sign prev (w_clock w) r) (t_receipt (w_pg w))"
    then obtain prev where rows: "t_receipt (w_pg w') =
        update_where (\<lambda>q. r_id q = i) (\<lambda>_. sealed sha sign prev (w_clock w) r) (t_receipt (w_pg w))" ..
    let ?s = "sealed sha sign prev (w_clock w) r"
    have "map r_id (t_receipt (w_pg w')) = map r_id (t_receipt (w_pg w))"
      unfolding rows update_where_def using mem(2) by simp
    moreover have "?s \<in> set (t_receipt (w_pg w'))" using mem by (force simp: rows update_where_def)
    then have "confirmed_in w' i" unfolding confirmed_in_def using mem(2) by (intro bexI [of _ ?s]) simp_all
    moreover have "confirmed_in w' j" if "confirmed_in w j" "j \<noteq> i" for j
      using that by (force simp: confirmed_in_def rows update_where_def)
    ultimately show ?thesis using keys ids by (auto simp: deletion_keys_def)
  qed
qed

text \<open>However the claiming transaction ends: no table changed, or the handler ran to its end under a fresh key.\<close>

lemma claim_ends:
  assumes "claim_and_run jobType handler p w = (out, v)"
  obtains (unchanged) "w_pg v = w_pg w" "out = Inr None \<longrightarrow> key_of jobType p \<in> set (t_job_execution (w_pg w))"
  | (ran) x u' where "handler p (update_pg (\<lambda>d. d\<lparr>t_job_execution := t_job_execution d @ [key_of jobType p]\<rparr>) w) = (Inr x, u')"
      "w_pg v = w_pg u'"
proof (cases "key_of jobType p \<in> set (t_job_execution (w_pg w))")
  case True
  then show ?thesis
    using assms
    by (intro unchanged) (auto simp: claim_and_run_def transaction_def bindA_def ret_def consumeIdempotencyKey_def split: fault.splits)
next
  case False
  obtain r u' where h: "handler p (update_pg (\<lambda>d. d\<lparr>t_job_execution := t_job_execution d @ [key_of jobType p]\<rparr>) w) = (r, u')"
    by fastforce
  show ?thesis
  proof (cases "w_pg v = w_pg w \<and> out \<noteq> Inr None")
    case True
    then show ?thesis by (intro unchanged) auto
  next
    case changed: False
    then obtain x where "r = Inr x" "w_pg v = w_pg u'"
      using assms False h
      by (cases r) (auto simp: claim_and_run_def transaction_def bindA_def consumeIdempotencyKey_def split: fault.splits)
    then show ?thesis using h ran by blast
  qed
qed

lemma deletion_claim:
  assumes claim: "claim_and_run DELETION_JOB_TYPE (deletion_handler sha sign) p w = (out, v)" and safe: "settled w"
  shows "settled v \<and> (out = Inr x \<longrightarrow> confirmed_in v (j_source_id p))"
  using claim
proof (cases rule: claim_ends)
  case unchanged
  have "out = Inr None" if "out = Inr x"
    using claim that
    by (auto simp: claim_and_run_def transaction_def bindA_def ret_def deletion_handler_def thenA_def
        split: prod.splits sum.splits fault.splits if_splits)
  moreover have "confirmed_in w (j_source_id p)" if "key_of DELETION_JOB_TYPE p \<in> set (t_job_execution (w_pg w))"
    using safe that by (force simp: settled_def deletion_keys_def key_of_def)
  ultimately show ?thesis
    using unchanged safe by (auto simp: settled_def confirmed_in_def deletion_keys_def)
next
  case (ran y u')
  let ?u = "update_pg (\<lambda>d. d\<lparr>t_job_execution := t_job_execution d @ [key_of DELETION_JOB_TYPE p]\<rparr>) w"
  from ran(1) obtain res where "execute sha sign (j_source_id p) ?u = (Inr res, u')"
    by (auto simp: deletion_handler_def ret_def elim!: thenA_InrE)
  from execute_ledger [OF this] safe have e: "deletion_keys u' = deletion_keys ?u" "distinct (map r_id (t_receipt (w_pg u')))"
    "confirmed_in u' (j_source_id p)" "\<forall>j. confirmed_in ?u j \<longrightarrow> confirmed_in u' j"
    by (simp_all add: settled_def)
  have "confirmed_in u' (k_source_id k)" if "k \<in> deletion_keys u'" for k
  proof -
    from that e(1) have "k = key_of DELETION_JOB_TYPE p \<or> k \<in> deletion_keys w" by (auto simp: deletion_keys_def)
    moreover have "confirmed_in ?u j = confirmed_in w j" for j by (simp add: confirmed_in_def)
    ultimately show ?thesis using e(3,4) safe by (auto simp: settled_def key_of_def)
  qed
  with e ran(2) show ?thesis by (auto simp: settled_def confirmed_in_def deletion_keys_def)
qed

lemma deletion_delivery:
  assumes run: "idempotentTask describe DELETION_JOB_TYPE (deletion_handler sha sign) p attempts maxAttempts w = (r, w')"
    and safe: "settled w"
  shows "settled w' \<and> (r = Inr () \<longrightarrow> confirmed_in w' (j_source_id p) \<or>
    (\<exists>letter \<in> set (t_dead_letter (w_pg w')). d_payload letter = p \<and> d_job_type letter = DELETION_JOB_TYPE))"
  using run
proof (cases rule: task_cases)
  case (committed out v)
  have "out = None"
    using committed(1)
    by (auto simp: claim_and_run_def transaction_def bindA_def ret_def deletion_handler_def thenA_def
        split: prod.splits sum.splits fault.splits if_splits)
  with committed deletion_claim [OF committed(1) safe] show ?thesis by simp
next
  case (retry e)
  with deletion_claim [OF retry(1) safe] show ?thesis by simp
next
  case (last e v)
  from park_outcome [OF last(3)] obtain n where "parked \<lparr>d_job_type = DELETION_JOB_TYPE, d_payload = p,
      d_error = describe e, d_attempts = attempts\<rparr> v w' n" "r = Inr () \<longrightarrow> 0 < n" by blast
  moreover from this(1) have "settled w'"
    using deletion_claim [OF last(1) safe] by (simp add: parked_def settled_def confirmed_in_def deletion_keys_def)
  ultimately show ?thesis by (auto simp: parked_def)
qed (simp_all add: safe)

subsection \<open>Histories\<close>

inductive erasure_step :: "world \<Rightarrow> world \<Rightarrow> bool" where
  ask: "requestSourceDeletion in_flight prin raw i w = (r, w') \<Longrightarrow> erasure_step w w'"
| deliver: "idempotentTask describe DELETION_JOB_TYPE (deletion_handler sha sign) p attempts maxAttempts w = (r, w') \<Longrightarrow>
    erasure_step w w'"
| elsewhere: "t_receipt (w_pg w') = t_receipt (w_pg w) \<Longrightarrow> deletion_keys w' = deletion_keys w \<Longrightarrow> erasure_step w w'"

lemma erasure_step_settled: "erasure_step w w' \<Longrightarrow> settled w \<Longrightarrow> settled w'"
proof (induction rule: erasure_step.induct)
  case (ask in_flight prin raw i w r w')
  then show ?case using keeps_run [OF sett.keeps_requestSourceDeletion] by blast
next
  case (deliver describe sha sign p attempts maxAttempts w r w')
  then show ?case using deletion_delivery by blast
next
  case (elsewhere w' w)
  then show ?case by (simp add: settled_def confirmed_in_def)
qed

lemma erasure_steps_settled: "erasure_step\<^sup>*\<^sup>* w w' \<Longrightarrow> settled w \<Longrightarrow> settled w'"
  by (induction rule: rtranclp_induct) (auto intro: erasure_step_settled)

text \<open>
  C21. From an instance without receipts and without executed deletion jobs, over every
  history of deletion requests, deliveries of deletion jobs and anything that leaves receipts
  and executed deletion keys alone, with any faults: a delivery of a deletion job that the
  queue counts as done, duplicates included, leaves the receipt confirmed or a dead letter
  with its payload. Erasures are never dropped silently.
\<close>

theorem deletion_settles:
  assumes "t_receipt (w_pg w0) = []" and "deletion_keys w0 = {}" and "erasure_step\<^sup>*\<^sup>* w0 w"
    and run: "idempotentTask describe DELETION_JOB_TYPE (deletion_handler sha sign) p attempts maxAttempts w = (Inr (), w')"
  shows "(\<exists>r \<in> set (t_receipt (w_pg w')). r_id r = j_source_id p \<and> r_status r = Confirmed) \<or>
    (\<exists>letter \<in> set (t_dead_letter (w_pg w')). d_payload letter = p \<and> d_job_type letter = DELETION_JOB_TYPE)"
proof -
  have "settled w0" using assms(1,2) by (simp add: settled_def)
  then have "settled w" using erasure_steps_settled [OF assms(3)] by simp
  from deletion_delivery [OF run this] show ?thesis by (simp add: confirmed_in_def)
qed

theorem deletion_settles_witness:
  "list_ex (\<lambda>r. r_id r = sample_id 5 \<and> r_status r = Confirmed)
     (t_receipt (w_pg (snd (demo_leg demo_payload erase_demo)))) \<or>
   list_ex (\<lambda>letter. d_payload letter = demo_payload)
     (t_dead_letter (w_pg (snd (demo_leg demo_payload erase_demo))))"
proof -
  have "erasure_step\<^sup>*\<^sup>* sample_world erase_demo"
    unfolding erase_demo_def by (intro r_into_rtranclp erasure_step.ask [OF surjective_pairing])
  moreover have "t_receipt (w_pg sample_world) = []" "deletion_keys sample_world = {}"
    by (simp_all add: sample_world_def sample_pg_def deletion_keys_def)
  ultimately show ?thesis
    using deletion_settles [OF _ _ _ demo_leg_runs(1)] by (auto simp: list_ex_iff demo_payload_def)
qed

end
