(* ===== verification/Ingest_Laws.thy ===== *)
theory Ingest_Laws
  imports Email_Text Temporal_Laws Job_Queue
begin

text \<open>
  What an ingestion run promises: facts are admitted with the status their verdict allows, a
  source deleted while the model worked admits nothing, no memory of another owner changes, and
  a date outside the range of a timestamp fails the whole run.
\<close>

subsection \<open>Extraction and verification touch no state\<close>

definition silent :: "'a op \<Rightarrow> bool" where
  "silent m \<longleftrightarrow> (\<forall>w r w'. m w = (r, w') \<longrightarrow> w' = w)"

lemma silent_ret: "silent (ret a)" and silent_raise: "silent (raise e)" and silent_reads: "silent (reads f)"
  by (simp_all add: silent_def ret_def raise_def reads_def)

lemma silent_bind: "silent m \<Longrightarrow> (\<And>a. silent (f a)) \<Longrightarrow> silent (bindA m f)"
  unfolding silent_def bindA_def by (auto split: sum.splits prod.splits) blast

lemma silent_fold: "(\<And>acc x. silent (f acc x)) \<Longrightarrow> silent (fold_each f xs acc)"
  by (induction xs arbitrary: acc) (auto intro: silent_ret silent_bind)

lemmas silence = silent_ret silent_raise silent_reads silent_bind silent_fold

lemma silent_run: "silent m \<Longrightarrow> m w = (r, w') \<Longrightarrow> w' = w"
  by (simp add: silent_def)

lemma silent_extract: "silent (extract_run env source chunks)"
  unfolding extract_run_def extract_chunk_def by (auto intro!: silence split: option.split)

lemma silent_verify: "silent (verify_run env chunks facts)"
  unfolding verify_run_def verify_fact_def by (auto intro!: silence split: option.split)

lemma silent_timestamp: "silent (timestamp_of v)"
  by (induction v rule: timestamp_of.induct) (auto intro: silence)

subsection \<open>Admission\<close>

definition admitted_as :: "source_item \<Rightarrow> verified_fact \<Rightarrow> admitted_memory \<Rightarrow> bool" where
  "admitted_as source v a \<longleftrightarrow>
     am_status a = admission_status v \<and>
     m_status (am_row a) = (if vf_verdict v = Supported \<and> \<not> cf_hedged (vf_fact v) then Active else Uncertain) \<and>
     m_content (am_row a) = Some (cf_claim (vf_fact v)) \<and>
     m_owner (am_row a) = si_owner source \<and> m_scope (am_row a) = or_else (si_scope source) Private \<and>
     m_sensitive (am_row a) = or_else (si_sensitive source) False \<and>
     m_source_type (am_row a) = si_type source \<and> m_source_id (am_row a) = si_id source \<and>
     m_authored_by_user (am_row a) = si_authored source"

lemma row_of_admitted:
  "admitted_as source v \<lparr>am_status = admission_status v, am_row = row_of_fact (si_owner source) (fact_row env source v t u un) now i, am_embedding = e\<rparr>"
  by (simp add: admitted_as_def row_of_fact_def fact_row_def Let_def or_else_def admission_status_def)

lemma admit_fact_run:
  assumes "admit_fact env source acc item w = (Inr out, w')"
  shows "\<exists>a. out = acc @ [a] \<and> admitted_as source (fst item) a \<and> m_id (am_row a) \<notin> memory_ids (w_pg w) \<and>
    t_memory (w_pg w') = t_memory (w_pg w) @ [am_row a]"
proof -
  let ?iv = "resolveFactTemporal env (vf_fact (fst item)) (si_created_at source)"
  from assms obtain t u row w1 where
      ins: "admitExtractedFact (si_owner source) (fact_row env source (fst item) t u (ri_unresolved ?iv)) w = (Inr row, w1)"
      and out: "out = acc @ [\<lparr>am_status = admission_status (fst item), am_row = row, am_embedding = snd item\<rparr>]"
      and w': "t_memory (w_pg w') = t_memory (w_pg w1)"
    unfolding admit_fact_def Let_def
    by (elim bindA_InrE thenA_InrE) (auto dest!: silent_run [OF silent_timestamp]
        simp: insert_verification_def updates_def ret_def)
  note row = insertFact_Inr [OF ins [unfolded admitExtractedFact_def]]
  then have "row = row_of_fact (si_owner source) (fact_row env source (fst item) t u (ri_unresolved ?iv)) (w_clock w) (m_id row)"
    by blast
  then have "admitted_as source (fst item) \<lparr>am_status = admission_status (fst item), am_row = row, am_embedding = snd item\<rparr>"
    using row_of_admitted by metis
  with row out w' show ?thesis by auto
qed

text \<open>Every admitted row is new and is appended in the order of the facts.\<close>

lemma admit_fold_run:
  assumes "fold_each (admit_fact env source) items acc w = (Inr out, w')"
  shows "\<exists>new. out = acc @ new \<and> list_all2 (admitted_as source) (map fst items) new \<and>
    (\<forall>a \<in> set new. m_id (am_row a) \<notin> memory_ids (w_pg w)) \<and>
    t_memory (w_pg w') = t_memory (w_pg w) @ map am_row new"
  using assms
proof (induction items arbitrary: acc w)
  case Nil
  then show ?case by (simp add: ret_def)
next
  case (Cons item items)
  then obtain acc1 v where one: "admit_fact env source acc item w = (Inr acc1, v)"
      and rest: "fold_each (admit_fact env source) items acc1 v = (Inr out, w')"
    by (auto elim: bindA_InrE)
  from admit_fact_run [OF one] obtain a where a: "acc1 = acc @ [a]" "admitted_as source (fst item) a"
      "m_id (am_row a) \<notin> memory_ids (w_pg w)" "t_memory (w_pg v) = t_memory (w_pg w) @ [am_row a]" by blast
  from Cons.IH [OF rest] obtain new where new: "out = acc1 @ new" "list_all2 (admitted_as source) (map fst items) new"
      "\<forall>a \<in> set new. m_id (am_row a) \<notin> memory_ids (w_pg v)" "t_memory (w_pg w') = t_memory (w_pg v) @ map am_row new"
    by blast
  have "memory_ids (w_pg w) \<subseteq> memory_ids (w_pg v)" using a(4) by (auto simp: memory_ids_def)
  with a new show ?case by (intro exI [of _ "a # new"]) auto
qed

lemma map_fst_pairs: "map fst (pair_embeddings verified es) = verified"
  by (simp add: pair_embeddings_def map_fst_zip_take)

lemma upsertVectors_pg: "upsertVectors rows es w = (r, w') \<Longrightarrow> w_pg w' = w_pg w"
  by (auto simp: upsertVectors_def requireVectors_def upsert_def external_def act_defs
      split: if_splits fault.splits sum.splits prod.splits)

lemma embed_store_run:
  assumes "embed_store env source verified w = (Inr admitted, w')"
  shows "list_all2 (admitted_as source) verified admitted \<and>
    (\<forall>a \<in> set admitted. m_id (am_row a) \<notin> memory_ids (w_pg w)) \<and>
    t_memory (w_pg w') = t_memory (w_pg w) @ map am_row admitted"
proof (cases "verified = []")
  case True
  with assms show ?thesis by (simp add: embed_store_def ret_def)
next
  case False
  with assms obtain es w1 where
      fold: "fold_each (admit_fact env source) (pair_embeddings verified es) [] w = (Inr admitted, w1)"
      and up: "w_pg w' = w_pg w1"
    unfolding embed_store_def
    by (auto elim!: bindA_InrE thenA_InrE simp: raise_def ret_def split: option.splits dest!: upsertVectors_pg)
  from admit_fold_run [OF fold] show ?thesis by (simp add: map_fst_pairs up)
qed

text \<open>
  C34. Storing the verified facts of a source appends one memory per fact, in order, with the
  claim as content and the owner, scope and provenance of the source; a memory is active
  exactly when its fact is supported and not hedged, and uncertain otherwise.
\<close>

theorem admission_follows_verdict:
  assumes "embed_store env source verified w = (Inr admitted, w')"
  shows "t_memory (w_pg w') = t_memory (w_pg w) @ map am_row admitted \<and>
    list_all2 (\<lambda>v a.
      m_status (am_row a) = (if vf_verdict v = Supported \<and> \<not> cf_hedged (vf_fact v) then Active else Uncertain) \<and>
      m_content (am_row a) = Some (cf_claim (vf_fact v)) \<and>
      m_owner (am_row a) = si_owner source \<and> m_scope (am_row a) = or_else (si_scope source) Private \<and>
      m_source_type (am_row a) = si_type source \<and> m_source_id (am_row a) = si_id source) verified admitted"
  using embed_store_run [OF assms] by (auto simp: admitted_as_def elim: list_all2_mono)

subsection \<open>The readers\<close>

definition row_readers :: "(string \<Rightarrow> note_columns) \<Rightarrow> (string \<Rightarrow> page_columns) \<Rightarrow> (string \<Rightarrow> email_columns) \<Rightarrow> source_reader list" where
  "row_readers cols page email =
     [NotesSourceReader cols, WebSourceReader page, EmailSourceReader email, TaskConclusionSourceReader]"

lemma reader_rows:
  assumes "rd \<in> set (row_readers cols page email)"
  shows "silent (sr_load rd i)" and "sr_exists rd = row_exists (sr_type rd)"
    and "sr_load rd i w = (Inr (Some source), w') \<Longrightarrow>
      \<exists>row \<in> set (t_source (w_pg w)). source_at (sr_type rd) i row \<and> si_owner source = src_owner row \<and> \<not> has_staging source"
  using assms
  by (auto simp: row_readers_def NotesSourceReader_def WebSourceReader_def EmailSourceReader_def
      TaskConclusionSourceReader_def load_row_def silent_reads reads_def Let_def email_item_def
      conclusion_item_def has_staging_def bind_eq_Some_conv dest!: find_SomeD) metis+

subsection \<open>A run keeps the memory invariant and other owners' rows\<close>

lemma keeps_insert_verification: "mem_keeps (insert_verification v)"
  unfolding insert_verification_def by (rule keeps_elsewhere) simp

lemma keeps_silent: "silent m \<Longrightarrow> mem_keeps m"
  by (rule keeps_fromI, rule mem.from_outside) (auto simp: silent_def outside_pg_def)

lemma keeps_admit_fact: "mem_keeps (admit_fact env source acc item)"
  unfolding admit_fact_def Let_def
  by (intro mem.control keeps_silent silent_timestamp keeps_admitExtractedFact keeps_insert_verification)

lemma keeps_embed_store: "mem_keeps (embed_store env source verified)"
  unfolding embed_store_def
  by (auto intro!: mem.control mem.keeps_fold_each keeps_admit_fact keeps_upsertVectors split: option.split)

lemma keeps_enqueue_followers: "mem_keeps (enqueue_followers p source admitted)"
  unfolding enqueue_followers_def by (auto intro!: mem.control keeps_enqueue split: option.split)

lemma keeps_store_and_reconcile: "mem_keeps (store_and_reconcile env d p source verified s)"
  unfolding store_and_reconcile_def by (intro mem.control keeps_embed_store keeps_reconcile keeps_enqueue_followers)

lemma keeps_row_exists: "mem_keeps (row_exists st i)"
  unfolding row_exists_def by (rule mem.keeps_reads)

lemma keeps_admit_source:
  "rd \<in> set (row_readers cols page email) \<Longrightarrow> mem_keeps (admit_source env d rd p source verified s)"
  unfolding admit_source_def abort_admission_def
  by (auto simp: reader_rows(2) intro!: mem.control keeps_row_exists keeps_writeAudit keeps_store_and_reconcile)

lemma keeps_pipeline: "mem_keeps (pipeline_run env caps (row_readers cols page email) d p)"
  unfolding pipeline_run_def Let_def
  by (auto intro!: mem.control keeps_silent [OF reader_rows(1)] keeps_silent [OF silent_extract]
      keeps_silent [OF silent_verify] keeps_admit_source split: option.split dest!: find_SomeD)

lemma pins_silent: "silent m \<Longrightarrow> pins i r m"
  by (rule keeps_fromI, rule pin.from_outside) (auto simp: silent_def outside_pg_def)

lemma pins_upsertVectors: "pins i r (upsertVectors rows es)"
  unfolding upsertVectors_def by (intro pin_ops)

lemma pins_tables:
  "(\<And>d. t_memory (f d) = t_memory d) \<Longrightarrow> pins i r (updates (update_pg f))"
  by (rule pins_update_pg) (simp add: memory_by_id_def)

lemma pins_embed_store: "pins i r (embed_store env source verified)"
  unfolding embed_store_def admit_fact_def Let_def admitExtractedFact_def insert_verification_def
  by (auto intro!: pin.control pin.keeps_fold_each pins_silent [OF silent_timestamp] pins_insertFact pins_tables
      pins_upsertVectors split: option.split)

lemma pins_enqueue_followers: "pins i r (enqueue_followers p source admitted)"
  unfolding enqueue_followers_def withTransactionalEnqueue_def
  by (auto intro!: pin.control pins_tables split: option.split)

lemma admitted_owner:
  "list_all2 (admitted_as source) verified admitted \<Longrightarrow> a \<in> set admitted \<Longrightarrow> m_owner (am_row a) = si_owner source"
  by (induction rule: list_all2_induct) (auto simp: admitted_as_def)

text \<open>The admitted rows are new, so a row that was there is none of them.\<close>

lemma pins_store_and_reconcile:
  assumes "rows_ok (t_memory d)" and "memory_by_id i d = Some r" and "si_owner source \<noteq> m_owner r"
  shows "pins i r (store_and_reconcile env d p source verified s)"
proof (rule keeps_fromI)
  fix w
  show "keeps_from (pinned i r) ids_forward (store_and_reconcile env d p source verified s) w"
  proof (cases "pinned i r w")
    case False
    then show ?thesis by (simp add: keeps_from_def)
  next
    case True
    then have old: "i \<in> memory_ids (w_pg w)"
      unfolding pinned_def using memory_by_id_None_iff by (metis option.distinct(1))
    show ?thesis
      unfolding store_and_reconcile_def
    proof (rule pin.from_bind)
      show "keeps_from (pinned i r) ids_forward (embed_store env source verified) w"
        by (intro keepsD pins_embed_store)
      fix admitted w1
      assume "embed_store env source verified w = (Inr admitted, w1)"
      from embed_store_run [OF this]
      have rows: "m_id (am_row a) \<noteq> i \<and> m_owner (am_row a) = si_owner source" if "a \<in> set admitted" for a
        using that old admitted_owner [of source verified admitted a] by blast
      have apart: "m_id (fst item) \<noteq> i \<and> (m_owner r \<noteq> m_owner (fst item) \<or> m_scope r \<noteq> m_scope (fst item))"
        if "item \<in> set (map (\<lambda>a. (am_row a, am_embedding a)) admitted)" for item
      proof -
        from that obtain a where "a \<in> set admitted" "fst item = am_row a" by auto
        with rows assms(3) show ?thesis by metis
      qed
      have "pins i r (reconcile (ie_search env) (ie_judge env) d (map (\<lambda>a. (am_row a, am_embedding a)) admitted))"
        unfolding reconcile_def
        by (intro pin.keeps_fold_in pins_reconcile_fact [where q = r] assms(1,2)) (use apart in blast)+
      then show "keeps_from (pinned i r) ids_forward
          (bindA (reconcile (ie_search env) (ie_judge env) d (map (\<lambda>a. (am_row a, am_embedding a)) admitted)) (\<lambda>rs.
           thenA (enqueue_followers p source admitted)
             (ret (s\<lparr>ps_active := count_if (\<lambda>a. am_status a = InitActive) admitted,
               ps_uncertain := count_if (\<lambda>a. am_status a = InitUncertain) admitted,
               ps_embedded := length admitted, ps_reconcile := rs\<rparr>)))) w1"
        by (intro keepsD pin.control pins_enqueue_followers)
    qed
  qed
qed

lemma pins_admit_source:
  assumes "rd \<in> set (row_readers cols page email)" and "rows_ok (t_memory d)" and "memory_by_id i d = Some r"
    and "si_owner source \<noteq> m_owner r"
  shows "pins i r (admit_source env d rd p source verified s)"
  unfolding admit_source_def abort_admission_def row_exists_def reader_rows(2) [OF assms(1)]
  by (auto intro!: pin.control pins_writeAudit pins_store_and_reconcile assms(2-4))

text \<open>
  C36. An ingestion run leaves every memory of anyone but the owner of the source as it was,
  whatever the models answer, the vector index returns and the dates are.
\<close>

theorem ingestion_confined:
  assumes "memory_safe w" and "memory_by_id i (w_pg w) = Some r"
    and "\<forall>row \<in> set (t_source (w_pg w)).
      source_type_text (src_type row) = j_source_type p \<and> src_id row = j_source_id p \<longrightarrow> src_owner row \<noteq> m_owner r"
  shows "memory_by_id i (w_pg (snd (ingestion_handler env caps (row_readers cols page email) p w))) = Some r"
proof -
  let ?d = "w_pg w"
  have ok: "rows_ok (t_memory ?d)" using assms(1) by (simp add: memory_safe_def)
  have "keeps_from (pinned i r) ids_forward (pipeline_run env caps (row_readers cols page email) ?d p) w"
  proof (cases "find (\<lambda>rd. source_type_text (sr_type rd) = j_source_type p) (row_readers cols page email)")
    case None
    then show ?thesis by (simp add: pipeline_run_def pin.from_raise)
  next
    case (Some rd)
    then have rd: "rd \<in> set (row_readers cols page email)" "source_type_text (sr_type rd) = j_source_type p"
      by (auto dest: find_SomeD)
    show ?thesis
      unfolding pipeline_run_def Some option.case
    proof (rule pin.from_bind)
      show "keeps_from (pinned i r) ids_forward (sr_load rd (j_source_id p)) w"
        by (intro keepsD pins_silent reader_rows(1) [OF rd(1)])
      fix loaded w1
      assume run: "sr_load rd (j_source_id p) w = (Inr loaded, w1)"
      show "keeps_from (pinned i r) ids_forward
        (case loaded of
            None \<Rightarrow> ret (blank_summary\<lparr>ps_skipped := Some SourceMissing\<rparr>)
          | Some source \<Rightarrow>
              let chunks = take (pc_max_chunks caps) (chunkContent (take (pc_max_text_chars caps) (si_content source))) in
              bindA (extract_run env source chunks) (\<lambda>all_facts.
              let facts = take (pc_max_facts caps) all_facts in
              bindA (verify_run env chunks facts) (\<lambda>verified.
              admit_source env ?d rd p source verified
                (blank_summary\<lparr>ps_chunks := length chunks, ps_extracted := length facts,
                   ps_supported := count_if (\<lambda>v. vf_verdict v = Supported) verified,
                   ps_partial := count_if (\<lambda>v. vf_verdict v = Partial) verified,
                   ps_unsupported := count_if (\<lambda>v. vf_verdict v = Unsupported) verified\<rparr>)))) w1"
      proof (cases loaded)
        case None
        then show ?thesis by (simp add: pin.from_ret)
      next
        case (Some source)
        from reader_rows(3) [OF rd(1) run [unfolded Some]] assms(3) rd(2)
        have "si_owner source \<noteq> m_owner r" by (auto simp: source_at_def)
        then show ?thesis
          unfolding Some option.case Let_def
          by (intro keepsD pin.control pins_silent [OF silent_extract] pins_silent [OF silent_verify]
              pins_admit_source [OF rd(1) ok assms(2)])
      qed
    qed
  qed
  then have "keeps_from (pinned i r) ids_forward (ingestion_handler env caps (row_readers cols page email) p) w"
    unfolding ingestion_handler_def by (auto simp: pin.from_then [OF _ pin.from_ret])
  then show ?thesis using assms(2)
    by (cases "ingestion_handler env caps (row_readers cols page email) p w")
      (auto simp: keeps_from_def wp_def pinned_def)
qed

text \<open>A note of another owner, and a model that returns one hedged fact.\<close>

definition sample_fact :: candidate_fact where
  "sample_fact =
     \<lparr>cf_claim = ''Ann pays'', cf_kind = Commitment, cf_people = [''Ann''], cf_organizations = [], cf_projects = [],
      cf_condition = None, cf_valid_from = None, cf_valid_until = None, cf_anchors_resolved = True,
      cf_expressions = [], cf_hedged = True, cf_hedge_phrase = Some ''maybe'', cf_subject_entity = None,
      cf_source_span = ''Ann may pay''\<rparr>"

definition sample_verified :: verified_fact where
  "sample_verified = \<lparr>vf_fact = sample_fact, vf_verdict = Supported, vf_reason = ''cited''\<rparr>"

definition demo_ingest :: ingest_env where
  "demo_ingest =
     \<lparr>ie_extract = (\<lambda>_. Some [sample_fact]), ie_verify = (\<lambda>_. Some (Supported, ''cited'')),
      ie_embed = (\<lambda>cs. Some (map (\<lambda>_. [1]) cs)), ie_embedding_model = ''m'', ie_local_day = (\<lambda>_. 0),
      ie_chrono = (\<lambda>_ _ _. None), ie_parse_date = (\<lambda>_. None), ie_search = sample_search, ie_judge = sample_judge\<rparr>"

definition sample_note :: note_columns where
  "sample_note = \<lparr>nc_content = ''Ann may pay'', nc_scope = Private, nc_created_at = 7\<rparr>"

definition sample_page :: page_columns where
  "sample_page = \<lparr>pc_title = None, pc_text = ''x'', pc_scope = Private, pc_sensitive = False, pc_fetched_at = 7\<rparr>"

definition sample_email :: email_columns where
  "sample_email = \<lparr>ec_subject = None, ec_text = Some ''x'', ec_calendar = None, ec_authored_by_owner = None,
     ec_sent_at = None, ec_received_at = 7, ec_scope = Private, ec_sensitive = False\<rparr>"

definition sample_ref :: job_payload where
  "sample_ref = \<lparr>j_source_type = ''user_note'', j_source_id = ''n''\<rparr>"

definition sample_source :: source_item where
  "sample_source = \<lparr>si_type = UserNote, si_id = ''n'', si_owner = ''bob'', si_content = ''Ann may pay'', si_created_at = 7,
     si_scope = Some Private, si_sensitive = None, si_authored = None, si_staging_key = None\<rparr>"

definition bobs_note :: source_row where
  "bobs_note = \<lparr>src_type = UserNote, src_id = ''n'', src_owner = ''bob'', src_raw_key = None, src_html_key = None,
     src_attachments = [], src_conclusion = None\<rparr>"

definition bobs_world :: world where
  "bobs_world = sample_world\<lparr>w_pg := sample_pg\<lparr>t_source := [bobs_note]\<rparr>\<rparr>"

lemma sample_tables: "w_pg sample_world = sample_pg"
  by (simp add: sample_world_def)

theorem ingestion_confined_witness:
  "memory_by_id (sample_id 2) (w_pg (snd (ingestion_handler demo_ingest DEFAULT_PARSE_CAPS
      (row_readers (\<lambda>_. sample_note) (\<lambda>_. sample_page) (\<lambda>_. sample_email)) sample_ref (bobs_world)))) =
    Some (sample_row 2 UserApproved 30 None)"
proof -
  have "memory_by_id (sample_id 2) (w_pg bobs_world) = Some (sample_row 2 UserApproved 30 None)"
    by (simp add: bobs_world_def sample_world_def sample_pg_def sample_rows_def memory_by_id_def)
  moreover have "memory_safe bobs_world"
    using sample_safe sample_tables by (simp add: bobs_world_def memory_safe_def relations_ok_def ids_drawn_def memory_ids_def)
  ultimately show ?thesis
    by (intro ingestion_confined) (simp_all add: bobs_world_def bobs_note_def)
qed

subsection \<open>A source deleted while the model worked\<close>

text \<open>
  C35. When the check of the source row before admission finds no source (for notes, web
  pages, e-mails and conclusions: when the row is gone), the run stores no memory and no
  relation, changes no index point and queues no job, whatever was extracted, and reports the
  deleted source. Sources with a staged file of discard mode are exempt in the code and here.
\<close>

theorem deleted_source_admits_nothing:
  assumes "sr_exists rd (j_source_id p) w = (Inr False, w) \<or>
      rd \<in> set (row_readers cols page email) \<and> \<not> list_ex (source_at (sr_type rd) (j_source_id p)) (t_source (w_pg w))"
    and "\<not> has_staging source"
    and "admit_source env d rd p source verified s w = (res, w')"
  shows "t_memory (w_pg w') = t_memory (w_pg w) \<and> t_relation (w_pg w') = t_relation (w_pg w) \<and>
    t_jobs (w_pg w') = t_jobs (w_pg w) \<and> w_points w' = w_points w \<and>
    (verified \<noteq> [] \<longrightarrow> res = Inr (s\<lparr>ps_skipped := Some SourceDeleted\<rparr>))"
proof (cases "verified = []")
  case True
  have "fold_each (reconcile_fact (ie_search env) (ie_judge env) d) [] empty_summary = ret empty_summary" by simp
  then show ?thesis
    using assms(2,3) unfolding True admit_source_def store_and_reconcile_def enqueue_followers_def has_staging_def
    by (auto simp: embed_store_def reconcile_def act_defs split: option.splits)
next
  case False
  have "sr_exists rd (j_source_id p) w = (Inr False, w)"
    using assms(1) reader_rows(2) [of rd cols page email] by (auto simp: row_exists_def act_defs)
  with False show ?thesis
    using assms(2,3) by (auto simp: admit_source_def bindA_Inr [where m = "sr_exists _ _"] abort_admission_def writeAudit_def act_defs)
qed

theorem deleted_source_admits_nothing_witness:
  "t_memory (w_pg (snd (admit_source demo_ingest (w_pg sample_world) (NotesSourceReader (\<lambda>_. sample_note)) sample_ref
     (sample_source) [sample_verified] blank_summary sample_world))) = sample_rows"
proof -
  let ?run = "admit_source demo_ingest (w_pg sample_world) (NotesSourceReader (\<lambda>_. sample_note)) sample_ref
     sample_source [sample_verified] blank_summary sample_world"
  have "t_memory (w_pg (snd ?run)) = t_memory (w_pg sample_world) \<and> t_relation (w_pg (snd ?run)) = t_relation (w_pg sample_world) \<and>
      t_jobs (w_pg (snd ?run)) = t_jobs (w_pg sample_world) \<and> w_points (snd ?run) = w_points sample_world \<and>
      ([sample_verified] \<noteq> [] \<longrightarrow> fst ?run = Inr (blank_summary\<lparr>ps_skipped := Some SourceDeleted\<rparr>))"
    by (rule deleted_source_admits_nothing [where cols = "\<lambda>_. sample_note" and page = "\<lambda>_. sample_page" and
          email = "\<lambda>_. sample_email", OF _ _ surjective_pairing])
      (simp_all add: row_readers_def has_staging_def sample_source_def sample_tables sample_pg_def)
  then show ?thesis by (simp add: sample_tables sample_pg_def)
qed

subsection \<open>Dates outside the range\<close>

lemma timestamp_valid: "timestamp_of v w = (Inr t, w') \<Longrightarrow> Some Invalid \<noteq> v"
  by (induction v rule: timestamp_of.induct) (auto simp: raise_def)

lemma admit_fact_dates:
  assumes "admit_fact env source acc item w = (Inr out, w')"
  shows "Some Invalid \<notin> {ri_from (resolveFactTemporal env (vf_fact (fst item)) (si_created_at source)),
    ri_until (resolveFactTemporal env (vf_fact (fst item)) (si_created_at source))}"
  using assms unfolding admit_fact_def Let_def
  by (elim bindA_InrE) (auto dest: timestamp_valid)

lemma admit_fold_dates:
  assumes "fold_each (admit_fact env source) items acc w = (Inr out, w')" and "item \<in> set items"
  shows "Some Invalid \<notin> {ri_from (resolveFactTemporal env (vf_fact (fst item)) (si_created_at source)),
    ri_until (resolveFactTemporal env (vf_fact (fst item)) (si_created_at source))}"
  using assms
proof (induction items arbitrary: acc w)
  case (Cons x items)
  from Cons.prems(1) obtain acc1 v where first: "admit_fact env source acc x w = (Inr acc1, v)"
      and rest: "fold_each (admit_fact env source) items acc1 v = (Inr out, w')"
    by (auto elim: bindA_InrE)
  show ?case
  proof (cases "item = x")
    case True
    show ?thesis unfolding True by (rule admit_fact_dates [OF first])
  next
    case False
    with Cons.prems(2) have "item \<in> set items" by simp
    then show ?thesis by (rule Cons.IH [OF rest])
  qed
qed simp

text \<open>A date that no timestamp can hold fails the run, and with it every other fact of the source.\<close>

theorem invalid_date_fails_run:
  assumes "v \<in> set verified"
    and "Some Invalid \<in> {ri_from (resolveFactTemporal env (vf_fact v) (si_created_at source)),
      ri_until (resolveFactTemporal env (vf_fact v) (si_created_at source))}"
  shows "\<exists>e. fst (embed_store env source verified w) = Inl e"
proof (cases "embed_store env source verified w")
  case (Pair res w')
  show ?thesis
  proof (cases res)
    case (Inr admitted)
    with Pair assms(1) obtain es w1 where
        fold: "fold_each (admit_fact env source) (pair_embeddings verified es) [] w = (Inr admitted, w1)"
      unfolding embed_store_def
      by (auto elim!: bindA_InrE thenA_InrE simp: raise_def ret_def split: option.splits if_splits)
    from assms(1) obtain item where "item \<in> set (pair_embeddings verified es)" "v = fst item"
      using map_fst_pairs [of verified es] by (metis (no_types) image_iff set_map)
    with admit_fold_dates [OF fold] assms(2) show ?thesis by blast
  qed (simp add: Pair)
qed

theorem invalid_date_fails_run_witness:
  "\<exists>e. fst (embed_store demo_ingest sample_source
     [sample_verified\<lparr>vf_fact := sample_fact\<lparr>cf_expressions := [(''in constructor days'', ValidFrom)]\<rparr>\<rparr>] sample_world) = Inl e"
  by (rule invalid_date_fails_run [where v = "sample_verified\<lparr>vf_fact := sample_fact\<lparr>cf_expressions := [(''in constructor days'', ValidFrom)]\<rparr>\<rparr>"])
    (simp_all add: resolveFactTemporal_def resolveTemporalExpressions_def resolve_one_def far_count_invalid(2))

lemma admit_fact_plain:
  assumes "cf_expressions (vf_fact v) = []" "cf_valid_from (vf_fact v) = None" "cf_valid_until (vf_fact v) = None"
    and "admitExtractedFact (si_owner source) (fact_row env source v None None []) w = (Inr row, w1)"
  shows "\<exists>a w2. admit_fact env source acc (v, e) w = (Inr (acc @ [a]), w2) \<and>
    w_has_vectors w2 = w_has_vectors w1 \<and> w_faults w2 = w_faults w1"
  using assms by (simp add: admit_fact_def resolveFactTemporal_def parse_legacy_def act_defs insert_verification_def Let_def)

lemma sample_insert:
  "\<exists>row w1. insertFact ''bob'' (fact_row demo_ingest sample_source sample_verified None None []) actor sample_world = (Inr row, w1) \<and>
     w_has_vectors w1 \<and> w_faults w1 = []"
  by (simp add: insertFact_def insert_new_def draw_uuid_def insert_memory_def orgFor_def writeAudit_def act_defs
      fact_row_def row_of_fact_def Let_def sample_source_def js_trim_eq_Nil js_space_def memory_ids_def
      sample_world_def sample_pg_def sample_rows_def)

theorem admission_follows_verdict_witness:
  "\<exists>row. t_memory (w_pg (snd (embed_store demo_ingest sample_source [sample_verified] sample_world))) = sample_rows @ [row] \<and>
     m_status row = Uncertain \<and> m_owner row = ''bob''"
proof -
  have one: "pair_embeddings [sample_verified] [[1]] = [(sample_verified, [1])]" by (simp add: pair_embeddings_def)
  obtain row w1 where "admitExtractedFact (si_owner sample_source)
      (fact_row demo_ingest sample_source sample_verified None None []) sample_world = (Inr row, w1)"
      and up: "w_has_vectors w1" "w_faults w1 = []"
    using sample_insert [of "''verification''"] by (auto simp: admitExtractedFact_def sample_source_def)
  then obtain a w2 where "admit_fact demo_ingest sample_source [] (sample_verified, [1]) sample_world = (Inr [a], w2)"
      "w_has_vectors w2" "w_faults w2 = []"
    using admit_fact_plain [of sample_verified sample_source demo_ingest sample_world row w1 "[]" "[1]"]
    by (auto simp: sample_verified_def sample_fact_def)
  then obtain w' where run: "embed_store demo_ingest sample_source [sample_verified] sample_world = (Inr [a], w')"
    by (simp add: embed_store_def demo_ingest_def one act_defs upsertVectors_def requireVectors_def upsert_def
        external_def next_fault_def)
  from admission_follows_verdict [OF run]
  have "t_memory (w_pg w') = sample_rows @ [am_row a]" "m_status (am_row a) = Uncertain" "m_owner (am_row a) = ''bob''"
    by (simp_all add: sample_tables sample_pg_def sample_verified_def sample_fact_def sample_source_def)
  then show ?thesis by (simp only: run snd_conv) blast
qed

end
