(* ===== verification/Dreaming.thy ===== *)
theory Dreaming
  imports Stage_Laws Memory_Reads Task_Views "HOL-Library.AList"
begin

text \<open>
  The nightly consolidation run, \<^verbatim>\<open>ingestion/dreaming.service.ts\<close>, with the digest built from
  its actions, \<^verbatim>\<open>ingestion/dream-digest.ts\<close>. Every statement outside a transaction commits on
  its own. The model's verdicts and the vector search are the arguments of the reconciliation
  stage.
\<close>

subsection \<open>Statements on the tables of the cycle\<close>

definition DORMANT_SILENCE_DAYS :: int where
  "DORMANT_SILENCE_DAYS = 14"

definition DREAM_FIRST_RUN_LOOKBACK_HOURS :: int where
  "DREAM_FIRST_RUN_LOOKBACK_HOURS = 24"

definition SYSTEM_READ_LIMIT :: nat where
  "SYSTEM_READ_LIMIT = 2000"

datatype dream_pass = DedupPass | ContradictionPass | SupersessionPass | StalenessPass | DormantPass

fun pass_text :: "dream_pass \<Rightarrow> string" where
  "pass_text DedupPass = ''dedup''"
| "pass_text ContradictionPass = ''contradiction''"
| "pass_text SupersessionPass = ''supersession''"
| "pass_text StalenessPass = ''staleness''"
| "pass_text DormantPass = ''dormant''"

definition insert_run :: "dream_run \<Rightarrow> unit op" where
  "insert_run r =
     bindA (reads (\<lambda>w. dr_id ` set (t_dream_run (w_pg w)))) (\<lambda>ids.
     thenA (raise_if (dr_id r \<in> ids) UniqueViolation)
       (updates (update_pg (\<lambda>d. d\<lparr>t_dream_run := t_dream_run d @ [r]\<rparr>))))"

definition known_row :: "pg \<Rightarrow> uuid option \<Rightarrow> bool" where
  "known_row d ref = (case ref of None \<Rightarrow> True | Some i \<Rightarrow> i \<in> memory_ids d)"

definition action_refs_ok :: "pg \<Rightarrow> dream_action \<Rightarrow> bool" where
  "action_refs_ok d a \<longleftrightarrow>
     da_run a \<in> dr_id ` set (t_dream_run d) \<and> da_memory a \<in> memory_ids d \<and> known_row d (da_related a) \<and>
     (case da_relation a of None \<Rightarrow> True | Some q \<Rightarrow> q \<in> rel_id ` set (t_relation d))"

definition insert_action :: "dream_action \<Rightarrow> unit op" where
  "insert_action a =
     bindA (reads (\<lambda>w. action_refs_ok (w_pg w) a)) (\<lambda>fits.
     thenA (raise_if (\<not> fits) FkViolation)
       (updates (update_pg (\<lambda>d. d\<lparr>t_dream_action := t_dream_action d @ [a]\<rparr>))))"

definition log_action :: "uuid \<Rightarrow> dream_pass \<Rightarrow> uuid \<Rightarrow> uuid option \<Rightarrow> uuid option \<Rightarrow> unit op" where
  "log_action runId pass memoryId related relation =
     bindA (reads w_clock) (\<lambda>now.
     insert_action \<lparr>da_run = runId, da_pass = pass_text pass, da_memory = memoryId, da_related = related,
       da_relation = relation, da_created_at = now\<rparr>)"

text \<open>The partial unique index allows one open flag of a memory; a conflict inserts nothing.\<close>

definition flag_conflict :: "pg \<Rightarrow> dormant_flag \<Rightarrow> bool" where
  "flag_conflict d f \<longleftrightarrow>
     list_ex (\<lambda>g. df_id g = df_id f \<or> (df_memory g = df_memory f \<and> df_cleared_at g = None)) (t_dormant d)"

definition insert_flag :: "dormant_flag \<Rightarrow> bool op" where
  "insert_flag f =
     bindA (reads w_pg) (\<lambda>d.
     if flag_conflict d f then ret False
     else thenA (raise_if (df_memory f \<notin> memory_ids d) FkViolation)
       (thenA (updates (update_pg (\<lambda>d. d\<lparr>t_dormant := t_dormant d @ [f]\<rparr>))) (ret True)))"

subsection \<open>Watermarks\<close>

definition finished_runs :: "pg \<Rightarrow> dream_run list" where
  "finished_runs d =
     sort_key (\<lambda>r. - the (dr_finished_at r)) (filter (\<lambda>r. dr_finished_at r \<noteq> None) (t_dream_run d))"

definition latestFinishedRun :: "pg \<Rightarrow> dream_run option" where
  "latestFinishedRun d = (case finished_runs d of [] \<Rightarrow> None | r # _ \<Rightarrow> Some r)"

definition defaultScopeFrom :: "time \<Rightarrow> pg \<Rightarrow> time" where
  "defaultScopeFrom now d =
     (case latestFinishedRun d of
        Some r \<Rightarrow> dr_to r
      | None \<Rightarrow> now - DREAM_FIRST_RUN_LOOKBACK_HOURS * 3600 * 1000)"

record dream_run_status =
  ds_last_finished_at :: "time option"
  ds_last_counts :: "json option"
  ds_newest_started_at :: "time option"
  ds_newest_unfinished :: bool

definition dreamRunStatus :: "pg \<Rightarrow> dream_run_status" where
  "dreamRunStatus d =
     (let newest = sort_key (\<lambda>r. - dr_started_at r) (t_dream_run d); finished = latestFinishedRun d
      in \<lparr>ds_last_finished_at = Option.bind finished dr_finished_at,
          ds_last_counts = Option.bind finished dr_counts,
          ds_newest_started_at = (case newest of [] \<Rightarrow> None | r # _ \<Rightarrow> Some (dr_started_at r)),
          ds_newest_unfinished = (case newest of [] \<Rightarrow> False | r # _ \<Rightarrow> dr_finished_at r = None)\<rparr>)"

subsection \<open>The report\<close>

record dream_report =
  rp_run :: uuid
  rp_from :: time
  rp_to :: time
  rp_owners :: nat
  rp_considered :: nat
  rp_merged :: nat
  rp_enriched :: nat
  rp_contradictions :: nat
  rp_superseded :: nat
  rp_outdated :: nat
  rp_flagged :: nat
  rp_cleared :: nat

definition blank_report :: "uuid \<Rightarrow> time \<Rightarrow> time \<Rightarrow> dream_report" where
  "blank_report i from' to = \<lparr>rp_run = i, rp_from = from', rp_to = to, rp_owners = 0, rp_considered = 0,
     rp_merged = 0, rp_enriched = 0, rp_contradictions = 0, rp_superseded = 0, rp_outdated = 0,
     rp_flagged = 0, rp_cleared = 0\<rparr>"

definition add_summary :: "reconcile_summary \<Rightarrow> dream_report \<Rightarrow> dream_report" where
  "add_summary s r =
     r\<lparr>rp_considered := rp_considered r + rs_considered s, rp_merged := rp_merged r + rs_merged s,
       rp_enriched := rp_enriched r + rs_enriched s,
       rp_contradictions := rp_contradictions r + rs_contradictions s,
       rp_superseded := rp_superseded r + rs_superseded s\<rparr>"

definition counts_json :: "dream_report \<Rightarrow> (string \<times> json) list" where
  "counts_json r =
     [(''scopeFrom'', JStr (iso_string (rp_from r))), (''scopeTo'', JStr (iso_string (rp_to r))),
      (''ownersProcessed'', JInt (int (rp_owners r))), (''considered'', JInt (int (rp_considered r))),
      (''merged'', JInt (int (rp_merged r))), (''enriched'', JInt (int (rp_enriched r))),
      (''contradictions'', JInt (int (rp_contradictions r))), (''superseded'', JInt (int (rp_superseded r))),
      (''outdated'', JInt (int (rp_outdated r))), (''dormantFlagged'', JInt (int (rp_flagged r))),
      (''flagsCleared'', JInt (int (rp_cleared r)))]"

subsection \<open>Passes 1 to 3: reconciliation per owner\<close>

fun record_reconcile_action :: "uuid \<Rightarrow> action_record \<Rightarrow> unit op" where
  "record_reconcile_action runId a =
     (case ar_result a of
        Merged survivor loser enriched \<Rightarrow> log_action runId DedupPass survivor (Some loser) None
      | Superseded winner loser \<Rightarrow> log_action runId SupersessionPass winner (Some loser) None
      | ContradictionCreated q \<Rightarrow> log_action runId ContradictionPass (ar_fact a) (Some (ar_candidate a)) (Some q)
      | Skipped _ \<Rightarrow> ret ())"

definition recordReconcileActions :: "uuid \<Rightarrow> action_record list \<Rightarrow> unit op" where
  "recordReconcileActions runId actions = each (record_reconcile_action runId) actions"

definition dream_items :: "memory_row list \<Rightarrow> (uuid \<times> rat list) list \<Rightarrow> (memory_row \<times> rat list) list" where
  "dream_items rows embeddings = List.map_filter (\<lambda>r. map_option (Pair r) (map_of embeddings (m_id r))) rows"

definition owner_batch :: "search_env \<Rightarrow> judge \<Rightarrow> uuid \<Rightarrow> (memory_row \<times> rat list) list \<Rightarrow> reconcile_summary op" where
  "owner_batch env J runId items =
     bindA (reads w_pg) (\<lambda>d.
     transaction (bindA (reconcile env J d items) (\<lambda>s.
       thenA (recordReconcileActions runId (rs_actions s)) (ret s))))"

definition dream_owner ::
  "search_env \<Rightarrow> judge \<Rightarrow> memory_row list \<Rightarrow> dream_report \<Rightarrow> user_id \<Rightarrow> dream_report op" where
  "dream_owner env J touched r owner =
     (let rows = filter (\<lambda>x. m_owner x = owner) touched in
      bindA (retrieveEmbeddings (map m_id rows)) (\<lambda>embeddings.
      let items = dream_items rows embeddings in
      if items = [] then ret r
      else bindA (owner_batch env J (rp_run r) items) (\<lambda>s.
        ret (add_summary s (r\<lparr>rp_owners := rp_owners r + 1\<rparr>)))))"

definition reconcile_pass :: "search_env \<Rightarrow> judge \<Rightarrow> dream_report \<Rightarrow> dream_report op" where
  "reconcile_pass env J r =
     bindA (reads (\<lambda>w. listTouchedBetween (rp_from r) (rp_to r) SYSTEM_READ_LIMIT (w_pg w))) (\<lambda>touched.
     fold_each (dream_owner env J touched) (dedupe (map m_owner touched)) r)"

subsection \<open>Pass 4: staleness and silence\<close>

definition outdate_row :: "dream_report \<Rightarrow> memory_row \<Rightarrow> dream_report op" where
  "outdate_row r row =
     thenA (transition ConsolidationActor (m_id row) Outdated)
       (thenA (transaction (log_action (rp_run r) StalenessPass (m_id row) None None))
         (ret (r\<lparr>rp_outdated := rp_outdated r + 1\<rparr>)))"

definition staleness_pass :: "dream_report \<Rightarrow> dream_report op" where
  "staleness_pass r =
     bindA (reads (\<lambda>w. listLapsedActive (rp_to r) SYSTEM_READ_LIMIT (w_pg w))) (\<lambda>lapsed.
     fold_each outdate_row lapsed r)"

definition flag_reason :: string where
  "flag_reason = ''no activity for '' @ nat_digits (nat DORMANT_SILENCE_DAYS) @ '' days''"

definition new_flag :: "uuid \<Rightarrow> uuid \<Rightarrow> bool op" where
  "new_flag runId memoryId =
     bindA draw_uuid (\<lambda>i.
     bindA (reads w_clock) (\<lambda>now.
     transaction (insert_flag \<lparr>df_id = i, df_memory = memoryId, df_run = Some runId, df_reason = flag_reason,
       df_flagged_at = now, df_cleared_at = None\<rparr>)))"

definition flag_row :: "dream_report \<Rightarrow> memory_row \<Rightarrow> dream_report op" where
  "flag_row r row =
     bindA (new_flag (rp_run r) (m_id row)) (\<lambda>inserted.
     if inserted
     then thenA (transaction (log_action (rp_run r) DormantPass (m_id row) None None))
            (ret (r\<lparr>rp_flagged := rp_flagged r + 1\<rparr>))
     else ret r)"

definition quiet_before :: "time \<Rightarrow> time" where
  "quiet_before now = now - DORMANT_SILENCE_DAYS * 24 * 3600 * 1000"

definition dormant_pass :: "dream_report \<Rightarrow> dream_report op" where
  "dormant_pass r =
     bindA (reads (\<lambda>w. listQuietCommitments (quiet_before (rp_to r)) SYSTEM_READ_LIMIT (w_pg w))) (\<lambda>quiet.
     fold_each flag_row quiet r)"

definition clear_flag :: "uuid \<Rightarrow> unit op" where
  "clear_flag i =
     bindA (reads w_clock) (\<lambda>now.
     transaction (updates (update_pg (\<lambda>d. d\<lparr>t_dormant :=
       update_where (\<lambda>f. df_id f = i) (\<lambda>f. f\<lparr>df_cleared_at := Some now\<rparr>) (t_dormant d)\<rparr>))))"

definition clear_unless_active :: "uuid list \<Rightarrow> nat \<Rightarrow> dormant_flag \<Rightarrow> nat op" where
  "clear_unless_active active n f =
     (if df_memory f \<in> set active then ret n else thenA (clear_flag (df_id f)) (ret (n + 1)))"

definition active_ids :: "dormant_flag list \<Rightarrow> pg \<Rightarrow> uuid list" where
  "active_ids flags d =
     map m_id (filter (\<lambda>r. m_status r = Active) (getManySystem (map df_memory flags) d))"

definition clearSettledFlags :: "nat op" where
  "clearSettledFlags =
     bindA (reads (\<lambda>w. listOpenDormantFlags (w_pg w))) (\<lambda>flags.
     if flags = [] then ret 0
     else bindA (reads (\<lambda>w. active_ids flags (w_pg w))) (\<lambda>active.
       fold_each (clear_unless_active active) flags 0))"

subsection \<open>The run\<close>

definition start_run :: "time option \<Rightarrow> dream_report op" where
  "start_run scopeFrom =
     bindA (reads w_clock) (\<lambda>now.
     bindA (case scopeFrom of Some t \<Rightarrow> ret t | None \<Rightarrow> reads (\<lambda>w. defaultScopeFrom now (w_pg w))) (\<lambda>from'.
     bindA draw_uuid (\<lambda>runId.
     thenA (transaction (insert_run \<lparr>dr_id = runId, dr_started_at = now, dr_finished_at = None,
              dr_from = from', dr_to = now, dr_counts = None\<rparr>))
       (ret (blank_report runId from' now)))))"

definition enqueue_backfill :: "uuid \<Rightarrow> unit op" where
  "enqueue_backfill runId =
     transaction (withTransactionalEnqueue
       \<lparr>ev_type = ''dreaming.finished'', ev_payload = [(''run_id'', JStr runId)]\<rparr> ''tasks_backfill''
       \<lparr>j_source_type = ''tasks_backfill'', j_source_id = runId\<rparr>)"

definition finish_run :: "dream_report \<Rightarrow> unit op" where
  "finish_run r =
     bindA (reads w_clock) (\<lambda>now.
     thenA (transaction (updates (update_pg (\<lambda>d. d\<lparr>t_dream_run :=
       update_where (\<lambda>x. dr_id x = rp_run r)
         (\<lambda>x. x\<lparr>dr_finished_at := Some now, dr_counts := Some (JObj (counts_json r))\<rparr>) (t_dream_run d)\<rparr>))))
     (transaction (writeAudit
       \<lparr>a_actor = ''consolidation'', a_action = ''dreaming.completed'', a_entity_type = ''dream_run'',
         a_entity_id = rp_run r, a_detail = JObj ((''runId'', JStr (rp_run r)) # counts_json r),
         a_org_id = None, a_owner_id = None\<rparr>)))"

definition dreaming_run :: "search_env \<Rightarrow> judge \<Rightarrow> time option \<Rightarrow> dream_report op" where
  "dreaming_run env J scopeFrom =
     bindA (start_run scopeFrom) (\<lambda>r.
     bindA (reconcile_pass env J r) (\<lambda>r.
     bindA (staleness_pass r) (\<lambda>r.
     bindA (dormant_pass r) (\<lambda>r.
     bindA clearSettledFlags (\<lambda>n.
     let r = r\<lparr>rp_cleared := n\<rparr> in
     thenA (enqueue_backfill (rp_run r)) (thenA (finish_run r) (ret r)))))))"

subsection \<open>The digest\<close>

definition MAX_LINES :: nat where
  "MAX_LINES = 6"

definition open_quote :: string where "open_quote = [CHR 0xE2, CHR 0x80, CHR 0x9C]"
definition close_quote :: string where "close_quote = [CHR 0xE2, CHR 0x80, CHR 0x9D]"

definition short_content :: "memory_row \<Rightarrow> string" where
  "short_content row =
     (let content = js_trim (or_else (m_content row) []) in
      if 40 < length content then open_quote @ take 37 content @ ellipsis @ close_quote
      else open_quote @ content @ close_quote)"

definition memory_label :: "memory_row \<Rightarrow> string" where
  "memory_label row =
     (case m_subject_entity row of
        Some (c # s) \<Rightarrow> c # s
      | _ \<Rightarrow> (case m_entities row of e # _ \<Rightarrow> e | [] \<Rightarrow> short_content row))"

definition dream_line :: "string \<Rightarrow> string \<Rightarrow> digest_line" where
  "dream_line s href = \<lparr>dl_text = s, dl_href = href, dl_section = ''consolidation''\<rparr>"

definition memory_href :: "uuid \<Rightarrow> string" where
  "memory_href i = ''/memories?open='' @ i"

definition conflict_line :: "bool \<Rightarrow> memory_row \<Rightarrow> digest_line" where
  "conflict_line hr row =
     dream_line (if hr then ''Prona'' @ [CHR 0xC4, CHR 0x91] @ ''en je sukob oko '' @ memory_label row @ '' '' @ em_dash @ '' tvoja odluka''
                 else ''Found a conflict about '' @ memory_label row @ '' '' @ em_dash @ '' your call'')
       ''/review?tab=contradicted''"

definition merge_line :: "bool \<Rightarrow> memory_row \<Rightarrow> digest_line" where
  "merge_line hr row =
     dream_line (if hr then ''Spojene su dvije bilje'' @ [CHR 0xC5, CHR 0xA1] @ ''ke o '' @ memory_label row
                 else ''Merged two notes about '' @ memory_label row) (memory_href (m_id row))"

definition update_line :: "bool \<Rightarrow> memory_row \<Rightarrow> digest_line" where
  "update_line hr row =
     dream_line (if hr then ''A'' @ [CHR 0xC5, CHR 0xBE] @ ''urirano '' @ memory_label row @ '' '' @ em_dash @
                   '' novija '' @ [CHR 0xC4, CHR 0x8D] @ ''injenica zamijenila je stariju''
                 else ''Updated '' @ memory_label row @ '' '' @ em_dash @ '' a newer fact replaced an older one'')
       (memory_href (m_id row))"

definition quiet_line :: "bool \<Rightarrow> memory_row \<Rightarrow> digest_line" where
  "quiet_line hr row =
     dream_line (if hr then ''Obveza oko '' @ memory_label row @ '' je utihnula''
                 else ''A commitment about '' @ memory_label row @ '' has gone quiet'') (memory_href (m_id row))"

definition outdated_line :: "bool \<Rightarrow> nat \<Rightarrow> digest_line" where
  "outdated_line hr n =
     dream_line
       (if hr
        then if n = 1
          then ''Ozna'' @ [CHR 0xC4, CHR 0x8D] @ ''en 1 zapis kao zastario '' @ em_dash @ '' datum mu je pro'' @ [CHR 0xC5, CHR 0xA1] @ ''ao''
          else ''Ozna'' @ [CHR 0xC4, CHR 0x8D] @ ''eno '' @ nat_digits n @ '' zapisa kao zastarjelo '' @ em_dash @
            '' datumi su im pro'' @ [CHR 0xC5, CHR 0xA1] @ ''li''
        else if n = 1 then ''Marked 1 memory outdated '' @ em_dash @ '' its date passed''
          else ''Marked '' @ nat_digits n @ '' memories outdated '' @ em_dash @ '' their dates passed'')
       ''/memories?status=outdated''"

text \<open>The rows the actions of one pass are about, among those the caller may read.\<close>

definition seen_rows :: "memory_row list \<Rightarrow> dream_action list \<Rightarrow> dream_pass \<Rightarrow> memory_row list" where
  "seen_rows rows actions pass =
     List.map_filter (\<lambda>a. if da_pass a = pass_text pass then find (\<lambda>r. m_id r = da_memory a) rows else None) actions"

definition all_lines :: "bool \<Rightarrow> memory_row list \<Rightarrow> dream_action list \<Rightarrow> digest_line list" where
  "all_lines hr rows actions =
     (let outdated = length (seen_rows rows actions StalenessPass) in
      map (conflict_line hr) (seen_rows rows actions ContradictionPass) @
      map (merge_line hr) (seen_rows rows actions DedupPass) @
      map (update_line hr) (seen_rows rows actions SupersessionPass) @
      map (quiet_line hr) (seen_rows rows actions DormantPass) @
      (if 0 < outdated then [outdated_line hr outdated] else []))"

definition fold_lines :: "bool \<Rightarrow> digest_line list \<Rightarrow> digest_line list" where
  "fold_lines hr ls =
     (let rest = length ls - (MAX_LINES - 1) in
      if length ls \<le> MAX_LINES then ls
      else take (MAX_LINES - 1) ls @
        [dream_line (if hr then ellipsis @ ''i jo'' @ [CHR 0xC5, CHR 0xA1] @ '' '' @ nat_digits rest @ '' promjena''
                     else ellipsis @ ''and '' @ nat_digits rest @ '' more changes'') ''/memories''])"

definition buildDigestLines :: "principal \<Rightarrow> dream_action list \<Rightarrow> bool \<Rightarrow> pg \<Rightarrow> digest_line list" where
  "buildDigestLines prin actions hr d =
     (if actions = [] then []
      else fold_lines hr (all_lines hr (getManyForPrincipal prin True (dedupe (map da_memory actions)) d) actions))"

record dream_digest =
  dd_run :: "uuid option"
  dd_finished_at :: "string option"
  dd_lines :: "digest_line list"

definition buildDreamDigest :: "principal \<Rightarrow> bool \<Rightarrow> bool \<Rightarrow> time \<Rightarrow> pg \<Rightarrow> dream_digest" where
  "buildDreamDigest prin hasTasks hr now d =
     (let run = latestFinishedRun d;
          dreaming = (case run of None \<Rightarrow> []
            | Some r \<Rightarrow> buildDigestLines prin (filter (\<lambda>a. da_run a = dr_id r) (t_dream_action d)) hr d)
      in \<lparr>dd_run = map_option dr_id run,
          dd_finished_at = Option.bind run (\<lambda>r. map_option iso_string (dr_finished_at r)),
          dd_lines = dreaming @ (if hasTasks then taskLines prin (map_option dr_from run) hr now d else [])\<rparr>)"

definition add_count :: "'k \<Rightarrow> ('k \<times> nat) list \<Rightarrow> ('k \<times> nat) list" where
  "add_count k m = AList.update k (or_else (map_of m k) 0 + 1) m"

definition dreamingActivityForPrincipal :: "principal \<Rightarrow> int \<Rightarrow> time \<Rightarrow> pg \<Rightarrow> ((string \<times> string) \<times> nat) list" where
  "dreamingActivityForPrincipal prin days now d =
     (let since = now - days * 86400000;
          rows = List.map_filter (\<lambda>a. map_option (Pair a)
            (find (\<lambda>r. dr_id r = da_run a \<and> since \<le> dr_started_at r) (t_dream_run d))) (t_dream_action d);
          visible = map m_id (getManyForPrincipal prin True (dedupe (map (da_memory \<circ> fst) rows)) d)
      in fold (\<lambda>(a, r) m. if da_memory a \<in> set visible
           then add_count (take 10 (iso_string (dr_started_at r)), da_pass a) m else m) rows [])"

end
