(* ===== verification/Dreaming_Laws.thy ===== *)
theory Dreaming_Laws
  imports Dreaming Samples
begin

text \<open>
  What the nightly run promises: the memory invariant holds after it, however it ends, a run that
  returns leaves open flags on active memories only, and the digest shows a reader at most six
  lines, none about memories the reader may not see.
\<close>

subsection \<open>The memory invariant\<close>

lemma keeps_insert_run: "mem_keeps (insert_run r)"
  unfolding insert_run_def by (intro mem.control keeps_elsewhere) simp

lemma keeps_log_action: "mem_keeps (log_action runId pass m rel q)"
  unfolding log_action_def insert_action_def by (intro mem.control keeps_elsewhere) simp

lemma keeps_insert_flag: "mem_keeps (insert_flag f)"
  unfolding insert_flag_def by (intro mem.control keeps_elsewhere) simp

lemma keeps_record_action: "mem_keeps (record_reconcile_action runId a)"
  by (cases "ar_result a") (simp_all add: keeps_log_action mem.control)

lemma keeps_retrieveEmbeddings: "mem_keeps (retrieveEmbeddings ids)"
  unfolding retrieveEmbeddings_def
  by (intro mem.control mem.outside_ops mem.keeps_external) simp

lemma keeps_owner_batch: "mem_keeps (owner_batch env J runId items)"
  unfolding owner_batch_def recordReconcileActions_def
  by (intro mem.control mem.keeps_transaction keeps_reconcile keeps_record_action)

lemma keeps_dream_owner: "mem_keeps (dream_owner env J touched r owner)"
  unfolding dream_owner_def Let_def by (intro mem.control keeps_retrieveEmbeddings keeps_owner_batch)

lemma keeps_outdate_row: "mem_keeps (outdate_row r row)"
  unfolding outdate_row_def by (intro mem.control keeps_transition mem.keeps_transaction keeps_log_action)

lemma keeps_flag_row: "mem_keeps (flag_row r row)"
  unfolding flag_row_def new_flag_def
  by (intro mem.control mem.outside_ops mem.keeps_transaction keeps_insert_flag keeps_log_action)

lemma keeps_clear: "mem_keeps (clear_unless_active active n f)"
  unfolding clear_unless_active_def clear_flag_def
  by (intro mem.control mem.keeps_transaction keeps_elsewhere) simp

lemma keeps_finish_run: "mem_keeps (finish_run r)"
  unfolding finish_run_def by (intro mem.control mem.keeps_transaction keeps_elsewhere keeps_writeAudit) simp

lemmas keeps_passes = keeps_dream_owner keeps_outdate_row keeps_flag_row keeps_clear keeps_finish_run keeps_insert_run
  keeps_enqueue

lemma keeps_dreaming_run: "mem_keeps (dreaming_run env J scopeFrom)"
proof -
  have "mem_keeps (start_run scopeFrom)"
    unfolding start_run_def
    by (intro mem.control mem.outside_ops mem.keeps_transaction keeps_passes) (auto intro: mem.control split: option.split)
  moreover have "mem_keeps (reconcile_pass env J r)" "mem_keeps (staleness_pass r)" "mem_keeps (dormant_pass r)"
    "mem_keeps clearSettledFlags" "mem_keeps (enqueue_backfill i)" for r i
    unfolding reconcile_pass_def staleness_pass_def dormant_pass_def clearSettledFlags_def enqueue_backfill_def
    by (intro mem.control mem.keeps_transaction keeps_passes)+
  ultimately show ?thesis
    unfolding dreaming_run_def Let_def by (intro mem.control keeps_finish_run)
qed

subsection \<open>Flags\<close>

lemma commit_updates: "transaction (updates (update_pg f)) w = (Inr u, w') \<Longrightarrow> w_pg w' = f (w_pg w)"
  by (auto simp: transaction_def updates_def split: fault.splits)

lemma clear_flag_run:
  assumes "clear_flag i w = (Inr u, w')"
  shows "t_memory (w_pg w') = t_memory (w_pg w) \<and> t_dormant (w_pg w') =
    update_where (\<lambda>f. df_id f = i) (\<lambda>f. f\<lparr>df_cleared_at := Some (w_clock w)\<rparr>) (t_dormant (w_pg w))"
  using assms commit_updates unfolding clear_flag_def by fastforce

lemma open_after_clear:
  "f \<in> set (update_where P (\<lambda>f. f\<lparr>df_cleared_at := Some t\<rparr>) rows) \<Longrightarrow> df_cleared_at f = None \<Longrightarrow> f \<in> set rows \<and> \<not> P f"
  by (auto simp: update_where_def split: if_splits)

lemma clear_one_run:
  assumes "clear_unless_active active n g w = (Inr m, w')"
  shows "t_memory (w_pg w') = t_memory (w_pg w) \<and>
    (\<forall>f \<in> set (t_dormant (w_pg w')). df_cleared_at f = None \<longrightarrow>
      f \<in> set (t_dormant (w_pg w)) \<and> (df_memory g \<in> set active \<or> df_id f \<noteq> df_id g))"
  using assms unfolding clear_unless_active_def
  by (auto simp: ret_def elim!: thenA_InrE dest!: clear_flag_run dest: open_after_clear split: if_splits)

lemma clear_fold_run:
  assumes "fold_each (clear_unless_active active) gs n w = (Inr m, w')"
  shows "t_memory (w_pg w') = t_memory (w_pg w) \<and>
    (\<forall>f \<in> set (t_dormant (w_pg w')). df_cleared_at f = None \<longrightarrow>
      f \<in> set (t_dormant (w_pg w)) \<and> (\<forall>g \<in> set gs. df_memory g \<in> set active \<or> df_id f \<noteq> df_id g))"
  using assms
proof (induction gs arbitrary: n w)
  case (Cons g gs)
  then obtain k v where "clear_unless_active active n g w = (Inr k, v)"
      and rest: "fold_each (clear_unless_active active) gs k v = (Inr m, w')"
    by (auto elim: bindA_InrE)
  from clear_one_run [OF this(1)] Cons.IH [OF rest] show ?case by auto
qed (simp add: ret_def)

definition flags_settled :: "pg \<Rightarrow> bool" where
  "flags_settled d \<longleftrightarrow>
     (\<forall>f \<in> set (listOpenDormantFlags d). \<exists>r \<in> set (t_memory d). m_id r = df_memory f \<and> m_status r = Active)"

lemma clearSettledFlags_run:
  assumes "clearSettledFlags w = (Inr n, w')"
  shows "flags_settled (w_pg w')"
proof (cases "listOpenDormantFlags (w_pg w) = []")
  case True
  with assms show ?thesis by (simp add: clearSettledFlags_def ret_def flags_settled_def)
next
  case False
  let ?open = "listOpenDormantFlags (w_pg w)"
  from False assms have "fold_each (clear_unless_active (active_ids ?open (w_pg w))) ?open 0 w = (Inr n, w')"
    by (simp add: clearSettledFlags_def)
  note run = clear_fold_run [OF this]
  show ?thesis
    unfolding flags_settled_def
  proof
    fix f
    assume "f \<in> set (listOpenDormantFlags (w_pg w'))"
    then have "f \<in> set (t_dormant (w_pg w'))" "df_cleared_at f = None" by (auto simp: listOpenDormantFlags_def)
    with run have "f \<in> set ?open" "df_memory f \<in> set (active_ids ?open (w_pg w))"
      by (auto simp: listOpenDormantFlags_def)
    then obtain r where "r \<in> set (t_memory (w_pg w))" "m_id r = df_memory f" "m_status r = Active"
      by (auto simp: active_ids_def getManySystem_def split: if_splits)
    with run show "\<exists>r \<in> set (t_memory (w_pg w')). m_id r = df_memory f \<and> m_status r = Active" by auto
  qed
qed

lemma commit_enqueue:
  "enqueue_backfill i w = (Inr u, w') \<Longrightarrow> t_memory (w_pg w') = t_memory (w_pg w) \<and> t_dormant (w_pg w') = t_dormant (w_pg w)"
  unfolding enqueue_backfill_def withTransactionalEnqueue_def by (auto dest: commit_updates)

lemma commit_audit:
  "transaction (writeAudit e) w = (Inr u, w') \<Longrightarrow> t_memory (w_pg w') = t_memory (w_pg w) \<and> t_dormant (w_pg w') = t_dormant (w_pg w)"
  by (auto simp: transaction_def writeAudit_def updates_def split: fault.splits)

lemma commit_finish:
  "finish_run r w = (Inr u, w') \<Longrightarrow> t_memory (w_pg w') = t_memory (w_pg w) \<and> t_dormant (w_pg w') = t_dormant (w_pg w)"
  unfolding finish_run_def by (auto elim!: thenA_InrE dest!: commit_updates commit_audit)

text \<open>
  C40. After a nightly run that returns, every open dormant flag names a stored memory that is
  active.
\<close>

theorem open_flags_active:
  assumes "dreaming_run env J scopeFrom w = (Inr report, w')"
  shows "\<forall>f \<in> set (listOpenDormantFlags (w_pg w')). \<exists>r \<in> set (t_memory (w_pg w')).
    m_id r = df_memory f \<and> m_status r = Active"
proof -
  from assms obtain r n u v x w1 w2 where cleared: "clearSettledFlags u = (Inr n, w1)"
      and q: "enqueue_backfill (rp_run r) w1 = (Inr v, w2)" and f: "finish_run (r\<lparr>rp_cleared := n\<rparr>) w2 = (Inr x, w')"
    unfolding dreaming_run_def Let_def by (elim bindA_InrE thenA_InrE) (auto simp: ret_def)
  have "t_memory (w_pg w') = t_memory (w_pg w1) \<and> t_dormant (w_pg w') = t_dormant (w_pg w1)"
    using commit_enqueue [OF q] commit_finish [OF f] by simp
  with clearSettledFlags_run [OF cleared] show ?thesis by (simp add: flags_settled_def listOpenDormantFlags_def)
qed

text \<open>Open flags on an active and on an uncertain memory; the second one is cleared.\<close>

definition demo_flag :: "nat \<Rightarrow> dormant_flag" where
  "demo_flag n = \<lparr>df_id = sample_id (10 + n), df_memory = sample_id n, df_run = None, df_reason = [],
     df_flagged_at = 1, df_cleared_at = None\<rparr>"

definition demo_flagged :: world where
  "demo_flagged = sample_world\<lparr>w_pg := sample_pg\<lparr>t_dormant := [demo_flag 0, demo_flag 3]\<rparr>\<rparr>"

lemma quiet_transaction: "w_faults w = [] \<Longrightarrow> transaction (updates f) w = (Inr (), pop_fault (f w))" if "\<And>w. w_faults (f w) = w_faults w"
  using that by (simp add: transaction_def updates_def next_fault_def)

lemma pop_none: "w_faults w = [] \<Longrightarrow> w_faults (pop_fault w) = []"
  by (simp add: pop_fault_def)

lemma quiet_clear:
  "w_faults w = [] \<Longrightarrow> \<exists>m w'. fold_each (clear_unless_active active) gs n w = (Inr m, w') \<and> w_faults w' = []"
proof (induction gs arbitrary: n w)
  case (Cons g gs)
  have "\<exists>k v. clear_unless_active active n g w = (Inr k, v) \<and> w_faults v = []"
    using Cons.prems by (simp add: clear_unless_active_def clear_flag_def quiet_transaction act_defs pop_none)
  then obtain k v where kv: "clear_unless_active active n g w = (Inr k, v)" "w_faults v = []" by blast
  then show ?case using Cons.IH [of v k] by (simp add: bindA_def kv)
qed (simp add: ret_def)

lemma quiet_settle:
  "w_faults w = [] \<Longrightarrow> \<exists>m w'. clearSettledFlags w = (Inr m, w') \<and> w_faults w' = []"
  using quiet_clear by (simp add: clearSettledFlags_def ret_def)

lemma quiet_end:
  assumes "w_faults w = []"
  shows "\<exists>x w'. bindA (enqueue_backfill i) (\<lambda>_. bindA (finish_run r) (\<lambda>_. ret r)) w = (Inr x, w')"
  using assms
  by (simp add: enqueue_backfill_def withTransactionalEnqueue_def finish_run_def writeAudit_def quiet_transaction
      act_defs pop_none)

lemma demo_run: "\<exists>report w'. dreaming_run sample_search sample_judge (Some 100) demo_flagged = (Inr report, w')"
proof -
  let ?rows = "t_memory (w_pg demo_flagged)"
  have none: "filter (\<lambda>r. (m_status r = Active \<or> m_status r = Uncertain) \<and>
       ((100 \<le> m_created_at r \<and> m_created_at r < 100) \<or> (100 \<le> m_updated_at r \<and> m_updated_at r < 100))) ?rows = []"
    "filter (\<lambda>r. m_status r = Active \<and> sql_keeps (sql_lt (m_valid_until r) (Some 100))) ?rows = []"
    "filter (\<lambda>r. m_status r = Active \<and> m_kind r = Some Commitment \<and> m_created_at r < t \<and> m_updated_at r < t) ?rows = []" for t
    by (simp_all add: demo_flagged_def sample_pg_def sample_rows_def sample_row_def sql_lt_def sql_keeps_def)
  have d: "w_clock demo_flagged = 100" "w_faults demo_flagged = []" "t_dream_run (w_pg demo_flagged) = []"
    by (simp_all add: demo_flagged_def sample_world_def sample_pg_def)
  let ?w = "pop_fault (update_pg (\<lambda>d. d\<lparr>t_dream_run := t_dream_run d @
     [\<lparr>dr_id = w_uuids demo_flagged (w_drawn demo_flagged), dr_started_at = 100, dr_finished_at = None,
       dr_from = 100, dr_to = 100, dr_counts = None\<rparr>]\<rparr>) (demo_flagged\<lparr>w_drawn := Suc (w_drawn demo_flagged)\<rparr>))"
  have "w_faults ?w = []" by (simp add: pop_none d)
  then obtain n v where n: "clearSettledFlags ?w = (Inr n, v)" "w_faults v = []" using quiet_settle by blast
  show ?thesis
    by (simp add: dreaming_run_def start_run_def reconcile_pass_def staleness_pass_def dormant_pass_def
      listTouchedBetween_def listLapsedActive_def listQuietCommitments_def none d Let_def insert_run_def act_defs draw_uuid_def
      transaction_def next_fault_def blank_report_def)
     (simp add: n(1) quiet_end [OF n(2)])
qed

theorem open_flags_active_witness:
  "\<exists>report w'. dreaming_run sample_search sample_judge (Some 100) demo_flagged = (Inr report, w') \<and>
     (\<forall>f \<in> set (listOpenDormantFlags (w_pg w')). \<exists>r \<in> set (t_memory (w_pg w')).
        m_id r = df_memory f \<and> m_status r = Active)"
  using demo_run open_flags_active by blast

subsection \<open>The digest\<close>

lemma fold_lines_bound: "length (fold_lines hr ls) \<le> MAX_LINES"
  by (simp add: fold_lines_def MAX_LINES_def Let_def)

lemma no_rows_no_lines: "all_lines hr [] actions = []"
proof -
  have "seen_rows [] actions pass = []" for pass by (induction actions) (simp_all add: seen_rows_def List.map_filter_simps)
  then show ?thesis by (simp add: all_lines_def)
qed

theorem digest_bounded: "length (buildDigestLines prin actions hr d) \<le> 6"
  using fold_lines_bound by (simp add: buildDigestLines_def MAX_LINES_def)

theorem digest_gated:
  assumes "\<forall>a \<in> set actions. \<forall>r \<in> set (t_memory d). m_id r = da_memory a \<longrightarrow> \<not> visibleTo prin True r"
  shows "buildDigestLines prin actions hr d = []"
proof -
  have "getManyForPrincipal prin True (dedupe (map da_memory actions)) d = []"
    using assms by (auto simp: getManyForPrincipal_def filter_empty_conv)
  then show ?thesis by (simp add: buildDigestLines_def no_rows_no_lines fold_lines_def Let_def)
qed

end
