(* ===== verification/System_Invariant.thy ===== *)
theory System_Invariant
  imports Ingest_Laws Dreaming_Laws Approval_Laws
begin

text \<open>
  The memory tables under everything at once: the operations of the store and of the conflict
  resolution, the nightly run, and the jobs of ingestion, deletion and approvals as the queue
  delivers them, in any order, with any faults. Operations of other modules come in by what they
  leave alone.
\<close>

subsection \<open>Jobs keep the memory invariant\<close>

lemma keeps_consume: "mem_keeps (consumeIdempotencyKey k)"
proof (rule keeps_fromI)
  fix w
  have "mem_keeps_from (updates (\<lambda>w. update_pg (\<lambda>d. d\<lparr>t_job_execution := t_job_execution d @ [k]\<rparr>) w)) w"
    by (intro keepsD keeps_elsewhere) simp
  then show "mem_keeps_from (consumeIdempotencyKey k) w"
    by (auto simp: keeps_from_def wp_def updates_def consumeIdempotencyKey_def memory_move_refl)
qed

lemma keeps_insert_dead_letter: "mem_keeps (insert_dead_letter row)"
  unfolding insert_dead_letter_def by (intro mem.control mem.keeps_transaction keeps_elsewhere) simp

interpretation mem_jobs: delivery_contract memory_safe memory_move
  by unfold_locales (rule keeps_consume keeps_insert_dead_letter)+

lemma keeps_ad_execute:
  "def \<in> {buildBulkOutdateAction is_uuid, buildEmailReplyDraftAction} \<Longrightarrow> mem_keeps (ad_execute def ctx payload)"
  by (cases payload) (auto simp: buildBulkOutdateAction_def buildEmailReplyDraftAction_def
      intro!: mem.control keeps_bulkMarkOutdatedForOwner)

lemma keeps_update_approval: "mem_keeps (update_approval i f)"
  unfolding update_approval_def by (rule keeps_elsewhere) simp

lemma raise_bind: "bindA (raise e) f = raise e"
  by (rule ext) (simp add: bindA_def raise_def)

lemma keeps_approval_execute: "mem_keeps (approval_execute is_uuid i)"
proof -
  have perform: "mem_keeps (perform_action row def payload)"
    if "def \<in> {buildBulkOutdateAction is_uuid, buildEmailReplyDraftAction}" for row def payload
    unfolding perform_action_def Let_def
    by (intro mem.control keeps_ad_execute [OF that] keeps_update_approval keeps_writeAudit)
  have "mem_keeps (bindA (registry_get is_uuid ty) (\<lambda>def. case ad_schema def raw of
       None \<Rightarrow> raise (Failure ''approval has an invalid stored payload'') | Some payload \<Rightarrow> perform_action row def payload))"
    for ty raw row
    unfolding registry_get_def
    by (auto simp: ret_bind raise_bind intro!: mem.control perform split: option.split)
  then show ?thesis
    unfolding approval_execute_def by (auto intro!: mem.control split: option.split)
qed

lemma keeps_approval_job:
  "mem_keeps (idempotentTask describe jobType (approval_handler is_uuid) p attempts maxAttempts)"
proof (rule mem_jobs.keeps_delivery)
  show "mem_keeps (approval_handler is_uuid q)" for q
    unfolding approval_handler_def by (intro mem.control keeps_approval_execute)
  fix w after w'
  assume "approval_handler is_uuid p w = (Inr (Some after), w')"
  then obtain b v where "approval_execute is_uuid (j_source_id p) w = (Inr (b, Some after), v)"
    by (auto simp: approval_handler_def ret_def elim!: bindA_InrE)
  then show "mem_keeps after" using approval_execute_after keeps_syncStatusPayloads by metis
qed

lemma keeps_ingestion_job:
  "mem_keeps (idempotentTask describe jobType (ingestion_handler env caps (row_readers cols page email)) p attempts maxAttempts)"
proof (rule mem_jobs.keeps_delivery)
  show "mem_keeps (ingestion_handler env caps (row_readers cols page email) q)" for q
    unfolding ingestion_handler_def by (intro mem.control keeps_pipeline)
qed (auto simp: ingestion_handler_def ret_def elim!: thenA_InrE bindA_InrE)

lemma keeps_deletion_job:
  "mem_keeps (idempotentTask describe jobType (deletion_handler sha sign) p attempts maxAttempts)"
proof (rule mem_jobs.keeps_delivery)
  show "mem_keeps (deletion_handler sha sign q)" for q
    unfolding deletion_handler_def by (intro mem.control keeps_execute)
qed (auto simp: deletion_handler_def ret_def elim!: thenA_InrE)

subsection \<open>Histories\<close>

inductive memory_step :: "world \<Rightarrow> world \<Rightarrow> bool" where
  create: "createFromFact prin nf w = (r, w') \<Longrightarrow> memory_step w w'"
| edit: "editContent prin i content w = (r, w') \<Longrightarrow> memory_step w w'"
| replace: "supersede actor i nf w = (r, w') \<Longrightarrow> memory_step w w'"
| status: "transition actor i to w = (r, w') \<Longrightarrow> memory_step w w'"
| sensitive: "toggleSensitive prin i b w = (r, w') \<Longrightarrow> memory_step w w'"
| scope: "setScope prin i sc w = (r, w') \<Longrightarrow> memory_step w w'"
| reject: "rejectUncertain prin i w = (r, w') \<Longrightarrow> memory_step w w'"
| resolve: "resolveContradiction prin i choice w = (r, w') \<Longrightarrow> memory_step w w'"
| dream: "dreaming_run env J scopeFrom w = (r, w') \<Longrightarrow> memory_step w w'"
| erase: "requestSourceDeletion in_flight prin raw_type i w = (r, w') \<Longrightarrow> memory_step w w'"
| ingest: "idempotentTask describe INGESTION_PIPELINE_JOB_TYPE
      (ingestion_handler ienv caps (row_readers cols page email)) p attempts maxAttempts w = (r, w') \<Longrightarrow> memory_step w w'"
| settle: "idempotentTask describe DELETION_JOB_TYPE (deletion_handler sha sign) p attempts maxAttempts w = (r, w') \<Longrightarrow>
    memory_step w w'"
| approve: "idempotentTask describe APPROVAL_EXECUTE_JOB_TYPE (approval_handler is_uuid) p attempts maxAttempts w = (r, w') \<Longrightarrow>
    memory_step w w'"
| elsewhere: "t_memory (w_pg w') = t_memory (w_pg w) \<Longrightarrow> t_relation (w_pg w') = t_relation (w_pg w) \<Longrightarrow>
    w_uuids w' = w_uuids w \<Longrightarrow> w_drawn w \<le> w_drawn w' \<Longrightarrow> memory_step w w'"

lemma run_keeps_memory: "mem_keeps m \<Longrightarrow> memory_safe w \<Longrightarrow> m w = (r, w') \<Longrightarrow> memory_safe w' \<and> memory_move w w'"
  by (rule keeps_run)

lemmas every_operation = keeps_createFromFact keeps_editContent keeps_supersede keeps_transition
  keeps_toggleSensitive keeps_setScope keeps_rejectUncertain keeps_resolveContradiction keeps_dreaming_run
  erase_mem.keeps_requestSourceDeletion keeps_ingestion_job keeps_deletion_job keeps_approval_job

lemma memory_step_keeps:
  assumes "memory_step w w'" and safe: "memory_safe w"
  shows "memory_safe w' \<and> memory_move w w'"
  using assms(1)
proof cases
  case elsewhere
  then have "ids_drawn w'"
    using safe by (force simp: memory_safe_def ids_drawn_def memory_ids_def)
  with elsewhere safe show ?thesis
    using memory_move_refl [OF safe]
    by (auto simp: memory_safe_def memory_move_def relations_ok_def memory_ids_def)
qed ((rule run_keeps_memory, rule every_operation, rule safe, assumption)+)

lemma memory_steps_keep:
  assumes "memory_step\<^sup>*\<^sup>* w w'" and "memory_safe w"
  shows "memory_safe w' \<and> memory_move w w'"
  using assms
proof (induction rule: rtranclp_induct)
  case (step v w')
  then show ?case using memory_step_keeps [of v w'] mem.move_trans [of w v w'] by simp
qed (simp add: mem.move_refl)

text \<open>
  C3. Over every history of memory operations, conflict resolutions, nightly runs and
  deliveries of ingestion, deletion and approval jobs, with any faults, the memory table stays
  well formed (unique ids, a forest of supersession pointers to stored rows, only replaced
  rows pointing on), relations stay well formed, what a fact says is never rewritten and a
  replaced memory stays replaced.
\<close>

theorem memory_tables_sound:
  assumes "memory_safe w" and "memory_step\<^sup>*\<^sup>* w w'"
  shows "rows_ok (t_memory (w_pg w')) \<and> relations_ok (w_pg w') \<and>
    (\<forall>r \<in> set (t_memory (w_pg w)). \<forall>r' \<in> set (t_memory (w_pg w')). m_id r' = m_id r \<longrightarrow> row_move r r')"
  using memory_steps_keep [OF assms(2,1)] by (simp add: memory_safe_def memory_move_def rows_move_def)

theorem memory_tables_sound_witness:
  "rows_ok (t_memory (w_pg (snd (rejectUncertain sample_principal (sample_id 3)
     (snd (dreaming_run sample_search sample_judge None sample_world))))))"
proof -
  have "memory_step sample_world (snd (dreaming_run sample_search sample_judge None sample_world))"
    by (rule memory_step.dream [OF surjective_pairing])
  moreover have "memory_step (snd (dreaming_run sample_search sample_judge None sample_world))
      (snd (rejectUncertain sample_principal (sample_id 3) (snd (dreaming_run sample_search sample_judge None sample_world))))"
    by (rule memory_step.reject [OF surjective_pairing])
  ultimately show ?thesis using memory_tables_sound [OF sample_safe] by (meson rtranclp.rtrancl_into_rtrancl rtranclp.rtrancl_refl)
qed

end
