(* ===== verification/Relation_Frame.thy ===== *)
theory Relation_Frame
  imports System_Invariant
begin

text \<open>
  A contradiction over the history of an instance. Every operation of the memory module and every
  job that reconciles keeps the relations' ids unique and drawn, and never changes a relation that
  is resolved: it stays as it is until it is deleted with one of its memories, and its id does
  not come back.
\<close>

subsection \<open>Resolved relations do not change\<close>

definition relation_at :: "world \<Rightarrow> uuid \<Rightarrow> relation_row option" where
  "relation_at w i = find (\<lambda>q. rel_id q = i) (t_relation (w_pg w))"

definition relation_ids :: "world \<Rightarrow> uuid set" where
  "relation_ids w = rel_id ` set (t_relation (w_pg w))"

definition rels_ok :: "world \<Rightarrow> bool" where
  "rels_ok w \<longleftrightarrow> inj (w_uuids w) \<and> distinct (map rel_id (t_relation (w_pg w))) \<and>
     relation_ids w \<subseteq> w_uuids w ` {..<w_drawn w}"

definition rels_move :: "world \<Rightarrow> world \<Rightarrow> bool" where
  "rels_move w w' \<longleftrightarrow> ids_forward w w' \<and>
     relation_ids w' \<subseteq> relation_ids w \<union> w_uuids w ` {w_drawn w..<w_drawn w'} \<and>
     (\<forall>q \<in> set (t_relation (w_pg w)). \<forall>q' \<in> set (t_relation (w_pg w')).
        rel_resolved_at q \<noteq> None \<longrightarrow> rel_id q' = rel_id q \<longrightarrow> q' = q)"

lemma relation_at_Some:
  "rels_ok w \<Longrightarrow> relation_at w i = Some q \<longleftrightarrow> q \<in> set (t_relation (w_pg w)) \<and> rel_id q = i"
  using find_key_unique [of rel_id "t_relation (w_pg w)" q]
  by (auto simp: rels_ok_def relation_at_def find_Some_iff)

lemma rels_same_move:
  assumes ok: "rels_ok w" and rows: "t_relation (w_pg w') = t_relation (w_pg w)" and "ids_forward w w'"
  shows "rels_ok w' \<and> rels_move w w'"
proof -
  have "w_uuids w' = w_uuids w" "w_drawn w \<le> w_drawn w'" using assms(3) by (simp_all add: ids_forward_def)
  moreover have "relation_ids w' = relation_ids w" by (simp add: relation_ids_def rows)
  moreover have "w_uuids w ` {..<w_drawn w} \<subseteq> w_uuids w ` {..<w_drawn w'}"
    using calculation(2) by (intro image_mono) auto
  moreover have "distinct (map rel_id (t_relation (w_pg w)))" "inj (w_uuids w)" "relation_ids w \<subseteq> w_uuids w ` {..<w_drawn w}"
    using ok by (simp_all add: rels_ok_def)
  moreover have "q' = q" if "q \<in> set (t_relation (w_pg w))" "q' \<in> set (t_relation (w_pg w))" "rel_id q' = rel_id q" for q q'
    using distinct_key_eq [OF calculation(5) that(2,1,3)] .
  ultimately show ?thesis using assms(3) unfolding rels_ok_def rels_move_def rows by auto
qed

lemma rels_move_trans:
  assumes s: "rels_ok s" and st: "rels_move s t" and tu: "rels_move t u"
  shows "rels_move s u"
proof -
  have sup: "w_uuids t = w_uuids s" "w_uuids u = w_uuids s" "w_drawn s \<le> w_drawn t" "w_drawn t \<le> w_drawn u"
    using st tu by (auto simp: rels_move_def ids_forward_def)
  have "q' = q" if q: "q \<in> set (t_relation (w_pg s))" "q' \<in> set (t_relation (w_pg u))" "rel_resolved_at q \<noteq> None"
    "rel_id q' = rel_id q" for q q'
  proof (cases "rel_id q \<in> relation_ids t")
    case True
    then obtain m where m: "m \<in> set (t_relation (w_pg t))" "rel_id m = rel_id q" by (auto simp: relation_ids_def)
    then have "m = q" using st q by (auto simp: rels_move_def)
    with tu q m show ?thesis by (auto simp: rels_move_def)
  next
    case False
    have "rel_id q' \<in> relation_ids u" using q(2) by (simp add: relation_ids_def)
    with tu False q(4) have "rel_id q \<in> w_uuids t ` {w_drawn t..<w_drawn u}" by (auto simp: rels_move_def)
    then obtain j where j: "rel_id q = w_uuids s j" "w_drawn t \<le> j" using sup(1) by auto
    have "rel_id q \<in> relation_ids s" using q(1) by (simp add: relation_ids_def)
    then obtain k where k: "rel_id q = w_uuids s k" "k < w_drawn s" using s by (auto simp: rels_ok_def)
    from j k s have "j = k" by (auto simp: rels_ok_def dest: injD)
    with j k sup show ?thesis by simp
  qed
  moreover have "relation_ids u \<subseteq> relation_ids s \<union> w_uuids s ` {w_drawn s..<w_drawn u}"
    using st tu sup unfolding rels_move_def by fastforce
  ultimately show ?thesis using sup by (auto simp: rels_move_def ids_forward_def)
qed

interpretation res: pg_evolution rels_ok rels_move
proof unfold_locales
  fix s t u
  assume "rels_ok s" "rels_move s t" "rels_move t u"
  then show "rels_move s u" by (rule rels_move_trans)
next
  fix w w'
  assume "rels_ok w" "outside_pg w w'"
  then show "rels_ok w' \<and> rels_move w w'" by (intro rels_same_move) (auto simp: outside_pg_def ids_forward_def)
next
  fix w
  assume "rels_ok w"
  then show "rels_move w w" using rels_same_move [of w w] by (simp add: ids_forward_def)
qed (simp_all add: rels_move_def ids_forward_def)

abbreviation fixes_rels :: "'a op \<Rightarrow> bool" where
  "fixes_rels m \<equiv> keeps rels_ok rels_move m"

lemma fixes_frame: "(\<And>R. rels R m) \<Longrightarrow> fixes_rels m"
proof (rule keeps_fromI)
  fix w
  assume m: "\<And>R. rels R m"
  obtain r w' where run: "m w = (r, w')" by fastforce
  from keeps_run [OF m _ run, of "t_relation (w_pg w)"]
  have "t_relation (w_pg w') = t_relation (w_pg w)" "ids_forward w w'" by (simp_all add: relations_are_def)
  with run show "keeps_from rels_ok rels_move m w"
    using rels_same_move [of w w'] by (simp add: keeps_from_def wp_def)
qed

lemma rels_update_pg: "(\<And>d. t_relation (f d) = t_relation d) \<Longrightarrow> rels R (updates (update_pg f))"
  by (auto simp: keeps_def keeps_from_def wp_simps relations_are_def ids_forward_def)

lemma fixes_update_pg: "(\<And>d. t_relation (f d) = t_relation d) \<Longrightarrow> fixes_rels (updates (update_pg f))"
  by (rule fixes_frame) (rule rels_update_pg)

lemma fixes_update_world: "(\<And>w. t_relation (f w (w_pg w)) = t_relation (w_pg w)) \<Longrightarrow> fixes_rels (updates (\<lambda>w. update_pg (f w) w))"
  by (rule fixes_frame) (auto simp: keeps_def keeps_from_def wp_simps relations_are_def ids_forward_def)

lemma fixes_silent: "silent m \<Longrightarrow> fixes_rels m"
  by (rule keeps_fromI, rule res.from_outside) (auto simp: silent_def outside_pg_def)

subsection \<open>The two statements that write relations\<close>

text \<open>A new relation has an id just drawn; a resolution is written to a relation that was open.\<close>

lemma fixes_insert_new_relation:
  assumes "\<And>i. rel_id (mk i) = i" and "\<And>a. fixes_rels (f a)"
  shows "fixes_rels (bindA draw_uuid (\<lambda>i. bindA (insert_relation (mk i)) f))"
proof (rule keeps_fromI)
  fix w :: world
  let ?i = "w_uuids w (w_drawn w)" and ?w = "w\<lparr>w_drawn := Suc (w_drawn w)\<rparr>"
  have "keeps_from rels_ok rels_move (\<lambda>w. insert_relation (mk ?i) (w\<lparr>w_drawn := Suc (w_drawn w)\<rparr>)) w"
  proof (cases "rels_ok w")
    case ok: True
    obtain r w' where run: "insert_relation (mk ?i) ?w = (r, w')" by fastforce
    have "rels_ok w' \<and> rels_move w w'"
    proof (cases "w' = ?w")
      case True
      with rels_same_move [OF ok, of w'] show ?thesis by (simp add: ids_forward_def)
    next
      case False
      then have w': "w' = update_pg (\<lambda>d. d\<lparr>t_relation := t_relation d @ [mk ?i]\<rparr>) ?w"
        using run by (auto simp: insert_relation_def Let_def split: if_splits)
      have new: "?i \<notin> relation_ids w" using ok by (auto simp: rels_ok_def dest: injD)
      have rows: "t_relation (w_pg w') = t_relation (w_pg w) @ [mk ?i]" by (simp add: w')
      have "w_uuids w' = w_uuids w" "w_drawn w' = Suc (w_drawn w)" by (simp_all add: w')
      moreover have "relation_ids w' = insert ?i (relation_ids w)" by (simp add: relation_ids_def rows assms(1))
      moreover have "q' = q" if "q \<in> set (t_relation (w_pg w))" "q' \<in> set (t_relation (w_pg w'))" "rel_id q' = rel_id q" for q q'
        using that ok new assms(1) by (auto simp: rows rels_ok_def relation_ids_def dest: distinct_key_eq)
      ultimately show ?thesis
        using ok new assms(1)
        by (auto simp: rels_ok_def rels_move_def ids_forward_def rows relation_ids_def less_Suc_eq)
    qed
    with run show ?thesis by (simp add: keeps_from_def wp_def)
  qed (simp add: keeps_from_def)
  from res.from_bind [OF this keepsD [OF assms(2)]]
  show "keeps_from rels_ok rels_move (bindA draw_uuid (\<lambda>i. bindA (insert_relation (mk i)) f)) w"
    by (simp add: keeps_from_def wp_def bindA_def draw_uuid_def)
qed

lemma fixes_resolve_relation:
  assumes "relation_at w i = Some q" and "rel_resolved_at q = None"
  shows "keeps_from rels_ok rels_move (resolve_relation i t x) w"
proof (cases "rels_ok w")
  case ok: True
  let ?f = "\<lambda>q. q\<lparr>rel_resolved_at := Some t, rel_resolution := Some x\<rparr>"
  let ?w = "update_pg (\<lambda>d. d\<lparr>t_relation := update_where (\<lambda>q. rel_id q = i) ?f (t_relation d)\<rparr>) w"
  have ids: "map rel_id (t_relation (w_pg ?w)) = map rel_id (t_relation (w_pg w))"
    by (simp add: update_where_def)
  then have "relation_ids ?w = relation_ids w" unfolding relation_ids_def by (metis set_map)
  moreover have "q1 = q0" if "q0 \<in> set (t_relation (w_pg w))" "q1 \<in> set (t_relation (w_pg ?w))"
    "rel_resolved_at q0 \<noteq> None" "rel_id q1 = rel_id q0" for q0 q1
  proof -
    from that(2) obtain p where p: "p \<in> set (t_relation (w_pg w))" "q1 = (if rel_id p = i then ?f p else p)"
      by (auto simp: update_where_def)
    then have "rel_id p = rel_id q0" using that(4) by (auto split: if_splits)
    then have "p = q0" using ok p(1) that(1) by (auto simp: rels_ok_def dest: distinct_key_eq)
    moreover have "rel_id q0 \<noteq> i"
      using assms that(1,3) relation_at_Some [OF ok, of i q0] by auto
    ultimately show ?thesis using p(2) by simp
  qed
  ultimately have "rels_ok ?w \<and> rels_move w ?w"
    using ok ids by (auto simp: rels_ok_def rels_move_def ids_forward_def)
  then show ?thesis by (simp add: keeps_from_def wp_simps resolve_relation_def)
qed (simp add: keeps_from_def)

lemma fixes_cascade_relations: "fixes_rels (updates (update_pg (cascade_relations ids)))"
proof (rule keeps_fromI)
  fix w :: world
  let ?w = "update_pg (cascade_relations ids) w"
  have rows: "t_relation (w_pg ?w) = filter (\<lambda>q. \<not> (rel_a q \<in> set ids \<or> rel_b q \<in> set ids)) (t_relation (w_pg w))"
    by (simp add: delete_where_def)
  have "rels_ok ?w \<and> rels_move w ?w" if ok: "rels_ok w"
  proof -
    have d: "distinct (map rel_id (t_relation (w_pg w)))" using ok by (simp add: rels_ok_def)
    have "relation_ids ?w \<subseteq> relation_ids w" unfolding relation_ids_def rows by auto
    moreover have "distinct (map rel_id (t_relation (w_pg ?w)))" unfolding rows using d by (simp add: distinct_map_filter)
    moreover have "q' = q" if "q \<in> set (t_relation (w_pg w))" "q' \<in> set (t_relation (w_pg ?w))" "rel_id q' = rel_id q" for q q'
      using that distinct_key_eq [OF d, of q' q] unfolding rows by simp
    ultimately show ?thesis using ok by (auto simp: rels_ok_def rels_move_def ids_forward_def)
  qed
  then show "keeps_from rels_ok rels_move (updates (update_pg (cascade_relations ids))) w"
    by (simp add: keeps_from_def wp_simps)
qed

subsection \<open>The memory store\<close>

lemmas fixes_ops = res.control res.outside_ops res.keeps_transaction fixes_frame [OF rels_writeAudit]
  fixes_frame [OF rels_enqueue] fixes_frame [OF rels_write_memory] fixes_frame [OF rels_update(1)] fixes_frame [OF rels_update(2)]
  fixes_frame [OF rels_insert_memory] fixes_frame [OF rels_lockRow] fixes_frame [OF rels_transitionInTx]
  fixes_frame [OF rels_editContentInTx] fixes_frame [OF rels_closeAndPoint] fixes_frame [OF rels_restore]
  fixes_frame [OF rels_resolve_by]

lemma fixes_insertFact: "fixes_rels (insertFact owner nf actor)"
  unfolding insertFact_def insert_new_def by (intro fixes_ops)

lemma fixes_select: "fixes_rels (select_memory i)"
  unfolding select_memory_def by (rule res.keeps_reads)

lemma fixes_supersedeInTx: "fixes_rels (supersedeInTx actor i nf)"
  unfolding supersedeInTx_def supersedeCore_def Let_def by (intro fixes_ops fixes_insertFact)

lemma fixes_delete_memories: "fixes_rels (delete_memories ids)"
  unfolding delete_memories_def by (intro fixes_ops fixes_cascade_relations)

lemma fixes_rejectUncertain: "fixes_rels (rejectUncertain prin i)"
  unfolding rejectUncertain_def
  by (intro res.keeps_transaction res.keeps_bind [OF fixes_select])
    (auto split: option.split intro!: fixes_ops fixes_delete_memories)

lemma fixes_store:
  "fixes_rels (createFromFact prin nf)" "fixes_rels (editContent prin i content)" "fixes_rels (supersede actor i nf)"
  "fixes_rels (transition actor i to)" "fixes_rels (toggleSensitive prin i b)" "fixes_rels (setScope prin i sc)"
  unfolding createFromFact_def editContent_def supersede_def transition_def toggleSensitive_def setScope_def
  by (intro fixes_ops fixes_insertFact fixes_supersedeInTx)+

subsection \<open>Reconciliation\<close>

lemma fixes_lockPair: "fixes_rels (lockPair x y)"
  unfolding lockPair_def by (auto split: list.split intro!: fixes_ops)

lemma fixes_mergeSameFact: "fixes_rels (mergeSameFact x y content)"
proof -
  have "fixes_rels (finish_merge l s b)" for l s b
    unfolding finish_merge_def by (intro fixes_ops)
  then have "fixes_rels (merge_into s l c)" for s l c
    unfolding merge_into_def by (intro fixes_ops fixes_supersedeInTx)
  then show ?thesis
    unfolding mergeSameFact_def Let_def
    by (intro res.keeps_bind [OF fixes_lockPair]) (auto split: merge_decision.split intro!: fixes_ops)
qed

lemma fixes_createContradiction: "fixes_rels (createContradiction x y reason)"
proof -
  have "fixes_rels (mark_contradicted row)" for row
    unfolding mark_contradicted_def by (intro fixes_ops)
  then show ?thesis
    unfolding createContradiction_def Let_def
    by (intro res.keeps_bind [OF fixes_lockPair] res.keeps_if res.keeps_ret res.keeps_bind [OF res.keeps_reads]
        fixes_insert_new_relation) (auto split: option.split intro!: fixes_ops)
qed

lemma fixes_applySupersession: "fixes_rels (applySupersession x y)"
  unfolding applySupersession_def Let_def
  by (intro res.keeps_bind [OF fixes_lockPair]) (auto intro!: fixes_ops)

lemma fixes_resolveContradiction: "fixes_rels (resolveContradiction prin i action)"
proof -
  have pair: "keeps_from rels_ok rels_move (resolve_pair prin q action pair) w"
    if q: "relation_at w (rel_id q) = Some q" "rel_resolved_at q = None" for q pair w
  proof -
    have at': "relation_at v (rel_id q) = Some q"
      if "resolve_by prin ra rb q action w = (Inr x, v)" for ra rb x v
      using rels_run [OF rels_resolve_by that] q by (simp add: relation_at_def)
    show ?thesis
      unfolding resolve_pair_def Let_def
    proof (split if_split, intro conjI impI res.from_raise res.from_bind [OF keepsD [OF fixes_frame [OF rels_resolve_by]]])
      fix x v
      assume "resolve_by prin (pick (rel_a q) pair) (pick (rel_b q) pair) q action w = (Inr x, v)"
      from at' [OF this] show "keeps_from rels_ok rels_move (bindA (reads w_clock) (\<lambda>now.
          thenA (resolve_relation (rel_id q) now x)
           (thenA (writeAudit \<lparr>a_actor = actorLabel (User (p_user_id prin)),
                     a_action = ''memory.contradiction_resolved'',
                     a_entity_type = ''memory_relation'', a_entity_id = rel_id q,
                     a_detail = JObj [(''resolution'', JStr (resolution_text x)),
                       (''a'', JStr (m_id (pick (rel_a q) pair))), (''b'', JStr (m_id (pick (rel_b q) pair)))],
                     a_org_id = Some (p_org_id prin), a_owner_id = Some (p_user_id prin)\<rparr>)
             (ret (q\<lparr>rel_resolved_at := Some now, rel_resolution := Some x\<rparr>, False))))) v"
        unfolding keeps_from_reads
        by (intro res.from_then [OF fixes_resolve_relation [OF _ q(2)]] keepsD fixes_ops)
    qed
  qed
  have "keeps_from rels_ok rels_move (bindA (lockPair (rel_a q) (rel_b q)) (resolve_pair prin q action)) w"
    if "relation_at w (rel_id q) = Some q" "rel_resolved_at q = None" for q w
  proof (rule res.from_bind [OF keepsD [OF fixes_lockPair]])
    fix pair v
    assume "lockPair (rel_a q) (rel_b q) w = (Inr pair, v)"
    then have "v = w" by (auto simp: lockPair_def act_defs split: if_splits list.splits)
    with that show "keeps_from rels_ok rels_move (resolve_pair prin q action pair) v" by (simp add: pair)
  qed
  then show ?thesis
    unfolding resolveContradiction_def
    by (intro keeps_fromI res.from_transaction)
      (auto simp: relation_at_def find_Some_iff split: option.split intro!: res.from_raise res.from_ret)
qed

end
