(* ===== verification/Resolution_History.thy ===== *)
theory Resolution_History
  imports Relation_Frame
begin

text \<open>
  A resolved contradiction over the history of an instance: whatever runs afterwards (the
  operations of the memory module, the nightly run, deliveries of ingestion, deletion and
  approval jobs, with any faults), a later request finds the same resolution and changes nothing,
  until the contradiction is deleted with one of its memories.
\<close>

subsection \<open>Jobs keep what is resolved\<close>

lemma fixes_elsewhere:
  assumes "\<And>w r w'. m w = (r, w') \<Longrightarrow> t_relation (w_pg w') = t_relation (w_pg w) \<and> w_uuids w' = w_uuids w \<and> w_drawn w \<le> w_drawn w'"
  shows "fixes_rels m"
proof (rule fixes_frame)
  show "rels R m" for R
    unfolding keeps_def keeps_from_def wp_def
  proof (intro allI impI)
    fix w
    assume "relations_are R w"
    then show "case m w of (r, w') \<Rightarrow> relations_are R w' \<and> ids_forward w w'"
      using assms [of w] by (auto simp: relations_are_def ids_forward_def split: prod.split)
  qed
qed

lemma fixes_tx: "(\<And>d. t_relation (f d) = t_relation d) \<Longrightarrow> fixes_rels (transaction (updates (update_pg f)))"
  by (intro res.keeps_transaction fixes_update_pg)

lemma fixes_vectorSearch: "fixes_rels (vectorSearch search prin e opts)"
  unfolding vectorSearch_def by (intro res.control res.outside_ops res.keeps_external) simp

lemma fixes_judge: "fixes_rels (judgeDedup J a b)" "fixes_rels (judgeContradiction J a b)"
  unfolding judgeDedup_def judgeContradiction_def by (auto intro!: res.control split: option.split)

lemma fixes_dedup_loop: "fixes_rels (dedup_loop J view fact' cs dj s)"
  by (induction cs arbitrary: dj s) (auto simp: Let_def intro!: res.control fixes_judge fixes_mergeSameFact)

lemma fixes_settle_pair: "fixes_rels (settle_pair v fact' other s)"
  unfolding settle_pair_def try_supersession_def raise_contradiction_def Let_def
  by (auto intro!: res.control fixes_applySupersession fixes_createContradiction
      split: option.split contradiction_word.split)

lemma fixes_contradiction_loop: "fixes_rels (contradiction_loop J view fact' cs s)"
  by (induction cs arbitrary: s) (auto simp: Let_def intro!: res.control fixes_judge fixes_settle_pair)

lemma fixes_reconcile: "fixes_rels (reconcile env J d items)"
proof -
  have "fixes_rels (reconcile_fact env J d s item)" for s item
    unfolding reconcile_fact_def Let_def loadSpans_def gatherCandidates_def
    by (auto intro!: res.control fixes_vectorSearch fixes_dedup_loop fixes_contradiction_loop split: prod.split)
  then show ?thesis unfolding reconcile_def by (intro res.keeps_fold_each)
qed

lemma fixes_insert_verification: "fixes_rels (insert_verification v)"
  unfolding insert_verification_def by (rule fixes_update_pg) simp

lemma fixes_upsertVectors: "fixes_rels (upsertVectors rows es)"
  unfolding upsertVectors_def by (intro fixes_ops)

lemma fixes_store_and_reconcile: "fixes_rels (store_and_reconcile env d p source verified s)"
proof -
  have "fixes_rels (admit_fact env source acc item)" for acc item
    unfolding admit_fact_def admitExtractedFact_def Let_def
    by (intro res.control fixes_silent silent_timestamp fixes_insertFact fixes_insert_verification)
  then have "fixes_rels (embed_store env source verified)"
    unfolding embed_store_def by (auto intro!: res.control fixes_upsertVectors split: option.split)
  moreover have "fixes_rels (enqueue_followers p source admitted)" for admitted
    unfolding enqueue_followers_def by (auto intro!: fixes_ops split: option.split)
  ultimately show ?thesis unfolding store_and_reconcile_def by (intro res.control fixes_reconcile)
qed

lemma fixes_row_exists: "fixes_rels (row_exists st i)"
  unfolding row_exists_def by (rule res.keeps_reads)

lemma fixes_pipeline: "fixes_rels (pipeline_run env caps (row_readers cols page email) d p)"
proof -
  have "fixes_rels (admit_source env d rd p source verified s)"
    if "rd \<in> set (row_readers cols page email)" for rd source verified s
    using that unfolding admit_source_def abort_admission_def
    by (auto simp: reader_rows(2) intro!: fixes_ops fixes_row_exists fixes_store_and_reconcile)
  then show ?thesis
    unfolding pipeline_run_def Let_def
    by (auto intro!: res.control fixes_silent [OF reader_rows(1)] fixes_silent [OF silent_extract]
        fixes_silent [OF silent_verify] split: option.split dest!: find_SomeD)
qed

lemma fixes_dreaming_run: "fixes_rels (dreaming_run env J scopeFrom)"
proof -
  have log: "fixes_rels (log_action i pass m rel q)" for i pass m rel q
    unfolding log_action_def insert_action_def by (intro res.control fixes_update_pg) simp
  then have "fixes_rels (record_reconcile_action i a)" for i a
    by (cases "ar_result a") (simp_all add: res.control)
  then have "fixes_rels (owner_batch env J i items)" for i items
    unfolding owner_batch_def recordReconcileActions_def by (intro res.control res.keeps_transaction fixes_reconcile)
  then have "fixes_rels (dream_owner env J touched r owner)" for touched r owner
    unfolding dream_owner_def retrieveEmbeddings_def Let_def
    by (intro res.control res.outside_ops res.keeps_external) simp_all
  then have pass: "fixes_rels (reconcile_pass env J r)" for r
    unfolding reconcile_pass_def by (intro res.control)
  have outdate: "fixes_rels (staleness_pass r)" for r
    unfolding staleness_pass_def outdate_row_def by (intro res.control res.keeps_transaction fixes_store log)
  have "fixes_rels (insert_flag f)" for f
    unfolding insert_flag_def by (intro res.control fixes_update_pg) simp
  then have "fixes_rels (flag_row r row)" for r row
    unfolding flag_row_def new_flag_def by (intro res.control res.outside_ops res.keeps_transaction log)
  then have dormant: "fixes_rels (dormant_pass r)" for r
    unfolding dormant_pass_def by (intro res.control)
  have clear: "fixes_rels clearSettledFlags"
    unfolding clearSettledFlags_def clear_unless_active_def clear_flag_def by (intro res.control fixes_tx) simp
  have start: "fixes_rels (start_run scopeFrom)"
    unfolding start_run_def insert_run_def
    by (intro res.control res.outside_ops res.keeps_transaction fixes_update_pg)
      (auto intro!: res.control split: option.split)
  have fill: "fixes_rels (enqueue_backfill i)" for i
    unfolding enqueue_backfill_def by (intro fixes_ops)
  have "fixes_rels (finish_run r)" for r
    unfolding finish_run_def by (intro fixes_ops fixes_update_pg) simp
  with pass outdate dormant clear start fill show ?thesis
    unfolding dreaming_run_def Let_def by (intro res.control)
qed

subsection \<open>Erasures and deliveries keep what is resolved\<close>

lemma fixes_cancelPending: "fixes_rels (cancelPending in_flight st i b)"
proof -
  have "fixes_rels (consumeIdempotencyKey key)" for key
    by (rule fixes_elsewhere) (auto simp: consumeIdempotencyKey_def split: if_splits)
  then show ?thesis unfolding cancelPending_def Let_def by (intro res.control)
qed

lemma fixes_delete_file_row: "fixes_rels (delete_file_row key)"
  unfolding delete_file_row_def by (rule fixes_update_pg) simp

lemma fixes_run_cascade:
  assumes c: "c \<in> set DERIVED_CASCADES"
  shows "fixes_rels (run_cascade st i ids totals c)"
proof -
  have step: "fixes_rels (\<lambda>w. let (n, d) = g (w_pg w) in (Inr n, update_pg (\<lambda>_. d) w))"
    if "\<And>d. t_memory (snd (g d)) = t_memory d \<and> t_relation (snd (g d)) = t_relation d" for g :: "pg \<Rightarrow> nat \<times> pg"
  proof (rule fixes_elsewhere)
    fix w r w'
    assume "(let (n, d) = g (w_pg w) in (Inr n, update_pg (\<lambda>_. d) w)) = (r, w')"
    then show "t_relation (w_pg w') = t_relation (w_pg w) \<and> w_uuids w' = w_uuids w \<and> w_drawn w \<le> w_drawn w'"
      using that [of "w_pg w"] by (auto simp: Let_def split: prod.splits)
  qed
  show ?thesis
    unfolding run_cascade_def Let_def
    by (rule res.keeps_bind [OF step [unfolded Let_def]])
      (use cascade_elsewhere [OF c] in \<open>auto split: option.splits intro!: res.control step [unfolded Let_def]\<close>)
qed

lemma fixes_delete_rows: "fixes_rels (delete_rows ids)"
proof -
  have "fixes_rels (null_pointers ids)"
    by (rule fixes_elsewhere) (auto simp: null_pointers_def write_memory_def Let_def act_defs split: if_splits)
  then show ?thesis unfolding delete_rows_def by (intro res.control fixes_delete_memories)
qed

lemma fixes_lift: "fixes_rels (liftContradictionsBeforeDeletion ids org)"
proof -
  have "fixes_rels (lift_one ids org n q)" for n q
    unfolding lift_one_def Let_def select_memory_def by (auto split: option.splits prod.splits intro!: fixes_ops)
  then show ?thesis unfolding liftContradictionsBeforeDeletion_def by (intro res.control)
qed

lemma fixes_cascadeFile: "fixes_rels (cascadeFileSubSource in_flight prin acc key)"
  unfolding cascadeFileSubSource_def
  by (auto split: option.splits intro!: res.control fixes_cancelPending fixes_delete_file_row)

lemma fixes_remove_source:
  assumes "bound_adapter r"
  shows "fixes_rels (remove_source st i r keys)"
proof -
  have "fixes_rels (updates (update_pg (port_delete a i)))" if "rs_adapter r = Some a" for a
    using assms that port_delete_elsewhere [of a]
    by (intro fixes_update_pg) (auto simp: bound_adapter_def same_elsewhere_def)
  then show ?thesis
    unfolding remove_source_def Let_def by (auto split: option.splits intro!: res.control fixes_delete_file_row)
qed

lemma fixes_finish_request: "fixes_rels (finish_request prin st i counts n ing)"
proof -
  have "fixes_rels (\<lambda>w. if j \<in> r_id ` set (t_receipt (w_pg w)) then (Inl UniqueViolation, w)
      else (Inr j, update_pg (\<lambda>d. d\<lparr>t_receipt := t_receipt d @ [q]\<rparr>) w))" for j q
    by (rule fixes_elsewhere) (auto split: if_splits)
  then show ?thesis unfolding finish_request_def insert_receipt_def by (intro fixes_ops)
qed

interpretation res_erasure: erasure_contract rels_ok rels_move
  by unfold_locales (rule fixes_lift fixes_run_cascade fixes_delete_rows fixes_remove_source
    fixes_finish_request fixes_cancelPending fixes_cascadeFile; assumption?)+

interpretation res_jobs: delivery_contract rels_ok rels_move
proof unfold_locales
  show "fixes_rels (consumeIdempotencyKey k)" for k
    by (rule fixes_elsewhere) (auto simp: consumeIdempotencyKey_def split: if_splits)
  show "fixes_rels (insert_dead_letter row)" for row
    unfolding insert_dead_letter_def by (intro res.control fixes_tx) simp
qed

lemma fixes_ingestion_job:
  "fixes_rels (idempotentTask describe jobType (ingestion_handler env caps (row_readers cols page email)) p attempts maxAttempts)"
proof (rule res_jobs.keeps_delivery)
  show "fixes_rels (ingestion_handler env caps (row_readers cols page email) q)" for q
    unfolding ingestion_handler_def by (intro res.control fixes_pipeline)
qed (auto simp: ingestion_handler_def ret_def elim!: thenA_InrE bindA_InrE)

lemma fixes_execute: "fixes_rels (execute sha sign i)"
proof -
  have "fixes_rels (deleteObject key)" for key
    unfolding deleteObject_def by (rule res.keeps_external) (simp add: outside_pg_def)
  moreover have "fixes_rels chainTip"
    unfolding chainTip_def by (auto split: list.splits intro!: res.control)
  moreover have "fixes_rels (confirm_row j p h s n)" for j p h s n
    unfolding confirm_row_def by (rule fixes_update_pg) simp
  ultimately show ?thesis
    unfolding execute_def Let_def by (auto split: option.splits intro!: fixes_ops)
qed

lemma fixes_deletion_job:
  "fixes_rels (idempotentTask describe jobType (deletion_handler sha sign) p attempts maxAttempts)"
proof (rule res_jobs.keeps_delivery)
  show "fixes_rels (deletion_handler sha sign q)" for q
    unfolding deletion_handler_def by (intro res.control fixes_execute)
qed (auto simp: deletion_handler_def ret_def elim!: thenA_InrE)

lemma fixes_bulk: "fixes_rels (bulkMarkOutdatedForOwner owner ids)"
proof -
  have "fixes_rels (bulk_one owner acc i)" for acc i
    unfolding bulk_one_def
    by (rule res.keeps_bind [OF fixes_select]) (auto split: option.splits intro!: fixes_ops)
  then show ?thesis unfolding bulkMarkOutdatedForOwner_def by (intro res.control)
qed

lemma fixes_perform:
  assumes "def \<in> {buildBulkOutdateAction is_uuid, buildEmailReplyDraftAction}"
  shows "fixes_rels (perform_action row def payload)"
proof -
  have "fixes_rels (ad_execute def ctx payload)" for ctx
    using assms by (cases payload) (auto simp: buildBulkOutdateAction_def buildEmailReplyDraftAction_def intro!: res.control fixes_bulk)
  moreover have "fixes_rels (update_approval i f)" for i f
    unfolding update_approval_def by (rule fixes_update_pg) simp
  ultimately show ?thesis unfolding perform_action_def Let_def by (intro fixes_ops)
qed

lemma fixes_approval_execute: "fixes_rels (approval_execute is_uuid i)"
proof -
  have "fixes_rels (bindA (registry_get is_uuid ty) (\<lambda>def. case ad_schema def raw of
       None \<Rightarrow> raise (Failure ''approval has an invalid stored payload'') | Some payload \<Rightarrow> perform_action row def payload))"
    for ty raw row
    unfolding registry_get_def
    by (auto simp: ret_bind raise_bind intro!: res.control fixes_perform split: option.split)
  then show ?thesis
    unfolding approval_execute_def by (auto intro!: res.control split: option.split)
qed

lemma fixes_approval_job:
  "fixes_rels (idempotentTask describe jobType (approval_handler is_uuid) p attempts maxAttempts)"
proof (rule res_jobs.keeps_delivery)
  show "fixes_rels (approval_handler is_uuid q)" for q
    unfolding approval_handler_def by (intro res.control fixes_approval_execute)
  fix w after w'
  assume "approval_handler is_uuid p w = (Inr (Some after), w')"
  then obtain b v where "approval_execute is_uuid (j_source_id p) w = (Inr (b, Some after), v)"
    by (auto simp: approval_handler_def ret_def elim!: bindA_InrE)
  then obtain ids where "after = syncStatusPayloads ids Outdated" using approval_execute_after by blast
  moreover have "fixes_rels (syncStatusPayloads ids Outdated)"
    unfolding syncStatusPayloads_def by (intro fixes_ops)
  ultimately show "fixes_rels after" by simp
qed

subsection \<open>Histories\<close>

lemmas every_operation_fixes = fixes_store fixes_rejectUncertain fixes_resolveContradiction fixes_dreaming_run
  res_erasure.keeps_requestSourceDeletion fixes_ingestion_job fixes_deletion_job fixes_approval_job

lemma run_fixes: "fixes_rels m \<Longrightarrow> rels_ok w \<Longrightarrow> m w = (r, w') \<Longrightarrow> rels_ok w' \<and> rels_move w w'"
  by (rule keeps_run)

lemma memory_step_fixes:
  assumes "memory_step w w'" and ok: "rels_ok w"
  shows "rels_ok w' \<and> rels_move w w'"
  using assms(1)
proof cases
  case elsewhere
  then show ?thesis by (intro rels_same_move [OF ok]) (simp_all add: ids_forward_def)
qed ((rule run_fixes, rule every_operation_fixes, rule ok, assumption)+)

lemma memory_steps_fix:
  assumes "memory_step\<^sup>*\<^sup>* w w'" and "rels_ok w"
  shows "rels_ok w' \<and> rels_move w w'"
  using assms
proof (induction rule: rtranclp_induct)
  case (step v w')
  then show ?case using memory_step_fixes [of v w'] res.move_trans [of w v w'] by simp
qed (simp add: res.move_refl)

lemma resolution_stored:
  assumes run: "resolveContradiction prin i action w = (Inr (q, b), w')"
  shows "relation_at w' i = Some q \<and> rel_resolved_at q \<noteq> None"
  using run
proof (cases rule: resolveContradiction_Inr)
  case (already q0)
  then show ?thesis by (simp add: relation_at_def)
next
  case (resolved q0 pair res w0 w1)
  have "w0 = w" using resolved(3) by (auto simp: lockPair_def act_defs split: if_splits list.splits)
  with rels_run [OF rels_resolve_by resolved(4)] have "t_relation (w_pg w1) = t_relation (w_pg w)" by simp
  moreover have "rel_id q0 = i" using resolved(1) by (auto dest: find_SomeD)
  ultimately show ?thesis using resolved by (simp add: relation_at_def find_update_where)
qed

text \<open>A request on a stored resolution consumes one answer of the database and changes nothing else.\<close>

lemma settled_request:
  assumes "relation_at w i = Some q" and "rel_resolved_at q \<noteq> None"
    and "resolveContradiction prin i action w = (r, w')"
  shows "w' = pop_fault w \<and> (r = Inr (q, True) \<or> r = Inl CommitFailed \<and> w_faults w \<noteq> [])"
  using assms
  by (auto simp: relation_at_def resolveContradiction_def transaction_def ret_def next_fault_def pop_fault_def
      split: fault.splits list.splits if_splits)

lemma missing_request:
  assumes "relation_at w i = None" and "resolveContradiction prin i action w = (r, w')"
  shows "w' = w \<and> r = Inl (NotFound ''relation'' i)"
  using assms by (auto simp: relation_at_def resolveContradiction_def transaction_def raise_def)

lemma rels_ok_initially: "inj (w_uuids w) \<Longrightarrow> t_relation (w_pg w) = [] \<Longrightarrow> rels_ok w"
  by (simp add: rels_ok_def relation_ids_def)

text \<open>
  C6. A contradiction is resolved once: after a successful resolution and any further history
  (operations of the memory module, conflict resolutions, nightly runs, deliveries of
  ingestion, deletion and approval jobs, with any faults) a later request, by anyone and with
  any verdict, changes nothing. It returns the stored resolution and says it was already
  resolved, or reports that the commit failed, which takes a fault; or the contradiction has
  been deleted since, and the answer is that it does not exist. The start state has relations
  with unique ids that were drawn from the supply, which holds without relations and which
  every step keeps.
\<close>

theorem resolve_once:
  assumes ok: "rels_ok w" and first: "resolveContradiction prin i action w = (Inr (q, b), w1)"
    and between: "memory_step\<^sup>*\<^sup>* w1 w2" and again: "resolveContradiction prin' i action' w2 = (r, w3)"
  shows "w3\<lparr>w_faults := w_faults w2\<rparr> = w2 \<and> rel_resolved_at q \<noteq> None \<and>
    (relation_at w2 i = Some q \<and> (r = Inr (q, True) \<or> r = Inl CommitFailed \<and> w_faults w2 \<noteq> []) \<or>
     relation_at w2 i = None \<and> r = Inl (NotFound ''relation'' i))"
proof -
  note stored = resolution_stored [OF first]
  have ok1: "rels_ok w1" using keeps_run [OF fixes_resolveContradiction ok first] by simp
  then have ok2: "rels_ok w2" and move: "rels_move w1 w2" using memory_steps_fix [OF between] by simp_all
  have q: "q \<in> set (t_relation (w_pg w1))" "rel_id q = i" using stored relation_at_Some [OF ok1, of i q] by simp_all
  have "relation_at w2 i = None \<or> relation_at w2 i = Some q"
  proof (cases "relation_at w2 i")
    case (Some q')
    then have "q' \<in> set (t_relation (w_pg w2))" "rel_id q' = rel_id q" using relation_at_Some [OF ok2] q(2) by simp_all
    with move q(1) stored Some show ?thesis by (simp add: rels_move_def)
  qed simp
  then show ?thesis
  proof
    assume "relation_at w2 i = None"
    with missing_request [OF this again] stored show ?thesis by simp
  next
    assume at': "relation_at w2 i = Some q"
    with settled_request [OF at' _ again] stored show ?thesis by (simp add: pop_fault_def)
  qed
qed

text \<open>Dismissed, then an uncertain memory is rejected, then a confirmation is asked for.\<close>

definition dismissed_sample :: relation_row where
  "dismissed_sample = \<lparr>rel_id = sample_id 5, rel_a = sample_id 0, rel_b = sample_id 2, rel_a_prior = Active,
     rel_b_prior = UserApproved, rel_detected_at = 100, rel_reason = Some ''clash'',
     rel_resolved_at = Some 100, rel_resolution = Some Dismissed\<rparr>"

definition sample_dismissed :: world where
  "sample_dismissed = snd (resolveContradiction sample_principal (sample_id 5) Dismiss sample_contradicted)"

lemma sample_contradicted_rels: "rels_ok sample_contradicted"
proof -
  have "rels_ok sample_world"
    by (rule rels_ok_initially) (simp_all add: sample_world_def sample_pg_def sample_id_inj)
  then show ?thesis
    using keeps_run [OF fixes_createContradiction, of sample_world "sample_id 0" "sample_id 2" "''clash''"]
    by (cases "createContradiction (sample_id 0) (sample_id 2) ''clash'' sample_world") (simp add: sample_contradicted_def)
qed

theorem resolve_once_witness:
  "fst (resolveContradiction sample_principal (sample_id 5) (Confirm SideA)
     (snd (rejectUncertain sample_principal (sample_id 3) sample_dismissed))) = Inr (dismissed_sample, True)"
proof -
  let ?w = "snd (rejectUncertain sample_principal (sample_id 3) sample_dismissed)"
  have "fst (resolveContradiction sample_principal (sample_id 5) Dismiss sample_contradicted) = Inr (dismissed_sample, False)"
    by code_simp
  then have first: "resolveContradiction sample_principal (sample_id 5) Dismiss sample_contradicted =
      (Inr (dismissed_sample, False), sample_dismissed)"
    unfolding sample_dismissed_def by (rule run_pair)
  have "memory_step sample_dismissed ?w" by (rule memory_step.reject [OF surjective_pairing])
  then have between: "memory_step\<^sup>*\<^sup>* sample_dismissed ?w" by simp
  have "relation_at ?w (sample_id 5) \<noteq> None" "w_faults ?w = []" by code_simp+
  with resolve_once [OF sample_contradicted_rels first between surjective_pairing, of sample_principal "Confirm SideA"]
  show ?thesis by simp
qed

text \<open>
  A stored resolution is returned before anyone asks whose memories it is about: a stranger who
  gets nothing while the contradiction is open reads it once it is resolved.
\<close>

theorem resolved_relation_leaks:
  "fst (resolveContradiction (sample_principal\<lparr>p_user_id := ''eve''\<rparr>) (sample_id 5) Dismiss sample_contradicted) =
     Inl (NotFound ''relation'' (sample_id 5)) \<and>
   fst (resolveContradiction (sample_principal\<lparr>p_user_id := ''eve''\<rparr>) (sample_id 5) Dismiss sample_dismissed) =
     Inr (dismissed_sample, True)"
  by code_simp

end
