(* ===== verification/Spec2Isabelle.thy ===== *)
theory Spec2Isabelle
  imports Memory_Reads Reconciliation_Laws Integrity_Sweep Job_Queue Usage_Limits Draft_Privacy Task_Safety
    Chunks Temporal_Laws Web_Laws Stage_Laws Email_Laws Approval_Refinement Erasure_History Resolution_History
begin

text \<open>
  Cogeto is a personal memory: sources (notes, mails, web pages, files, chat) are read by a
  pipeline that lets a language model extract facts and verify them, stores the facts as memories
  in Postgres with vectors in Qdrant, reconciles them with what is stored, derives tasks from
  them, and erases them with their sources under signed receipts. This development models the
  server side, \<^verbatim>\<open>src/project/src\<close>, as state transformers on one record of tables, index points and
  bucket objects, and proves what the modules promise each other.

  \<^bold>\<open>How the code is modelled.\<close> An operation is a function from a state to an error or a result, and
  the next state (\<^theory_text>\<open>Effects\<close>): an exception is an error value, \<^verbatim>\<open>await\<close> is sequencing, a \<^verbatim>\<open>for\<close> loop is
  \<open>fold_each\<close>. \<^theory_text>\<open>Store_State\<close> holds the tables of every module with the keys, checks and cascades
  the migrations declare, the points, the objects, a clock, a supply of random ids and a schedule
  of faults: each external call and each commit may work, be refused, or act and lose its reply.
  \<^verbatim>\<open>db.transaction\<close> is \<open>transaction\<close>, which restores the tables and nothing else when its body
  raises; a statement outside a transaction commits on its own. Times are integers
  in milliseconds, similarity scores are rationals, strings are lists of code units below 256, with
  other characters of fixed texts as their UTF-8 bytes. Operations run one after another; locks
  have no effect in the model, and where two transactions may interleave (a source deleted during a
  long ingestion run) the theorem starts from a state in which the other one has happened.

  \<^bold>\<open>What is a parameter.\<close> The language model's answers, the vector index's search, trigram and
  full-text similarity, hash and signature functions, absolute-date parsing, URL parsing, name
  resolution, HTTP, HTML and PDF extraction are arguments of the definitions. Theorems hold for all
  of them, or under a named hypothesis on them (the hash does not collide on the texts involved, a
  signature verifies, the index honours its filter). A model's answer is a fixed function of its
  input text. JSON numbers are unbounded integers; the code's receipts hold counts and no others.

  \<^bold>\<open>Parts.\<close>
  \<^item> \<^theory_text>\<open>Prelude\<close>, \<^theory_text>\<open>Effects\<close>, \<^theory_text>\<open>Store_State\<close>: lists, text, time, JSON; the error and state monad with a
    weakest precondition; the state, the outbox (\<^verbatim>\<open>infrastructure/outbox.ts\<close>), the audit log
    (\<^verbatim>\<open>infrastructure/audit.ts\<close>) and the point calls (\<^verbatim>\<open>memory/persistence/vector-store.ts\<close>). The locales
    \<open>evolution\<close> and \<open>pg_evolution\<close> are the contract every invariant proof uses: a predicate and a
    relation that each operation preserves; they are interpreted for the memory tables, for pinned
    rows, relations, approvals, tasks and idempotency keys.
  \<^item> \<^theory_text>\<open>Vocabulary\<close>, \<^theory_text>\<open>Lifecycle\<close>, \<^theory_text>\<open>Memory_Tables\<close>, \<^theory_text>\<open>Memory_Store\<close>, \<^theory_text>\<open>Memory_Reads\<close>, \<^theory_text>\<open>Gates\<close>,
    \<^theory_text>\<open>Samples\<close>: the memory module (\<^verbatim>\<open>memory/domain\<close>, \<^verbatim>\<open>memory/memory.store.ts\<close>). Statuses and their transition
    matrix, rows, writes with their payload updates, every read behind the scope and sensitivity
    gate, and the gate as a filter of the index; a small sample instance for the witnesses.
  \<^item> \<^theory_text>\<open>Reconciliation\<close>, \<^theory_text>\<open>Reconciliation_Laws\<close> (\<^verbatim>\<open>memory/reconciliation.ts\<close>): merge, supersession,
    contradiction and its three resolutions; what they restore, settle and never touch.
  \<^item> \<^theory_text>\<open>Receipt_Chain\<close>, \<^theory_text>\<open>Source_Ports\<close>, \<^theory_text>\<open>Deletion_Saga\<close>, \<^theory_text>\<open>Deletion_Laws\<close>, \<^theory_text>\<open>Integrity_Sweep\<close>
    (\<^verbatim>\<open>memory/domain/receipt-chain.ts\<close>, the \<^verbatim>\<open>*.source-deletion.ts\<close> adapters, \<^verbatim>\<open>memory/deletion-saga.ts\<close>,
    \<^verbatim>\<open>memory/integrity-sweep.ts\<close>): canonical JSON, the hash chain and its verifier; the request and worker
    legs of an erasure; the nightly audit of receipts, orphans, payloads and the chain.
  \<^item> \<^theory_text>\<open>Job_Queue\<close>, \<^theory_text>\<open>Erasure_History\<close>, \<^theory_text>\<open>Usage_Limits\<close> (\<^verbatim>\<open>infrastructure/queue.ts\<close>, \<^verbatim>\<open>rate-limit.ts\<close>, \<^verbatim>\<open>daily-counters.ts\<close>,
    \<^verbatim>\<open>model-budget.ts\<close>): idempotent deliveries with retries and dead letters, what a recorded deletion
    key stands for over a whole history, the fixed-window limiter, counters and model budgets.
  \<^item> \<^theory_text>\<open>Chunks\<close>, \<^theory_text>\<open>Temporal_Resolver\<close>, \<^theory_text>\<open>Temporal_Laws\<close>, \<^theory_text>\<open>Ingest\<close>, \<^theory_text>\<open>Ingest_Laws\<close>, \<^theory_text>\<open>Email_Text\<close>,
    \<^theory_text>\<open>Email_Laws\<close>, \<^theory_text>\<open>Reconcile_Stage\<close>, \<^theory_text>\<open>Stage_Laws\<close>, \<^theory_text>\<open>Dreaming\<close>, \<^theory_text>\<open>Dreaming_Laws\<close> (\<^verbatim>\<open>ingestion\<close> and the
    source readers of \<^verbatim>\<open>connectors\<close>): chunking, relative dates, the six pipeline stages from a source to
    reconciled memories, the isolation of new mail text, the nightly run with its digest.
  \<^item> \<^theory_text>\<open>Web_Fetch\<close>, \<^theory_text>\<open>Web_Laws\<close> (\<^verbatim>\<open>connectors/web-fetch.ts\<close>): address checks, robots rules, redirects.
  \<^item> \<^theory_text>\<open>Approvals\<close>, \<^theory_text>\<open>Approval_Laws\<close>, \<^theory_text>\<open>Approval_Refinement\<close>, \<^theory_text>\<open>Draft_Privacy\<close> (\<^verbatim>\<open>agents\<close>): the approval
    state machine with its two actions, as a step relation over whole histories, and the forward
    simulation of an abstract machine on the statuses, step by step.
  \<^item> \<^theory_text>\<open>Tasks\<close>, \<^theory_text>\<open>Task_Laws\<close>, \<^theory_text>\<open>Task_Safety\<close>, \<^theory_text>\<open>Task_Views\<close> (\<^verbatim>\<open>tasks\<close>): derivation, maintenance,
    matching, closing and reminding of tasks, conclusions, lists and digest lines.
  \<^item> \<^theory_text>\<open>System_Invariant\<close>, \<^theory_text>\<open>Relation_Frame\<close>, \<^theory_text>\<open>Resolution_History\<close>: the memory tables and the
    resolved contradictions under all of these operations and jobs together.

  \<^bold>\<open>How the parts interact.\<close> Ingestion, approvals and the user write memories through \<^theory_text>\<open>Memory_Store\<close>;
  ingestion and the nightly run call the acting half of reconciliation; a write that another module
  must hear of queues a job in its own transaction; the queue delivers jobs under an idempotency
  key, which a deletion consumes in advance to stop an ingestion that has not started; deletions
  call the adapters and cascades of the other modules; the sweep reads what all of them leave.

  \<^bold>\<open>What the lemma groups show.\<close> For each operation, that it keeps the invariants of the contract
  locales whatever fails (\<open>keeps_...\<close>, \<open>pins_...\<close>, \<open>fixes_...\<close>, \<open>lives_...\<close>, \<open>tends_...\<close>); for the pure parts, equivalence with a
  shorter specification; over the step relations, invariants and final states by rule
  induction. Each numbered theorem is followed, where it has hypotheses, by an instance on
  concrete data.

  \<^bold>\<open>Bounds and fuel.\<close> Loops over lists are structural. The supersession chain is followed
  for 50 steps each way, the paged export stops at offset 200000, the redirect loop after five
  hops, as in the code; \<open>walk\<close> and \<open>chat_cascade\<close> consume their input. No definition takes
  fuel beyond the bounds of the source.

  \<^bold>\<open>Not modelled.\<close> The web client (rendering); the SQL of the migrations beyond the
  constraints used; HTTP controllers and their validation; sign-in and the user directory (the
  organisation of a user is a field of the state); the provider clients of the model gateway; chat
  and its streaming, query rewriting and retrieval fusion; file parsing and its reader; mail
  intake and calendar parsing; the passport export; advisory locks, isolation levels and true
  concurrency; log lines, metrics and configuration.
\<close>

end
